(* ===== verification/Go_Base.thy ===== *)
theory Go_Base
  imports Main "HOL-Library.Word" "HOL-Library.Signed_Division" "HOL-Library.Multiset"
begin

text \<open>
  The prelude: what the components share of Go and of its standard library.

  \<^item> machine integers: Go's \<open>int\<close>, \<open>int64\<close> and \<open>int32\<close> are \<^typ>\<open>int\<close> with the wrap-around
    written out (\<open>wrap64\<close>, \<open>wrap32\<close>); the link to words is \<open>wrap32_word\<close>, \<open>wrap64_word\<close>;
  \<^item> \<open>time.Time\<close> is an \<^typ>\<open>int\<close> of nanoseconds whose zero value is 0, \<open>time.Duration\<close> an \<^typ>\<open>int\<close>
    of nanoseconds, \<open>Time.Sub\<close> saturates to 64 bits as the library documents;
  \<^item> \<open>sort.Slice\<close> is an argument of the operations that sort; the locale \<open>go_sort\<close> states what the
    library promises of it, and \<open>isort\<close> is an instance;
  \<^item> a Go map is a HOL map; a \<open>range\<close> over it is a fold over a list of its keys, an argument, since
    Go leaves the order open (\<open>key_order\<close>);
  \<^item> generic facts on lists, maps and loops.
\<close>

named_theorems wrap_simps \<open>wrap-around that does not happen\<close>
named_theorems f64_intro \<open>closure properties of float64 operations\<close>
named_theorems f64_simps \<open>float64 operations on values where they are exact\<close>

type_synonym duration = int
type_synonym gotime = int

section \<open>Machine integers\<close>

definition wrap64 :: "int \<Rightarrow> int" where
  "wrap64 x = (x + 9223372036854775808) mod 18446744073709551616 - 9223372036854775808"

definition wrap32 :: "int \<Rightarrow> int" where
  "wrap32 x = (x + 2147483648) mod 4294967296 - 2147483648"

definition in64 :: "int \<Rightarrow> bool" where
  "in64 x = (- 9223372036854775808 \<le> x \<and> x < 9223372036854775808)"

definition in32 :: "int \<Rightarrow> bool" where
  "in32 x = (- 2147483648 \<le> x \<and> x < 2147483648)"

lemma wrap64_id [wrap_simps]: "in64 x \<Longrightarrow> wrap64 x = x"
  by (simp add: wrap64_def in64_def)

lemma wrap32_id [wrap_simps]: "in32 x \<Longrightarrow> wrap32 x = x"
  by (simp add: wrap32_def in32_def)

lemma in64_wrap64 [simp]: "in64 (wrap64 x)"
  using pos_mod_bound [of "18446744073709551616" "x + 9223372036854775808"]
  by (simp add: wrap64_def in64_def)

lemma in32_wrap32 [simp]: "in32 (wrap32 x)"
  using pos_mod_bound [of "4294967296" "x + 2147483648"]
  by (simp add: wrap32_def in32_def)

lemma wrap32_word: "wrap32 x = sint (word_of_int x :: 32 word)"
  by (simp add: wrap32_def sint_sbintrunc' signed_take_bit_eq_take_bit_shift take_bit_eq_mod)

lemma wrap64_word: "wrap64 x = sint (word_of_int x :: 64 word)"
  by (simp add: wrap64_def sint_sbintrunc' signed_take_bit_eq_take_bit_shift take_bit_eq_mod)

lemma in32_in64 [wrap_simps]: "in32 x \<Longrightarrow> in64 x"
  by (simp add: in32_def in64_def)

text \<open>Go's integer division truncates towards zero; Go panics on a zero divisor, which every use
  below excludes by a guard of the source.\<close>

lemma sdiv_nonneg [simp]: "0 \<le> a \<Longrightarrow> 0 < b \<Longrightarrow> (a :: int) sdiv b = a div b"
  by (cases "a = 0") (simp_all add: signed_divide_int_def)

section \<open>Time\<close>

definition satur64 :: "int \<Rightarrow> int" where
  "satur64 x = max (- 9223372036854775808) (min 9223372036854775807 x)"

definition time_sub :: "gotime \<Rightarrow> gotime \<Rightarrow> duration" where
  "time_sub t u = satur64 (t - u)"

definition time_add :: "gotime \<Rightarrow> duration \<Rightarrow> gotime" where
  "time_add t d = t + d"

abbreviation second :: duration where "second \<equiv> 1000000000"
abbreviation minute :: duration where "minute \<equiv> 60000000000"
abbreviation hour :: duration where "hour \<equiv> 3600000000000"

lemma satur64_le_iff: "in64 d \<Longrightarrow> d \<noteq> 9223372036854775807 \<Longrightarrow> satur64 x \<le> d \<longleftrightarrow> x \<le> d"
  by (auto simp: satur64_def in64_def)

lemma satur64_less_iff: "in64 d \<Longrightarrow> d \<noteq> - 9223372036854775808 \<Longrightarrow> satur64 x < d \<longleftrightarrow> x < d"
  by (auto simp: satur64_def in64_def)

lemma satur64_mono: "x \<le> y \<Longrightarrow> satur64 x \<le> satur64 y"
  by (auto simp: satur64_def)

section \<open>Sorting\<close>

text \<open>What \<open>sort.Slice\<close> promises when the less function is a strict weak ordering on the
  elements: the result is a permutation and no element is less than an earlier one.\<close>

definition strict_weak :: "('a \<Rightarrow> 'a \<Rightarrow> bool) \<Rightarrow> 'a list \<Rightarrow> bool" where
  "strict_weak lt xs = ((\<forall>x \<in> set xs. \<not> lt x x) \<and>
     (\<forall>x \<in> set xs. \<forall>y \<in> set xs. \<forall>z \<in> set xs. lt x y \<longrightarrow> lt y z \<longrightarrow> lt x z) \<and>
     (\<forall>x \<in> set xs. \<forall>y \<in> set xs. \<forall>z \<in> set xs. lt x z \<longrightarrow> lt x y \<or> lt y z))"

lemma strict_weak_subset: "strict_weak lt ys \<Longrightarrow> set xs \<subseteq> set ys \<Longrightarrow> strict_weak lt xs"
  unfolding strict_weak_def by blast

lemma strict_weak_irrefl: "strict_weak lt xs \<Longrightarrow> x \<in> set xs \<Longrightarrow> \<not> lt x x"
  unfolding strict_weak_def by blast

lemma strict_weak_trans:
  "strict_weak lt xs \<Longrightarrow> x \<in> set xs \<Longrightarrow> y \<in> set xs \<Longrightarrow> z \<in> set xs \<Longrightarrow> lt x y \<Longrightarrow> lt y z \<Longrightarrow> lt x z"
  unfolding strict_weak_def by blast

definition sorted_by :: "('a \<Rightarrow> 'a \<Rightarrow> bool) \<Rightarrow> 'a list \<Rightarrow> bool" where
  "sorted_by lt xs = sorted_wrt (\<lambda>x y. \<not> lt y x) xs"

locale go_sort =
  fixes srt :: "('a \<Rightarrow> 'a \<Rightarrow> bool) \<Rightarrow> 'a list \<Rightarrow> 'a list"
  assumes srt_perm: "mset (srt lt xs) = mset xs"
    and srt_sorted: "strict_weak lt xs \<Longrightarrow> sorted_by lt (srt lt xs)"
begin

lemma srt_set: "set (srt lt xs) = set xs"
  using srt_perm [of lt xs] by (metis set_mset_mset)

lemma srt_length: "length (srt lt xs) = length xs"
  using srt_perm [of lt xs] by (metis size_mset)

lemma srt_distinct: "distinct (srt lt xs) \<longleftrightarrow> distinct xs"
  using srt_perm [of lt xs] by (metis mset_eq_imp_distinct_iff)

lemma srt_hd_least:
  assumes "strict_weak lt xs" "xs \<noteq> []" "y \<in> set xs"
  shows "\<not> lt y (hd (srt lt xs))"
proof -
  obtain z zs where s: "srt lt xs = z # zs"
    using srt_length [of lt xs] assms(2) by (cases "srt lt xs") auto
  show ?thesis
  proof (cases "y = z")
    case True
    then show ?thesis using strict_weak_irrefl [OF assms(1,3)] s by simp
  next
    case False
    then have "y \<in> set zs" using srt_set [of lt xs] assms(3) s by auto
    then show ?thesis using srt_sorted [OF assms(1)] s by (simp add: sorted_by_def)
  qed
qed

lemma srt_hd_in: "xs \<noteq> [] \<Longrightarrow> hd (srt lt xs) \<in> set xs"
  by (metis hd_in_set length_0_conv srt_length srt_set)

end

text \<open>Insertion sort, which is what \<open>sort.Slice\<close> runs on up to twelve elements.\<close>

fun insert_by :: "('a \<Rightarrow> 'a \<Rightarrow> bool) \<Rightarrow> 'a \<Rightarrow> 'a list \<Rightarrow> 'a list" where
  "insert_by lt x [] = [x]"
| "insert_by lt x (y # ys) = (if lt x y then x # y # ys else y # insert_by lt x ys)"

definition isort :: "('a \<Rightarrow> 'a \<Rightarrow> bool) \<Rightarrow> 'a list \<Rightarrow> 'a list" where
  "isort lt xs = foldl (\<lambda>acc x. insert_by lt x acc) [] xs"

lemma mset_insert_by: "mset (insert_by lt x ys) = add_mset x (mset ys)"
  by (induction ys) auto

lemma mset_isort_aux: "mset (foldl (\<lambda>acc x. insert_by lt x acc) acc xs) = mset acc + mset xs"
  by (induction xs arbitrary: acc) (auto simp: mset_insert_by)

lemma set_insert_by: "set (insert_by lt x ys) = insert x (set ys)"
  by (induction ys) auto

lemma sorted_insert_by:
  assumes "sorted_by lt ys" "strict_weak lt (x # ys)"
  shows "sorted_by lt (insert_by lt x ys)"
  using assms
proof (induction ys)
  case Nil
  then show ?case by (simp add: sorted_by_def)
next
  case (Cons y ys)
  have sw: "strict_weak lt (x # ys)" using Cons.prems(2) by (rule strict_weak_subset) auto
  have irr: "\<not> lt x x" by (rule strict_weak_irrefl [OF Cons.prems(2)]) simp
  have asym: "lt x y \<Longrightarrow> \<not> lt y x"
    using strict_weak_trans [OF Cons.prems(2), of x y x] irr by auto
  have tr: "\<not> lt z x" if "z \<in> set ys" "lt x y" for z
    using that strict_weak_trans [OF Cons.prems(2), of z x y] Cons.prems(1)
    by (auto simp: sorted_by_def)
  show ?case
    using Cons.IH [OF _ sw] Cons.prems(1) asym tr
    by (cases "lt x y") (auto simp: sorted_by_def set_insert_by)
qed

lemma sorted_isort_aux:
  "sorted_by lt acc \<Longrightarrow> strict_weak lt (acc @ xs) \<Longrightarrow>
   sorted_by lt (foldl (\<lambda>acc x. insert_by lt x acc) acc xs)"
proof (induction xs arbitrary: acc)
  case (Cons x xs)
  have "strict_weak lt (x # acc)" "strict_weak lt (insert_by lt x acc @ xs)"
    using Cons.prems(2) by (auto elim!: strict_weak_subset simp: set_insert_by)
  then show ?case using Cons.IH sorted_insert_by Cons.prems(1) by fastforce
qed simp

interpretation isort: go_sort isort
proof
  show "mset (isort lt xs) = mset xs" for lt :: "'a \<Rightarrow> 'a \<Rightarrow> bool" and xs
    by (simp add: isort_def mset_isort_aux)
  show "strict_weak lt xs \<Longrightarrow> sorted_by lt (isort lt xs)" for lt :: "'a \<Rightarrow> 'a \<Rightarrow> bool" and xs
    unfolding isort_def by (rule sorted_isort_aux) (auto simp: sorted_by_def)
qed

section \<open>Maps\<close>

text \<open>An iteration order of a Go map: its keys, each once.\<close>

definition key_order :: "('k \<rightharpoonup> 'v) \<Rightarrow> 'k list \<Rightarrow> bool" where
  "key_order m ks = (distinct ks \<and> set ks = dom m)"

lemma key_order_the: "key_order m ks \<Longrightarrow> k \<in> set ks \<Longrightarrow> \<exists>v. m k = Some v"
  by (auto simp: key_order_def)

text \<open>A keyed store, the interface of every cache and registry of the program: what a load returns
  after a store.\<close>

locale kv_store =
  fixes load :: "'s \<Rightarrow> 'k \<Rightarrow> 'v option"
    and store :: "'s \<Rightarrow> 'k \<Rightarrow> 'v \<Rightarrow> 's"
  assumes load_store: "load (store s k v) k' = (if k' = k then Some v else load s k')"
begin

lemma load_stores:
  "load (foldl (\<lambda>s (k, v). store s k v) s kvs) k =
    (case map_of (rev kvs) k of Some v \<Rightarrow> Some v | None \<Rightarrow> load s k)"
proof (induction kvs arbitrary: s)
  case (Cons kv kvs)
  obtain k1 v1 where "kv = (k1, v1)" by fastforce
  then show ?case by (simp add: Cons.IH load_store map_add_def split: option.splits)
qed simp

lemma stores_dom:
  "load (foldl (\<lambda>s (k, v). store s k v) s kvs) k \<noteq> None \<longleftrightarrow> k \<in> fst ` set kvs \<or> load s k \<noteq> None"
proof -
  have "map_of (rev kvs) k = None \<longleftrightarrow> k \<notin> fst ` set kvs" by (simp add: map_of_eq_None_iff)
  then show ?thesis by (auto simp: load_stores split: option.splits)
qed

end

section \<open>Lists and loops\<close>

lemma foldl_inv:
  assumes "P a" "\<And>a x. x \<in> set xs \<Longrightarrow> P a \<Longrightarrow> P (f a x)"
  shows "P (foldl f a xs)"
  using assms by (induction xs arbitrary: a) auto

lemma fold_inv:
  assumes "P a" "\<And>a x. x \<in> set xs \<Longrightarrow> P a \<Longrightarrow> P (f x a)"
  shows "P (fold f xs a)"
  using assms by (induction xs arbitrary: a) auto

text \<open>The idiom \<open>s = s[len(s)-n:]\<close> that keeps the last \<open>n\<close> elements.\<close>

definition last_n :: "nat \<Rightarrow> 'a list \<Rightarrow> 'a list" where
  "last_n n xs = drop (length xs - n) xs"

lemma length_last_n [simp]: "length (last_n n xs) = min n (length xs)"
  by (simp add: last_n_def)

lemma set_last_n: "set (last_n n xs) \<subseteq> set xs"
  by (simp add: last_n_def set_drop_subset)

end
