(* ===== verification/Go_Float.thy ===== *)
theory Go_Float
  imports Complex_Main Go_Base "HOL-Library.Log_Nat"
begin

text \<open>
  Go's \<open>float64\<close> as IEEE 754 binary64 with rounding to nearest, ties to even, on exact rationals.
  A value is NaN, an infinity or a finite rational; the two zeros are identified (no operation
  modelled here divides by a value that may be a negative zero). Operations round the exact
  rational result with \<open>rnd\<close>, which has the subnormal range and overflow to infinity of the
  format. Conversions to integers are those of amd64. Everything computes.
\<close>

section \<open>Rounding\<close>

definition pow2 :: "int \<Rightarrow> rat" where
  "pow2 e = (if 0 \<le> e then 2 ^ nat e else 1 / 2 ^ nat (- e))"

text \<open>\<open>flog2 x\<close> is the binary logarithm of a positive rational, rounded down.\<close>

definition flog2 :: "rat \<Rightarrow> int" where
  "flog2 x = (case quotient_of x of (p, q) \<Rightarrow>
     let k = bitlen p - bitlen q in if pow2 k \<le> x then k else k - 1)"

text \<open>\<open>rne\<close> rounds to the nearest integer, ties to even.\<close>

definition rne :: "rat \<Rightarrow> int" where
  "rne x = (let f = \<lfloor>x\<rfloor>; d = x - of_int f in
     if d < 1 / 2 then f else if 1 / 2 < d then f + 1 else if even f then f else f + 1)"

definition ulp_exp :: "rat \<Rightarrow> int" where
  "ulp_exp x = max (- 1074) (flog2 \<bar>x\<bar> - 52)"

datatype f64 = NaN | PInf | NInf | Fin rat

definition rnd :: "rat \<Rightarrow> f64" where
  "rnd x = (if x = 0 then Fin 0
     else let e = ulp_exp x; m = rne (x / pow2 e) in
       if 971 < e \<or> e = 971 \<and> 9007199254740992 \<le> \<bar>m\<bar> then (if 0 < x then PInf else NInf)
       else Fin (of_int m * pow2 e))"

subsection \<open>Powers of two and logarithms\<close>

lemma pow2_powi: "pow2 e = 2 powi e"
  by (simp add: pow2_def power_int_def inverse_eq_divide power_one_over)

lemma pow2_pos [simp]: "0 < pow2 e"
  by (simp add: pow2_powi)

lemma pow2_ge0 [simp]: "0 \<le> pow2 e"
  by (simp add: pow2_powi)

lemma pow2_nonzero [simp]: "pow2 e \<noteq> 0"
  by (simp add: pow2_powi)

lemma pow2_add: "pow2 (a + b) = pow2 a * pow2 b"
  by (simp add: pow2_powi power_int_add)

lemma pow2_nat: "0 \<le> e \<Longrightarrow> pow2 e = of_int (2 ^ nat e)"
  by (simp add: pow2_def)

lemma pow2_less_iff [simp]: "pow2 a < pow2 b \<longleftrightarrow> a < b"
proof -
  have *: "pow2 a < pow2 b" if "a < b" for a b
  proof -
    have "pow2 a * 1 < pow2 a * 2 ^ nat (b - a)" using that by (intro mult_strict_left_mono) simp_all
    also have "\<dots> = pow2 b" using that pow2_add [of a "b - a"] by (simp add: pow2_nat)
    finally show ?thesis by simp
  qed
  show ?thesis using * [of a b] * [of b a] by (cases a b rule: linorder_cases) auto
qed

lemma pow2_le_iff [simp]: "pow2 a \<le> pow2 b \<longleftrightarrow> a \<le> b"
  by (meson linorder_not_less pow2_less_iff)

lemma pow2_0 [simp]: "pow2 0 = 1"
  by (simp add: pow2_def)

lemma bitlen_rat_bounds:
  assumes "0 < p"
  shows "pow2 (bitlen p - 1) \<le> of_int p" "of_int p < pow2 (bitlen p)"
proof -
  have b: "2 ^ nat (bitlen p - 1) \<le> p" "p < 2 ^ nat (bitlen p)"
    using bitlen_bounds [of p] assms by auto
  have "0 < bitlen p" using bitlen_bounds [of p] assms by (cases "bitlen p \<le> 0") auto
  then show "pow2 (bitlen p - 1) \<le> of_int p"
    using b(1) by (simp add: pow2_nat del: of_int_power of_int_numeral)
  show "of_int p < pow2 (bitlen p)"
    using b(2) \<open>0 < bitlen p\<close> by (simp add: pow2_nat del: of_int_power of_int_numeral)
qed

lemma flog2_bounds:
  assumes "0 < x"
  shows "pow2 (flog2 x) \<le> x" "x < pow2 (flog2 x + 1)"
proof -
  obtain p q where pq: "quotient_of x = (p, q)" by fastforce
  have x: "x = of_int p / of_int q" using pq by (rule quotient_of_div)
  have q: "0 < q" using pq by (rule quotient_of_denom_pos)
  have p: "0 < p" using assms x q by (simp add: zero_less_divide_iff)
  let ?k = "bitlen p - bitlen q"
  have "of_int p < pow2 (bitlen p)" "pow2 (bitlen q - 1) \<le> of_int q"
    using bitlen_rat_bounds p q by auto
  then have up: "x < pow2 (?k + 1)"
  proof -
    have "of_int p < pow2 (?k + 1) * pow2 (bitlen q - 1)"
      using bitlen_rat_bounds(2) [OF p] by (simp flip: pow2_add)
    also have "\<dots> \<le> pow2 (?k + 1) * of_int q"
      using bitlen_rat_bounds(1) [OF q] by (simp add: mult_left_mono order_less_imp_le)
    finally show ?thesis using q by (simp add: x divide_less_eq)
  qed
  have lo: "pow2 (?k - 1) \<le> x"
  proof -
    have "pow2 (?k - 1) * of_int q \<le> pow2 (?k - 1) * pow2 (bitlen q)"
      using bitlen_rat_bounds(2) [OF q] by (simp add: mult_left_mono order_less_imp_le)
    also have "\<dots> \<le> of_int p" using bitlen_rat_bounds(1) [OF p] by (simp flip: pow2_add)
    finally show ?thesis using q by (simp add: x le_divide_eq)
  qed
  show "pow2 (flog2 x) \<le> x" "x < pow2 (flog2 x + 1)"
    using up lo by (auto simp: flog2_def pq Let_def)
qed

lemma flog2_unique: "pow2 k \<le> x \<Longrightarrow> x < pow2 (k + 1) \<Longrightarrow> flog2 x = k"
proof -
  assume a: "pow2 k \<le> x" "x < pow2 (k + 1)"
  then have "0 < x" using less_le_trans [OF pow2_pos] by blast
  then have "pow2 (flog2 x) < pow2 (k + 1)" "pow2 k < pow2 (flog2 x + 1)"
    using a flog2_bounds [OF \<open>0 < x\<close>] by linarith+
  then show ?thesis by simp
qed

lemma flog2_mono: "0 < x \<Longrightarrow> x \<le> y \<Longrightarrow> flog2 x \<le> flog2 y"
proof -
  assume "0 < x" "x \<le> y"
  then have "pow2 (flog2 x) < pow2 (flog2 y + 1)"
    using flog2_bounds(1) [of x] flog2_bounds(2) [of y] by linarith
  then show ?thesis by simp
qed

lemma flog2_pow2 [simp]: "flog2 (pow2 k) = k"
  by (rule flog2_unique) simp_all

subsection \<open>Rounding to an integer\<close>

lemma rne_of_int [simp]: "rne (of_int n) = n"
  by (simp add: rne_def Let_def)

lemma rne_bounds: "\<bar>of_int (rne x) - x\<bar> \<le> 1 / 2"
  using floor_correct [of x] unfolding rne_def Let_def by (auto simp: abs_le_iff split: abs_split)

lemma rne_mono:
  assumes "x \<le> y"
  shows "rne x \<le> rne y"
proof (cases "\<lfloor>x\<rfloor> = \<lfloor>y\<rfloor>")
  case True
  then show ?thesis using assms by (auto simp: rne_def Let_def)
next
  case False
  then have "\<lfloor>x\<rfloor> + 1 \<le> \<lfloor>y\<rfloor>" using floor_mono [OF assms] by simp
  moreover have "rne x \<le> \<lfloor>x\<rfloor> + 1" "\<lfloor>y\<rfloor> \<le> rne y" by (auto simp: rne_def Let_def)
  ultimately show ?thesis by simp
qed

lemma rne_nonneg: "0 \<le> x \<Longrightarrow> 0 \<le> rne x"
  using rne_mono [of 0 x] rne_of_int [of 0] by simp

lemma rne_minus: "rne (- x) = - rne x"
proof (cases "x \<in> \<int>")
  case True
  then obtain n where n: "x = of_int n" by (auto elim: Ints_cases)
  have "rne (of_int (- n)) = - n" by (rule rne_of_int)
  then show ?thesis by (simp add: n)
next
  case False
  have "x \<noteq> of_int \<lfloor>x\<rfloor>" using False by (metis Ints_of_int)
  then have "\<lfloor>- x\<rfloor> = - \<lfloor>x\<rfloor> - 1" by (auto simp: floor_eq_iff; linarith)
  then show ?thesis by (auto simp: rne_def Let_def)
qed


subsection \<open>Rounding to the format\<close>

text \<open>\<open>rnd0\<close> is the rounding without the upper bound of the exponent range; \<open>rnd_rnd0\<close> splits the
  overflow off.\<close>

definition rnd0 :: "rat \<Rightarrow> rat" where
  "rnd0 x = (if x = 0 then 0 else of_int (rne (x / pow2 (ulp_exp x))) * pow2 (ulp_exp x))"

lemma ulp_exp_minus [simp]: "ulp_exp (- x) = ulp_exp x"
  by (simp add: ulp_exp_def)

lemma ulp_exp_ge: "- 1074 \<le> ulp_exp x" "flog2 \<bar>x\<bar> \<le> ulp_exp x + 52"
  by (simp_all add: ulp_exp_def)

lemma rnd0_minus [simp]: "rnd0 (- x) = - rnd0 x"
  by (simp add: rnd0_def rne_minus)

lemma rnd0_0 [simp]: "rnd0 0 = 0"
  by (simp add: rnd0_def)

lemma mantissa_le:
  assumes "0 < x"
  shows "rne (x / pow2 (ulp_exp x)) \<le> 2 ^ 53"
proof -
  have "x < pow2 (flog2 x + 1)" using assms by (rule flog2_bounds)
  also have "\<dots> \<le> pow2 (53 + ulp_exp x)" using ulp_exp_ge(2) [of x] assms by simp
  finally have "x / pow2 (ulp_exp x) \<le> of_int (2 ^ 53)" by (simp add: pow2_add divide_le_eq pow2_nat)
  then show ?thesis using rne_mono rne_of_int by metis
qed

lemma mantissa_ge:
  assumes "0 < x" "- 1074 < ulp_exp x"
  shows "2 ^ 52 \<le> rne (x / pow2 (ulp_exp x))" "flog2 x = ulp_exp x + 52"
proof -
  show fl: "flog2 x = ulp_exp x + 52" using assms by (auto simp: ulp_exp_def)
  then have "pow2 (52 + ulp_exp x) \<le> x" using flog2_bounds(1) [OF assms(1)] by (simp add: add.commute)
  then have "of_int (2 ^ 52) \<le> x / pow2 (ulp_exp x)" by (simp add: pow2_add le_divide_eq pow2_nat)
  then show "2 ^ 52 \<le> rne (x / pow2 (ulp_exp x))" using rne_mono rne_of_int by metis
qed

lemma ulp_exp_mono: "0 < x \<Longrightarrow> x \<le> y \<Longrightarrow> ulp_exp x \<le> ulp_exp y"
  using flog2_mono [of x y] by (simp add: ulp_exp_def)

lemma rnd0_le_pow2: "0 < x \<Longrightarrow> rnd0 x \<le> pow2 (53 + ulp_exp x)"
  using mantissa_le [of x] by (simp add: rnd0_def pow2_add pow2_nat)

lemma rnd0_ge_pow2:
  assumes "0 < x" "- 1074 < ulp_exp x"
  shows "pow2 (52 + ulp_exp x) \<le> rnd0 x"
  using mantissa_ge(1) [OF assms] assms(1) by (simp add: rnd0_def pow2_add pow2_nat)

lemma rnd0_nonneg: "0 \<le> x \<Longrightarrow> 0 \<le> rnd0 x"
  by (simp add: rnd0_def rne_nonneg)

lemma rnd0_mono_pos:
  assumes "0 < x" "x \<le> y"
  shows "rnd0 x \<le> rnd0 y"
proof (cases "ulp_exp x = ulp_exp y")
  case True
  have "x / pow2 (ulp_exp y) \<le> y / pow2 (ulp_exp y)" using assms(2) by (simp add: divide_right_mono less_imp_le)
  then show ?thesis using assms True rne_mono by (simp add: rnd0_def)
next
  case False
  then have less: "ulp_exp x < ulp_exp y" using ulp_exp_mono [OF assms] by simp
  have "rnd0 x \<le> pow2 (53 + ulp_exp x)" using assms(1) by (rule rnd0_le_pow2)
  also have "\<dots> \<le> pow2 (52 + ulp_exp y)" using less by simp
  also have "\<dots> \<le> rnd0 y" using less ulp_exp_ge(1) [of x] assms by (intro rnd0_ge_pow2) auto
  finally show ?thesis .
qed

lemma rnd0_mono:
  assumes "x \<le> y"
  shows "rnd0 x \<le> rnd0 y"
proof -
  consider "0 < x" | "x \<le> 0" "0 \<le> y" | "y < 0" by linarith
  then show ?thesis
  proof cases
    case 1
    then show ?thesis using assms by (rule rnd0_mono_pos)
  next
    case 2
    then have "0 \<le> rnd0 (- x)" "0 \<le> rnd0 y" using rnd0_nonneg [of "- x"] by (auto intro: rnd0_nonneg)
    then show ?thesis by simp
  next
    case 3
    then have "rnd0 (- y) \<le> rnd0 (- x)" using assms by (intro rnd0_mono_pos) auto
    then show ?thesis by simp
  qed
qed

lemma rnd_minus: "rnd (- x) = (case rnd x of NaN \<Rightarrow> NaN | PInf \<Rightarrow> NInf | NInf \<Rightarrow> PInf | Fin r \<Rightarrow> Fin (- r))"
  by (auto simp: rnd_def Let_def rne_minus)

lemma rnd_rnd0_pos:
  assumes "0 < x"
  shows "rnd x = (if pow2 1024 \<le> rnd0 x then PInf else Fin (rnd0 x))"
proof -
  define e where "e = ulp_exp x"
  define m where "m = rne (x / pow2 e)"
  have r: "rnd0 x = of_int m * pow2 e" using assms by (simp add: rnd0_def m_def e_def)
  have m0: "0 \<le> m" using assms by (simp add: m_def rne_nonneg)
  have "(971 < e \<or> e = 971 \<and> 9007199254740992 \<le> \<bar>m\<bar>) \<longleftrightarrow> pow2 1024 \<le> rnd0 x"
  proof (cases e "971 :: int" rule: linorder_cases)
    case less
    have "rnd0 x \<le> pow2 (53 + e)" using rnd0_le_pow2 [OF assms] by (simp add: e_def)
    also have "\<dots> < pow2 1024" using less by simp
    finally show ?thesis using less by auto
  next
    case equal
    have "pow2 1024 \<le> rnd0 x \<longleftrightarrow> pow2 53 * pow2 971 \<le> of_int m * pow2 971"
      by (simp add: r equal flip: pow2_add)
    also have "\<dots> \<longleftrightarrow> 2 ^ 53 \<le> m" by (simp add: pow2_nat)
    finally show ?thesis using equal m0 by simp
  next
    case greater
    have "pow2 1024 \<le> pow2 (52 + e)" using greater by simp
    also have "\<dots> \<le> rnd0 x" using rnd0_ge_pow2 [OF assms] greater by (simp add: e_def)
    finally show ?thesis using greater by simp
  qed
  then show ?thesis using assms by (simp add: rnd_def Let_def r flip: e_def m_def)
qed

lemma rnd_rnd0:
  "rnd x = (if pow2 1024 \<le> rnd0 x then PInf else if rnd0 x \<le> - pow2 1024 then NInf else Fin (rnd0 x))"
proof -
  consider "0 < x" | "x = 0" | "0 < - x" by linarith
  then show ?thesis
  proof cases
    case 1
    have "- pow2 1024 < 0" by simp
    then show ?thesis using rnd_rnd0_pos [OF 1] rnd0_nonneg [of x] 1 by auto
  next
    case 2
    then show ?thesis using pow2_pos [of 1024] by (simp add: rnd_def not_le)
  next
    case 3
    have "rnd0 x \<le> 0" using rnd0_nonneg [of "- x"] 3 by simp
    then have "\<not> pow2 1024 \<le> rnd0 x" using pow2_pos [of 1024] by linarith
    then show ?thesis using rnd_rnd0_pos [OF 3] rnd_minus [of "- x"] by (auto simp: le_minus_iff)
  qed
qed

subsection \<open>Representable values\<close>

definition rep :: "rat \<Rightarrow> bool" where
  "rep x = (rnd x = Fin x)"

lemma rep_rnd0: "rep x \<longleftrightarrow> rnd0 x = x \<and> - pow2 1024 < x \<and> x < pow2 1024"
  by (auto simp: rep_def rnd_rnd0)

lemma rnd0_dyadic_pos:
  assumes x: "x = of_int m * pow2 e" and "0 < m" "m \<le> 2 ^ 53" "- 1074 \<le> e"
  shows "rnd0 x = x"
proof -
  have x0: "0 < x" using assms by simp
  define k where "k = ulp_exp x"
  have ex: "\<exists>j. x / pow2 k = of_int j"
  proof (cases "m = 2 ^ 53")
    case True
    then have xp: "x = pow2 (53 + e)" by (simp add: x pow2_add pow2_nat)
    then have "k = e + 1" using assms(4) by (simp add: k_def ulp_exp_def)
    moreover have "pow2 (53 + e) = pow2 52 * pow2 (e + 1)" by (simp flip: pow2_add)
    ultimately have "x / pow2 k = of_int (2 ^ 52)" using xp by (simp add: pow2_nat)
    then show ?thesis ..
  next
    case False
    then have "of_int m < pow2 53" using assms(3) by (simp add: pow2_nat)
    then have "x < pow2 (53 + e)" by (simp add: x pow2_add)
    then have "pow2 (flog2 x) < pow2 (53 + e)" using flog2_bounds(1) [OF x0] by linarith
    then have ke: "k \<le> e" using x0 assms(4) by (simp add: k_def ulp_exp_def)
    have "pow2 e = pow2 (e - k) * pow2 k" by (simp flip: pow2_add)
    then have "x / pow2 k = of_int (m * 2 ^ nat (e - k))" using ke by (simp add: x pow2_nat)
    then show ?thesis ..
  qed
  then obtain j where j: "x / pow2 k = of_int j" ..
  then have "of_int j * pow2 k = x" by (simp add: divide_eq_eq)
  then show ?thesis using x0 j by (simp add: rnd0_def flip: k_def)
qed

lemma rnd0_dyadic:
  assumes "x = of_int m * pow2 e" "\<bar>m\<bar> \<le> 2 ^ 53" "- 1074 \<le> e"
  shows "rnd0 x = x"
proof -
  consider "0 < m" | "m = 0" | "0 < - m" by linarith
  then show ?thesis
  proof cases
    case 3
    then have "rnd0 (- x) = - x" using assms by (intro rnd0_dyadic_pos [of _ "- m" e]) auto
    then show ?thesis by simp
  qed (use assms rnd0_dyadic_pos in auto)
qed

lemma rnd0_form: "\<exists>m e. rnd0 x = of_int m * pow2 e \<and> \<bar>m\<bar> \<le> 2 ^ 53 \<and> - 1074 \<le> e"
proof -
  have *: "\<exists>m e. rnd0 x = of_int m * pow2 e \<and> \<bar>m\<bar> \<le> 2 ^ 53 \<and> - 1074 \<le> e" if "0 < x" for x
    using that mantissa_le [of x] rne_nonneg [of "x / pow2 (ulp_exp x)"] ulp_exp_ge(1) [of x]
    by (intro exI [of _ "rne (x / pow2 (ulp_exp x))"] exI [of _ "ulp_exp x"]) (simp add: rnd0_def)
  consider "0 < x" | "x = 0" | "0 < - x" by linarith
  then show ?thesis
  proof cases
    case 2
    then show ?thesis by (intro exI [of _ 0]) simp
  next
    case 3
    obtain m e where "rnd0 (- x) = of_int m * pow2 e" "\<bar>m\<bar> \<le> 2 ^ 53" "- 1074 \<le> e"
      using * [OF 3] by blast
    then have "rnd0 x = of_int (- m) * pow2 e \<and> \<bar>- m\<bar> \<le> 2 ^ 53 \<and> - 1074 \<le> e" by simp
    then show ?thesis by blast
  qed (rule *)
qed

lemma rnd0_idem [simp]: "rnd0 (rnd0 x) = rnd0 x"
  using rnd0_form [of x] rnd0_dyadic by metis

lemma rnd_rep: "rnd x = Fin r \<Longrightarrow> rep r"
  by (auto simp: rep_rnd0 rnd_rnd0 split: if_splits)

lemma rnd_not_NaN [simp]: "rnd x \<noteq> NaN"
  by (simp add: rnd_rnd0)

lemma rep_0 [simp]: "rep 0"
  by (simp add: rep_def rnd_def)

lemma rep_minus [simp]: "rep (- x) = rep x"
  by (auto simp: rep_rnd0)

lemma rep_dyadic:
  assumes "x = of_int m * pow2 e" "\<bar>m\<bar> \<le> 2 ^ 53" "- 1074 \<le> e" "e \<le> 970"
  shows "rep x"
proof -
  have "\<bar>x\<bar> = of_int \<bar>m\<bar> * pow2 e" by (simp add: assms(1) abs_mult abs_of_nonneg)
  also have "\<dots> \<le> of_int (2 ^ 53) * pow2 e" using assms(2) by (intro mult_right_mono) (simp_all only: of_int_le_iff pow2_ge0)
  also have "\<dots> = pow2 (53 + e)" by (simp add: pow2_add pow2_nat)
  also have "\<dots> < pow2 1024" using assms(4) by simp
  finally have "\<bar>x\<bar> < pow2 1024" .
  then show ?thesis using rnd0_dyadic [OF assms(1-3)] by (auto simp: rep_rnd0 abs_less_iff)
qed

lemma rep_of_int: "\<bar>n\<bar> \<le> 2 ^ 53 \<Longrightarrow> rep (of_int n)"
  by (rule rep_dyadic [of _ n 0]) auto

lemma rep_numeral [simp]: "numeral k \<le> (9007199254740992 :: int) \<Longrightarrow> rep (numeral k)"
  using rep_of_int [of "numeral k"] by simp

lemma rep_1 [simp]: "rep 1"
  using rep_of_int [of 1] by simp

lemma rep_dyadic_frac:
  "x * 2 ^ k = of_int m \<Longrightarrow> \<bar>m\<bar> \<le> 2 ^ 53 \<Longrightarrow> k \<le> 1074 \<Longrightarrow> rep x"
  by (rule rep_dyadic [of _ m "- int k"]) (auto simp: pow2_def field_simps)

lemma rnd_exact: "rep x \<Longrightarrow> rnd x = Fin x"
  by (simp add: rep_def)

lemma rnd_between:
  assumes "rep a" "rep b" "a \<le> x" "x \<le> b"
  obtains r where "rnd x = Fin r" "a \<le> r" "r \<le> b" "rep r"
proof -
  have "a \<le> rnd0 x" "rnd0 x \<le> b"
    using assms rnd0_mono [of a x] rnd0_mono [of x b] by (simp_all add: rep_rnd0)
  moreover from this have "rnd x = Fin (rnd0 x)" using assms(1,2) by (auto simp: rep_rnd0 rnd_rnd0)
  ultimately show ?thesis using that rnd_rep by blast
qed

lemma rnd_mono_fin: "x \<le> y \<Longrightarrow> rnd x = Fin r \<Longrightarrow> rnd y = Fin s \<Longrightarrow> r \<le> s"
  using rnd0_mono [of x y] by (auto simp: rnd_rnd0 split: if_splits)

lemma rnd_nonneg_cases:
  assumes "0 \<le> x"
  obtains r where "rnd x = Fin r" "0 \<le> r" "rep r" | "rnd x = PInf"
proof -
  have "0 \<le> rnd0 x" using assms by (rule rnd0_nonneg)
  then have "\<not> rnd0 x \<le> - pow2 1024" using pow2_pos [of 1024] by linarith
  then have "rnd x = PInf \<or> rnd x = Fin (rnd0 x)" by (simp add: rnd_rnd0)
  then show ?thesis using that rnd_rep [of x] \<open>0 \<le> rnd0 x\<close> by blast
qed

text \<open>The difference of two different representable values does not round to zero.\<close>

lemma rep_multiple: "rep x \<Longrightarrow> \<exists>k. x = of_int k * pow2 (- 1074)"
proof -
  assume "rep x"
  then obtain m e where "x = of_int m * pow2 e" "- 1074 \<le> e"
    using rnd0_form [of x] by (auto simp: rep_rnd0)
  moreover have "pow2 e = pow2 (e + 1074) * pow2 (- 1074)" by (simp flip: pow2_add)
  ultimately have "x = of_int (m * 2 ^ nat (e + 1074)) * pow2 (- 1074)" by (simp add: pow2_nat)
  then show ?thesis ..
qed

lemma rnd0_diff_pos:
  assumes "rep a" "rep b" "a < b"
  shows "0 < rnd0 (b - a)"
proof -
  obtain j k where jk: "a = of_int j * pow2 (- 1074)" "b = of_int k * pow2 (- 1074)"
    using rep_multiple assms by metis
  then have "j < k" using assms(3) by simp
  then have "of_int 1 * pow2 (- 1074) \<le> of_int (k - j) * pow2 (- 1074)"
    by (intro mult_right_mono) (simp_all only: of_int_le_iff pow2_ge0)
  then have "pow2 (- 1074) \<le> b - a" by (simp add: jk left_diff_distrib)
  moreover have "rnd0 (pow2 (- 1074)) = pow2 (- 1074)" by (rule rnd0_dyadic [of _ 1 "- 1074"]) simp_all
  ultimately have "pow2 (- 1074) \<le> rnd0 (b - a)" using rnd0_mono [of "pow2 (- 1074)" "b - a"] by simp
  then show ?thesis using pow2_pos [of "- 1074"] by linarith
qed

subsection \<open>Evaluation of the rounding\<close>

text \<open>The same rounding on numerator and denominator, in integer arithmetic: the code equation.\<close>

fun pow2i :: "nat \<Rightarrow> int" where
  "pow2i n = (if n = 0 then 1 else let h = pow2i (n div 2) in if even n then h * h else 2 * (h * h))"

declare pow2i.simps [simp del]

definition rne_div :: "int \<Rightarrow> int \<Rightarrow> int" where
  "rne_div a b = (let f = a div b; r = 2 * (a mod b) in
     if r < b then f else if b < r then f + 1 else if even f then f else f + 1)"

definition rnd_int :: "int \<Rightarrow> int \<Rightarrow> f64" where
  "rnd_int p q = (if p = 0 then Fin 0 else
     let k = bitlen \<bar>p\<bar> - bitlen q;
         k' = (if (if 0 \<le> k then pow2i (nat k) * q \<le> \<bar>p\<bar> else q \<le> \<bar>p\<bar> * pow2i (nat (- k))) then k else k - 1);
         e = max (- 1074) (k' - 52);
         m = (if 0 \<le> e then rne_div p (q * pow2i (nat e)) else rne_div (p * pow2i (nat (- e))) q) in
     if 971 < e \<or> e = 971 \<and> 9007199254740992 \<le> \<bar>m\<bar> then (if 0 < p then PInf else NInf)
     else if 0 \<le> e then Fin (Fract (m * pow2i (nat e)) 1) else Fin (Fract m (pow2i (nat (- e)))))"

lemma pow2i_eq: "pow2i n = 2 ^ n"
proof (induction n rule: pow2i.induct)
  case (1 n)
  have "(2 :: int) ^ n = 2 ^ (n div 2) * 2 ^ (n div 2) * 2 ^ (n mod 2)"
    by (simp flip: power_add mult_2)
  then show ?case using 1 by (auto simp: pow2i.simps [of n] Let_def odd_iff_mod_2_eq_one even_iff_mod_2_eq_zero)
qed

lemma rne_div_eq: "0 < b \<Longrightarrow> rne (of_int a / of_int b) = rne_div a b"
proof -
  assume b: "0 < b"
  have d: "of_int a / of_int b - of_int (a div b) = of_int (a mod b) / (of_int b :: rat)"
    using b by (simp add: field_simps minus_mult_div_eq_mod [symmetric] flip: of_int_mult of_int_diff)
  have "of_int (a mod b) / of_int b < (1 / 2 :: rat) \<longleftrightarrow> of_int (2 * (a mod b)) < (of_int b :: rat)"
    "(1 / 2 :: rat) < of_int (a mod b) / of_int b \<longleftrightarrow> of_int b < (of_int (2 * (a mod b)) :: rat)"
    using b by (auto simp: field_simps)
  then show ?thesis
    by (simp only: rne_def rne_div_def Let_def floor_divide_of_int_eq d of_int_less_iff)
qed

lemma rnd_code [code]: "rnd x = (case quotient_of x of (p, q) \<Rightarrow> rnd_int p q)"
proof -
  obtain p q where pq: "quotient_of x = (p, q)" by fastforce
  have x: "x = of_int p / of_int q" using pq by (rule quotient_of_div)
  have q: "0 < q" using pq by (rule quotient_of_denom_pos)
  have qa: "quotient_of \<bar>x\<bar> = (\<bar>p\<bar>, q)" using pq by (simp add: rat_abs_code)
  have le: "pow2 k \<le> \<bar>x\<bar> \<longleftrightarrow> (if 0 \<le> k then pow2i (nat k) * q \<le> \<bar>p\<bar> else q \<le> \<bar>p\<bar> * pow2i (nat (- k)))" for k
  proof -
    have "pow2i (nat k) * q \<le> \<bar>p\<bar> \<longleftrightarrow> 2 ^ nat k * of_int q \<le> \<bar>of_int p :: rat\<bar>"
      "q \<le> \<bar>p\<bar> * pow2i (nat (- k)) \<longleftrightarrow> of_int q \<le> \<bar>of_int p :: rat\<bar> * 2 ^ nat (- k)"
      using of_int_le_iff [where ?'a = rat, of "2 ^ nat k * q" "\<bar>p\<bar>"]
        of_int_le_iff [where ?'a = rat, of q "\<bar>p\<bar> * 2 ^ nat (- k)"]
      by (simp_all only: pow2i_eq of_int_abs of_int_mult of_int_numeral of_int_power)
    then show ?thesis using q by (simp add: x pow2_def le_divide_eq divide_le_eq abs_divide)
  qed
  have m: "rne (x / pow2 e) = (if 0 \<le> e then rne_div p (q * pow2i (nat e)) else rne_div (p * pow2i (nat (- e))) q)" for e
    using q by (simp add: x pow2_def pow2i_eq flip: rne_div_eq)
  have f: "of_int m * pow2 e = (if 0 \<le> e then Fract (m * pow2i (nat e)) 1 else Fract m (pow2i (nat (- e))))" for m e
    by (simp add: pow2_def pow2i_eq Fract_of_int_quotient)
  have "x = 0 \<longleftrightarrow> p = 0" "0 < x \<longleftrightarrow> 0 < p" using q by (simp_all add: x zero_less_divide_iff)
  moreover have "ulp_exp x = (let k = bitlen \<bar>p\<bar> - bitlen q in max (- 1074)
      ((if (if 0 \<le> k then pow2i (nat k) * q \<le> \<bar>p\<bar> else q \<le> \<bar>p\<bar> * pow2i (nat (- k))) then k else k - 1) - 52))"
    by (simp only: ulp_exp_def flog2_def qa prod.case le Let_def)
  ultimately show ?thesis
    unfolding rnd_def rnd_int_def pq prod.case Let_def m [symmetric] by (simp only: f if_distrib [of Fin])
qed

section \<open>Operations\<close>

instantiation f64 :: "{zero, one, plus, uminus, minus, times, inverse, ord, abs}"
begin

definition zero_f64 :: f64 where "0 = Fin 0"

definition one_f64 :: f64 where "1 = Fin 1"

fun plus_f64 :: "f64 \<Rightarrow> f64 \<Rightarrow> f64" where
  "Fin a + Fin b = rnd (a + b)"
| "NaN + y = NaN"
| "x + NaN = NaN"
| "PInf + NInf = NaN"
| "NInf + PInf = NaN"
| "PInf + y = PInf"
| "x + PInf = PInf"
| "NInf + y = NInf"
| "x + NInf = NInf"

fun uminus_f64 :: "f64 \<Rightarrow> f64" where
  "- NaN = NaN"
| "- PInf = NInf"
| "- NInf = PInf"
| "- Fin a = Fin (- a)"

definition minus_f64 :: "f64 \<Rightarrow> f64 \<Rightarrow> f64" where
  "x - y = x + (- (y :: f64))"

fun times_f64 :: "f64 \<Rightarrow> f64 \<Rightarrow> f64" where
  "Fin a * Fin b = rnd (a * b)"
| "NaN * y = NaN"
| "x * NaN = NaN"
| "PInf * Fin b = (if b = 0 then NaN else if 0 < b then PInf else NInf)"
| "NInf * Fin b = (if b = 0 then NaN else if 0 < b then NInf else PInf)"
| "Fin a * PInf = (if a = 0 then NaN else if 0 < a then PInf else NInf)"
| "Fin a * NInf = (if a = 0 then NaN else if 0 < a then NInf else PInf)"
| "PInf * PInf = PInf"
| "PInf * NInf = NInf"
| "NInf * PInf = NInf"
| "NInf * NInf = PInf"

fun divide_f64 :: "f64 \<Rightarrow> f64 \<Rightarrow> f64" where
  "Fin a div Fin b = (if b = 0 then (if a = 0 then NaN else if 0 < a then PInf else NInf) else rnd (a / b))"
| "NaN div y = NaN"
| "x div NaN = NaN"
| "Fin a div y = Fin 0"
| "PInf div Fin b = (if 0 \<le> b then PInf else NInf)"
| "NInf div Fin b = (if 0 \<le> b then NInf else PInf)"
| "x div y = NaN"

definition inverse_f64 :: "f64 \<Rightarrow> f64" where
  "inverse x = 1 div (x :: f64)"

text \<open>The comparisons of Go: false as soon as one side is NaN.\<close>

fun less_f64 :: "f64 \<Rightarrow> f64 \<Rightarrow> bool" where
  "Fin a < Fin b = (a < b)"
| "NaN < y = False"
| "x < NaN = False"
| "PInf < y = False"
| "x < NInf = False"
| "NInf < y = True"
| "x < PInf = True"

fun less_eq_f64 :: "f64 \<Rightarrow> f64 \<Rightarrow> bool" where
  "Fin a \<le> Fin b = (a \<le> b)"
| "NaN \<le> y = False"
| "x \<le> NaN = False"
| "NInf \<le> y = True"
| "x \<le> PInf = True"
| "PInf \<le> y = False"
| "x \<le> NInf = False"

fun abs_f64 :: "f64 \<Rightarrow> f64" where
  "\<bar>NaN\<bar> = NaN"
| "\<bar>PInf\<bar> = PInf"
| "\<bar>NInf\<bar> = PInf"
| "\<bar>Fin a\<bar> = Fin \<bar>a\<bar>"

instance ..

end

text \<open>Go's \<open>==\<close>: NaN is not equal to itself.\<close>

fun feq :: "f64 \<Rightarrow> f64 \<Rightarrow> bool" where
  "feq NaN y = False"
| "feq x y = (x = y)"

abbreviation lit :: "rat \<Rightarrow> f64" where
  "lit \<equiv> rnd"

text \<open>\<open>float64(n)\<close>, and \<open>int64(x)\<close>, \<open>int32(x)\<close>, \<open>int(x)\<close>, which truncate and give the least integer
  when the value does not fit.\<close>

definition of_int64 :: "int \<Rightarrow> f64" where
  "of_int64 n = rnd (of_int n)"

definition trunc_rat :: "rat \<Rightarrow> int" where
  "trunc_rat q = (if 0 \<le> q then \<lfloor>q\<rfloor> else \<lceil>q\<rceil>)"

fun to_int64 :: "f64 \<Rightarrow> int" where
  "to_int64 (Fin q) = (let t = trunc_rat q in if in64 t then t else - 9223372036854775808)"
| "to_int64 _ = - 9223372036854775808"

fun to_int32 :: "f64 \<Rightarrow> int" where
  "to_int32 (Fin q) = (let t = trunc_rat q in if in32 t then t else - 2147483648)"
| "to_int32 _ = - 2147483648"

text \<open>\<open>math.Abs\<close>.\<close>

definition fabs :: "f64 \<Rightarrow> f64" where
  "fabs x = (if x < 0 then - x else x)"

text \<open>\<open>math.Round\<close> (halves away from zero), \<open>math.Max\<close>, \<open>math.Min\<close>, \<open>math.Sqrt\<close>,
  \<open>math.MaxFloat64\<close>.\<close>

definition round_rat :: "rat \<Rightarrow> int" where
  "round_rat q = (if 0 \<le> q then \<lfloor>q + 1 / 2\<rfloor> else - \<lfloor>1 / 2 - q\<rfloor>)"

fun fround :: "f64 \<Rightarrow> f64" where
  "fround (Fin q) = Fin (of_int (round_rat q))"
| "fround x = x"

fun fmax :: "f64 \<Rightarrow> f64 \<Rightarrow> f64" where
  "fmax PInf y = PInf"
| "fmax x PInf = PInf"
| "fmax NaN y = NaN"
| "fmax x NaN = NaN"
| "fmax x y = (if y < x then x else y)"

fun fmin :: "f64 \<Rightarrow> f64 \<Rightarrow> f64" where
  "fmin NInf y = NInf"
| "fmin x NInf = NInf"
| "fmin NaN y = NaN"
| "fmin x NaN = NaN"
| "fmin x y = (if x < y then x else y)"

definition max_float64 :: f64 where
  "max_float64 = Fin (of_int (9007199254740991 * 2 ^ 971))"

function isqrt :: "int \<Rightarrow> int" where
  "isqrt n = (if n \<le> 0 then 0 else
     let r = 2 * isqrt (n div 4) in if (r + 1) * (r + 1) \<le> n then r + 1 else r)"
  by auto
termination by (relation "measure nat") auto

declare isqrt.simps [simp del]

text \<open>The square root is taken of \<open>q\<close> scaled by \<open>4 ^ t\<close> to an integer of more than 108 bits; a
  nonzero remainder is kept as a half unit below the rounding position.\<close>

fun fsqrt :: "f64 \<Rightarrow> f64" where
  "fsqrt (Fin q) = (if q < 0 then NaN else if q = 0 then Fin 0 else
     let t = 56 - flog2 q div 2; s = q * pow2 (2 * t); r = isqrt \<lfloor>s\<rfloor> in
     if of_int (r * r) = s then rnd (of_int r / pow2 t)
     else rnd (of_int (2 * r + 1) / pow2 (t + 1)))"
| "fsqrt PInf = PInf"
| "fsqrt _ = NaN"

subsection \<open>Order\<close>

lemma zero_Fin: "(0 :: f64) = Fin 0" and one_Fin: "(1 :: f64) = Fin 1"
  by (simp_all add: zero_f64_def one_f64_def)

lemma f64_less_irrefl [simp]: "\<not> (x :: f64) < x"
  by (cases x) auto

lemma f64_NaN_order [simp]: "\<not> x < NaN" "\<not> NaN < x" "\<not> x \<le> NaN" "\<not> NaN \<le> x"
  by (cases x; simp)+

lemma f64_less_trans: "(x :: f64) < y \<Longrightarrow> y < z \<Longrightarrow> x < z"
  by (cases x; cases y; cases z) auto

lemma f64_less_asym: "(x :: f64) < y \<Longrightarrow> \<not> y < x"
  using f64_less_trans [of x y x] by auto

lemma f64_le_trans: "(x :: f64) \<le> y \<Longrightarrow> y \<le> z \<Longrightarrow> x \<le> z"
  by (cases x; cases y; cases z) auto

lemma f64_less_le_trans: "(x :: f64) < y \<Longrightarrow> y \<le> z \<Longrightarrow> x < z"
  by (cases x; cases y; cases z) auto

lemma f64_le_less_trans: "(x :: f64) \<le> y \<Longrightarrow> y < z \<Longrightarrow> x < z"
  by (cases x; cases y; cases z) auto

lemma f64_less_imp_le: "(x :: f64) < y \<Longrightarrow> x \<le> y"
  by (cases x; cases y) auto

lemma f64_le_refl_iff [simp]: "(x :: f64) \<le> x \<longleftrightarrow> x \<noteq> NaN"
  by (cases x) auto

lemma f64_antisym: "(x :: f64) \<le> y \<Longrightarrow> y \<le> x \<Longrightarrow> x = y"
  by (cases x; cases y) auto

lemma f64_not_less: "x \<noteq> NaN \<Longrightarrow> y \<noteq> NaN \<Longrightarrow> \<not> (x :: f64) < y \<longleftrightarrow> y \<le> x"
  by (cases x; cases y) auto

lemma f64_le_iff: "(x :: f64) \<le> y \<longleftrightarrow> x < y \<or> feq x y"
  by (cases x; cases y) auto

lemma feq_iff: "feq x y \<longleftrightarrow> x = y \<and> x \<noteq> NaN"
  by (cases x; cases y) auto

subsection \<open>Intervals\<close>

text \<open>\<open>inrange a b x\<close>: the value is finite, representable and between two rationals. The rules carry
  such bounds through rounded arithmetic when the bounds themselves are representable.\<close>

fun inrange :: "rat \<Rightarrow> rat \<Rightarrow> f64 \<Rightarrow> bool" where
  "inrange a b (Fin r) = (a \<le> r \<and> r \<le> b \<and> rep r)"
| "inrange a b _ = False"

abbreviation unit64 :: "f64 \<Rightarrow> bool" where
  "unit64 \<equiv> inrange 0 1"

lemma inrange_iff: "inrange a b x \<longleftrightarrow> (\<exists>r. x = Fin r \<and> a \<le> r \<and> r \<le> b \<and> rep r)"
  by (cases x) auto

lemma inrange_less_eq: "inrange a b x \<Longrightarrow> Fin a \<le> x \<and> x \<le> Fin b"
  by (cases x) auto

lemma inrange_weaken: "inrange a b x \<Longrightarrow> a' \<le> a \<Longrightarrow> b \<le> b' \<Longrightarrow> inrange a' b' x"
  by (cases x) auto

lemma inrange_rnd [f64_intro]: "rep a \<Longrightarrow> rep b \<Longrightarrow> a \<le> x \<Longrightarrow> x \<le> b \<Longrightarrow> inrange a b (rnd x)"
  by (metis rnd_between inrange.simps(1))

lemma inrange_0 [f64_intro]: "a \<le> 0 \<Longrightarrow> 0 \<le> b \<Longrightarrow> inrange a b 0"
  by (simp add: zero_Fin)

lemma inrange_1 [f64_intro]: "a \<le> 1 \<Longrightarrow> 1 \<le> b \<Longrightarrow> inrange a b 1"
  by (simp add: one_Fin)

lemma inrange_add [f64_intro]:
  "inrange a b x \<Longrightarrow> inrange c d y \<Longrightarrow> rep (a + c) \<Longrightarrow> rep (b + d) \<Longrightarrow> inrange (a + c) (b + d) (x + y)"
  by (auto simp: inrange_iff [of _ _ x] inrange_iff [of _ _ y] intro!: inrange_rnd)

lemma inrange_diff:
  "inrange a b x \<Longrightarrow> inrange c d y \<Longrightarrow> rep (a - d) \<Longrightarrow> rep (b - c) \<Longrightarrow> inrange (a - d) (b - c) (x - y)"
  by (auto simp: inrange_iff [of _ _ x] inrange_iff [of _ _ y] minus_f64_def intro!: inrange_rnd)

lemma inrange_mult [f64_intro]:
  "inrange 0 b x \<Longrightarrow> inrange 0 d y \<Longrightarrow> rep (b * d) \<Longrightarrow> inrange 0 (b * d) (x * y)"
  by (auto simp: inrange_iff [of _ _ x] inrange_iff [of _ _ y] intro!: inrange_rnd mult_mono)

lemma unit64_div [f64_intro]:
  assumes "Fin 0 \<le> x" "x \<le> y" "Fin 0 < y" "y < PInf"
  shows "unit64 (x / y)"
proof -
  obtain p q where "x = Fin p" "y = Fin q" using assms by (cases x; cases y) auto
  then show ?thesis using assms by (auto intro!: inrange_rnd)
qed

lemma rep_pow2: "e \<le> 970 \<Longrightarrow> rep (2 ^ e)"
  by (rule rep_dyadic [of _ 1 "int e"]) (simp_all add: pow2_nat)

lemma inrange_div_ge1:
  assumes "inrange 0 b x" "inrange 1 d c" "rep b"
  shows "inrange 0 b (x / c)"
proof -
  obtain p q where pq: "x = Fin p" "c = Fin q" "0 \<le> p" "p \<le> b" "1 \<le> q"
    using assms by (auto simp: inrange_iff)
  have "p / q \<le> p" using pq by (simp add: divide_le_eq mult_le_cancel_left1)
  then show ?thesis using pq assms(3) by (auto intro!: inrange_rnd)
qed

lemma unit64_mult: "unit64 x \<Longrightarrow> unit64 y \<Longrightarrow> unit64 (x * y)"
  using inrange_mult [of 1 x 1 y] by simp

lemma unit64_one_minus: "unit64 x \<Longrightarrow> unit64 (1 - x)"
  using inrange_diff [of 1 1 1 0 1 x] by (simp add: one_Fin)

text \<open>Subtracting a smaller nonnegative value keeps the bounds.\<close>

lemma inrange_diff_le:
  assumes "inrange 0 b x" "y \<le> x" "Fin 0 \<le> y" "rep b"
  shows "inrange 0 b (x - y)"
proof -
  obtain p q where "x = Fin p" "y = Fin q" using assms by (cases x; cases y) auto
  then show ?thesis using assms by (auto simp: minus_f64_def intro!: inrange_rnd)
qed

text \<open>The idiom that clamps a difference at zero.\<close>

lemma inrange_diff_clamp:
  assumes "inrange 0 b x" "inrange 0 d y" "rep b" "rep d"
  shows "inrange 0 b (if x - y < 0 then 0 else x - y)"
proof -
  have "inrange (0 - d) (b - 0) (x - y)" using assms by (intro inrange_diff) simp_all
  moreover have "0 \<le> b" using assms(1) by (auto simp: inrange_iff)
  ultimately show ?thesis by (auto simp: inrange_iff zero_Fin)
qed

text \<open>Values the operations produce are representable when finite.\<close>

fun ok64 :: "f64 \<Rightarrow> bool" where
  "ok64 (Fin r) = rep r"
| "ok64 _ = True"

lemma ok64_rnd [simp]: "ok64 (rnd x)"
  using rnd_rep [of x] by (cases "rnd x") auto

lemma ok64_consts [simp]: "ok64 0" "ok64 1"
  by (simp_all add: zero_Fin one_Fin)

lemma ok64_add [simp]: "ok64 (x + y)"
  by (cases x; cases y) auto

lemma ok64_diff [simp]: "ok64 (x - y)"
  by (simp add: minus_f64_def)

lemma ok64_mult [simp]: "ok64 (x * y)"
  by (cases x; cases y) auto

lemma ok64_divide [simp]: "ok64 (x / y)"
  by (cases x; cases y) auto

lemma inrange_ok64: "inrange a b x \<longleftrightarrow> ok64 x \<and> Fin a \<le> x \<and> x \<le> Fin b"
  by (cases x) auto

text \<open>The finite nonnegative values.\<close>

abbreviation nonneg64 :: "f64 \<Rightarrow> bool" where
  "nonneg64 x \<equiv> (\<exists>r. x = Fin r \<and> 0 \<le> r \<and> rep r)"

lemma inrange_nonneg64: "inrange a b x \<Longrightarrow> 0 \<le> a \<Longrightarrow> nonneg64 x"
  by (auto simp: inrange_iff)

text \<open>The difference of ordered nonnegative values, and the quotient of two such differences.\<close>

lemma nonneg64_diff:
  assumes "nonneg64 x" "nonneg64 y" "y < x"
  obtains r where "x - y = Fin r" "0 < r" "rep r"
proof -
  obtain p q where pq: "x = Fin p" "y = Fin q" "rep p" "rep q" "0 \<le> q" "q < p" using assms by auto
  then have "inrange 0 p (x - y)" by (auto simp: minus_f64_def intro!: inrange_rnd)
  moreover have "0 < rnd0 (p - q)" using pq rnd0_diff_pos by simp
  ultimately show ?thesis
    using that pq by (auto simp: inrange_iff minus_f64_def rnd_rnd0 split: if_splits)
qed

lemma unit64_ratio:
  assumes "nonneg64 v" "nonneg64 a" "nonneg64 b" "a \<le> v" "v \<le> b" "a < b"
  shows "unit64 ((v - a) / (b - a))"
proof -
  obtain x y z where xyz: "v = Fin x" "a = Fin y" "b = Fin z" "0 \<le> y" "y \<le> x" "x \<le> z" "y < z"
    using assms by auto
  obtain q where q: "b - a = Fin q" "0 < q" using nonneg64_diff [OF assms(3,2,6)] by metis
  have "inrange 0 x (v - a)"
    using assms xyz by (auto simp: minus_f64_def intro!: inrange_rnd)
  then obtain p where p: "v - a = Fin p" "0 \<le> p" by (auto simp: inrange_iff)
  have "p \<le> q"
    using p q xyz rnd_mono_fin [of "x - y" "z - y" p q] by (simp add: minus_f64_def)
  then show ?thesis using p q by (auto intro!: inrange_rnd)
qed

lemma inrange_fmin [f64_intro]: "inrange a b x \<Longrightarrow> inrange a b y \<Longrightarrow> inrange a b (fmin x y)"
  by (cases x; cases y) auto

lemma inrange_fmax [f64_intro]: "inrange a b x \<Longrightarrow> inrange a b y \<Longrightarrow> inrange a b (fmax x y)"
  by (cases x; cases y) auto

lemma fmax_fmin_unit: "x \<noteq> NaN \<Longrightarrow> ok64 x \<Longrightarrow> unit64 (fmax 0 (fmin 1 x))"
  by (cases x) (auto simp: zero_Fin one_Fin)

lemma nonneg64_max_float64: "nonneg64 max_float64"
proof -
  have "of_int (9007199254740991 * 2 ^ 971) = of_int 9007199254740991 * pow2 971"
    by (simp only: pow2_nat of_int_mult) simp
  moreover have "of_int 9007199254740991 * pow2 971 < pow2 53 * pow2 971"
    by (intro mult_strict_right_mono) (simp_all add: pow2_nat)
  moreover have "pow2 53 * pow2 971 = pow2 1024" by (simp flip: pow2_add)
  moreover have "- pow2 1024 < 0" "0 \<le> of_int 9007199254740991 * pow2 971" by simp_all
  ultimately show ?thesis
    using rnd0_dyadic [of _ "9007199254740991" 971] by (auto simp: max_float64_def rep_rnd0)
qed

lemma fadd_ge_left:
  assumes "rep a" "0 \<le> b"
  shows "Fin a \<le> Fin a + Fin b"
proof -
  have "a \<le> rnd0 (a + b)" using rnd0_mono [of a "a + b"] assms by (simp add: rep_rnd0)
  moreover have "- pow2 1024 < a" using assms by (simp add: rep_rnd0)
  ultimately have "\<not> rnd0 (a + b) \<le> - pow2 1024" by linarith
  then show ?thesis using \<open>a \<le> rnd0 (a + b)\<close> by (simp add: rnd_rnd0)
qed

text \<open>A sum of values of the unit interval never exceeds \<open>2 ^ 53\<close>, where adding 1 is absorbed, however
  many terms it has; the sum of nonnegative values is at least each of them.\<close>

lemma rnd_absorb: "rnd (9007199254740992 + 1) = Fin 9007199254740992"
  by code_simp

lemma inrange_add_unit:
  assumes "inrange 0 9007199254740992 x" "unit64 y"
  shows "inrange 0 9007199254740992 (x + y)"
proof -
  obtain p q where pq: "x = Fin p" "y = Fin q" "0 \<le> p" "p \<le> 9007199254740992" "0 \<le> q" "q \<le> 1"
    using assms by (auto simp: inrange_iff)
  have lim: "rnd0 (9007199254740992 + 1) = 9007199254740992" using rnd_absorb by (auto simp: rnd_rnd0 split: if_splits)
  have "rnd0 (p + q) \<le> rnd0 (9007199254740992 + 1)" using pq by (intro rnd0_mono) simp
  then have le: "rnd0 (p + q) \<le> 9007199254740992" using lim by simp
  have "0 \<le> p + q" using pq by simp
  then show ?thesis
  proof (cases rule: rnd_nonneg_cases)
    case (1 r)
    then have "r = rnd0 (p + q)" by (auto simp: rnd_rnd0 split: if_splits)
    then show ?thesis using 1 le pq by simp
  next
    case 2
    then have "pow2 1024 \<le> rnd0 (p + q)" by (auto simp: rnd_rnd0 split: if_splits)
    then have "pow2 1024 \<le> pow2 53" using le by (simp add: pow2_nat)
    then show ?thesis by simp
  qed
qed

lemma inrange_sum_unit:
  "inrange 0 9007199254740992 a \<Longrightarrow> (\<And>x. x \<in> set xs \<Longrightarrow> unit64 (f x)) \<Longrightarrow> inrange 0 9007199254740992 (foldl (\<lambda>a x. a + f x) a xs)"
  by (rule foldl_inv) (auto intro: inrange_add_unit)

lemma sum_ge_acc:
  "inrange 0 9007199254740992 a \<Longrightarrow> (\<And>x. x \<in> set xs \<Longrightarrow> unit64 (f x)) \<Longrightarrow> a \<le> foldl (\<lambda>a x. a + f x) a xs"
proof (induction xs arbitrary: a)
  case Nil
  then show ?case by (auto simp: inrange_iff)
next
  case (Cons x xs)
  have "unit64 (f x)" using Cons.prems by simp
  then obtain p q where "a = Fin p" "f x = Fin q" "rep p" "0 \<le> q" using Cons.prems(1) by (auto simp: inrange_iff)
  then have "a \<le> a + f x" using fadd_ge_left by simp
  moreover have "a + f x \<le> foldl (\<lambda>a x. a + f x) (a + f x) xs"
    using Cons by (intro Cons.IH inrange_add_unit) auto
  ultimately show ?case by (auto intro: f64_le_trans)
qed

lemma sum_ge_elem:
  "inrange 0 9007199254740992 a \<Longrightarrow> (\<And>x. x \<in> set xs \<Longrightarrow> unit64 (f x)) \<Longrightarrow> x \<in> set xs \<Longrightarrow>
   f x \<le> foldl (\<lambda>a x. a + f x) a xs"
proof (induction xs arbitrary: a)
  case (Cons y ys)
  show ?case
  proof (cases "x = y")
    case True
    have "unit64 (f x)" using Cons.prems by simp
    then obtain p q where pq: "a = Fin p" "f x = Fin q" "rep q" "0 \<le> p"
      using Cons.prems(1) by (auto simp: inrange_iff)
    then have "f x \<le> a + f y" using fadd_ge_left [of q p] True by (simp add: add.commute)
    moreover have "a + f y \<le> foldl (\<lambda>a x. a + f x) (a + f y) ys"
      using Cons.prems by (intro sum_ge_acc inrange_add_unit) auto
    ultimately show ?thesis by (auto intro: f64_le_trans)
  next
    case False
    then show ?thesis using Cons by (simp add: inrange_add_unit)
  qed
qed simp

subsection \<open>Integers\<close>

lemma of_int64_exact [f64_simps]: "\<bar>n\<bar> \<le> 2 ^ 53 \<Longrightarrow> of_int64 n = Fin (of_int n)"
  by (simp add: of_int64_def rep_of_int rnd_exact)

lemma round_rat_of_int [simp]: "round_rat (of_int n) = n"
  by (simp add: round_rat_def floor_eq_iff)

lemma round_rat_mono: "x \<le> y \<Longrightarrow> round_rat x \<le> round_rat y"
proof -
  assume a: "x \<le> y"
  consider "0 \<le> x" | "x < 0" "0 \<le> y" | "y < 0" by linarith
  then show ?thesis
  proof cases
    case 2
    then have "0 \<le> \<lfloor>1 / 2 - x\<rfloor>" "0 \<le> \<lfloor>y + 1 / 2\<rfloor>" by (simp_all add: le_floor_iff)
    then have "- \<lfloor>1 / 2 - x\<rfloor> \<le> \<lfloor>y + 1 / 2\<rfloor>" by linarith
    then show ?thesis using 2 by (simp add: round_rat_def)
  qed (use a in \<open>auto simp: round_rat_def intro!: floor_mono\<close>)
qed

lemma round_rat_bounds: "of_int a \<le> q \<Longrightarrow> q \<le> of_int b \<Longrightarrow> a \<le> round_rat q \<and> round_rat q \<le> b"
  using round_rat_mono round_rat_of_int by metis

lemma trunc_rat_of_int [simp]: "trunc_rat (of_int n) = n"
  by (simp add: trunc_rat_def)

lemma to_int64_fround: "in64 (round_rat q) \<Longrightarrow> to_int64 (fround (Fin q)) = round_rat q"
  by (simp add: Let_def)

lemma in64_to_int64 [simp]: "in64 (to_int64 x)"
  by (cases x) (auto simp: Let_def in64_def)

lemma in32_to_int32 [simp]: "in32 (to_int32 x)"
  by (cases x) (auto simp: Let_def in32_def)

text \<open>The integer square root.\<close>

lemma isqrt_bounds: "0 \<le> n \<Longrightarrow> 0 \<le> isqrt n \<and> isqrt n * isqrt n \<le> n \<and> n < (isqrt n + 1) * (isqrt n + 1)"
proof (induction n rule: isqrt.induct)
  case (1 n)
  show ?case
  proof (cases "n = 0")
    case True
    then show ?thesis by (simp add: isqrt.simps [of 0])
  next
    case False
    define r where "r = isqrt (n div 4)"
    have r: "0 \<le> r" "r * r \<le> n div 4" "n div 4 < (r + 1) * (r + 1)"
      using 1 False by (auto simp: r_def)
    then have "(2 * r) * (2 * r) \<le> n" "n < (2 * r + 2) * (2 * r + 2)" by (auto simp: algebra_simps)
    moreover have "isqrt n = (if (2 * r + 1) * (2 * r + 1) \<le> n then 2 * r + 1 else 2 * r)"
      using False 1 by (simp add: isqrt.simps [of n] Let_def r_def)
    ultimately show ?thesis using r(1) by (auto simp: algebra_simps)
  qed
qed

lemma nn_rnd: "0 \<le> y \<Longrightarrow> Fin 0 \<le> rnd y"
  by (erule rnd_nonneg_cases) auto

lemma nn_add: "Fin 0 \<le> x \<Longrightarrow> Fin 0 \<le> y \<Longrightarrow> Fin 0 \<le> x + (y :: f64)"
  by (cases x; cases y) (auto simp: nn_rnd)

lemma nn_scale: "0 < c \<Longrightarrow> Fin 0 \<le> x \<Longrightarrow> Fin 0 \<le> Fin c * x" "0 < c \<Longrightarrow> Fin 0 \<le> x \<Longrightarrow> Fin 0 \<le> x * Fin c"
  by (cases x; auto simp: nn_rnd)+

lemma nn_over: "Fin 0 < y \<Longrightarrow> y < x \<Longrightarrow> Fin 0 \<le> x / y"
  by (cases x; cases y) (auto simp: nn_rnd)

lemma fsqrt_nonneg: "Fin 0 \<le> x \<Longrightarrow> x < PInf \<Longrightarrow> Fin 0 \<le> fsqrt x"
proof -
  assume a: "Fin 0 \<le> x" "x < PInf"
  then obtain q where q: "x = Fin q" "0 \<le> q" by (cases x) auto
  show ?thesis
  proof (cases "q = 0")
    case False
    let ?s = "q * pow2 (2 * (56 - flog2 q div 2))"
    have "0 \<le> ?s" using q by simp
    then have "0 \<le> isqrt \<lfloor>?s\<rfloor>" using isqrt_bounds [of "\<lfloor>?s\<rfloor>"] by simp
    then show ?thesis using q False by (auto simp: Let_def intro!: nn_rnd)
  qed (use q in simp)
qed

text \<open>Sums of at most \<open>2 ^ 20\<close> values, each at most a power of two.\<close>

lemma inrange_sum_pow2:
  assumes "\<And>x. x \<in> set xs \<Longrightarrow> inrange 0 (2 ^ k) (f x)" "length xs \<le> 2 ^ 20" "k \<le> 900"
  shows "inrange 0 (of_nat (length xs) * 2 ^ k) (foldl (\<lambda>s x. s + f x) 0 xs)"
  using assms(1,2)
proof (induction xs rule: rev_induct)
  case Nil
  then show ?case by (simp add: zero_Fin)
next
  case (snoc x xs)
  have "inrange (0 + 0) (of_nat (length xs) * 2 ^ k + 2 ^ k) (foldl (\<lambda>s x. s + f x) 0 xs + f x)"
  proof (rule inrange_add)
    show "inrange 0 (of_nat (length xs) * 2 ^ k) (foldl (\<lambda>s x. s + f x) 0 xs)"
      using snoc by simp
    show "inrange 0 (2 ^ k) (f x)" using snoc by simp
    show "rep (of_nat (length xs) * 2 ^ k + 2 ^ k)"
      using snoc.prems(2) assms(3)
      by (intro rep_dyadic [of _ "int (length xs) + 1" "int k"]) (auto simp: pow2_nat algebra_simps)
  qed simp
  then show ?case by (simp add: algebra_simps)
qed

lemma sum_nonneg_ge:
  assumes "\<And>x. x \<in> set xs \<Longrightarrow> inrange 0 (2 ^ k) (f x)" "length xs \<le> 2 ^ 20" "k \<le> 900"
  shows "inrange 0 (2 ^ (k + 20)) (foldl (\<lambda>s x. s + f x) 0 xs)"
proof (rule inrange_weaken [OF inrange_sum_pow2 [OF assms]])
  have "(of_nat (length xs) :: rat) \<le> of_nat (2 ^ 20)" using assms(2) by (simp only: of_nat_le_iff)
  then have "(of_nat (length xs) :: rat) * 2 ^ k \<le> 2 ^ 20 * 2 ^ k" by (intro mult_right_mono) simp_all
  then show "of_nat (length xs) * 2 ^ k \<le> (2 :: rat) ^ (k + 20)" by (simp add: power_add mult.commute)
qed simp_all

lemma inrange_add_ge: "inrange 0 b x \<Longrightarrow> inrange 0 d y \<Longrightarrow> x \<le> x + y"
  by (auto simp: inrange_iff intro!: fadd_ge_left)

end
