(* ===== verification/Go_Strings.thy ===== *)
theory Go_Strings
  imports Go_Float
begin

text \<open>
  Text that the program formats: \<open>%d\<close> and \<open>strconv.FormatInt\<close>, \<open>%.kf\<close>, and the multi-byte
  characters of its messages as UTF-8 bytes. A Go string is a list of bytes, a \<^typ>\<open>string\<close>.
\<close>

section \<open>Integers in decimal\<close>

definition digit :: "nat \<Rightarrow> char" where
  "digit d = char_of (48 + d)"

fun digits :: "nat \<Rightarrow> string" where
  "digits n = (if n < 10 then [digit n] else digits (n div 10) @ [digit (n mod 10)])"

declare digits.simps [simp del]

definition fmt_d :: "int \<Rightarrow> string" where
  "fmt_d i = (if i < 0 then ''-'' else []) @ digits (nat \<bar>i\<bar>)"

definition undigit :: "char \<Rightarrow> nat" where
  "undigit c = of_char c - 48"

definition undigits :: "string \<Rightarrow> nat" where
  "undigits s = foldl (\<lambda>n c. 10 * n + undigit c) 0 s"

lemma undigit_digit [simp]: "d < 10 \<Longrightarrow> undigit (digit d) = d"
  by (simp add: undigit_def digit_def)

lemma digit_inj: "d < 10 \<Longrightarrow> e < 10 \<Longrightarrow> digit d = digit e \<Longrightarrow> d = e"
  by (metis undigit_digit)

lemma digits_nonempty [simp]: "digits n \<noteq> []"
  by (subst digits.simps) simp

lemma undigits_digits [simp]: "undigits (digits n) = n"
proof (induction n rule: digits.induct)
  case (1 n)
  show ?case
  proof (cases "n < 10")
    case True
    then show ?thesis by (simp add: digits.simps [of n] undigits_def)
  next
    case False
    then show ?thesis using 1 by (simp add: digits.simps [of n] undigits_def)
  qed
qed

lemma digits_inj: "digits m = digits n \<longleftrightarrow> m = n"
  by (metis undigits_digits)

lemma set_digits: "set (digits n) \<subseteq> digit ` {..<10}"
  by (induction n rule: digits.induct) (subst digits.simps, auto)

lemma of_char_digit: "d < 10 \<Longrightarrow> of_char (digit d) = (48 + d :: nat)"
  by (simp add: digit_def)

lemma digits_range: "c \<in> set (digits n) \<Longrightarrow> 48 \<le> (of_char c :: nat) \<and> (of_char c :: nat) \<le> 57"
  using set_digits [of n] of_char_digit by fastforce

lemma digit_not_sep [simp]: "d < 10 \<Longrightarrow> digit d \<noteq> CHR ''-''" "d < 10 \<Longrightarrow> digit d \<noteq> CHR ''/''"
  using of_char_digit [of d] by auto

lemma digits_no_sep: "CHR ''-'' \<notin> set (digits n)" "CHR ''/'' \<notin> set (digits n)"
  using set_digits [of n] digit_not_sep by fastforce+

lemma fmt_d_inj: "fmt_d a = fmt_d b \<longleftrightarrow> a = b"
proof
  assume e: "fmt_d a = fmt_d b"
  have n: "digits x \<noteq> CHR ''-'' # y" for x y
    using digits_no_sep(1) [of x] by (metis list.set_intros(1))
  then have "(a < 0) = (b < 0)" using e by (auto simp: fmt_d_def split: if_splits) metis
  then show "a = b" using e by (auto simp: fmt_d_def digits_inj split: if_splits)
qed simp

lemma fmt_d_no_slash: "CHR ''/'' \<notin> set (fmt_d n)"
  using digits_no_sep by (auto simp: fmt_d_def)

section \<open>Floating-point text\<close>

text \<open>\<open>%.kf\<close> rounds the exact value to \<open>k\<close> decimals, ties to even.\<close>

definition pad_left :: "nat \<Rightarrow> string \<Rightarrow> string" where
  "pad_left k s = replicate (k - length s) (CHR ''0'') @ s"

fun fmt_f :: "nat \<Rightarrow> f64 \<Rightarrow> string" where
  "fmt_f k NaN = ''NaN''"
| "fmt_f k PInf = ''+Inf''"
| "fmt_f k NInf = ''-Inf''"
| "fmt_f k (Fin q) = (let m = nat (rne (\<bar>q\<bar> * 10 ^ k)) in
     (if q < 0 then ''-'' else []) @ digits (m div 10 ^ k) @
     (if k = 0 then [] else ''.'' @ pad_left k (digits (m mod 10 ^ k))))"

text \<open>\<open>time.Duration.String\<close>, which \<open>%v\<close> prints: at most nine decimals, trailing zeros dropped.\<close>

definition frac_string :: "nat \<Rightarrow> nat \<Rightarrow> string" where
  "frac_string k v = (let s = rev (dropWhile (\<lambda>c. c = CHR ''0'') (rev (pad_left k (digits (v mod 10 ^ k))))) in
     if v mod 10 ^ k = 0 then [] else ''.'' @ s)"

definition duration_string :: "int \<Rightarrow> string" where
  "duration_string d =
    (let u = nat \<bar>d\<bar>; sgn = (if d < 0 then ''-'' else []); secs = u div 1000000000 in
     if u = 0 then ''0s''
     else if u < 1000 then sgn @ digits u @ ''ns''
     else if u < 1000000 then sgn @ digits (u div 1000) @ frac_string 3 u @ [CHR 0xC2, CHR 0xB5] @ ''s''
     else if u < 1000000000 then sgn @ digits (u div 1000000) @ frac_string 6 u @ ''ms''
     else sgn @
       (if 3600 \<le> secs then digits (secs div 3600) @ ''h'' else []) @
       (if 60 \<le> secs then digits ((secs div 60) mod 60) @ ''m'' else []) @
       digits (secs mod 60) @ frac_string 9 u @ ''s'')"

text \<open>The rightwards arrow of the messages, in UTF-8.\<close>

definition arrow :: string where
  "arrow = [CHR 0xE2, CHR 0x86, CHR 0x92]"

section \<open>Separators\<close>

text \<open>Joining with a separator that the second part does not hold loses nothing.\<close>

lemma append_sep_inj:
  assumes "a @ s # b = c @ s # d" "s \<notin> set b" "s \<notin> set d"
  shows "a = c \<and> b = d"
proof -
  have r: "rev b @ s # rev a = rev d @ s # rev c"
    using arg_cong [OF assms(1), of rev] by simp
  have "takeWhile (\<lambda>x. x \<noteq> s) (rev b @ s # rev a) = rev b"
    "takeWhile (\<lambda>x. x \<noteq> s) (rev d @ s # rev c) = rev d"
    using assms(2,3) by (auto simp: takeWhile_append takeWhile_eq_all_conv)
  then have "b = d" using r by simp
  then show ?thesis using assms(1) by simp
qed

end
