(* ===== verification/Go_ParseFloat.thy ===== *)
theory Go_ParseFloat
  imports Go_Strings
begin

text \<open>
  \<open>strconv.ParseFloat(s, 64)\<close> and the trimming functions of \<open>strings\<close> that its callers use.
  \<open>ParseFloat s\<close> is \<open>None\<close> when Go returns an error, a value out of range included: no caller reads
  the value that accompanies an error. The grammar is Go's: an optional sign, then \<open>inf\<close>,
  \<open>infinity\<close> or (without sign) \<open>nan\<close> in any case, or a decimal or hexadecimal mantissa with an
  exponent and digit-separating underscores.
\<close>

definition lower :: "char \<Rightarrow> char" where
  "lower c = (let n = of_char c :: nat in if 65 \<le> n \<and> n \<le> 90 then char_of (n + 32) else c)"

definition char_in :: "char \<Rightarrow> char \<Rightarrow> char \<Rightarrow> bool" where
  "char_in a b c = ((of_char a :: nat) \<le> of_char c \<and> (of_char c :: nat) \<le> of_char b)"

definition is_digit :: "char \<Rightarrow> bool" where
  "is_digit c = char_in (CHR ''0'') (CHR ''9'') c"

definition digit_value :: "bool \<Rightarrow> char \<Rightarrow> nat option" where
  "digit_value hex c =
    (if is_digit c then Some (of_char c - 48)
     else if hex \<and> char_in (CHR ''a'') (CHR ''f'') (lower c) then Some (of_char (lower c) - 87) else None)"

text \<open>The mantissa: whether digits and a point were seen, the digits' value and how many follow the
  point; the rest of the text.\<close>

fun scan_mantissa :: "bool \<Rightarrow> bool \<Rightarrow> bool \<Rightarrow> nat \<Rightarrow> int \<Rightarrow> string \<Rightarrow> bool \<times> nat \<times> int \<times> string" where
  "scan_mantissa hex dot seen m k [] = (seen, m, k, [])"
| "scan_mantissa hex dot seen m k (c # cs) =
    (if c = CHR ''_'' then scan_mantissa hex dot seen m k cs
     else if c = CHR ''.'' then (if dot then (seen, m, k, c # cs) else scan_mantissa hex True seen m k cs)
     else case digit_value hex c of
       Some d \<Rightarrow> scan_mantissa hex dot True ((if hex then 16 else 10) * m + d) (if dot then k + 1 else k) cs
     | None \<Rightarrow> (seen, m, k, c # cs))"

fun scan_exp :: "nat \<Rightarrow> string \<Rightarrow> nat \<times> string" where
  "scan_exp e [] = (e, [])"
| "scan_exp e (c # cs) =
    (if c = CHR ''_'' then scan_exp e cs
     else if is_digit c then scan_exp (if e < 10000 then e * 10 + (of_char c - 48) else e) cs
     else (e, c # cs))"

text \<open>\<open>underscoreOK\<close>: the state is \<open>^\<close> at the start, \<open>0\<close> after a digit or base prefix, \<open>_\<close> after an
  underscore, \<open>!\<close> otherwise.\<close>

fun under_ok :: "bool \<Rightarrow> char \<Rightarrow> string \<Rightarrow> bool" where
  "under_ok hex i [] = (i \<noteq> CHR ''_'')"
| "under_ok hex i (c # cs) =
    (if is_digit c \<or> hex \<and> char_in (CHR ''a'') (CHR ''f'') (lower c) then under_ok hex (CHR ''0'') cs
     else if c = CHR ''_'' then i = CHR ''0'' \<and> under_ok hex (CHR ''_'') cs
     else i \<noteq> CHR ''_'' \<and> under_ok hex (CHR ''!'') cs)"

definition drop_sign :: "string \<Rightarrow> string" where
  "drop_sign s = (case s of c # cs \<Rightarrow> if c = CHR ''+'' \<or> c = CHR ''-'' then cs else s | [] \<Rightarrow> [])"

definition underscoreOK :: "string \<Rightarrow> bool" where
  "underscoreOK s =
    (let t = drop_sign s in
     if 2 \<le> length t \<and> t ! 0 = CHR ''0'' \<and> lower (t ! 1) \<in> {CHR ''b'', CHR ''o'', CHR ''x''}
     then under_ok (lower (t ! 1) = CHR ''x'') (CHR ''0'') (drop 2 t)
     else under_ok False (CHR ''^'') t)"

definition special_float :: "string \<Rightarrow> f64 option" where
  "special_float s =
    (let l = map lower s in
     if l = ''nan'' then Some NaN
     else if l \<in> {''inf'', ''infinity'', ''+inf'', ''+infinity''} then Some PInf
     else if l \<in> {''-inf'', ''-infinity''} then Some NInf else None)"

definition scan_exponent :: "bool \<Rightarrow> string \<Rightarrow> int option" where
  "scan_exponent hex rest =
    (case rest of
       [] \<Rightarrow> if hex then None else Some 0
     | c # cs \<Rightarrow>
       if lower c = (if hex then CHR ''p'' else CHR ''e'') then
         (let neg = (cs \<noteq> [] \<and> hd cs = CHR ''-''); ds = drop_sign cs in
          if ds = [] \<or> \<not> is_digit (hd ds) then None
          else case scan_exp 0 ds of (e, rest') \<Rightarrow>
            if rest' = [] then Some (if neg then - int e else int e) else None)
       else None)"

definition ParseFloat :: "string \<Rightarrow> f64 option" where
  "ParseFloat s =
    (case special_float s of
       Some x \<Rightarrow> Some x
     | None \<Rightarrow>
       let neg = (s \<noteq> [] \<and> hd s = CHR ''-''); t = drop_sign s;
           hex = (3 \<le> length t \<and> t ! 0 = CHR ''0'' \<and> lower (t ! 1) = CHR ''x'');
           body = (if hex then drop 2 t else t) in
       case scan_mantissa hex False False 0 0 body of
         (seen, m, k, rest) \<Rightarrow>
           if \<not> seen \<or> CHR ''_'' \<in> set s \<and> \<not> underscoreOK s then None
           else case scan_exponent hex rest of
             None \<Rightarrow> None
           | Some e \<Rightarrow>
             (let q = (if hex then of_nat m * pow2 (e - 4 * k)
                       else if 0 \<le> e - k then of_nat m * 10 ^ nat (e - k) else of_nat m / 10 ^ nat (k - e));
                  x = rnd (if neg then - q else q) in
              if x = PInf \<or> x = NInf then None else Some x))"

text \<open>\<open>strings.TrimSpace\<close> (on ASCII), \<open>TrimSuffix\<close>, \<open>HasSuffix\<close>.\<close>

definition is_space :: "char \<Rightarrow> bool" where
  "is_space c = (let n = of_char c :: nat in 9 \<le> n \<and> n \<le> 13 \<or> n = 32)"

definition TrimSpace :: "string \<Rightarrow> string" where
  "TrimSpace s = rev (dropWhile is_space (rev (dropWhile is_space s)))"

definition HasSuffix :: "string \<Rightarrow> string \<Rightarrow> bool" where
  "HasSuffix s suf = (length suf \<le> length s \<and> drop (length s - length suf) s = suf)"

definition TrimSuffix :: "string \<Rightarrow> string \<Rightarrow> string" where
  "TrimSuffix s suf = (if HasSuffix s suf then take (length s - length suf) s else s)"

text \<open>\<open>strings.Contains\<close>.\<close>

definition Contains :: "string \<Rightarrow> string \<Rightarrow> bool" where
  "Contains s sub = list_ex (\<lambda>i. take (length sub) (drop i s) = sub) [0..<Suc (length s)]"

text \<open>\<open>strings.Join\<close>.\<close>

fun Join :: "string list \<Rightarrow> string \<Rightarrow> string" where
  "Join [] sep = []"
| "Join [x] sep = x"
| "Join (x # y # zs) sep = x @ sep @ Join (y # zs) sep"

section \<open>Digits parse back\<close>

lemma digit_value_digit: "d < 10 \<Longrightarrow> digit_value hex (digit d) = Some d"
  by (simp add: digit_value_def is_digit_def char_in_def of_char_digit)

lemma digit_not_point: "d < 10 \<Longrightarrow> digit d \<noteq> CHR ''_'' \<and> digit d \<noteq> CHR ''.''"
  using of_char_digit [of d] by auto

lemma scan_digits:
  "set ds \<subseteq> digit ` {..<10} \<Longrightarrow>
   scan_mantissa False False seen m 0 ds = (seen \<or> ds \<noteq> [], foldl (\<lambda>n c. 10 * n + undigit c) m ds, 0, [])"
proof (induction ds arbitrary: seen m)
  case (Cons c ds)
  then obtain d where "c = digit d" "d < 10" by auto
  then show ?case using Cons by (simp add: digit_not_point digit_value_digit)
qed simp

lemma special_float_digits: "special_float (digits n) = None"
proof -
  obtain c cs where c: "digits n = c # cs" using digits_nonempty [of n] by (cases "digits n") auto
  then obtain d where d: "c = digit d" "d < 10" using set_digits [of n] by auto
  have "lower c = c" using d of_char_digit [of d] by (simp add: lower_def)
  moreover have "c \<noteq> CHR ''n''" "c \<noteq> CHR ''i''" "c \<noteq> CHR ''+''" "c \<noteq> CHR ''-''"
    using d of_char_digit [of d] by auto
  ultimately show ?thesis by (simp add: special_float_def c)
qed

lemma ParseFloat_digits:
  assumes "int n \<le> 2 ^ 53"
  shows "ParseFloat (digits n) = Some (Fin (of_nat n))"
proof -
  have ds: "set (digits n) \<subseteq> digit ` {..<10}" by (rule set_digits)
  have sep: "CHR ''-'' \<notin> set (digits n)" "CHR ''_'' \<notin> set (digits n)" "CHR ''+'' \<notin> set (digits n)"
    "CHR ''x'' \<notin> lower ` set (digits n)"
    using digits_range [of _ n] by (auto simp: lower_def Let_def split: if_splits dest!: digits_range)
  obtain c cs where c: "digits n = c # cs" using digits_nonempty [of n] by (cases "digits n") auto
  have drop: "drop_sign (digits n) = digits n" using sep c by (auto simp: drop_sign_def)
  have hex: "\<not> (3 \<le> length (digits n) \<and> digits n ! 0 = CHR ''0'' \<and> lower (digits n ! 1) = CHR ''x'')"
  proof
    assume a: "3 \<le> length (digits n) \<and> digits n ! 0 = CHR ''0'' \<and> lower (digits n ! 1) = CHR ''x''"
    then have "lower (digits n ! 1) \<in> lower ` set (digits n)" by (intro imageI nth_mem) simp
    then show False using sep(4) a by metis
  qed
  have "scan_mantissa False False False 0 0 (digits n) = (True, n, 0, [])"
    using scan_digits [OF ds, of False 0] undigits_digits [of n] by (simp add: undigits_def)
  note scan = this
  have r: "rnd (of_nat n) = Fin (of_nat n)" using rep_of_int [of "int n"] assms by (simp add: rnd_exact)
  have neg: "(digits n \<noteq> [] \<and> hd (digits n) = CHR ''-'') = False" using sep(1) c by auto
  have hexF: "(3 \<le> length (digits n) \<and> digits n ! 0 = CHR ''0'' \<and> lower (digits n ! 1) = CHR ''x'') = False"
    using hex by blast
  show ?thesis
    unfolding ParseFloat_def special_float_digits Let_def drop hexF neg if_False option.case scan prod.case
    using sep(2) r by (simp add: scan_exponent_def)
qed

end
