(* ===== verification/Slo_Evaluator.thy ===== *)
theory Slo_Evaluator
  imports Go_ParseFloat
begin

text \<open>
  Evaluation of service-level objectives, \<open>internal/slo/evaluator.go\<close> and \<open>internal/slo/promql_builder.go\<close>, on
  the types of \<open>api/slo/v1alpha1/serviceobjective_types.go\<close>. Prometheus is the function \<open>query\<close> on a world \<open>'w\<close>;
  the clock reading at the end is \<open>now\<close>. Errors are values.
\<close>

section \<open>Data\<close>

datatype MetricType =
    MetricLatencyP50 | MetricLatencyP90 | MetricLatencyP95 | MetricLatencyP99
  | MetricErrorRate | MetricAvailability | MetricThroughput | MetricCustom | MetricOther string

fun metricName :: "MetricType \<Rightarrow> string" where
  "metricName MetricLatencyP50 = ''latency_p50''"
| "metricName MetricLatencyP90 = ''latency_p90''"
| "metricName MetricLatencyP95 = ''latency_p95''"
| "metricName MetricLatencyP99 = ''latency_p99''"
| "metricName MetricErrorRate = ''error_rate''"
| "metricName MetricAvailability = ''availability''"
| "metricName MetricThroughput = ''throughput''"
| "metricName MetricCustom = ''custom''"
| "metricName (MetricOther s) = s"

record Objective =
  obj_Metric :: MetricType
  obj_Target :: string
  obj_Window :: string
  obj_CustomQuery :: string

record BurnRateAlert =
  bra_Severity :: string
  bra_ShortWindow :: string
  bra_LongWindow :: string
  bra_Factor :: f64

record ErrorBudget =
  eb_Total :: string
  eb_BurnRateAlerts :: "BurnRateAlert list"

record PromQLBuilder =
  pb_MetricPrefix :: string
  pb_Labels :: string

record ObjectiveResult =
  or_Metric :: MetricType
  or_Target :: f64
  or_Actual :: f64
  or_BurnRate :: f64
  or_Compliant :: bool
  or_BudgetUsed :: f64

record SLOEvaluationResult =
  er_Objectives :: "ObjectiveResult list"
  er_BudgetRemaining :: f64
  er_AllCompliant :: bool
  er_EvaluatedAt :: gotime

datatype target_error = InvalidMs string | InvalidRps string | InvalidPercent string | InvalidTarget string

datatype query_error = CustomQueryMissing | NoTemplate MetricType

datatype slo_error =
    ErrErrorBudget target_error
  | ErrBuildQuery MetricType query_error
  | ErrQuery MetricType string
  | ErrTarget string MetricType target_error

definition defaultErrorBudgetTotal :: f64 where "defaultErrorBudgetTotal = lit (1 / 1000)"
definition defaultEvaluationPeriod :: duration where "defaultEvaluationPeriod = 30 * 24 * hour"

section \<open>Queries\<close>

definition AnnotationMetricsPrefix :: string where "AnnotationMetricsPrefix = ''optipilot.ai/metrics-prefix''"
definition AnnotationMetricsLabels :: string where "AnnotationMetricsLabels = ''optipilot.ai/metrics-labels''"

definition sanitizeName :: "string \<Rightarrow> string" where
  "sanitizeName s = map (\<lambda>c. if c = CHR ''-'' then CHR ''_'' else c) s"

definition NewPromQLBuilderFromAnnotations :: "(string \<rightharpoonup> string) \<Rightarrow> string \<Rightarrow> string \<Rightarrow> PromQLBuilder" where
  "NewPromQLBuilderFromAnnotations annotations deploymentName namespace =
    (let prefix = (case annotations AnnotationMetricsPrefix of
           None \<Rightarrow> sanitizeName deploymentName | Some p \<Rightarrow> if p = [] then sanitizeName deploymentName else p);
         labels = (case annotations AnnotationMetricsLabels of
           None \<Rightarrow> ''namespace='' @ [CHR 0x22] @ namespace @ [CHR 0x22]
         | Some l \<Rightarrow> if l = [] then ''namespace='' @ [CHR 0x22] @ namespace @ [CHR 0x22] else l) in
     \<lparr>pb_MetricPrefix = prefix, pb_Labels = labels\<rparr>)"

definition rateOf :: "string \<Rightarrow> PromQLBuilder \<Rightarrow> string \<Rightarrow> string" where
  "rateOf suffix b w = ''sum(rate('' @ pb_MetricPrefix b @ suffix @ ''{'' @ pb_Labels b @ ''}['' @ w @ '']))''"

definition quantile :: "string \<Rightarrow> PromQLBuilder \<Rightarrow> string \<Rightarrow> string" where
  "quantile q b w = ''histogram_quantile('' @ q @ '', '' @ rateOf ''_bucket'' b w @ '' by (le))''"

fun queryTemplates :: "MetricType \<Rightarrow> PromQLBuilder \<Rightarrow> string \<Rightarrow> string option" where
  "queryTemplates MetricLatencyP99 b w = Some (quantile ''0.99'' b w)"
| "queryTemplates MetricLatencyP95 b w = Some (quantile ''0.95'' b w)"
| "queryTemplates MetricLatencyP90 b w = Some (quantile ''0.90'' b w)"
| "queryTemplates MetricLatencyP50 b w = Some (quantile ''0.50'' b w)"
| "queryTemplates MetricErrorRate b w = Some (rateOf ''_errors_total'' b w @ '' / '' @ rateOf ''_requests_total'' b w)"
| "queryTemplates MetricAvailability b w = Some (''1 - ('' @ rateOf ''_errors_total'' b w @ '' / '' @ rateOf ''_requests_total'' b w @ '')'')"
| "queryTemplates MetricThroughput b w = Some (rateOf ''_requests_total'' b w)"
| "queryTemplates _ b w = None"

definition BuildQuery :: "PromQLBuilder \<Rightarrow> MetricType \<Rightarrow> string \<Rightarrow> string \<Rightarrow> query_error + string" where
  "BuildQuery b metric window customQuery =
    (if TrimSpace customQuery \<noteq> [] then Inr (TrimSpace customQuery)
     else if metric = MetricCustom then Inl CustomQueryMissing
     else case queryTemplates metric b window of None \<Rightarrow> Inl (NoTemplate metric) | Some q \<Rightarrow> Inr q)"

section \<open>Targets and windows\<close>

definition ParseTarget :: "string \<Rightarrow> target_error + f64" where
  "ParseTarget raw =
    (let target = TrimSpace raw in
     if HasSuffix target ''ms'' then
       (case ParseFloat (TrimSuffix target ''ms'') of None \<Rightarrow> Inl (InvalidMs target) | Some v \<Rightarrow> Inr (v / lit 1000))
     else if HasSuffix target ''rps'' then
       (case ParseFloat (TrimSuffix target ''rps'') of None \<Rightarrow> Inl (InvalidRps target) | Some v \<Rightarrow> Inr v)
     else if HasSuffix target ''%'' then
       (case ParseFloat (TrimSuffix target ''%'') of None \<Rightarrow> Inl (InvalidPercent target) | Some v \<Rightarrow> Inr (v / lit 100))
     else case ParseFloat target of None \<Rightarrow> Inl (InvalidTarget target) | Some v \<Rightarrow> Inr v)"

definition parseErrorBudgetTotal :: "ErrorBudget option \<Rightarrow> target_error + f64" where
  "parseErrorBudgetTotal eb = (case eb of
     None \<Rightarrow> Inr defaultErrorBudgetTotal
   | Some b \<Rightarrow> if eb_Total b = [] then Inr defaultErrorBudgetTotal else ParseTarget (eb_Total b))"

definition unitLength :: "char \<Rightarrow> duration option" where
  "unitLength u =
    (if u = CHR ''s'' then Some second else if u = CHR ''m'' then Some minute else if u = CHR ''h'' then Some hour
     else if u = CHR ''d'' then Some (24 * hour) else if u = CHR ''w'' then Some (7 * 24 * hour) else None)"

definition parsePromQLDuration :: "string \<Rightarrow> duration option" where
  "parsePromQLDuration s =
    (if length s < 2 then None
     else case ParseFloat (butlast s) of
       None \<Rightarrow> None
     | Some val \<Rightarrow> map_option (\<lambda>l. to_int64 (val * of_int64 l)) (unitLength (last s)))"

definition parseDurationOrDefault :: "string \<Rightarrow> duration" where
  "parseDurationOrDefault window = (case parsePromQLDuration window of None \<Rightarrow> 5 * minute | Some d \<Rightarrow> d)"

section \<open>Burn rate and budget\<close>

definition isCompliant :: "MetricType \<Rightarrow> f64 \<Rightarrow> f64 \<Rightarrow> bool" where
  "isCompliant metric actual target =
    (if metric \<in> {MetricLatencyP50, MetricLatencyP90, MetricLatencyP95, MetricLatencyP99, MetricErrorRate}
     then actual \<le> target else target \<le> actual)"

definition deficitRate :: "f64 \<Rightarrow> f64 \<Rightarrow> f64 option" where
  "deficitRate actual target = (if target \<le> actual \<or> feq target 0 then None else Some ((target - actual) / target))"

fun badRatio :: "MetricType \<Rightarrow> f64 \<Rightarrow> f64 \<Rightarrow> f64 option" where
  "badRatio MetricErrorRate actual target = Some actual"
| "badRatio MetricAvailability actual target = (if 1 \<le> actual then None else Some (1 - actual))"
| "badRatio MetricThroughput actual target = deficitRate actual target"
| "badRatio MetricCustom actual target = deficitRate actual target"
| "badRatio (MetricOther m) actual target = None"
| "badRatio _ actual target = (if actual \<le> target then None else Some ((actual - target) / target))"

definition computeBurnRate :: "MetricType \<Rightarrow> f64 \<Rightarrow> f64 \<Rightarrow> f64 \<Rightarrow> f64" where
  "computeBurnRate metric actual target errorBudgetTotal =
    (if errorBudgetTotal \<le> 0 then 0
     else case badRatio metric actual target of None \<Rightarrow> 0 | Some r \<Rightarrow> r / errorBudgetTotal)"

text \<open>\<open>Duration.Seconds\<close>.\<close>

definition durationSeconds :: "duration \<Rightarrow> f64" where
  "durationSeconds d =
    (let sec = sgn d * (\<bar>d\<bar> div second); nsec = sgn d * (\<bar>d\<bar> mod second) in
     of_int64 sec + of_int64 nsec / lit 1000000000)"

definition computeBudgetUsed :: "f64 \<Rightarrow> duration \<Rightarrow> f64" where
  "computeBudgetUsed burnRate window =
    (let win = (if window \<le> 0 then 5 * minute else window);
         used = burnRate * (durationSeconds win / durationSeconds defaultEvaluationPeriod) in
     if 1 < used then 1 else used)"

section \<open>Evaluation\<close>

type_synonym 'w prom_query = "string \<Rightarrow> 'w \<Rightarrow> (string + f64) \<times> 'w"

definition windowOf :: "Objective \<Rightarrow> string" where
  "windowOf ob = (if obj_Window ob = [] then ''5m'' else obj_Window ob)"

definition evaluateObjective ::
  "'w prom_query \<Rightarrow> PromQLBuilder \<Rightarrow> f64 \<Rightarrow> Objective \<Rightarrow> 'w \<Rightarrow> (slo_error + ObjectiveResult) \<times> 'w"
where
  "evaluateObjective query b errorBudgetTotal ob w =
    (let metric = obj_Metric ob in
     case BuildQuery b metric (windowOf ob) (obj_CustomQuery ob) of
       Inl e \<Rightarrow> (Inl (ErrBuildQuery metric e), w)
     | Inr q \<Rightarrow>
       (case query q w of
          (Inl e, w') \<Rightarrow> (Inl (ErrQuery metric e), w')
        | (Inr actual, w') \<Rightarrow>
          (case ParseTarget (obj_Target ob) of
             Inl e \<Rightarrow> (Inl (ErrTarget (obj_Target ob) metric e), w')
           | Inr target \<Rightarrow>
             (let burnRate = computeBurnRate metric actual target errorBudgetTotal in
              (Inr \<lparr>or_Metric = metric, or_Target = target, or_Actual = actual, or_BurnRate = burnRate,
                 or_Compliant = isCompliant metric actual target,
                 or_BudgetUsed = computeBudgetUsed burnRate (parseDurationOrDefault (windowOf ob))\<rparr>, w')))))"

text \<open>The loop with its three accumulators.\<close>

fun evaluateLoop ::
  "'w prom_query \<Rightarrow> PromQLBuilder \<Rightarrow> f64 \<Rightarrow> Objective list \<Rightarrow> ObjectiveResult list \<Rightarrow> bool \<Rightarrow> f64 \<Rightarrow> 'w \<Rightarrow>
   (slo_error + ObjectiveResult list \<times> bool \<times> f64) \<times> 'w"
where
  "evaluateLoop query b bud [] results allCompliant worst w = (Inr (results, allCompliant, worst), w)"
| "evaluateLoop query b bud (ob # obs) results allCompliant worst w =
    (case evaluateObjective query b bud ob w of
       (Inl e, w') \<Rightarrow> (Inl e, w')
     | (Inr r, w') \<Rightarrow>
       evaluateLoop query b bud obs (results @ [r]) (if or_Compliant r then allCompliant else False)
         (if worst < or_BudgetUsed r then or_BudgetUsed r else worst) w')"

definition EvaluateSLO ::
  "'w prom_query \<Rightarrow> ('w \<Rightarrow> gotime \<times> 'w) \<Rightarrow> PromQLBuilder \<Rightarrow> ErrorBudget option \<Rightarrow> Objective list \<Rightarrow> 'w \<Rightarrow> (slo_error + SLOEvaluationResult) \<times> 'w"
where
  "EvaluateSLO query now b budget objectives w =
    (case parseErrorBudgetTotal budget of
       Inl e \<Rightarrow> (Inl (ErrErrorBudget e), w)
     | Inr bud \<Rightarrow>
       (case evaluateLoop query b bud objectives [] True 0 w of
          (Inl e, w') \<Rightarrow> (Inl e, w')
        | (Inr (results, allCompliant, worst), w') \<Rightarrow>
          (let remaining = 1 - worst in
           case now w' of (t, w'') \<Rightarrow>
             (Inr \<lparr>er_Objectives = results, er_BudgetRemaining = (if remaining < 0 then 0 else remaining),
                er_AllCompliant = allCompliant, er_EvaluatedAt = t\<rparr>, w''))))"

section \<open>Library\<close>

lemma computeBudgetUsed_le: "0 < computeBudgetUsed r d \<Longrightarrow> unit64 (computeBudgetUsed r d)"
proof -
  let ?u = "r * (durationSeconds (if d \<le> 0 then 5 * minute else d) / durationSeconds defaultEvaluationPeriod)"
  assume "0 < computeBudgetUsed r d"
  moreover have "ok64 ?u" by simp
  ultimately show ?thesis by (cases ?u) (auto simp: computeBudgetUsed_def Let_def zero_Fin one_Fin)
qed

lemma evaluateObjective_fields:
  "evaluateObjective query b bud ob w = (Inr r, w') \<Longrightarrow>
   or_Metric r = obj_Metric ob \<and> Inr (or_Target r) = ParseTarget (obj_Target ob) \<and>
   or_Compliant r = isCompliant (or_Metric r) (or_Actual r) (or_Target r) \<and>
   or_BurnRate r = computeBurnRate (or_Metric r) (or_Actual r) (or_Target r) bud \<and>
   or_BudgetUsed r = computeBudgetUsed (or_BurnRate r) (parseDurationOrDefault (windowOf ob))"
  by (auto simp: evaluateObjective_def Let_def split: sum.splits prod.splits)

definition compliance_ok :: "ObjectiveResult list \<Rightarrow> bool" where
  "compliance_ok rs = list_all (\<lambda>r. or_Compliant r = isCompliant (or_Metric r) (or_Actual r) (or_Target r)) rs"

definition worst_of :: "f64 \<Rightarrow> ObjectiveResult list \<Rightarrow> bool" where
  "worst_of x rs = (unit64 x \<and> list_all (\<lambda>r. \<not> x < or_BudgetUsed r) rs \<and> (x = 0 \<or> list_ex (\<lambda>r. or_BudgetUsed r = x) rs))"

lemma worst_of_snoc:
  assumes "worst_of x rs" "or_BudgetUsed r = computeBudgetUsed b d"
  shows "worst_of (if x < or_BudgetUsed r then or_BudgetUsed r else x) (rs @ [r])"
proof -
  have "unit64 (or_BudgetUsed r)" if "x < or_BudgetUsed r"
  proof -
    have "Fin 0 \<le> x" using assms(1) inrange_less_eq by (auto simp: worst_of_def)
    then have "0 < or_BudgetUsed r" using f64_le_less_trans that by (simp add: zero_Fin)
    then show ?thesis using computeBudgetUsed_le assms(2) by simp
  qed
  moreover have "\<not> y < or_BudgetUsed q" if "\<not> x < or_BudgetUsed q" "x < y" for y q
    using that f64_less_trans by blast
  ultimately show ?thesis using assms(1) by (auto simp: worst_of_def list_all_iff f64_less_irrefl)
qed

lemma evaluateLoop_ok:
  assumes "evaluateLoop query b bud obs rs c worst w = (Inr (rs', c', worst'), w')" "worst_of worst rs"
    "compliance_ok rs" "c = list_all or_Compliant rs"
  shows "worst_of worst' rs' \<and> compliance_ok rs' \<and> c' = list_all or_Compliant rs' \<and>
    map or_Metric rs' = map or_Metric rs @ map obj_Metric obs"
  using assms
proof (induction obs arbitrary: rs c worst w)
  case (Cons ob obs)
  obtain x w1 where x: "evaluateObjective query b bud ob w = (x, w1)" by fastforce
  then obtain r where r: "x = Inr r" using Cons.prems(1) by (cases x) auto
  note f = evaluateObjective_fields [OF x [unfolded r]]
  have "worst_of (if worst < or_BudgetUsed r then or_BudgetUsed r else worst) (rs @ [r])"
    using worst_of_snoc [OF Cons.prems(2)] f by blast
  moreover have "compliance_ok (rs @ [r])" using Cons.prems(3) f by (simp add: compliance_ok_def)
  moreover have "(if or_Compliant r then c else False) = list_all or_Compliant (rs @ [r])" using Cons.prems(4) by simp
  moreover have "evaluateLoop query b bud obs (rs @ [r]) (if or_Compliant r then c else False)
      (if worst < or_BudgetUsed r then or_BudgetUsed r else worst) w1 = (Inr (rs', c', worst'), w')"
    using Cons.prems(1) x r by simp
  ultimately show ?case using Cons.IH f by fastforce
qed simp

section \<open>Properties\<close>


definition demo_objective :: Objective where
  "demo_objective = \<lparr>obj_Metric = MetricAvailability, obj_Target = ''99%'', obj_Window = [], obj_CustomQuery = []\<rparr>"


end
