(* ===== verification/Objective_Controller.thy ===== *)
theory Objective_Controller
  imports Slo_Evaluator
begin

text \<open>
  The reconciler of ServiceObjectives, \<open>internal/controller/serviceobjective_controller.go\<close>: it checks that the
  target exists, evaluates the objectives and writes the status that the optimizer reads. The Kubernetes client,
  Prometheus, the event recorder and the clock are functions on a world \<open>'w\<close>; \<open>apimeta.SetStatusCondition\<close> and the
  text of an evaluation error are functions of \<open>so_deps\<close>. The Prometheus gauges it sets are output only.
\<close>

section \<open>Data\<close>

datatype ConditionStatus = ConditionTrue | ConditionFalse | ConditionUnknown

record Condition =
  cd_Type :: string
  cd_Status :: ConditionStatus
  cd_Reason :: string
  cd_Message :: string
  cd_ObservedGeneration :: int

record CrossVersionObjectReference =
  cvr_APIVersion :: string
  cvr_Kind :: string
  cvr_Name :: string

record ServiceObjectiveStatus =
  sos_CurrentBurn :: "string \<rightharpoonup> string"
  sos_BudgetRemaining :: string
  sos_LastEvaluation :: "gotime option"
  sos_Conditions :: "Condition list"
  sos_ObservedGeneration :: int

record ServiceObjective =
  so_Name :: string
  so_Namespace :: string
  so_Generation :: int
  so_Labels :: "string \<rightharpoonup> string"
  so_TargetRef :: CrossVersionObjectReference
  so_Objectives :: "Objective list"
  so_ErrorBudget :: "ErrorBudget option"
  so_EvaluationInterval :: string
  so_Status :: ServiceObjectiveStatus

datatype api_error = ApiNotFound | ApiError string

text \<open>What the reconciler reads of a Deployment: annotations, name and namespace.\<close>

type_synonym deployment_info = "(string \<rightharpoonup> string) \<times> string \<times> string"

datatype event_type = EventNormal | EventWarning

record 'w so_deps =
  sd_GetObjective :: "string \<Rightarrow> string \<Rightarrow> 'w \<Rightarrow> (api_error + ServiceObjective) \<times> 'w"
  sd_GetDeployment :: "string \<Rightarrow> string \<Rightarrow> 'w \<Rightarrow> (api_error + deployment_info) \<times> 'w"
  sd_UpdateStatus :: "ServiceObjective \<Rightarrow> 'w \<Rightarrow> string option \<times> 'w"
  sd_Query :: "'w prom_query option"
  sd_Event :: "(event_type \<Rightarrow> string \<Rightarrow> string \<Rightarrow> 'w \<Rightarrow> 'w) option"
  sd_now :: "'w \<Rightarrow> gotime \<times> 'w"
  sd_SetCondition :: "Condition list \<Rightarrow> Condition \<Rightarrow> Condition list"
  sd_ErrorText :: "slo_error \<Rightarrow> string"

datatype reconcile_result = Done | RequeueAfter duration | ReconcileError string

definition conditionSLOCompliant :: string where "conditionSLOCompliant = ''SLOCompliant''"
definition conditionBudgetExhausted :: string where "conditionBudgetExhausted = ''BudgetExhausted''"
definition conditionTargetFound :: string where "conditionTargetFound = ''TargetFound''"
definition defaultEvalInterval :: duration where "defaultEvalInterval = 30 * second"
definition exhaustionThreshold :: f64 where "exhaustionThreshold = lit (5 / 100)"

section \<open>Helpers\<close>

text \<open>\<open>strconv.Atoi\<close>; the fast path and the general one accept the same texts.\<close>

definition Atoi :: "string \<Rightarrow> int option" where
  "Atoi s =
    (let ds = drop_sign s; v = (if s \<noteq> [] \<and> hd s = CHR ''-'' then - int (undigits ds) else int (undigits ds)) in
     if ds = [] \<or> \<not> list_all is_digit ds \<or> \<not> in64 v then None else Some v)"

definition evalInterval :: "ServiceObjective \<Rightarrow> duration" where
  "evalInterval so =
    (let raw = TrimSpace (so_EvaluationInterval so);
         secs = (if HasSuffix raw ''s'' then Atoi (TrimSuffix raw ''s'') else None);
         mins = (if HasSuffix raw ''m'' then Atoi (TrimSuffix raw ''m'') else None) in
     if raw = [] then defaultEvalInterval
     else case secs of
       Some n \<Rightarrow> wrap64 (n * second)
     | None \<Rightarrow> (case mins of Some n \<Rightarrow> wrap64 (n * minute) | None \<Rightarrow> defaultEvalInterval))"

definition targetExists :: "'w so_deps \<Rightarrow> ServiceObjective \<Rightarrow> 'w \<Rightarrow> bool \<times> 'w" where
  "targetExists d so w =
    (if cvr_Kind (so_TargetRef so) = ''Deployment'' then
       (case sd_GetDeployment d (so_Namespace so) (cvr_Name (so_TargetRef so)) w of
          (Inl ApiNotFound, w') \<Rightarrow> (False, w') | (_, w') \<Rightarrow> (True, w'))
     else (True, w))"

definition builderForTarget :: "'w so_deps \<Rightarrow> ServiceObjective \<Rightarrow> 'w \<Rightarrow> PromQLBuilder \<times> 'w" where
  "builderForTarget d so w =
    (let fallback = NewPromQLBuilderFromAnnotations Map.empty (cvr_Name (so_TargetRef so)) (so_Namespace so) in
     if cvr_Kind (so_TargetRef so) = ''Deployment'' then
       (case sd_GetDeployment d (so_Namespace so) (cvr_Name (so_TargetRef so)) w of
          (Inr (annotations, name, ns), w') \<Rightarrow> (NewPromQLBuilderFromAnnotations annotations name ns, w')
        | (Inl e, w') \<Rightarrow> (fallback, w'))
     else (fallback, w))"

definition collectViolatingMetrics :: "SLOEvaluationResult \<Rightarrow> string list" where
  "collectViolatingMetrics r = map (\<lambda>x. metricName (or_Metric x)) (filter (\<lambda>x. \<not> or_Compliant x) (er_Objectives r))"

definition emit :: "'w so_deps \<Rightarrow> event_type \<Rightarrow> string \<Rightarrow> string \<Rightarrow> 'w \<Rightarrow> 'w" where
  "emit d t reason msg w = (case sd_Event d of None \<Rightarrow> w | Some f \<Rightarrow> f t reason msg w)"

definition alertMessage :: "BurnRateAlert \<Rightarrow> ObjectiveResult \<Rightarrow> string" where
  "alertMessage a x = ''['' @ bra_Severity a @ ''] Burn rate '' @ fmt_f 2 (or_BurnRate x) @ '' >= threshold '' @ fmt_f 2 (bra_Factor a) @
     '' for metric '' @ metricName (or_Metric x) @ '' (window: '' @ bra_ShortWindow a @ ''/'' @ bra_LongWindow a @ '')''"

definition checkBurnRateAlerts :: "'w so_deps \<Rightarrow> ServiceObjective \<Rightarrow> SLOEvaluationResult \<Rightarrow> 'w \<Rightarrow> 'w" where
  "checkBurnRateAlerts d so r w =
    (case so_ErrorBudget so of
       None \<Rightarrow> w
     | Some eb \<Rightarrow>
       foldl (\<lambda>w (a, x). if bra_Factor a \<le> or_BurnRate x
           then emit d (if bra_Severity a = ''info'' then EventNormal else EventWarning) ''BurnRateAlert'' (alertMessage a x) w else w)
         w (List.product (eb_BurnRateAlerts eb) (er_Objectives r)))"

definition setCondition :: "'w so_deps \<Rightarrow> string \<Rightarrow> ConditionStatus \<Rightarrow> string \<Rightarrow> string \<Rightarrow> ServiceObjective \<Rightarrow> ServiceObjective" where
  "setCondition d ty st reason msg so =
    so\<lparr>so_Status := (so_Status so)\<lparr>sos_Conditions := sd_SetCondition d (sos_Conditions (so_Status so))
      \<lparr>cd_Type = ty, cd_Status = st, cd_Reason = reason, cd_Message = msg, cd_ObservedGeneration = so_Generation so\<rparr>\<rparr>\<rparr>"

section \<open>Reconcile\<close>

definition targetText :: "ServiceObjective \<Rightarrow> string \<Rightarrow> string" where
  "targetText so verb = cvr_Kind (so_TargetRef so) @ '' '' @ [CHR 0x22] @ cvr_Name (so_TargetRef so) @ [CHR 0x22] @ verb"

definition finish :: "'w so_deps \<Rightarrow> ServiceObjective \<Rightarrow> 'w \<Rightarrow> reconcile_result \<times> 'w" where
  "finish d so w = (case sd_UpdateStatus d so w of
     (Some e, w') \<Rightarrow> (ReconcileError e, w')
   | (None, w') \<Rightarrow> (RequeueAfter (evalInterval so), w'))"

definition percent :: "f64 \<Rightarrow> string" where
  "percent x = fmt_f 2 (x * lit 100) @ ''%''"

text \<open>The status after a successful evaluation, with the two conditions and the events that go with them.\<close>

definition evaluatedStatus :: "gotime \<Rightarrow> SLOEvaluationResult \<Rightarrow> ServiceObjective \<Rightarrow> ServiceObjective" where
  "evaluatedStatus now r so =
    so\<lparr>so_Status := (so_Status so)\<lparr>sos_LastEvaluation := Some now, sos_ObservedGeneration := so_Generation so,
      sos_BudgetRemaining := percent (er_BudgetRemaining r),
      sos_CurrentBurn := foldl (\<lambda>m x. m(metricName (or_Metric x) \<mapsto> fmt_f 4 (or_BurnRate x))) Map.empty (er_Objectives r)\<rparr>\<rparr>"

definition setCompliant :: "'w so_deps \<Rightarrow> SLOEvaluationResult \<Rightarrow> ServiceObjective \<Rightarrow> 'w \<Rightarrow> ServiceObjective \<times> 'w" where
  "setCompliant d r so w =
    (if er_AllCompliant r
     then (setCondition d conditionSLOCompliant ConditionTrue ''WithinTarget'' ''All objectives are within their targets'' so, w)
     else
       let msg = ''Objectives violating targets: '' @ Join (collectViolatingMetrics r) '', '' in
       (setCondition d conditionSLOCompliant ConditionFalse ''TargetViolation'' msg so, emit d EventWarning ''SLOViolation'' msg w))"

definition setExhausted :: "'w so_deps \<Rightarrow> SLOEvaluationResult \<Rightarrow> ServiceObjective \<Rightarrow> 'w \<Rightarrow> ServiceObjective \<times> 'w" where
  "setExhausted d r so w =
    (if er_BudgetRemaining r < exhaustionThreshold then
       (let msg = ''Error budget nearly exhausted: '' @ percent (er_BudgetRemaining r) @ '' remaining'' in
        (setCondition d conditionBudgetExhausted ConditionTrue ''BudgetLow'' msg so, emit d EventWarning ''BudgetExhausted'' msg w))
     else (setCondition d conditionBudgetExhausted ConditionFalse ''BudgetAdequate'' (percent (er_BudgetRemaining r) @ '' budget remaining'') so, w))"

definition recordEvaluation :: "'w so_deps \<Rightarrow> SLOEvaluationResult \<Rightarrow> ServiceObjective \<Rightarrow> 'w \<Rightarrow> reconcile_result \<times> 'w" where
  "recordEvaluation d r so w =
    (case sd_now d w of (t, w1) \<Rightarrow>
     (case setCompliant d r (evaluatedStatus t r so) w1 of (so1, w2) \<Rightarrow>
      (case setExhausted d r so1 w2 of (so2, w3) \<Rightarrow> finish d so2 (checkBurnRateAlerts d so2 r w3))))"

definition evaluateAndRecord :: "'w so_deps \<Rightarrow> 'w prom_query \<Rightarrow> ServiceObjective \<Rightarrow> 'w \<Rightarrow> reconcile_result \<times> 'w" where
  "evaluateAndRecord d query so w =
    (case builderForTarget d so w of (b, w1) \<Rightarrow>
     (case EvaluateSLO query (sd_now d) b (so_ErrorBudget so) (so_Objectives so) w1 of
        (Inl e, w2) \<Rightarrow>
          finish d (setCondition d conditionSLOCompliant ConditionUnknown ''EvaluationFailed'' (sd_ErrorText d e) so)
            (emit d EventWarning ''EvaluationFailed'' (sd_ErrorText d e) w2)
      | (Inr r, w2) \<Rightarrow> recordEvaluation d r so w2))"

definition ReconcileObjective :: "'w so_deps \<Rightarrow> string \<Rightarrow> string \<Rightarrow> 'w \<Rightarrow> reconcile_result \<times> 'w" where
  "ReconcileObjective d ns name w =
    (case sd_GetObjective d ns name w of
       (Inl ApiNotFound, w1) \<Rightarrow> (Done, w1)
     | (Inl (ApiError e), w1) \<Rightarrow> (ReconcileError e, w1)
     | (Inr so, w1) \<Rightarrow>
       (case targetExists d so w1 of
          (False, w2) \<Rightarrow> finish d (setCondition d conditionTargetFound ConditionFalse ''NotFound'' (targetText so '' not found'') so) w2
        | (True, w2) \<Rightarrow>
          (let so1 = setCondition d conditionTargetFound ConditionTrue ''Found'' (targetText so '' is present'') so in
           case sd_Query d of
             None \<Rightarrow> finish d so1 w2
           | Some query \<Rightarrow> evaluateAndRecord d query so1 w2)))"

section \<open>What the optimizer reads\<close>

text \<open>\<open>serviceObjectiveReadyForOptimization\<close> of \<open>optimizer_controller.go\<close>: the last condition of a type counts.\<close>

definition conditionStatus :: "string \<Rightarrow> Condition list \<Rightarrow> ConditionStatus option" where
  "conditionStatus ty cs = foldl (\<lambda>s c. if cd_Type c = ty then Some (cd_Status c) else s) None cs"

definition serviceObjectiveReadyForOptimization :: "ServiceObjective \<Rightarrow> bool" where
  "serviceObjectiveReadyForOptimization so =
    (case foldl (\<lambda>(found, known) c.
         if cd_Type c = conditionTargetFound then (cd_Status c = ConditionTrue, known)
         else if cd_Type c = conditionSLOCompliant then (found, cd_Status c \<noteq> ConditionUnknown)
         else (found, known)) (False, False) (sos_Conditions (so_Status so)) of (found, known) \<Rightarrow> found \<and> known)"

section \<open>Lemmas\<close>

text \<open>\<open>status.conditions\<close> is a list keyed by type; \<open>apimeta.SetStatusCondition\<close> replaces the condition of the type
  it is given, or appends it, and leaves the others.\<close>

definition conditions_wf :: "Condition list \<Rightarrow> bool" where
  "conditions_wf cs = distinct (map cd_Type cs)"

definition set_condition_ok :: "(Condition list \<Rightarrow> Condition \<Rightarrow> Condition list) \<Rightarrow> bool" where
  "set_condition_ok f = (\<forall>cs c. conditions_wf cs \<longrightarrow> conditions_wf (f cs c) \<and>
    (\<forall>ty. conditionStatus ty (f cs c) = (if ty = cd_Type c then Some (cd_Status c) else conditionStatus ty cs)))"

lemma ready_iff:
  "serviceObjectiveReadyForOptimization so \<longleftrightarrow>
    conditionStatus conditionTargetFound (sos_Conditions (so_Status so)) = Some ConditionTrue \<and>
    conditionStatus conditionSLOCompliant (sos_Conditions (so_Status so)) \<in> {Some ConditionTrue, Some ConditionFalse}"
proof -
  have ne: "conditionTargetFound \<noteq> conditionSLOCompliant" by (simp add: conditionTargetFound_def conditionSLOCompliant_def)
  have "foldl (\<lambda>(found, known) c.
         if cd_Type c = conditionTargetFound then (cd_Status c = ConditionTrue, known)
         else if cd_Type c = conditionSLOCompliant then (found, cd_Status c \<noteq> ConditionUnknown)
         else (found, known)) (a = Some ConditionTrue, b \<in> {Some ConditionTrue, Some ConditionFalse}) cs =
      (foldl (\<lambda>s c. if cd_Type c = conditionTargetFound then Some (cd_Status c) else s) a cs = Some ConditionTrue,
       foldl (\<lambda>s c. if cd_Type c = conditionSLOCompliant then Some (cd_Status c) else s) b cs \<in> {Some ConditionTrue, Some ConditionFalse})"
    for a b cs
  proof (induction cs arbitrary: a b)
    case (Cons c cs)
    have "(cd_Status c \<noteq> ConditionUnknown) = (Some (cd_Status c) \<in> {Some ConditionTrue, Some ConditionFalse})"
      by (cases "cd_Status c") auto
    then show ?case
      using Cons.IH [of "if cd_Type c = conditionTargetFound then Some (cd_Status c) else a"
          "if cd_Type c = conditionSLOCompliant then Some (cd_Status c) else b"] ne by (auto split: if_splits)
  qed simp
  from this [of None None "sos_Conditions (so_Status so)"] show ?thesis
    by (simp add: serviceObjectiveReadyForOptimization_def conditionStatus_def)
qed

text \<open>The conditions of an object, and what the steps of \<open>Reconcile\<close> do to them.\<close>

abbreviation conds :: "ServiceObjective \<Rightarrow> Condition list" where
  "conds so \<equiv> sos_Conditions (so_Status so)"

lemma setCondition_ok:
  assumes "set_condition_ok (sd_SetCondition d)" and "conditions_wf (conds so)"
  shows "conditions_wf (conds (setCondition d t st reason msg so))"
    and "conditionStatus ty (conds (setCondition d t st reason msg so)) = (if ty = t then Some st else conditionStatus ty (conds so))"
  using assms by (simp_all add: setCondition_def set_condition_ok_def)

lemma setCondition_other [simp]:
  "so_ErrorBudget (setCondition d t st reason msg so) = so_ErrorBudget so"
  "so_Objectives (setCondition d t st reason msg so) = so_Objectives so"
  "so_Namespace (setCondition d t st reason msg so) = so_Namespace so"
  "so_TargetRef (setCondition d t st reason msg so) = so_TargetRef so"
  by (simp_all add: setCondition_def)

lemma builderForTarget_setCondition [simp]:
  "builderForTarget d (setCondition d' t st reason msg so) = builderForTarget d so"
  by (rule ext) (simp add: builderForTarget_def Let_def)

lemma evaluatedStatus_conds [simp]: "conds (evaluatedStatus t r so) = conds so"
  by (simp add: evaluatedStatus_def)

lemma setCompliant_ok:
  assumes "set_condition_ok (sd_SetCondition d)" and "conditions_wf (conds so)" and "setCompliant d r so w = (so', w')"
  shows "conditions_wf (conds so') \<and> conditionStatus ty (conds so') =
    (if ty = conditionSLOCompliant then Some (if er_AllCompliant r then ConditionTrue else ConditionFalse)
     else conditionStatus ty (conds so))"
  using assms(3) setCondition_ok [OF assms(1,2)] by (auto simp: setCompliant_def Let_def split: if_splits)

lemma setExhausted_ok:
  assumes "set_condition_ok (sd_SetCondition d)" and "conditions_wf (conds so)" and "setExhausted d r so w = (so', w')"
  shows "conditions_wf (conds so') \<and> conditionStatus ty (conds so') =
    (if ty = conditionBudgetExhausted then Some (if er_BudgetRemaining r < exhaustionThreshold then ConditionTrue else ConditionFalse)
     else conditionStatus ty (conds so))"
  using assms(3) setCondition_ok [OF assms(1,2)] by (auto simp: setExhausted_def Let_def split: if_splits)

lemmas condition_names = conditionTargetFound_def conditionSLOCompliant_def conditionBudgetExhausted_def

text \<open>The two ways an evaluation ends.\<close>

definition records :: "SLOEvaluationResult \<Rightarrow> ServiceObjective \<Rightarrow> bool" where
  "records r so \<longleftrightarrow>
    conditionStatus conditionSLOCompliant (conds so) = Some (if er_AllCompliant r then ConditionTrue else ConditionFalse) \<and>
    conditionStatus conditionBudgetExhausted (conds so) =
      Some (if er_BudgetRemaining r < exhaustionThreshold then ConditionTrue else ConditionFalse)"

lemma recordEvaluation_ok:
  assumes "set_condition_ok (sd_SetCondition d)" and "conditions_wf (conds so)"
  shows "\<exists>so' w'. recordEvaluation d r so w = finish d so' w' \<and> records r so' \<and>
    conditionStatus conditionTargetFound (conds so') = conditionStatus conditionTargetFound (conds so)"
proof -
  obtain t w1 where t: "sd_now d w = (t, w1)" by fastforce
  obtain so1 w2 where c: "setCompliant d r (evaluatedStatus t r so) w1 = (so1, w2)" by fastforce
  obtain so2 w3 where e: "setExhausted d r so1 w2 = (so2, w3)" by fastforce
  have c': "conditions_wf (conds so1)" "conditionStatus ty (conds so1) =
    (if ty = conditionSLOCompliant then Some (if er_AllCompliant r then ConditionTrue else ConditionFalse)
     else conditionStatus ty (conds so))" for ty
    using setCompliant_ok [OF assms(1) _ c] assms(2) by auto
  show ?thesis
    using t c e setExhausted_ok [OF assms(1) c'(1) e] c'(2)
    by (auto simp: recordEvaluation_def records_def condition_names
        intro!: exI [of _ so2] exI [of _ "checkBurnRateAlerts d so2 r w3"])
qed

section \<open>Properties\<close>

text \<open>C25. What a reconciliation of an existing ServiceObjective writes and the optimizer then reads. When the target
  Deployment is gone the written object is not ready for optimization. Otherwise, with an evaluator, it is
  ready exactly when the evaluation succeeded, and then its SLOCompliant condition says whether all objectives
  meet their targets and BudgetExhausted whether less than 5% of the budget remains. In every case the status
  is written once, last, and a failed write is the error of the reconciliation.\<close>
theorem Reconcile_ready:
  assumes "set_condition_ok (sd_SetCondition d)" and "conditions_wf (conds so)"
    and "sd_GetObjective d ns name w = (Inr so, w1)"
    and "targetExists d so w1 = (present, w2)" and "sd_Query d = Some query"
    and "builderForTarget d so w2 = (b, w3)"
    and "EvaluateSLO query (sd_now d) b (so_ErrorBudget so) (so_Objectives so) w3 = (r, w4)"
  shows "\<exists>so' w'. ReconcileObjective d ns name w = finish d so' w' \<and>
    serviceObjectiveReadyForOptimization so' = (present \<and> \<not> isl r) \<and> (present \<and> \<not> isl r \<longrightarrow> records (projr r) so')"
proof (cases present)
  case False
  let ?so = "setCondition d conditionTargetFound ConditionFalse ''NotFound'' (targetText so '' not found'') so"
  have "\<not> serviceObjectiveReadyForOptimization ?so" using setCondition_ok [OF assms(1,2)] by (simp add: ready_iff)
  moreover have "ReconcileObjective d ns name w = finish d ?so w2" using assms False by (simp add: ReconcileObjective_def)
  ultimately show ?thesis using False by blast
next
  case True
  let ?so = "setCondition d conditionTargetFound ConditionTrue ''Found'' (targetText so '' is present'') so"
  have R: "ReconcileObjective d ns name w = evaluateAndRecord d query ?so w2"
    using assms True by (simp add: ReconcileObjective_def Let_def)
  note so = setCondition_ok [OF assms(1,2), where t = conditionTargetFound and st = ConditionTrue
      and reason = "''Found''" and msg = "targetText so '' is present''"]
  show ?thesis
  proof (cases r)
    case (Inl e)
    let ?so' = "setCondition d conditionSLOCompliant ConditionUnknown ''EvaluationFailed'' (sd_ErrorText d e) ?so"
    have "\<not> serviceObjectiveReadyForOptimization ?so'" using setCondition_ok(2) [OF assms(1) so(1)] by (simp add: ready_iff)
    then show ?thesis using R Inl assms(6,7) True by (auto simp: evaluateAndRecord_def)
  next
    case (Inr x)
    obtain so' w' where s: "recordEvaluation d x ?so w4 = finish d so' w'" "records x so'"
      "conditionStatus conditionTargetFound (conds so') = conditionStatus conditionTargetFound (conds ?so)"
      using recordEvaluation_ok [OF assms(1) so(1)] by blast
    then have "serviceObjectiveReadyForOptimization so'" using so(2) by (simp add: ready_iff records_def)
    then show ?thesis using R s Inr assms(6,7) True by (auto simp: evaluateAndRecord_def)
  qed
qed

text \<open>\<open>apimeta.SetStatusCondition\<close> on a list keyed by type.\<close>

fun setStatusCondition :: "Condition list \<Rightarrow> Condition \<Rightarrow> Condition list" where
  "setStatusCondition [] c = [c]"
| "setStatusCondition (x # xs) c = (if cd_Type x = cd_Type c then c # xs else x # setStatusCondition xs c)"

lemma setStatusCondition_types: "cd_Type ` set (setStatusCondition cs c) = insert (cd_Type c) (cd_Type ` set cs)"
  by (induction cs) auto

lemma setStatusCondition_ok: "set_condition_ok setStatusCondition"
proof -
  have wf: "conditions_wf cs \<Longrightarrow> conditions_wf (setStatusCondition cs c)" for cs c
    by (induction cs) (auto simp: conditions_wf_def setStatusCondition_types)
  have none: "foldl (\<lambda>s c. if cd_Type c = ty then Some (cd_Status c) else s) a cs = a" if "ty \<notin> cd_Type ` set cs" for a cs ty
    using that by (induction cs arbitrary: a) auto
  have "foldl (\<lambda>s c. if cd_Type c = ty then Some (cd_Status c) else s) a (setStatusCondition cs c) =
      (if ty = cd_Type c then Some (cd_Status c) else foldl (\<lambda>s c. if cd_Type c = ty then Some (cd_Status c) else s) a cs)"
    if "conditions_wf cs" for a cs c ty
    using that by (induction cs arbitrary: a) (auto simp: conditions_wf_def none)
  then show ?thesis using wf by (simp add: set_condition_ok_def conditionStatus_def)
qed

definition demo_so :: ServiceObjective where
  "demo_so = \<lparr>so_Name = ''web-slo'', so_Namespace = ''shop'', so_Generation = 1, so_Labels = Map.empty,
    so_TargetRef = \<lparr>cvr_APIVersion = ''apps/v1'', cvr_Kind = ''Deployment'', cvr_Name = ''web''\<rparr>,
    so_Objectives = [demo_objective], so_ErrorBudget = None, so_EvaluationInterval = [],
    so_Status = \<lparr>sos_CurrentBurn = Map.empty, sos_BudgetRemaining = [], sos_LastEvaluation = None, sos_Conditions = [], sos_ObservedGeneration = 0\<rparr>\<rparr>"

text \<open>The world of the witness is the list of the objects written.\<close>

definition demo_so_deps :: "ServiceObjective list so_deps" where
  "demo_so_deps = \<lparr>sd_GetObjective = \<lambda>ns name w. (Inr demo_so, w),
    sd_GetDeployment = \<lambda>ns name w. (Inr (Map.empty, name, ns), w),
    sd_UpdateStatus = \<lambda>so w. (None, so # w), sd_Query = Some (\<lambda>q w. (Inr 1, w)), sd_Event = None, sd_now = Pair 0,
    sd_SetCondition = setStatusCondition, sd_ErrorText = \<lambda>e. []\<rparr>"

lemma Reconcile_ready_witness:
  "case ReconcileObjective demo_so_deps ''shop'' ''web-slo'' [] of
     (RequeueAfter t, so # sos) \<Rightarrow> serviceObjectiveReadyForOptimization so | _ \<Rightarrow> False"
proof -
  let ?d = demo_so_deps
  obtain b w3 where b: "builderForTarget ?d demo_so [] = (b, w3)" by fastforce
  have q: "sd_Query ?d = Some (\<lambda>q w. (Inr 1, w))" and ok: "set_condition_ok (sd_SetCondition ?d)"
    and g: "sd_GetObjective ?d ''shop'' ''web-slo'' [] = (Inr demo_so, [])" and wf: "conditions_wf (conds demo_so)"
    by (simp_all add: demo_so_deps_def setStatusCondition_ok demo_so_def conditions_wf_def)
  have t: "targetExists ?d demo_so [] = (True, [])" by (simp add: targetExists_def demo_so_def demo_so_deps_def)
  let ?E = "EvaluateSLO (\<lambda>q w. (Inr 1, w)) (sd_now ?d) b (so_ErrorBudget demo_so) (so_Objectives demo_so) w3"
  have "case builderForTarget ?d demo_so [] of (b, w3) \<Rightarrow>
      \<not> isl (fst (EvaluateSLO (\<lambda>q w. (Inr 1, w)) (sd_now ?d) b (so_ErrorBudget demo_so) (so_Objectives demo_so) w3))"
    by code_simp
  then have e: "\<not> isl (fst ?E)" by (simp add: b)
  from Reconcile_ready [OF ok wf g t q b] e obtain so' w' where r: "ReconcileObjective ?d ''shop'' ''web-slo'' [] = finish ?d so' w'"
    "serviceObjectiveReadyForOptimization so'" by (metis prod.collapse)
  show ?thesis using r by (simp add: finish_def demo_so_deps_def)
qed

end
