(* ===== verification/Cel_Types.thy ===== *)
theory Cel_Types
  imports Go_Strings
begin

text \<open>
  The data that policies and the solver exchange: \<open>internal/cel/types.go\<close>, the pricing, carbon and
  spot-risk tables of \<open>internal/cel/functions.go\<close> that expressions and the candidate generator
  call, and the policy resource of \<open>api/policy/v1alpha1\<close>.
\<close>

section \<open>State snapshots\<close>

record CandidatePlan =
  cp_Replicas :: int
  cp_CPURequest :: f64
  cp_MemoryRequest :: f64
  cp_SpotRatio :: f64
  cp_SpotCount :: int
  cp_OnDemandCount :: int
  cp_InstanceTypes :: "string list"
  cp_EstimatedCost :: f64
  cp_EstimatedCarbon :: f64

record CurrentState =
  cs_Replicas :: int
  cs_CPURequest :: f64
  cs_MemoryRequest :: f64
  cs_CPUUsage :: f64
  cs_MemoryUsage :: f64
  cs_SpotRatio :: f64
  cs_HourlyCost :: f64

record SLOStatus =
  ss_Compliant :: bool
  ss_BurnRate :: f64
  ss_BudgetRemaining :: f64
  ss_LatencyP99 :: f64
  ss_ErrorRate :: f64
  ss_Availability :: f64
  ss_Throughput :: f64

record TenantStatus =
  ts_Name :: string
  ts_Tier :: string
  ts_Weight :: int
  ts_CurrentCores :: f64
  ts_GuaranteedCores :: f64
  ts_MaxCores :: f64
  ts_BudgetUsedPercent :: f64
  ts_FairnessScore :: f64

record ForecastResult =
  fr_PredictedRPS :: f64
  fr_PredictedLatency :: f64
  fr_ChangePercent :: f64
  fr_Confidence :: f64
  fr_SpotRiskScore :: f64

record ClusterState =
  cl_TotalCores :: f64
  cl_UsedCores :: f64
  cl_TotalMemoryGiB :: f64
  cl_UsedMemoryGiB :: f64
  cl_NodeCount :: int
  cl_SpotNodeCount :: int
  cl_Region :: string
  cl_Provider :: string

text \<open>Go's zero values of these structs.\<close>

definition zero_CurrentState :: CurrentState where
  "zero_CurrentState = \<lparr>cs_Replicas = 0, cs_CPURequest = 0, cs_MemoryRequest = 0, cs_CPUUsage = 0,
     cs_MemoryUsage = 0, cs_SpotRatio = 0, cs_HourlyCost = 0\<rparr>"

definition zero_SLOStatus :: SLOStatus where
  "zero_SLOStatus = \<lparr>ss_Compliant = False, ss_BurnRate = 0, ss_BudgetRemaining = 0, ss_LatencyP99 = 0,
     ss_ErrorRate = 0, ss_Availability = 0, ss_Throughput = 0\<rparr>"

definition zero_TenantStatus :: TenantStatus where
  "zero_TenantStatus = \<lparr>ts_Name = [], ts_Tier = [], ts_Weight = 0, ts_CurrentCores = 0,
     ts_GuaranteedCores = 0, ts_MaxCores = 0, ts_BudgetUsedPercent = 0, ts_FairnessScore = 0\<rparr>"

definition zero_ForecastResult :: ForecastResult where
  "zero_ForecastResult = \<lparr>fr_PredictedRPS = 0, fr_PredictedLatency = 0, fr_ChangePercent = 0,
     fr_Confidence = 0, fr_SpotRiskScore = 0\<rparr>"

definition zero_ClusterState :: ClusterState where
  "zero_ClusterState = \<lparr>cl_TotalCores = 0, cl_UsedCores = 0, cl_TotalMemoryGiB = 0, cl_UsedMemoryGiB = 0,
     cl_NodeCount = 0, cl_SpotNodeCount = 0, cl_Region = [], cl_Provider = []\<rparr>"

section \<open>Lookup tables\<close>

definition SpotRiskFunc :: "string \<Rightarrow> string \<Rightarrow> f64" where
  "SpotRiskFunc instanceType az =
     (case map_of [(''m5.large'', lit (15 / 100)), (''m5.xlarge'', lit (12 / 100)),
        (''m5.2xlarge'', lit (8 / 100)), (''c5.large'', lit (18 / 100)),
        (''c5.xlarge'', lit (14 / 100)), (''r5.large'', lit (10 / 100))] instanceType of
      Some risk \<Rightarrow> risk | None \<Rightarrow> lit (20 / 100))"

definition CarbonIntensityFunc :: "string \<Rightarrow> f64" where
  "CarbonIntensityFunc region =
     (case map_of [(''us-east-1'', lit 380), (''us-west-2'', lit 120), (''eu-west-1'', lit 300),
        (''eu-north-1'', lit 50), (''ap-southeast-1'', lit 500), (''us-central1'', lit 450)] region of
      Some c \<Rightarrow> c | None \<Rightarrow> lit 400)"

definition CostRateFunc :: "string \<Rightarrow> string \<Rightarrow> bool \<Rightarrow> f64" where
  "CostRateFunc instanceType region spot =
     (let p0 = (case map_of [(''m5.large'', lit (96 / 1000)), (''m5.xlarge'', lit (192 / 1000)),
            (''m5.2xlarge'', lit (384 / 1000)), (''c5.large'', lit (85 / 1000)),
            (''c5.xlarge'', lit (170 / 1000)), (''r5.large'', lit (126 / 1000))] instanceType of
          Some p \<Rightarrow> p | None \<Rightarrow> 0);
        price = (if feq p0 0 then lit (10 / 100) else p0) in
      if spot then price * lit (3 / 10) else price)"

section \<open>Policies\<close>

text \<open>The metadata of a policy is its name, namespace, UID and generation; the label selector is
  carried for the controller, the engine does not read it.\<close>

datatype OptimizationDirection = DirectionMinimize | DirectionMaximize

record PolicyObjective =
  po_Name :: string
  po_Weight :: f64
  po_Direction :: OptimizationDirection

record PolicyConstraint =
  pc_Expr :: string
  pc_Reason :: string
  pc_Hard :: bool

record ScalingRule =
  sr_MaxPercent :: int
  sr_CooldownSeconds :: int

record ScalingBehavior =
  sb_ScaleUp :: "ScalingRule option"
  sb_ScaleDown :: "ScalingRule option"

text \<open>Kubernetes' label selector: labels to equal, and requirements of key, operator and values.\<close>

record LabelSelector =
  lsel_MatchLabels :: "(string \<times> string) list"
  lsel_MatchExpressions :: "(string \<times> string \<times> string list) list"

record OptimizationPolicySpec =
  ops_Selector :: "LabelSelector option"
  ops_Objectives :: "PolicyObjective list"
  ops_Constraints :: "PolicyConstraint list"
  ops_ScalingBehavior :: "ScalingBehavior option"
  ops_DryRun :: bool
  ops_Priority :: int

record OptimizationPolicy =
  op_Name :: string
  op_Namespace :: string
  op_UID :: string
  op_Generation :: int
  op_Spec :: OptimizationPolicySpec

section \<open>The rates are positive and spot is cheaper\<close>

lemma rate_bounds [f64_intro]: "a \<in> {1 / 16 .. 1} \<Longrightarrow> inrange (1 / 16) 1 (lit a)"
  by (rule inrange_rnd) (auto intro: rep_dyadic_frac [of _ 4 1])

lemma map_of_values: "map_of xs k = Some v \<Longrightarrow> (\<forall>w \<in> snd ` set xs. P w) \<Longrightarrow> P v"
  by (drule map_of_SomeD) force

lemma cost_base_bounds:
  "inrange (1 / 16) 1 (CostRateFunc instanceType region False)"
proof -
  let ?t = "[(''m5.large'', lit (96 / 1000)), (''m5.xlarge'', lit (192 / 1000)),
            (''m5.2xlarge'', lit (384 / 1000)), (''c5.large'', lit (85 / 1000)),
            (''c5.xlarge'', lit (170 / 1000)), (''r5.large'', lit (126 / 1000))]"
  have "\<forall>w \<in> snd ` set ?t. inrange (1 / 16) 1 w" by (auto intro!: rate_bounds)
  then have "inrange (1 / 16) 1 p" if "map_of ?t instanceType = Some p" for p
    using map_of_values [OF that] by blast
  moreover have "inrange (1 / 16) 1 (lit (10 / 100))" by (rule rate_bounds) simp
  ultimately show ?thesis
    by (cases "map_of ?t instanceType") (simp_all add: CostRateFunc_def Let_def zero_Fin del: map_of.simps)
qed

lemma CostRateFunc_spot:
  "CostRateFunc instanceType region True = CostRateFunc instanceType region False * lit (3 / 10)"
  by (simp add: CostRateFunc_def Let_def)

lemma CostRateFunc_unit: "unit64 (CostRateFunc instanceType region spot)"
proof -
  have b: "unit64 (CostRateFunc instanceType region False)"
    using cost_base_bounds by (rule inrange_weaken) simp_all
  have "unit64 (lit (3 / 10))" by (rule inrange_rnd) simp_all
  then show ?thesis using b unit64_mult CostRateFunc_spot by (cases spot) auto
qed

lemma CarbonIntensityFunc_bounds: "inrange 50 500 (CarbonIntensityFunc region)"
proof -
  let ?t = "[(''us-east-1'', lit 380), (''us-west-2'', lit 120), (''eu-west-1'', lit 300),
        (''eu-north-1'', lit 50), (''ap-southeast-1'', lit 500), (''us-central1'', lit 450)]"
  have l: "inrange 50 500 (lit a)" if "a \<in> {50 .. 500}" for a
    using that by (intro inrange_rnd) auto
  have "\<forall>w \<in> snd ` set ?t. inrange 50 500 w" by (auto intro!: l)
  then have "inrange 50 500 p" if "map_of ?t region = Some p" for p
    using map_of_values [OF that] by blast
  then show ?thesis using l
    by (cases "map_of ?t region") (simp_all add: CarbonIntensityFunc_def del: map_of.simps)
qed

end
