(* ===== verification/Cel_Engine.thy ===== *)
theory Cel_Engine
  imports Cel_Types
begin

text \<open>
  The policy engine of \<open>internal/cel/engine.go\<close>: compilation of a policy's constraints into a cache
  keyed by policy generation, and their evaluation on a context. The CEL library is a parameter: an
  environment compiles an expression, reports its type and makes a program; a program is a function
  of the context. \<open>sync.Map\<close> is a map whose operations are atomic, so concurrent calls are some
  sequence of the operations below.
\<close>

section \<open>Data\<close>

record EvalContext =
  ec_Candidate :: CandidatePlan
  ec_Current :: CurrentState
  ec_SLO :: SLOStatus
  ec_Tenant :: TenantStatus
  ec_Forecast :: ForecastResult
  ec_Metrics :: "string \<rightharpoonup> f64"
  ec_Cluster :: ClusterState

text \<open>The result of a program: a CEL boolean or a value of another type, or an error text.\<close>

datatype cel_val = CelBool bool | CelOther

type_synonym cel_program = "EvalContext \<Rightarrow> string + cel_val"

record 'ast cel_env =
  env_Compile :: "string \<Rightarrow> string + 'ast"
  env_OutputType :: "'ast \<Rightarrow> string"
  env_Program :: "'ast \<Rightarrow> string + cel_program"

record CompiledConstraint =
  cc_Program :: cel_program
  cc_Expr :: string
  cc_Reason :: string
  cc_Hard :: bool

record CompiledPolicy =
  cpo_Constraints :: "CompiledConstraint list"
  cpo_Objectives :: "PolicyObjective list"
  cpo_DryRun :: bool
  cpo_Priority :: int

record ConstraintViolation =
  cv_Expr :: string
  cv_Reason :: string
  cv_Hard :: bool

record EvalResult =
  er_Passed :: bool
  er_Violations :: "ConstraintViolation list"
  er_Penalties :: f64

record 'ast PolicyEngine =
  pe_env :: "'ast cel_env"
  pe_programs :: "string \<rightharpoonup> CompiledPolicy"

datatype cel_error =
    ConstraintError string string
  | ConstraintNotBool string string
  | ConstraintProgram string string
  | NotCompiled string

section \<open>Error texts\<close>

text \<open>\<open>%q\<close>: bytes above 127 are kept, as for printable UTF-8.\<close>

definition hex_digit :: "nat \<Rightarrow> char" where
  "hex_digit n = (if n < 10 then digit n else char_of (87 + n))"

definition quote_byte :: "char \<Rightarrow> string" where
  "quote_byte c = (let n = of_char c :: nat in
     if n = 34 \<or> n = 92 then [char_of (92 :: nat), c]
     else if n = 7 then [char_of (92 :: nat), CHR ''a'']
     else if n = 8 then [char_of (92 :: nat), CHR ''b'']
     else if n = 9 then [char_of (92 :: nat), CHR ''t'']
     else if n = 10 then [char_of (92 :: nat), CHR ''n'']
     else if n = 11 then [char_of (92 :: nat), CHR ''v'']
     else if n = 12 then [char_of (92 :: nat), CHR ''f'']
     else if n = 13 then [char_of (92 :: nat), CHR ''r'']
     else if n < 32 \<or> n = 127 then [char_of (92 :: nat), CHR ''x'', hex_digit (n div 16), hex_digit (n mod 16)]
     else [c])"

definition go_quote :: "string \<Rightarrow> string" where
  "go_quote s = [char_of (34 :: nat)] @ concat (map quote_byte s) @ [char_of (34 :: nat)]"

fun cel_error_text :: "cel_error \<Rightarrow> string" where
  "cel_error_text (ConstraintError e m) = ''constraint '' @ go_quote e @ '': '' @ m"
| "cel_error_text (ConstraintNotBool e t) =
     ''constraint '' @ go_quote e @ '' must return bool, got '' @ t"
| "cel_error_text (ConstraintProgram e m) =
     ''constraint '' @ go_quote e @ '': creating program: '' @ m"
| "cel_error_text (NotCompiled k) = ''policy '' @ go_quote k @ '' not compiled; call Compile first''"

section \<open>Operations\<close>

definition NewPolicyEngine :: "string + 'ast cel_env \<Rightarrow> string + 'ast PolicyEngine" where
  "NewPolicyEngine newEnv = (case newEnv of
     Inl e \<Rightarrow> Inl (''creating CEL environment: '' @ e)
   | Inr env \<Rightarrow> Inr \<lparr>pe_env = env, pe_programs = Map.empty\<rparr>)"

definition PolicyKey :: "OptimizationPolicy \<Rightarrow> string" where
  "PolicyKey policy = op_UID policy @ ''/'' @ fmt_d (op_Generation policy)"

fun compile_constraints :: "'ast cel_env \<Rightarrow> PolicyConstraint list \<Rightarrow> cel_error + CompiledConstraint list" where
  "compile_constraints env [] = Inr []"
| "compile_constraints env (c # cs) =
    (case env_Compile env (pc_Expr c) of
       Inl e \<Rightarrow> Inl (ConstraintError (pc_Expr c) e)
     | Inr ast \<Rightarrow>
       if env_OutputType env ast \<noteq> ''bool'' then Inl (ConstraintNotBool (pc_Expr c) (env_OutputType env ast))
       else (case env_Program env ast of
           Inl e \<Rightarrow> Inl (ConstraintProgram (pc_Expr c) e)
         | Inr prg \<Rightarrow>
           (case compile_constraints env cs of
              Inl e \<Rightarrow> Inl e
            | Inr rest \<Rightarrow> Inr (\<lparr>cc_Program = prg, cc_Expr = pc_Expr c, cc_Reason = pc_Reason c,
                               cc_Hard = pc_Hard c\<rparr> # rest))))"

definition Compile :: "'ast PolicyEngine \<Rightarrow> OptimizationPolicy \<Rightarrow> 'ast PolicyEngine \<times> cel_error option" where
  "Compile e policy =
    (case compile_constraints (pe_env e) (ops_Constraints (op_Spec policy)) of
       Inl err \<Rightarrow> (e, Some err)
     | Inr cs \<Rightarrow>
       (e\<lparr>pe_programs := (pe_programs e)(PolicyKey policy \<mapsto>
            \<lparr>cpo_Constraints = cs, cpo_Objectives = ops_Objectives (op_Spec policy),
             cpo_DryRun = ops_DryRun (op_Spec policy), cpo_Priority = ops_Priority (op_Spec policy)\<rparr>)\<rparr>, None))"

definition GetCompiled :: "'ast PolicyEngine \<Rightarrow> string \<Rightarrow> CompiledPolicy option" where
  "GetCompiled e key = pe_programs e key"

text \<open>One round of the loop of \<open>Evaluate\<close>.\<close>

definition eval_constraint :: "EvalContext \<Rightarrow> EvalResult \<Rightarrow> CompiledConstraint \<Rightarrow> EvalResult" where
  "eval_constraint ctx result c =
    (case cc_Program c ctx of
       Inl err \<Rightarrow>
         result\<lparr>er_Violations := er_Violations result @
             [\<lparr>cv_Expr = cc_Expr c, cv_Reason = ''evaluation error: '' @ err, cv_Hard = cc_Hard c\<rparr>],
           er_Passed := (if cc_Hard c then False else er_Passed result)\<rparr>
     | Inr out \<Rightarrow>
         if out = CelBool True then result
         else result\<lparr>er_Violations := er_Violations result @
             [\<lparr>cv_Expr = cc_Expr c, cv_Reason = cc_Reason c, cv_Hard = cc_Hard c\<rparr>],
           er_Passed := (if cc_Hard c then False else er_Passed result),
           er_Penalties := (if cc_Hard c then er_Penalties result
                            else er_Penalties result + lit (1 / 10))\<rparr>)"

definition Evaluate :: "'ast PolicyEngine \<Rightarrow> string \<Rightarrow> EvalContext \<Rightarrow> cel_error + EvalResult" where
  "Evaluate e policyKey ctx =
    (case pe_programs e policyKey of
       None \<Rightarrow> Inl (NotCompiled policyKey)
     | Some compiled \<Rightarrow>
       Inr (foldl (eval_constraint ctx) \<lparr>er_Passed = True, er_Violations = [], er_Penalties = 0\<rparr>
              (cpo_Constraints compiled)))"

section \<open>What evaluation computes\<close>

definition satisfied :: "EvalContext \<Rightarrow> CompiledConstraint \<Rightarrow> bool" where
  "satisfied ctx c = (cc_Program c ctx = Inr (CelBool True))"

definition violation_of :: "EvalContext \<Rightarrow> CompiledConstraint \<Rightarrow> ConstraintViolation" where
  "violation_of ctx c = \<lparr>cv_Expr = cc_Expr c,
     cv_Reason = (case cc_Program c ctx of Inl err \<Rightarrow> ''evaluation error: '' @ err | Inr _ \<Rightarrow> cc_Reason c),
     cv_Hard = cc_Hard c\<rparr>"

text \<open>The constraints that add a penalty: soft, evaluated, and not true.\<close>

definition penalised :: "EvalContext \<Rightarrow> CompiledConstraint \<Rightarrow> bool" where
  "penalised ctx c = (\<not> cc_Hard c \<and> (case cc_Program c ctx of Inl _ \<Rightarrow> False | Inr out \<Rightarrow> out \<noteq> CelBool True))"

definition tenths :: "nat \<Rightarrow> f64" where
  "tenths n = ((\<lambda>p. p + lit (1 / 10)) ^^ n) 0"

lemma eval_constraint_fields:
  "er_Violations (eval_constraint ctx r c) =
     er_Violations r @ (if satisfied ctx c then [] else [violation_of ctx c])"
  "er_Passed (eval_constraint ctx r c) = (er_Passed r \<and> (cc_Hard c \<longrightarrow> satisfied ctx c))"
  "er_Penalties (eval_constraint ctx r c) =
     (if penalised ctx c then er_Penalties r + lit (1 / 10) else er_Penalties r)"
  by (auto simp: eval_constraint_def satisfied_def violation_of_def penalised_def split: sum.splits)

lemma foldl_eval_constraint:
  "er_Violations (foldl (eval_constraint ctx) r cs) =
     er_Violations r @ map (violation_of ctx) (filter (\<lambda>c. \<not> satisfied ctx c) cs)"
  "er_Passed (foldl (eval_constraint ctx) r cs) =
     (er_Passed r \<and> (\<forall>c \<in> set cs. cc_Hard c \<longrightarrow> satisfied ctx c))"
  "er_Penalties (foldl (eval_constraint ctx) r cs) =
     ((\<lambda>p. p + lit (1 / 10)) ^^ length (filter (penalised ctx) cs)) (er_Penalties r)"
  by (induction cs arbitrary: r) (auto simp: eval_constraint_fields funpow_swap1 [of "\<lambda>p. p + lit (1 / 10)"])

lemma tenths_Suc: "tenths (Suc n) = tenths n + lit (1 / 10)"
  by (simp add: tenths_def)

lemma inrange_tenths: "inrange 0 9007199254740992 (tenths n)"
proof (induction n)
  case (Suc n)
  have "unit64 (lit (1 / 10))" by (rule inrange_rnd) simp_all
  then show ?case using Suc by (simp add: tenths_Suc inrange_add_unit)
qed (simp add: tenths_def zero_Fin)

interpretation programs: kv_store GetCompiled "\<lambda>e k v. e\<lparr>pe_programs := (pe_programs e)(k \<mapsto> v)\<rparr>"
  by unfold_locales (simp add: GetCompiled_def)

lemma compile_constraints_meta:
  "compile_constraints env cs = Inr ccs \<Longrightarrow>
   map cc_Expr ccs = map pc_Expr cs \<and> map cc_Reason ccs = map pc_Reason cs \<and> map cc_Hard ccs = map pc_Hard cs"
  by (induction cs arbitrary: ccs) (auto split: sum.splits if_splits)

lemma PolicyKey_inj:
  "PolicyKey p = PolicyKey q \<longleftrightarrow> op_UID p = op_UID q \<and> op_Generation p = op_Generation q"
  using append_sep_inj [of "op_UID p" "CHR ''/''" "fmt_d (op_Generation p)" "op_UID q" "fmt_d (op_Generation q)"]
  by (auto simp: PolicyKey_def fmt_d_no_slash fmt_d_inj)

lemma Evaluate_compiled:
  assumes "GetCompiled e key = Some cp"
  shows "Evaluate e key ctx = Inr \<lparr>
      er_Passed = (\<forall>c \<in> set (cpo_Constraints cp). cc_Hard c \<longrightarrow> satisfied ctx c),
      er_Violations = map (violation_of ctx) (filter (\<lambda>c. \<not> satisfied ctx c) (cpo_Constraints cp)),
      er_Penalties = tenths (length (filter (penalised ctx) (cpo_Constraints cp)))\<rparr>"
  using assms
  by (auto simp: Evaluate_def GetCompiled_def tenths_def foldl_eval_constraint intro!: EvalResult.equality)

section \<open>Properties\<close>

text \<open>C11. Evaluating a compiled policy never errors; the result is passed exactly when every hard
  constraint evaluates to true, the violations are exactly the constraints that do not evaluate to
  true, in order, and the penalty is 0.1 (in float64) for each soft constraint that evaluates to
  something else.\<close>

theorem Evaluate_spec:
  assumes "GetCompiled e key = Some cp"
  shows "Evaluate e key ctx = Inr \<lparr>
      er_Passed = (\<forall>c \<in> set (cpo_Constraints cp). cc_Hard c \<longrightarrow> satisfied ctx c),
      er_Violations = map (violation_of ctx) (filter (\<lambda>c. \<not> satisfied ctx c) (cpo_Constraints cp)),
      er_Penalties = tenths (length (filter (penalised ctx) (cpo_Constraints cp)))\<rparr>"
  using assms by (rule Evaluate_compiled)

text \<open>A successful compilation makes exactly that policy generation evaluable: its key (the UID
  and generation, which determine the key and are determined by it) returns the compiled
  constraints, every other key returns what it did; a failed compilation changes nothing.\<close>

theorem Compile_cache:
  "case Compile e p of
     (e', Some err) \<Rightarrow> e' = e
   | (e', None) \<Rightarrow>
       (\<exists>cs. compile_constraints (pe_env e) (ops_Constraints (op_Spec p)) = Inr cs \<and>
          (\<forall>q. GetCompiled e' (PolicyKey q) =
             (if op_UID q = op_UID p \<and> op_Generation q = op_Generation p
              then Some \<lparr>cpo_Constraints = cs, cpo_Objectives = ops_Objectives (op_Spec p),
                     cpo_DryRun = ops_DryRun (op_Spec p), cpo_Priority = ops_Priority (op_Spec p)\<rparr>
              else GetCompiled e (PolicyKey q))))"
  by (simp add: Compile_def programs.load_store PolicyKey_inj split: sum.splits)

text \<open>A policy with a hard constraint on replicas and a soft one that is never met.\<close>

definition demo_compiled :: CompiledPolicy where
  "demo_compiled = \<lparr>cpo_Constraints =
       [\<lparr>cc_Program = (\<lambda>ctx. Inr (CelBool (2 \<le> cp_Replicas (ec_Candidate ctx)))),
         cc_Expr = ''candidate.replicas >= 2'', cc_Reason = ''ha'', cc_Hard = True\<rparr>,
        \<lparr>cc_Program = (\<lambda>ctx. Inr (CelBool False)), cc_Expr = ''false'', cc_Reason = ''soft'', cc_Hard = False\<rparr>],
       cpo_Objectives = [], cpo_DryRun = False, cpo_Priority = 100\<rparr>"

definition demo_engine :: "unit PolicyEngine" where
  "demo_engine = \<lparr>pe_env = \<lparr>env_Compile = (\<lambda>_. Inr ()), env_OutputType = (\<lambda>_. ''bool''),
       env_Program = (\<lambda>_. Inr (\<lambda>_. Inr (CelBool True)))\<rparr>, pe_programs = [''uid/1'' \<mapsto> demo_compiled]\<rparr>"

definition demo_plan :: "int \<Rightarrow> CandidatePlan" where
  "demo_plan n = \<lparr>cp_Replicas = n, cp_CPURequest = 1, cp_MemoryRequest = 1, cp_SpotRatio = 0,
     cp_SpotCount = 0, cp_OnDemandCount = n, cp_InstanceTypes = [], cp_EstimatedCost = of_int64 n,
     cp_EstimatedCarbon = of_int64 n\<rparr>"

definition demo_ctx :: "int \<Rightarrow> EvalContext" where
  "demo_ctx n = \<lparr>ec_Candidate = demo_plan n, ec_Current = zero_CurrentState, ec_SLO = zero_SLOStatus,
     ec_Tenant = zero_TenantStatus, ec_Forecast = zero_ForecastResult, ec_Metrics = Map.empty,
     ec_Cluster = zero_ClusterState\<rparr>"

lemma Evaluate_spec_witness:
  "\<exists>r. Evaluate demo_engine ''uid/1'' (demo_ctx 1) = Inr r \<and> \<not> er_Passed r \<and>
     length (er_Violations r) = 2 \<and> er_Penalties r = tenths 1"
  using Evaluate_spec [of demo_engine "''uid/1''" demo_compiled "demo_ctx 1"]
  by (simp add: demo_engine_def GetCompiled_def)
    (simp add: demo_compiled_def satisfied_def penalised_def demo_ctx_def demo_plan_def)

end
