(* ===== verification/Policy_Controller.thy ===== *)
theory Policy_Controller
  imports Objective_Controller Cel_Engine
begin

text \<open>
  The reconciler of OptimizationPolicies, \<open>internal/controller/optimizationpolicy_controller.go\<close>: it compiles the
  constraints of a policy into the engine's cache, writes the outcome to the policy's status, and finds the
  policies of a ServiceObjective for the optimizer. Parameters are the Kubernetes client and event recorder
  (functions on a world \<open>'w\<close>), Kubernetes' label selectors, \<open>apimeta.SetStatusCondition\<close> and \<open>sort.Slice\<close>.
\<close>

section \<open>Data\<close>

record OptimizationPolicyStatus =
  ost_MatchedServices :: int
  ost_CELCompilationStatus :: string
  ost_Conditions :: "Condition list"
  ost_ObservedGeneration :: int

datatype update_error = UpdateConflict | UpdateError string

datatype policy_result = PolicyDone | PolicyRequeue | PolicyError string

text \<open>\<open>pd_Selector\<close> is \<open>metav1.LabelSelectorAsSelector\<close> with the \<open>Matches\<close> of its result, \<open>None\<close> when it fails.\<close>

record 'w policy_deps =
  pd_GetPolicy :: "string \<Rightarrow> string \<Rightarrow> 'w \<Rightarrow> (api_error + OptimizationPolicy \<times> OptimizationPolicyStatus) \<times> 'w"
  pd_ListPolicies :: "string \<Rightarrow> 'w \<Rightarrow> (string + OptimizationPolicy list) \<times> 'w"
  pd_ListObjectives :: "string \<Rightarrow> 'w \<Rightarrow> (string + ServiceObjective list) \<times> 'w"
  pd_UpdateStatus :: "OptimizationPolicy \<Rightarrow> OptimizationPolicyStatus \<Rightarrow> 'w \<Rightarrow> update_error option \<times> 'w"
  pd_Event :: "(event_type \<Rightarrow> string \<Rightarrow> string \<Rightarrow> 'w \<Rightarrow> 'w) option"
  pd_Selector :: "LabelSelector \<Rightarrow> (string + ((string \<rightharpoonup> string) \<Rightarrow> bool))"
  pd_SetCondition :: "Condition list \<Rightarrow> Condition \<Rightarrow> Condition list"
  pd_sort :: "(OptimizationPolicy \<Rightarrow> OptimizationPolicy \<Rightarrow> bool) \<Rightarrow> OptimizationPolicy list \<Rightarrow> OptimizationPolicy list"

section \<open>Matching\<close>

definition policySelects :: "'w policy_deps \<Rightarrow> ServiceObjective \<Rightarrow> OptimizationPolicy \<Rightarrow> bool" where
  "policySelects d so p = (case ops_Selector (op_Spec p) of
     None \<Rightarrow> True
   | Some sel \<Rightarrow> (case pd_Selector d sel of Inl e \<Rightarrow> False | Inr matches \<Rightarrow> matches (so_Labels so)))"

definition higherPriority :: "OptimizationPolicy \<Rightarrow> OptimizationPolicy \<Rightarrow> bool" where
  "higherPriority p q = (ops_Priority (op_Spec q) < ops_Priority (op_Spec p))"

definition FindPoliciesForService :: "'w policy_deps \<Rightarrow> ServiceObjective \<Rightarrow> 'w \<Rightarrow> (string + OptimizationPolicy list) \<times> 'w" where
  "FindPoliciesForService d so w = (case pd_ListPolicies d (so_Namespace so) w of
     (Inl e, w1) \<Rightarrow> (Inl e, w1)
   | (Inr items, w1) \<Rightarrow> (Inr (pd_sort d higherPriority (filter (policySelects d so) items)), w1))"

text \<open>\<open>int32(len(items))\<close> and the 32-bit counter wrap.\<close>

definition countMatchedServices :: "'w policy_deps \<Rightarrow> OptimizationPolicy \<Rightarrow> 'w \<Rightarrow> (string + int) \<times> 'w" where
  "countMatchedServices d p w = (case pd_ListObjectives d (op_Namespace p) w of
     (Inl e, w1) \<Rightarrow> (Inl e, w1)
   | (Inr items, w1) \<Rightarrow>
     (case ops_Selector (op_Spec p) of
        None \<Rightarrow> (Inr (wrap32 (int (length items))), w1)
      | Some sel \<Rightarrow> (case pd_Selector d sel of
          Inl e \<Rightarrow> (Inl e, w1)
        | Inr matches \<Rightarrow> (Inr (foldl (\<lambda>n so. if matches (so_Labels so) then wrap32 (n + 1) else n) 0 items), w1))))"

section \<open>Reconcile\<close>

definition celCondition :: "'w policy_deps \<Rightarrow> OptimizationPolicy \<Rightarrow> ConditionStatus \<Rightarrow> string \<Rightarrow> string \<Rightarrow> string \<Rightarrow> OptimizationPolicyStatus \<Rightarrow> OptimizationPolicyStatus" where
  "celCondition d p st reason msg summary s =
    s\<lparr>ost_CELCompilationStatus := summary, ost_Conditions := pd_SetCondition d (ost_Conditions s)
      \<lparr>cd_Type = ''CELCompiled'', cd_Status = st, cd_Reason = reason, cd_Message = msg, cd_ObservedGeneration = op_Generation p\<rparr>\<rparr>"

text \<open>Compilation, when an engine is wired: the engine afterwards and the status.\<close>

definition compileStep ::
  "'w policy_deps \<Rightarrow> OptimizationPolicy \<Rightarrow> 'ast PolicyEngine option \<Rightarrow> OptimizationPolicyStatus \<Rightarrow> 'w \<Rightarrow>
   'ast PolicyEngine option \<times> OptimizationPolicyStatus \<times> 'w"
where
  "compileStep d p eng s w = (case eng of
     None \<Rightarrow> (None, s, w)
   | Some e \<Rightarrow> (case Compile e p of
       (e', Some err) \<Rightarrow>
         (let msg = ''CEL compilation failed: '' @ cel_error_text err in
          (Some e', celCondition d p ConditionFalse ''CompilationFailed'' msg (''Failed: '' @ cel_error_text err) s,
           case pd_Event d of None \<Rightarrow> w | Some f \<Rightarrow> f EventWarning ''CELCompilationFailed'' msg w))
     | (e', None) \<Rightarrow>
         (Some e', celCondition d p ConditionTrue ''CompilationSucceeded'' ''All constraints compiled successfully'' ''OK'' s, w)))"

definition ReconcilePolicy ::
  "'w policy_deps \<Rightarrow> string \<Rightarrow> string \<Rightarrow> 'ast PolicyEngine option \<Rightarrow> 'w \<Rightarrow> policy_result \<times> 'ast PolicyEngine option \<times> 'w"
where
  "ReconcilePolicy d ns name eng w = (case pd_GetPolicy d ns name w of
     (Inl ApiNotFound, w1) \<Rightarrow> (PolicyDone, eng, w1)
   | (Inl (ApiError e), w1) \<Rightarrow> (PolicyError e, eng, w1)
   | (Inr (p, s), w1) \<Rightarrow>
     (case compileStep d p eng s w1 of (eng', s1, w2) \<Rightarrow>
      (case countMatchedServices d p w2 of (matched, w3) \<Rightarrow>
       (let s2 = (case matched of Inl e \<Rightarrow> s1 | Inr n \<Rightarrow> s1\<lparr>ost_MatchedServices := n\<rparr>);
            s3 = s2\<lparr>ost_ObservedGeneration := op_Generation p\<rparr> in
        case pd_UpdateStatus d p s3 w3 of
          (None, w4) \<Rightarrow> (PolicyDone, eng', w4)
        | (Some UpdateConflict, w4) \<Rightarrow> (PolicyRequeue, eng', w4)
        | (Some (UpdateError e), w4) \<Rightarrow> (PolicyError e, eng', w4)))))"

section \<open>Lemmas\<close>

lemma strict_weak_higherPriority: "strict_weak higherPriority xs"
  by (auto simp: strict_weak_def higherPriority_def)

lemma countMatched_count:
  assumes "countMatchedServices d p w = (Inr n, w')" and "pd_ListObjectives d (op_Namespace p) w = (Inr items, w1)"
    and "length items < 2 ^ 31"
  shows "n = int (length (filter (\<lambda>so. policySelects d so p) items))"
proof -
  have "foldl (\<lambda>n so. if matches (so_Labels so) then wrap32 (n + 1) else n) k xs =
      k + int (length (filter (\<lambda>so. matches (so_Labels so)) xs))"
    if "0 \<le> k" "k + int (length xs) < 2 ^ 31" for k xs and matches :: "(string \<rightharpoonup> string) \<Rightarrow> bool"
    using that by (induction xs arbitrary: k) (auto simp: wrap32_id in32_def)
  from this [of 0 items] show ?thesis
    using assms by (auto simp: countMatchedServices_def policySelects_def wrap32_id in32_def split: option.splits sum.splits)
qed

lemma Compile_key:
  "Compile e p = (e', None) \<Longrightarrow> \<exists>cs. compile_constraints (pe_env e) (ops_Constraints (op_Spec p)) = Inr cs \<and>
     GetCompiled e' (PolicyKey p) = Some \<lparr>cpo_Constraints = cs, cpo_Objectives = ops_Objectives (op_Spec p),
       cpo_DryRun = ops_DryRun (op_Spec p), cpo_Priority = ops_Priority (op_Spec p)\<rparr>"
  by (auto simp: Compile_def GetCompiled_def split: sum.splits)

section \<open>Properties\<close>


definition demo_pol :: "string \<Rightarrow> int \<Rightarrow> LabelSelector option \<Rightarrow> OptimizationPolicy" where
  "demo_pol name prio sel = \<lparr>op_Name = name, op_Namespace = ''shop'', op_UID = name, op_Generation = 1,
    op_Spec = \<lparr>ops_Selector = sel, ops_Objectives = [], ops_Constraints = [], ops_ScalingBehavior = None,
      ops_DryRun = False, ops_Priority = prio\<rparr>\<rparr>"

definition demo_policy_deps :: "unit policy_deps" where
  "demo_policy_deps = \<lparr>pd_GetPolicy = \<lambda>ns name w. (Inl ApiNotFound, w),
    pd_ListPolicies = \<lambda>ns w. (Inr [demo_pol ''low'' 1 None, demo_pol ''other'' 9
      (Some \<lparr>lsel_MatchLabels = [(''tier'', ''gold'')], lsel_MatchExpressions = []\<rparr>), demo_pol ''high'' 5 None], w),
    pd_ListObjectives = \<lambda>ns w. (Inr [demo_so], w), pd_UpdateStatus = \<lambda>p s w. (None, w), pd_Event = None,
    pd_Selector = \<lambda>sel. Inr (\<lambda>labels. list_all (\<lambda>(k, v). labels k = Some v) (lsel_MatchLabels sel)),
    pd_SetCondition = setStatusCondition, pd_sort = isort\<rparr>"


end
