(* ===== verification/Dominance.thy ===== *)
theory Dominance
  imports Go_Base
begin

text \<open>
  The loop that \<open>pruneDominated\<close> and \<open>FindParetoFront\<close> both run: two nested loops over indices mark
  in a boolean slice the elements that some unmarked element dominates, then the unmarked ones are
  collected. The locale \<open>dominance\<close> shows that for a strict partial order the loop keeps exactly
  the non-dominated elements, in their order, whatever the marking order skips.
\<close>

definition mark_row :: "('a \<Rightarrow> 'a \<Rightarrow> bool) \<Rightarrow> 'a list \<Rightarrow> nat \<Rightarrow> bool list \<Rightarrow> bool list" where
  "mark_row dm xs i d = foldl (\<lambda>d j.
     if i = j \<or> d ! j then d else if dm (xs ! i) (xs ! j) then d[j := True] else d) d [0..<length xs]"

definition mark_dominated :: "('a \<Rightarrow> 'a \<Rightarrow> bool) \<Rightarrow> 'a list \<Rightarrow> bool list" where
  "mark_dominated dm xs = foldl (\<lambda>d i. if d ! i then d else mark_row dm xs i d)
     (replicate (length xs) False) [0..<length xs]"

definition unmarked :: "'a list \<Rightarrow> bool list \<Rightarrow> 'a list" where
  "unmarked xs d = map fst (filter (\<lambda>(x, b). \<not> b) (zip xs d))"

definition keep_undominated :: "('a \<Rightarrow> 'a \<Rightarrow> bool) \<Rightarrow> 'a list \<Rightarrow> 'a list" where
  "keep_undominated dm xs = unmarked xs (mark_dominated dm xs)"

definition undominated :: "('a \<Rightarrow> 'a \<Rightarrow> bool) \<Rightarrow> 'a list \<Rightarrow> 'a \<Rightarrow> bool" where
  "undominated dm xs x = (\<not> (\<exists>y \<in> set xs. dm y x))"

section \<open>The rows\<close>

lemma length_mark_row [simp]: "length (mark_row dm xs i d) = length d"
  unfolding mark_row_def by (rule foldl_inv [where P = "\<lambda>e. length e = length d"]) auto

lemma mark_row_nth_aux:
  assumes "length d = length xs" "n \<le> length xs" "k < length xs"
  shows "foldl (\<lambda>d j. if i = j \<or> d ! j then d else if dm (xs ! i) (xs ! j) then d[j := True] else d)
      d [0..<n] ! k \<longleftrightarrow> d ! k \<or> k < n \<and> i \<noteq> k \<and> dm (xs ! i) (xs ! k)"
  using assms(2)
proof (induction n)
  case (Suc n)
  let ?f = "\<lambda>d j. if i = j \<or> d ! j then d else if dm (xs ! i) (xs ! j) then d[j := True] else d"
  have "length (foldl ?f d [0..<n]) = length xs"
    using assms(1) by (intro foldl_inv [where P = "\<lambda>e. length e = length xs"]) auto
  then show ?case using Suc assms(3) by (auto simp: nth_list_update less_Suc_eq)
qed simp

lemma mark_row_nth:
  "length d = length xs \<Longrightarrow> k < length xs \<Longrightarrow>
   mark_row dm xs i d ! k \<longleftrightarrow> d ! k \<or> i \<noteq> k \<and> dm (xs ! i) (xs ! k)"
  unfolding mark_row_def by (simp add: mark_row_nth_aux)

section \<open>Strict partial orders\<close>

locale dominance =
  fixes dm :: "'a \<Rightarrow> 'a \<Rightarrow> bool" and xs :: "'a list"
  assumes dm_irrefl: "x \<in> set xs \<Longrightarrow> \<not> dm x x"
    and dm_trans: "x \<in> set xs \<Longrightarrow> y \<in> set xs \<Longrightarrow> z \<in> set xs \<Longrightarrow> dm x y \<Longrightarrow> dm y z \<Longrightarrow> dm x z"
begin

lemma dominator_undominated:
  assumes "x \<in> set xs" "\<not> undominated dm xs x"
  shows "\<exists>y \<in> set xs. dm y x \<and> undominated dm xs y"
proof -
  let ?D = "{y \<in> set xs. dm y x}"
  let ?r = "{(a, b). a \<in> set xs \<and> b \<in> set xs \<and> dm a b}"
  have "trans ?r" by (auto intro!: transI dest: dm_trans)
  moreover have "irrefl ?r" by (auto simp: irrefl_def dest: dm_irrefl)
  ultimately have "acyclic ?r" by (simp add: acyclic_irrefl trancl_id)
  moreover have "finite ?r" by (rule finite_subset [of _ "set xs \<times> set xs"]) auto
  ultimately have "wf ?r" by (rule finite_acyclic_wf [rotated])
  moreover obtain y0 where "y0 \<in> ?D" using assms(2) by (auto simp: undominated_def)
  ultimately obtain y where y: "y \<in> ?D" and min: "\<And>z. (z, y) \<in> ?r \<Longrightarrow> z \<notin> ?D"
    by (metis (no_types, lifting) wfE_min)
  have "dm z x" if "z \<in> set xs" "dm z y" for z
    using dm_trans [of z y x] that y assms(1) by auto
  then have "undominated dm xs y" using y min by (auto simp: undominated_def)
  then show ?thesis using y by auto
qed

text \<open>After the rows below \<open>n\<close>: what is marked is dominated, and whatever an undominated element
  of a processed row dominates is marked.\<close>

abbreviation marks :: "nat \<Rightarrow> bool list" where
  "marks n \<equiv> foldl (\<lambda>d i. if d ! i then d else mark_row dm xs i d) (replicate (length xs) False) [0..<n]"

lemma length_marks: "length (marks n) = length xs"
  by (rule foldl_inv [where P = "\<lambda>d. length d = length xs"]) auto

lemma marks_sound:
  "n \<le> length xs \<Longrightarrow> k < length xs \<Longrightarrow> marks n ! k \<Longrightarrow> \<not> undominated dm xs (xs ! k)"
proof (induction n)
  case (Suc n)
  then show ?case
    using nth_mem [of n xs] by (auto simp: mark_row_nth length_marks undominated_def split: if_splits)
qed simp

lemma marks_complete:
  "n \<le> length xs \<Longrightarrow> k < length xs \<Longrightarrow> i < n \<Longrightarrow> undominated dm xs (xs ! i) \<Longrightarrow> dm (xs ! i) (xs ! k) \<Longrightarrow> marks n ! k"
proof (induction n)
  case (Suc n)
  have "\<not> marks n ! n" if "i = n" using marks_sound [of n n] Suc.prems that by auto
  moreover have "i \<noteq> k" using Suc.prems dm_irrefl [of "xs ! k"] by auto
  ultimately show ?case using Suc by (auto simp: mark_row_nth length_marks less_Suc_eq)
qed simp

lemma mark_dominated_nth:
  assumes "k < length xs"
  shows "mark_dominated dm xs ! k \<longleftrightarrow> \<not> undominated dm xs (xs ! k)"
proof
  show "\<not> undominated dm xs (xs ! k)" if "mark_dominated dm xs ! k"
    using that marks_sound [of "length xs" k] assms by (simp add: mark_dominated_def)
next
  assume "\<not> undominated dm xs (xs ! k)"
  then obtain y where "y \<in> set xs" "dm y (xs ! k)" "undominated dm xs y"
    using dominator_undominated assms by (meson nth_mem)
  then show "mark_dominated dm xs ! k"
    using marks_complete [of "length xs" k] assms by (metis in_set_conv_nth le_refl mark_dominated_def)
qed

lemma length_mark_dominated: "length (mark_dominated dm xs) = length xs"
  by (simp add: mark_dominated_def length_marks)

theorem keep_undominated_filter: "keep_undominated dm xs = filter (undominated dm xs) xs"
proof -
  have "mark_dominated dm xs = map (\<lambda>x. \<not> undominated dm xs x) xs"
    using mark_dominated_nth length_mark_dominated by (simp add: list_eq_iff_nth_eq)
  moreover have "unmarked xs (map (\<lambda>x. \<not> P x) xs) = filter P xs" for P
    by (simp add: unmarked_def zip_map2 zip_same_conv_map filter_map comp_def)
  ultimately show ?thesis by (simp add: keep_undominated_def)
qed

lemma keep_undominated_nonempty:
  assumes "xs \<noteq> []"
  shows "keep_undominated dm xs \<noteq> []"
  using dominator_undominated hd_in_set [OF assms]
  by (metis (mono_tags, lifting) filter_empty_conv keep_undominated_filter)

end

end
