(* ===== verification/Engine_Types.thy ===== *)
theory Engine_Types
  imports Cel_Engine Dominance
begin

text \<open>The data of the solver, \<open>internal/engine/types.go\<close>.\<close>

datatype ActionType = ActionScaleUp | ActionScaleDown | ActionTune | ActionNoAction

record MatchedPolicy =
  mp_Policy :: OptimizationPolicy
  mp_Key :: string

record SolverInput =
  si_Namespace :: string
  si_Service :: string
  si_Current :: CurrentState
  si_SLO :: SLOStatus
  si_Policies :: "MatchedPolicy list"
  si_Tenant :: "TenantStatus option"
  si_Forecast :: "ForecastResult option"
  si_Metrics :: "string \<rightharpoonup> f64"
  si_Cluster :: ClusterState
  si_InstanceTypes :: "string list"
  si_Region :: string
  si_RightSizedCPU :: "f64 option"
  si_RightSizedMemory :: "f64 option"
  si_Trigger :: string

record ScalingAction =
  sa_Type :: ActionType
  sa_TargetReplica :: int
  sa_CPURequest :: f64
  sa_MemoryRequest :: f64
  sa_SpotRatio :: f64
  sa_DryRun :: bool
  sa_Reason :: string
  sa_Confidence :: f64
  sa_TuningParams :: "string \<rightharpoonup> string"

record CandidateScore =
  sc_SLO :: f64
  sc_Cost :: f64
  sc_Carbon :: f64
  sc_Fairness :: f64
  sc_Weighted :: f64

record ConstraintResult =
  cr_Expr :: string
  cr_Reason :: string
  cr_Hard :: bool
  cr_Passed :: bool
  cr_PolicyName :: string

record ScoredCandidate =
  sd_Plan :: CandidatePlan
  sd_Score :: CandidateScore
  sd_Constraints :: "ConstraintResult list"
  sd_Viable :: bool

record DecisionRecord =
  dr_ID :: string
  dr_Timestamp :: gotime
  dr_Namespace :: string
  dr_Service :: string
  dr_Trigger :: string
  dr_CurrentState :: CurrentState
  dr_SLOStatus :: SLOStatus
  dr_TenantStatus :: "TenantStatus option"
  dr_ForecastState :: "ForecastResult option"
  dr_ClusterState :: ClusterState
  dr_Metrics :: "string \<rightharpoonup> f64"
  dr_Candidates :: "ScoredCandidate list"
  dr_ParetoFront :: "ScoredCandidate list"
  dr_SelectedAction :: ScalingAction
  dr_PolicyNames :: "string list"
  dr_ObjectiveWeights :: "string \<rightharpoonup> f64"
  dr_ActionType :: ActionType
  dr_DryRun :: bool
  dr_Confidence :: f64

end
