(* ===== verification/Candidates.thy ===== *)
theory Candidates
  imports Engine_Types
begin

text \<open>
  Candidate generation, \<open>internal/engine/candidates.go\<close>: the product of replica, resource and spot
  variants with deduplication, the cost and carbon estimates, pruning, sampling, and the candidates
  that a forecast injects. \<open>math/rand\<close>'s seeded permutation is a parameter \<open>rngPerm\<close> of the
  operations that sample; what the library promises of it is \<open>perm_ok\<close>.
\<close>

section \<open>Estimates\<close>

definition DefaultMaxCandidates :: int where
  "DefaultMaxCandidates = 100"

definition replicaMultipliers :: "f64 list" where
  "replicaMultipliers = [lit (5 / 10), lit (75 / 100), lit (9 / 10), lit 1, lit (11 / 10),
     lit (125 / 100), lit (15 / 10), lit 2]"

definition spotRatioVariants :: "f64 list" where
  "spotRatioVariants = [lit 0, lit (3 / 10), lit (5 / 10), lit (8 / 10), lit 1]"

record instanceCapacity =
  ic_CPUCores :: f64
  ic_MemoryGiB :: f64

definition instanceCapacities :: "string \<rightharpoonup> instanceCapacity" where
  "instanceCapacities = map_of
     [(''m5.large'', \<lparr>ic_CPUCores = lit 2, ic_MemoryGiB = lit 8\<rparr>),
      (''m5.xlarge'', \<lparr>ic_CPUCores = lit 4, ic_MemoryGiB = lit 16\<rparr>),
      (''m5.2xlarge'', \<lparr>ic_CPUCores = lit 8, ic_MemoryGiB = lit 32\<rparr>),
      (''c5.large'', \<lparr>ic_CPUCores = lit 2, ic_MemoryGiB = lit 4\<rparr>),
      (''c5.xlarge'', \<lparr>ic_CPUCores = lit 4, ic_MemoryGiB = lit 8\<rparr>),
      (''r5.large'', \<lparr>ic_CPUCores = lit 2, ic_MemoryGiB = lit 16\<rparr>)]"

definition defaultInstanceCapacity :: instanceCapacity where
  "defaultInstanceCapacity = \<lparr>ic_CPUCores = lit 2, ic_MemoryGiB = lit 8\<rparr>"

definition planResourceShare :: "CandidatePlan \<Rightarrow> string \<Rightarrow> f64" where
  "planResourceShare plan instanceType =
    (if cp_CPURequest plan \<le> 0 \<and> cp_MemoryRequest plan \<le> 0 then 1
     else
      let capacity = (case instanceCapacities instanceType of Some c \<Rightarrow> c | None \<Rightarrow> defaultInstanceCapacity);
          cpuShare = (if 0 < ic_CPUCores capacity \<and> 0 < cp_CPURequest plan
                      then cp_CPURequest plan / ic_CPUCores capacity else 0);
          memoryShare = (if 0 < ic_MemoryGiB capacity \<and> 0 < cp_MemoryRequest plan
                         then cp_MemoryRequest plan / ic_MemoryGiB capacity else 0);
          share = fmax cpuShare memoryShare in
      if share \<le> 0 then 1 else share)"

definition estimateCost :: "CandidatePlan \<Rightarrow> string \<Rightarrow> string \<Rightarrow> f64" where
  "estimateCost plan instanceType region =
    (let resourceShare = planResourceShare plan instanceType;
         onDemandRate = CostRateFunc instanceType region False;
         spotRate = CostRateFunc instanceType region True in
     of_int64 (cp_OnDemandCount plan) * onDemandRate * resourceShare +
     of_int64 (cp_SpotCount plan) * spotRate * resourceShare)"

definition pueFactor :: f64 where
  "pueFactor = lit (12 / 10)"

definition estimateCarbon :: "f64 \<Rightarrow> string \<Rightarrow> f64" where
  "estimateCarbon hourlyCost region = hourlyCost * CarbonIntensityFunc region * pueFactor"

section \<open>Generation\<close>

text \<open>Go's map key equality on the struct compares its floats with \<open>==\<close>, so a NaN is never found.\<close>

record candidateKey =
  ck_Replicas :: int
  ck_CPURequest :: f64
  ck_MemoryRequest :: f64
  ck_SpotRatio :: f64

definition candidateKey_eq :: "candidateKey \<Rightarrow> candidateKey \<Rightarrow> bool" where
  "candidateKey_eq a b = (ck_Replicas a = ck_Replicas b \<and> feq (ck_CPURequest a) (ck_CPURequest b) \<and>
     feq (ck_MemoryRequest a) (ck_MemoryRequest b) \<and> feq (ck_SpotRatio a) (ck_SpotRatio b))"

definition currentReplicasOf :: "SolverInput \<Rightarrow> int" where
  "currentReplicasOf input = (if cs_Replicas (si_Current input) < 1 then 1 else cs_Replicas (si_Current input))"

definition resourceVariants :: "SolverInput \<Rightarrow> (f64 \<times> f64) list" where
  "resourceVariants input =
    (let cur = (cs_CPURequest (si_Current input), cs_MemoryRequest (si_Current input)) in
     case (si_RightSizedCPU input, si_RightSizedMemory input) of
       (Some rc, Some rm) \<Rightarrow>
         if \<not> feq rc (fst cur) \<or> \<not> feq rm (snd cur) then [cur, (rc, rm)] else [cur]
     | _ \<Rightarrow> [cur])"

definition firstInstanceType :: "SolverInput \<Rightarrow> string" where
  "firstInstanceType input = (case si_InstanceTypes input of [] \<Rightarrow> ''m5.large'' | t # _ \<Rightarrow> t)"

text \<open>The construction of one plan, which the source writes out three times.\<close>

definition makePlan :: "SolverInput \<Rightarrow> int \<Rightarrow> f64 \<Rightarrow> f64 \<Rightarrow> f64 \<Rightarrow> CandidatePlan" where
  "makePlan input replicas cpu memory sr =
    (let spotCount = to_int64 (fround (of_int64 replicas * sr));
         onDemand = wrap64 (replicas - spotCount);
         plan = \<lparr>cp_Replicas = replicas, cp_CPURequest = cpu, cp_MemoryRequest = memory,
           cp_SpotRatio = sr, cp_SpotCount = spotCount, cp_OnDemandCount = onDemand,
           cp_InstanceTypes = si_InstanceTypes input, cp_EstimatedCost = 0, cp_EstimatedCarbon = 0\<rparr>;
         cost = estimateCost plan (firstInstanceType input) (si_Region input) in
     plan\<lparr>cp_EstimatedCost := cost, cp_EstimatedCarbon := estimateCarbon cost (si_Region input)\<rparr>)"

definition scaledReplicas :: "int \<Rightarrow> f64 \<Rightarrow> int" where
  "scaledReplicas currentReplicas factor =
    (let replicas = to_int64 (fround (of_int64 currentReplicas * factor)) in if replicas < 1 then 1 else replicas)"

text \<open>The body of the innermost loop, on the keys seen and the plans so far.\<close>

definition addCandidate ::
  "SolverInput \<Rightarrow> candidateKey list \<times> CandidatePlan list \<Rightarrow> int \<times> (f64 \<times> f64) \<times> f64
   \<Rightarrow> candidateKey list \<times> CandidatePlan list" where
  "addCandidate input st v =
    (case (st, v) of ((seen, raw), (replicas, (cpu, memory), sr)) \<Rightarrow>
      let key = \<lparr>ck_Replicas = replicas, ck_CPURequest = cpu, ck_MemoryRequest = memory, ck_SpotRatio = sr\<rparr> in
      if list_ex (candidateKey_eq key) seen then (seen, raw)
      else (key # seen, raw @ [makePlan input replicas cpu memory sr]))"

definition variants :: "SolverInput \<Rightarrow> (int \<times> (f64 \<times> f64) \<times> f64) list" where
  "variants input = concat (map (\<lambda>factor. concat (map (\<lambda>rv.
     map (\<lambda>sr. (scaledReplicas (currentReplicasOf input) factor, rv, sr)) spotRatioVariants)
     (resourceVariants input))) replicaMultipliers)"

definition rawCandidates :: "SolverInput \<Rightarrow> CandidatePlan list" where
  "rawCandidates input = snd (foldl (addCandidate input) ([], []) (variants input))"

definition dominates :: "CandidatePlan \<Rightarrow> CandidatePlan \<Rightarrow> bool" where
  "dominates a b = (cp_Replicas a < cp_Replicas b \<and> cp_EstimatedCost a < cp_EstimatedCost b \<and>
     cp_SpotRatio a < cp_SpotRatio b)"

definition pruneDominated :: "CandidatePlan list \<Rightarrow> CandidatePlan list" where
  "pruneDominated candidates = keep_undominated dominates candidates"

definition sampleUniform :: "(int \<Rightarrow> nat \<Rightarrow> nat list) \<Rightarrow> CandidatePlan list \<Rightarrow> int \<Rightarrow> CandidatePlan list" where
  "sampleUniform rngPerm candidates n =
    (if int (length candidates) \<le> n then candidates
     else let perm = rngPerm (int (length candidates)) (length candidates) in
       map (\<lambda>i. candidates ! (perm ! i)) [0..<nat n])"

definition GenerateCandidates :: "(int \<Rightarrow> nat \<Rightarrow> nat list) \<Rightarrow> SolverInput \<Rightarrow> int \<Rightarrow> CandidatePlan list" where
  "GenerateCandidates rngPerm input maxCandidates0 =
    (let maxCandidates = (if maxCandidates0 \<le> 0 then DefaultMaxCandidates else maxCandidates0);
         pruned = pruneDominated (rawCandidates input) in
     if maxCandidates < int (length pruned) then sampleUniform rngPerm pruned maxCandidates else pruned)"

section \<open>Forecast-driven candidates\<close>

definition PreWarmingChangeThreshold :: f64 where
  "PreWarmingChangeThreshold = lit 15"

definition SpotRiskThreshold :: f64 where
  "SpotRiskThreshold = lit (6 / 10)"

definition preWarmingMultipliers :: "f64 list" where
  "preWarmingMultipliers = [lit (13 / 10), lit (15 / 10)]"

definition spotReductionRatios :: "f64 list" where
  "spotReductionRatios = [lit 0, lit (3 / 10)]"

definition PreWarmingCandidates :: "SolverInput \<Rightarrow> CandidatePlan list" where
  "PreWarmingCandidates input =
    (let currentReplicas = currentReplicasOf input in
     concat (map (\<lambda>factor.
       let replicas = to_int64 (fround (of_int64 currentReplicas * factor)) in
       if replicas \<le> currentReplicas then []
       else [makePlan input replicas (cs_CPURequest (si_Current input))
               (cs_MemoryRequest (si_Current input)) (cs_SpotRatio (si_Current input))])
     preWarmingMultipliers))"

definition SpotReductionCandidates :: "SolverInput \<Rightarrow> CandidatePlan list" where
  "SpotReductionCandidates input =
    (let currentReplicas = currentReplicasOf input in
     concat (map (\<lambda>sr.
       if cs_SpotRatio (si_Current input) \<le> sr then []
       else [makePlan input currentReplicas (cs_CPURequest (si_Current input))
               (cs_MemoryRequest (si_Current input)) sr])
     spotReductionRatios))"

definition CandidateDebugString :: "CandidatePlan \<Rightarrow> string" where
  "CandidateDebugString p = ''replicas='' @ fmt_d (cp_Replicas p) @ '' cpu='' @ fmt_f 3 (cp_CPURequest p) @
     '' mem='' @ fmt_f 3 (cp_MemoryRequest p) @ '' spot='' @ fmt_f 0 (cp_SpotRatio p * lit 100) @
     ''% cost=$'' @ fmt_f 4 (cp_EstimatedCost p) @ ''/hr carbon='' @ fmt_f 1 (cp_EstimatedCarbon p) @ ''gCO2/hr''"

section \<open>Library\<close>

subsection \<open>Plans\<close>

text \<open>What every generated plan satisfies when the replica count is within range: the spot and
  on-demand counts split the replicas.\<close>

definition plan_split :: "CandidatePlan \<Rightarrow> bool" where
  "plan_split p = (1 \<le> cp_Replicas p \<and> 0 \<le> cp_SpotCount p \<and> cp_SpotCount p \<le> cp_Replicas p \<and>
     cp_OnDemandCount p = cp_Replicas p - cp_SpotCount p)"

lemma makePlan_fields [simp]:
  "cp_Replicas (makePlan input r c m sr) = r"
  "cp_CPURequest (makePlan input r c m sr) = c"
  "cp_MemoryRequest (makePlan input r c m sr) = m"
  "cp_SpotRatio (makePlan input r c m sr) = sr"
  "cp_InstanceTypes (makePlan input r c m sr) = si_InstanceTypes input"
  by (simp_all add: makePlan_def Let_def)

lemma round_product:
  assumes "0 \<le> r" "r \<le> 2 ^ 53" "inrange 0 (of_int b) x" "0 \<le> b" "r * b \<le> 2 ^ 53"
  shows "0 \<le> to_int64 (fround (of_int64 r * x)) \<and> to_int64 (fround (of_int64 r * x)) \<le> r * b"
proof -
  obtain q where q: "x = Fin q" "0 \<le> q" "q \<le> of_int b" using assms(3) by (auto simp: inrange_iff)
  have "inrange 0 (of_int (r * b)) (rnd (of_int r * q))"
    using assms q by (intro inrange_rnd rep_of_int) (auto intro: mult_left_mono)
  then obtain p where p: "rnd (of_int r * q) = Fin p" "0 \<le> p" "p \<le> of_int (r * b)"
    by (auto simp: inrange_iff)
  have b: "0 \<le> round_rat p \<and> round_rat p \<le> r * b" using round_rat_bounds [of 0 p "r * b"] p by simp
  then have "in64 (round_rat p)" using assms(5) by (simp add: in64_def)
  moreover have "of_int64 r * x = Fin p" using assms p q by (simp add: of_int64_exact)
  ultimately show ?thesis using to_int64_fround [of p] b by simp
qed

lemma plan_split_makePlan:
  assumes "1 \<le> r" "r \<le> 2 ^ 53" "unit64 sr"
  shows "plan_split (makePlan input r c m sr)"
proof -
  have "0 \<le> to_int64 (fround (of_int64 r * sr)) \<and> to_int64 (fround (of_int64 r * sr)) \<le> r"
    using round_product [of r 1 sr] assms by simp
  moreover from this have "in64 (r - to_int64 (fround (of_int64 r * sr)))"
    using assms by (auto simp: in64_def)
  ultimately show ?thesis using assms by (simp add: plan_split_def makePlan_def Let_def wrap_simps)
qed

lemma spotRatioVariants_unit: "sr \<in> set spotRatioVariants \<Longrightarrow> unit64 sr"
  by (auto simp: spotRatioVariants_def intro!: inrange_rnd)

lemma replicaMultipliers_bounds: "factor \<in> set replicaMultipliers \<Longrightarrow> inrange 0 2 factor"
  by (auto simp: replicaMultipliers_def intro!: inrange_rnd)

lemma scaledReplicas_bounds:
  assumes "1 \<le> r" "r \<le> 2 ^ 52" "factor \<in> set replicaMultipliers"
  shows "1 \<le> scaledReplicas r factor" "scaledReplicas r factor \<le> 2 * r"
  using round_product [of r 2 factor] replicaMultipliers_bounds [OF assms(3)] assms(1,2)
  by (auto simp: scaledReplicas_def Let_def)

lemma currentReplicasOf_ge1: "1 \<le> currentReplicasOf input"
  by (simp add: currentReplicasOf_def)

subsection \<open>Estimates are finite\<close>

text \<open>Requests up to \<open>2 ^ 40\<close> cores or GiB, and replica counts up to \<open>2 ^ 53\<close>.\<close>

abbreviation request_ok :: "f64 \<Rightarrow> bool" where
  "request_ok x \<equiv> inrange 0 (2 ^ 40) x"

lemma capacity_bounds:
  "inrange 1 32 (ic_CPUCores (case instanceCapacities t of Some c \<Rightarrow> c | None \<Rightarrow> defaultInstanceCapacity))"
  "inrange 1 32 (ic_MemoryGiB (case instanceCapacities t of Some c \<Rightarrow> c | None \<Rightarrow> defaultInstanceCapacity))"
proof -
  let ?P = "\<lambda>c :: instanceCapacity. inrange 1 32 (ic_CPUCores c) \<and> inrange 1 32 (ic_MemoryGiB c)"
  have d: "?P defaultInstanceCapacity" by (simp add: defaultInstanceCapacity_def rnd_exact)
  have "?P c" if "instanceCapacities t = Some c" for c
    using that unfolding instanceCapacities_def by (rule map_of_values) (simp add: rnd_exact)
  then have "?P (case instanceCapacities t of Some c \<Rightarrow> c | None \<Rightarrow> defaultInstanceCapacity)"
    using d by (cases "instanceCapacities t") auto
  then show "inrange 1 32 (ic_CPUCores (case instanceCapacities t of Some c \<Rightarrow> c | None \<Rightarrow> defaultInstanceCapacity))"
  "inrange 1 32 (ic_MemoryGiB (case instanceCapacities t of Some c \<Rightarrow> c | None \<Rightarrow> defaultInstanceCapacity))"
    by blast+
qed

lemma planResourceShare_bounds:
  assumes "request_ok (cp_CPURequest p)" "request_ok (cp_MemoryRequest p)"
  shows "inrange 0 (2 ^ 40) (planResourceShare p t)"
proof -
  have "rep (2 ^ 40)" by (rule rep_pow2) simp
  then have part: "inrange 0 (2 ^ 40) (if b then x / c else 0)" if "request_ok x" "inrange 1 32 c" for x c b
    using inrange_div_ge1 [OF that] by (simp add: inrange_0)
  have sel: "inrange 0 (2 ^ 40) (if b then 1 else if d then 1 else x)" if "inrange 0 (2 ^ 40) x" for x b d
    using that by (simp add: inrange_1)
  show ?thesis
    unfolding planResourceShare_def Let_def
    by (intro sel inrange_fmax part capacity_bounds assms)
qed

lemma count_bounds: "0 \<le> n \<Longrightarrow> n \<le> 2 ^ 53 \<Longrightarrow> inrange 0 (2 ^ 53) (of_int64 n)"
  using rep_pow2 [of 53] rep_of_int [of n] by (simp add: of_int64_exact)

lemma estimateCost_bounds:
  assumes "plan_split p" "cp_Replicas p \<le> 2 ^ 53" "request_ok (cp_CPURequest p)" "request_ok (cp_MemoryRequest p)"
  shows "inrange 0 (2 ^ 94) (estimateCost p t region)"
proof -
  have part: "inrange 0 (2 ^ 93) (of_int64 n * CostRateFunc t region spot * planResourceShare p t)"
    if "0 \<le> n" "n \<le> 2 ^ 53" for n spot
  proof -
    have "inrange 0 (2 ^ 53 * 1) (of_int64 n * CostRateFunc t region spot)"
      using count_bounds [OF that] CostRateFunc_unit rep_pow2 [of 53] by (intro inrange_mult) simp_all
    then have "inrange 0 (2 ^ 53 * 2 ^ 40) (of_int64 n * CostRateFunc t region spot * planResourceShare p t)"
      using planResourceShare_bounds [OF assms(3,4)] rep_pow2 [of 93] by (intro inrange_mult) simp_all
    then show ?thesis by simp
  qed
  have "inrange (0 + 0) (2 ^ 93 + 2 ^ 93) (estimateCost p t region)"
    unfolding estimateCost_def Let_def
    using assms(1,2) rep_pow2 [of 94] by (intro inrange_add part) (auto simp: plan_split_def)
  then show ?thesis by simp
qed

lemma estimateCarbon_bounds: "inrange 0 (2 ^ 94) cost \<Longrightarrow> inrange 0 (2 ^ 104) (estimateCarbon cost region)"
proof -
  assume c: "inrange 0 (2 ^ 94) cost"
  have "inrange 0 (2 ^ 9) (CarbonIntensityFunc region)"
    using CarbonIntensityFunc_bounds by (rule inrange_weaken) simp_all
  then have i: "inrange 0 (2 ^ 94 * 2 ^ 9) (cost * CarbonIntensityFunc region)"
    using c rep_pow2 [of 103] by (intro inrange_mult) simp_all
  have "inrange 0 2 pueFactor" unfolding pueFactor_def by (rule inrange_rnd) simp_all
  from inrange_mult [OF i this] show ?thesis using rep_pow2 [of 104] by (simp add: estimateCarbon_def)
qed

lemma makePlan_estimates:
  assumes "1 \<le> r" "r \<le> 2 ^ 53" "unit64 sr" "request_ok c" "request_ok m"
  shows "nonneg64 (cp_EstimatedCost (makePlan input r c m sr))" "nonneg64 (cp_EstimatedCarbon (makePlan input r c m sr))"
proof -
  let ?p = "(makePlan input r c m sr)\<lparr>cp_EstimatedCost := 0, cp_EstimatedCarbon := 0\<rparr>"
  have "plan_split ?p" using plan_split_makePlan [OF assms(1-3), of input c m] by (simp add: plan_split_def)
  then have c: "inrange 0 (2 ^ 94) (estimateCost ?p t region)" for t region
    using assms by (intro estimateCost_bounds) simp_all
  have f: "cp_EstimatedCost (makePlan input r c m sr) = estimateCost ?p (firstInstanceType input) (si_Region input)"
    "cp_EstimatedCarbon (makePlan input r c m sr) =
      estimateCarbon (estimateCost ?p (firstInstanceType input) (si_Region input)) (si_Region input)"
    by (simp_all add: makePlan_def Let_def)
  show "nonneg64 (cp_EstimatedCost (makePlan input r c m sr))" "nonneg64 (cp_EstimatedCarbon (makePlan input r c m sr))"
    unfolding f using c estimateCarbon_bounds inrange_nonneg64 by blast+
qed

subsection \<open>The loop\<close>

abbreviation planOf :: "SolverInput \<Rightarrow> int \<times> (f64 \<times> f64) \<times> f64 \<Rightarrow> CandidatePlan" where
  "planOf input v \<equiv> makePlan input (fst v) (fst (fst (snd v))) (snd (fst (snd v))) (snd (snd v))"

definition keyOf :: "CandidatePlan \<Rightarrow> candidateKey" where
  "keyOf p = \<lparr>ck_Replicas = cp_Replicas p, ck_CPURequest = cp_CPURequest p,
     ck_MemoryRequest = cp_MemoryRequest p, ck_SpotRatio = cp_SpotRatio p\<rparr>"

lemma candidateKey_eq_sym: "candidateKey_eq a b \<longleftrightarrow> candidateKey_eq b a"
  by (auto simp: candidateKey_eq_def feq_iff)

text \<open>One step either finds the key or appends the plan.\<close>

lemma addCandidate_alt:
  "addCandidate input (seen, raw) v =
    (if list_ex (candidateKey_eq (keyOf (planOf input v))) seen then (seen, raw)
     else (keyOf (planOf input v) # seen, raw @ [planOf input v]))"
  by (simp add: addCandidate_def Let_def keyOf_def split: prod.splits)

lemma snd_addCandidate:
  "snd (addCandidate input st v) =
    snd st @ (if list_ex (candidateKey_eq (keyOf (planOf input v))) (fst st) then [] else [planOf input v])"
  by (cases st) (simp add: addCandidate_alt)

lemma addCandidate_set:
  "set (snd (foldl (addCandidate input) st vs)) \<subseteq> set (snd st) \<union> planOf input ` set vs"
proof (induction vs arbitrary: st)
  case (Cons v vs)
  have "set (snd (addCandidate input st v)) \<subseteq> set (snd st) \<union> {planOf input v}"
    by (auto simp: snd_addCandidate)
  then show ?case using Cons.IH [of "addCandidate input st v"] by (simp; blast)
qed simp

text \<open>No two plans share a key.\<close>

definition keys_differ :: "CandidatePlan list \<Rightarrow> bool" where
  "keys_differ ps = sorted_wrt (\<lambda>a b. \<not> candidateKey_eq (keyOf a) (keyOf b)) ps"

lemma addCandidate_keys:
  assumes "fst st = rev (map keyOf (snd st))" "keys_differ (snd st)"
  shows "keys_differ (snd (foldl (addCandidate input) st vs))"
proof -
  let ?P = "\<lambda>st. fst st = rev (map keyOf (snd st)) \<and> keys_differ (snd st)"
  have "?P (foldl (addCandidate input) st vs)"
  proof (rule foldl_inv)
    fix st v assume a: "?P st"
    obtain seen raw where st: "st = (seen, raw)" by fastforce
    show "?P (addCandidate input st v)"
      using a by (auto simp: st addCandidate_alt keys_differ_def sorted_wrt_append list_ex_iff
          candidateKey_eq_sym [of "keyOf (makePlan _ _ _ _ _)"])
  qed (use assms in simp)
  then show ?thesis by simp
qed

lemma addCandidate_length:
  "length (snd (foldl (addCandidate input) st vs)) \<le> length (snd st) + length vs"
proof (induction vs arbitrary: st)
  case (Cons v vs)
  have "length (snd (addCandidate input st v)) \<le> length (snd st) + 1"
    by (simp add: snd_addCandidate)
  then show ?case using Cons.IH [of "addCandidate input st v"] by simp
qed simp

lemma length_concat_const: "(\<And>x. x \<in> set xs \<Longrightarrow> length (f x) = n) \<Longrightarrow> length (concat (map f xs)) = length xs * n"
  by (induction xs) auto

lemma length_resourceVariants: "length (resourceVariants input) \<le> 2"
  by (auto simp: resourceVariants_def Let_def split: option.splits)

lemma length_variants: "length (variants input) \<le> 80"
proof -
  have "length (variants input) = length replicaMultipliers * (length (resourceVariants input) * length spotRatioVariants)"
    unfolding variants_def by (intro length_concat_const) (simp add: length_concat_const)
  then show ?thesis
    using length_resourceVariants [of input] by (simp add: replicaMultipliers_def spotRatioVariants_def)
qed

lemma length_rawCandidates: "length (rawCandidates input) \<le> 80"
  using addCandidate_length [of input "([], [])" "variants input"] length_variants [of input]
  by (simp add: rawCandidates_def)

lemma rawCandidates_set:
  assumes "p \<in> set (rawCandidates input)"
  obtains factor c m sr where "factor \<in> set replicaMultipliers" "(c, m) \<in> set (resourceVariants input)"
    "sr \<in> set spotRatioVariants" "p = makePlan input (scaledReplicas (currentReplicasOf input) factor) c m sr"
  using assms addCandidate_set [of input "([], [])" "variants input"]
  by (fastforce simp: rawCandidates_def variants_def)

lemma rawCandidates_nonempty: "rawCandidates input \<noteq> []"
proof -
  have "resourceVariants input \<noteq> []"
    by (auto simp: resourceVariants_def Let_def split: option.splits)
  then obtain v vs where v: "variants input = v # vs"
    by (cases "resourceVariants input") (simp_all add: variants_def replicaMultipliers_def spotRatioVariants_def)
  have "snd (foldl (addCandidate input) (addCandidate input ([], []) v) vs) \<noteq> []"
    by (rule foldl_inv [where P = "\<lambda>st. snd st \<noteq> []"]) (simp_all add: snd_addCandidate)
  then show ?thesis by (simp add: rawCandidates_def v)
qed

lemma rawCandidates_keys: "keys_differ (rawCandidates input)"
  unfolding rawCandidates_def by (rule addCandidate_keys) (simp_all add: keys_differ_def)

text \<open>Inputs on which no estimate overflows, and the plans they give.\<close>

definition input_finite :: "SolverInput \<Rightarrow> bool" where
  "input_finite input = (cs_Replicas (si_Current input) \<le> 2 ^ 52 \<and>
     request_ok (cs_CPURequest (si_Current input)) \<and> request_ok (cs_MemoryRequest (si_Current input)) \<and>
     unit64 (cs_SpotRatio (si_Current input)) \<and>
     (case si_RightSizedCPU input of None \<Rightarrow> True | Some c \<Rightarrow> request_ok c) \<and>
     (case si_RightSizedMemory input of None \<Rightarrow> True | Some m \<Rightarrow> request_ok m))"

definition plan_good :: "CandidatePlan \<Rightarrow> bool" where
  "plan_good p = (plan_split p \<and> in64 (cp_Replicas p) \<and> request_ok (cp_CPURequest p) \<and>
     request_ok (cp_MemoryRequest p) \<and> unit64 (cp_SpotRatio p) \<and>
     nonneg64 (cp_EstimatedCost p) \<and> nonneg64 (cp_EstimatedCarbon p))"

lemma plan_good_makePlan:
  assumes "1 \<le> r" "r \<le> 2 ^ 53" "unit64 sr" "request_ok c" "request_ok m"
  shows "plan_good (makePlan input r c m sr)"
  using assms plan_split_makePlan makePlan_estimates by (simp add: plan_good_def in64_def)

lemma resourceVariants_ok:
  assumes "input_finite input" "(c, m) \<in> set (resourceVariants input)"
  shows "request_ok c" "request_ok m"
  using assms by (auto simp: resourceVariants_def input_finite_def Let_def split: option.splits if_splits)

lemma rawCandidates_good:
  assumes "input_finite input" "p \<in> set (rawCandidates input)"
  shows "plan_good p"
  using assms(2)
proof (rule rawCandidates_set)
  fix factor c m sr
  assume v: "factor \<in> set replicaMultipliers" "(c, m) \<in> set (resourceVariants input)"
    "sr \<in> set spotRatioVariants" "p = makePlan input (scaledReplicas (currentReplicasOf input) factor) c m sr"
  have "currentReplicasOf input \<le> 2 ^ 52" using assms(1) by (simp add: input_finite_def currentReplicasOf_def)
  then have "1 \<le> scaledReplicas (currentReplicasOf input) factor" "scaledReplicas (currentReplicasOf input) factor \<le> 2 ^ 53"
    using scaledReplicas_bounds [OF currentReplicasOf_ge1 _ v(1)] by fastforce+
  then show ?thesis
    unfolding v(4) using v resourceVariants_ok [OF assms(1)] spotRatioVariants_unit by (intro plan_good_makePlan) auto
qed

lemma injected_good:
  assumes "input_finite input" "p \<in> set (PreWarmingCandidates input) \<union> set (SpotReductionCandidates input)"
  shows "plan_good p"
proof -
  have cur: "1 \<le> currentReplicasOf input" "currentReplicasOf input \<le> 2 ^ 52"
    "request_ok (cs_CPURequest (si_Current input))" "request_ok (cs_MemoryRequest (si_Current input))"
    "unit64 (cs_SpotRatio (si_Current input))"
    using assms(1) currentReplicasOf_ge1 by (auto simp: input_finite_def currentReplicasOf_def)
  have "inrange 0 2 factor" if "factor \<in> set preWarmingMultipliers" for factor
    using that by (auto simp: preWarmingMultipliers_def intro!: inrange_rnd)
  then have "to_int64 (fround (of_int64 (currentReplicasOf input) * factor)) \<le> 2 ^ 53"
    if "factor \<in> set preWarmingMultipliers" for factor
    using round_product [of "currentReplicasOf input" 2 factor] that cur by fastforce
  moreover have "unit64 sr" if "sr \<in> set spotReductionRatios" for sr
    using that by (auto simp: spotReductionRatios_def intro!: inrange_rnd)
  ultimately show ?thesis
    using assms(2) cur
    by (auto simp: PreWarmingCandidates_def SpotReductionCandidates_def Let_def split: if_splits intro!: plan_good_makePlan)
qed

subsection \<open>Pruning and sampling\<close>

interpretation prune: dominance dominates xs for xs
  by unfold_locales (auto simp: dominates_def intro: f64_less_trans)

lemma pruneDominated_filter: "pruneDominated xs = filter (undominated dominates xs) xs"
  by (simp add: pruneDominated_def prune.keep_undominated_filter)

text \<open>What \<open>Rand.Perm\<close> promises: a permutation of the first \<open>n\<close> naturals.\<close>

definition perm_ok :: "(int \<Rightarrow> nat \<Rightarrow> nat list) \<Rightarrow> bool" where
  "perm_ok rngPerm = (\<forall>seed n. distinct (rngPerm seed n) \<and> set (rngPerm seed n) = {..<n})"

lemma keys_differ_nth:
  "keys_differ ps \<longleftrightarrow> (\<forall>i < length ps. \<forall>j < length ps. i \<noteq> j \<longrightarrow> \<not> candidateKey_eq (keyOf (ps ! i)) (keyOf (ps ! j)))"
proof
  assume k: "keys_differ ps"
  have "\<not> candidateKey_eq (keyOf (ps ! i)) (keyOf (ps ! j))" if "i < j" "j < length ps" for i j
    using k that by (simp add: keys_differ_def sorted_wrt_iff_nth_less)
  then show "\<forall>i < length ps. \<forall>j < length ps. i \<noteq> j \<longrightarrow> \<not> candidateKey_eq (keyOf (ps ! i)) (keyOf (ps ! j))"
    using candidateKey_eq_sym by (metis linorder_neqE_nat)
qed (simp add: keys_differ_def sorted_wrt_iff_nth_less)

lemma sampleUniform_props:
  assumes "perm_ok rngPerm" "0 < n" "n < int (length ps)"
  shows "length (sampleUniform rngPerm ps n) = nat n" "set (sampleUniform rngPerm ps n) \<subseteq> set ps"
    "keys_differ ps \<Longrightarrow> keys_differ (sampleUniform rngPerm ps n)"
proof -
  define perm where "perm = rngPerm (int (length ps)) (length ps)"
  have p: "distinct perm" "set perm = {..<length ps}" using assms(1) by (auto simp: perm_ok_def perm_def)
  then have lp: "length perm = length ps" by (metis card_lessThan distinct_card)
  have s: "sampleUniform rngPerm ps n = map (\<lambda>i. ps ! (perm ! i)) [0..<nat n]"
    using assms(3) by (simp add: sampleUniform_def perm_def)
  have lt: "perm ! i < length ps" if "i < nat n" for i
  proof -
    have "i < length perm" using that lp assms(3) by linarith
    then show ?thesis using p(2) nth_mem by blast
  qed
  show "length (sampleUniform rngPerm ps n) = nat n" by (simp add: s)
  show "set (sampleUniform rngPerm ps n) \<subseteq> set ps" using lt by (auto simp: s)
  have "perm ! i \<noteq> perm ! j" if "i < nat n" "j < nat n" "i \<noteq> j" for i j
    using that p lp assms(3) by (simp add: nth_eq_iff_index_eq)
  then show "keys_differ (sampleUniform rngPerm ps n)" if "keys_differ ps"
    using that lt by (simp add: keys_differ_nth s)
qed

lemma pruned_props:
  "pruneDominated (rawCandidates input) \<noteq> []" "keys_differ (pruneDominated (rawCandidates input))"
  "set (pruneDominated (rawCandidates input)) \<subseteq> set (rawCandidates input)"
  "length (pruneDominated (rawCandidates input)) \<le> 80"
proof -
  show "pruneDominated (rawCandidates input) \<noteq> []"
    using prune.keep_undominated_nonempty rawCandidates_nonempty by (simp add: pruneDominated_def)
  show "keys_differ (pruneDominated (rawCandidates input))"
    using rawCandidates_keys by (simp add: keys_differ_def pruneDominated_filter sorted_wrt_filter)
  show "length (pruneDominated (rawCandidates input)) \<le> 80"
    using length_filter_le [of _ "rawCandidates input"] length_rawCandidates [of input]
    by (metis le_trans pruneDominated_filter)
qed (simp add: pruneDominated_filter)

lemma GenerateCandidates_cases:
  assumes "perm_ok rngPerm"
  shows "GenerateCandidates rngPerm input n \<noteq> []"
    "int (length (GenerateCandidates rngPerm input n)) \<le> (if n \<le> 0 then DefaultMaxCandidates else n)"
    "keys_differ (GenerateCandidates rngPerm input n)"
    "set (GenerateCandidates rngPerm input n) \<subseteq> set (rawCandidates input)"
proof -
  let ?p = "pruneDominated (rawCandidates input)"
  consider "GenerateCandidates rngPerm input n = ?p" "int (length ?p) \<le> (if n \<le> 0 then DefaultMaxCandidates else n)"
    | "GenerateCandidates rngPerm input n = sampleUniform rngPerm ?p n" "0 < n" "n < int (length ?p)"
    using pruned_props(4) [of input]
    by (fastforce simp: GenerateCandidates_def Let_def DefaultMaxCandidates_def split: if_splits)
  note c = this
  show "GenerateCandidates rngPerm input n \<noteq> []"
    using c by cases (use pruned_props(1) sampleUniform_props(1) [OF assms] in \<open>auto simp flip: length_greater_0_conv\<close>)
  show "int (length (GenerateCandidates rngPerm input n)) \<le> (if n \<le> 0 then DefaultMaxCandidates else n)"
    using c by cases (auto simp: sampleUniform_props(1) [OF assms])
  show "keys_differ (GenerateCandidates rngPerm input n)"
    using c by cases (use pruned_props(2) sampleUniform_props(3) [OF assms] in auto)
  show "set (GenerateCandidates rngPerm input n) \<subseteq> set (rawCandidates input)"
    using c pruned_props(3) [of input] by cases (auto dest: subsetD [OF sampleUniform_props(2) [OF assms]])
qed

lemma raw_plan_ok:
  assumes "p \<in> set (rawCandidates input)" "cs_Replicas (si_Current input) \<le> 2 ^ 52"
  shows "plan_split p" "cp_Replicas p \<le> 2 * max 1 (cs_Replicas (si_Current input))"
    "cp_SpotRatio p \<in> set spotRatioVariants" "(cp_CPURequest p, cp_MemoryRequest p) \<in> set (resourceVariants input)"
proof -
  obtain factor c m sr where v: "factor \<in> set replicaMultipliers" "(c, m) \<in> set (resourceVariants input)"
    "sr \<in> set spotRatioVariants" "p = makePlan input (scaledReplicas (currentReplicasOf input) factor) c m sr"
    using assms(1) by (rule rawCandidates_set)
  let ?r = "scaledReplicas (currentReplicasOf input) factor"
  have r: "1 \<le> ?r" "?r \<le> 2 * currentReplicasOf input" "currentReplicasOf input \<le> 2 ^ 52"
    using scaledReplicas_bounds [OF currentReplicasOf_ge1 _ v(1)] assms(2) by (auto simp: currentReplicasOf_def)
  then show "plan_split p" using v spotRatioVariants_unit by (auto intro!: plan_split_makePlan)
  show "cp_Replicas p \<le> 2 * max 1 (cs_Replicas (si_Current input))"
    using r v(4) by (auto simp: currentReplicasOf_def)
  show "cp_SpotRatio p \<in> set spotRatioVariants" "(cp_CPURequest p, cp_MemoryRequest p) \<in> set (resourceVariants input)"
    using v by simp_all
qed

section \<open>Properties\<close>

text \<open>Pruning keeps exactly the plans that no other plan strictly beats on replicas, cost and spot
  ratio at once, in their order, for every list of plans, NaN and infinite costs included.\<close>

theorem pruneDominated_spec:
  "pruneDominated candidates = filter (\<lambda>b. \<not> (\<exists>a \<in> set candidates.
     cp_Replicas a < cp_Replicas b \<and> cp_EstimatedCost a < cp_EstimatedCost b \<and> cp_SpotRatio a < cp_SpotRatio b))
   candidates"
  by (simp add: pruneDominated_filter undominated_def [abs_def] dominates_def)

text \<open>C9. Generation always yields at least one plan and at most the configured number (100 when the
  bound is not positive); no two plans have the same replicas, resources and spot ratio; every plan
  has between one and twice the current replicas, its spot and on-demand counts are nonnegative and
  sum to its replicas, its spot ratio is one of the listed variants and its resources are the
  current or the right-sized ones.\<close>

theorem GenerateCandidates_spec:
  assumes "perm_ok rngPerm" "cs_Replicas (si_Current input) \<le> 2 ^ 52"
  shows "GenerateCandidates rngPerm input n \<noteq> [] \<and>
    int (length (GenerateCandidates rngPerm input n)) \<le> (if n \<le> 0 then 100 else n) \<and>
    keys_differ (GenerateCandidates rngPerm input n) \<and>
    (\<forall>p \<in> set (GenerateCandidates rngPerm input n). plan_split p \<and>
       cp_Replicas p \<le> 2 * max 1 (cs_Replicas (si_Current input)) \<and>
       cp_SpotRatio p \<in> set spotRatioVariants \<and>
       (cp_CPURequest p, cp_MemoryRequest p) \<in> set (resourceVariants input))"
  using GenerateCandidates_cases(1,3) [OF assms(1), of input n]
    GenerateCandidates_cases(2) [OF assms(1), of input n, unfolded DefaultMaxCandidates_def]
    GenerateCandidates_cases(4) [OF assms(1), of input n] raw_plan_ok [OF _ assms(2)]
  by blast

definition demo_input :: "int \<Rightarrow> SolverInput" where
  "demo_input n = \<lparr>si_Namespace = ''default'', si_Service = ''web'',
     si_Current = \<lparr>cs_Replicas = n, cs_CPURequest = 1, cs_MemoryRequest = 1, cs_CPUUsage = 1,
       cs_MemoryUsage = 1, cs_SpotRatio = 0, cs_HourlyCost = 0\<rparr>,
     si_SLO = zero_SLOStatus\<lparr>ss_Compliant := True\<rparr>, si_Policies = [], si_Tenant = None,
     si_Forecast = None, si_Metrics = Map.empty, si_Cluster = zero_ClusterState, si_InstanceTypes = [],
     si_Region = ''us-east-1'', si_RightSizedCPU = None, si_RightSizedMemory = None, si_Trigger = ''periodic''\<rparr>"

lemma GenerateCandidates_spec_witness:
  "int (length (GenerateCandidates (\<lambda>seed n. [0..<n]) (demo_input 4) 10)) \<le> 10 \<and>
   list_all (\<lambda>p. cp_Replicas p \<le> 8) (GenerateCandidates (\<lambda>seed n. [0..<n]) (demo_input 4) 10)"
proof -
  have h: "perm_ok (\<lambda>seed n. [0..<n])" by (auto simp: perm_ok_def)
  have r: "cs_Replicas (si_Current (demo_input 4)) \<le> 2 ^ 52" by (simp add: demo_input_def)
  show ?thesis
    using GenerateCandidates_spec [OF h r, of 10] by (simp add: demo_input_def list_all_iff)
qed

end
