(* ===== verification/Scorer.thy ===== *)
theory Scorer
  imports Candidates
begin

text \<open>
  Scoring, \<open>internal/engine/scorer.go\<close>: the four dimensions of a candidate (SLO, cost, carbon,
  fairness) and the policy-weighted aggregate, with cost and carbon normalised over the batch.
\<close>

section \<open>Operations\<close>

record Scorer =
  s_input :: SolverInput
  s_objectives :: "PolicyObjective list"

definition NewScorer :: "SolverInput \<Rightarrow> PolicyObjective list \<Rightarrow> Scorer" where
  "NewScorer input objectives = \<lparr>s_input = input, s_objectives = objectives\<rparr>"

definition normalize :: "f64 \<Rightarrow> f64 \<Rightarrow> f64 \<Rightarrow> f64" where
  "normalize value mn mx =
    (if mx \<le> mn then 0
     else let n = (value - mn) / (mx - mn) in
       if n < 0 then 0 else if 1 < n then 1 else n)"

definition scoreCost :: "f64 \<Rightarrow> f64 \<Rightarrow> f64 \<Rightarrow> f64" where
  "scoreCost cost minCost maxCost = 1 - normalize cost minCost maxCost"

definition scoreCarbon :: "f64 \<Rightarrow> f64 \<Rightarrow> f64 \<Rightarrow> f64" where
  "scoreCarbon carbon minCarbon maxCarbon = 1 - normalize carbon minCarbon maxCarbon"

definition hasObservedSLOSignal :: "SLOStatus \<Rightarrow> bool" where
  "hasObservedSLOSignal status = (0 < ss_BurnRate status \<or> 0 < ss_BudgetRemaining status \<or>
     0 < ss_LatencyP99 status \<or> 0 < ss_ErrorRate status \<or> 0 < ss_Availability status \<or>
     0 < ss_Throughput status)"

definition currentDemand :: "Scorer \<Rightarrow> f64" where
  "currentDemand s =
    (let cur = si_Current (s_input s);
         d = (case si_Forecast (s_input s) of
                Some f \<Rightarrow> if 0 < fr_PredictedRPS f
                          then cs_CPUUsage cur * (1 + fr_ChangePercent f / lit 100) else cs_CPUUsage cur
              | None \<Rightarrow> cs_CPUUsage cur) in
     if 0 < d then d
     else let r = of_int64 (cs_Replicas cur) * cs_CPURequest cur;
              r' = (if r < lit (1 / 10 ^ 9) then lit (1 / 100) else r) in
          r' * lit (5 / 100))"

definition scoreDegradedSLO :: "Scorer \<Rightarrow> CandidatePlan \<Rightarrow> f64" where
  "scoreDegradedSLO s c =
    (let currentReplicas = (if cs_Replicas (si_Current (s_input s)) < 1 then 1
                            else cs_Replicas (si_Current (s_input s)));
         severityBonus = (if lit 10 \<le> ss_BurnRate (si_SLO (s_input s)) then lit (2 / 10)
                          else if lit 1 \<le> ss_BurnRate (si_SLO (s_input s)) then lit (1 / 10) else 0) in
     if cp_Replicas c < currentReplicas then 0
     else if cp_Replicas c = currentReplicas then
       (let score = lit (2 / 10) + severityBonus in if lit (4 / 10) < score then lit (4 / 10) else score)
     else
       (let improvement = of_int64 (wrap64 (cp_Replicas c - currentReplicas)) / of_int64 currentReplicas;
            score = lit (6 / 10) + fmin improvement 1 * lit (3 / 10) + severityBonus in
        if 1 < score then 1 else score))"

definition scoreSLO :: "Scorer \<Rightarrow> CandidatePlan \<Rightarrow> f64" where
  "scoreSLO s c =
    (if \<not> ss_Compliant (si_SLO (s_input s)) \<and> hasObservedSLOSignal (si_SLO (s_input s))
     then scoreDegradedSLO s c
     else
      let d = currentDemand s;
          demand = (if d \<le> 0 then lit (1 / 10 ^ 9) else d);
          capacityRatio = of_int64 (cp_Replicas c) * cp_CPURequest c / demand in
      if lit (12 / 10) \<le> capacityRatio then 1
      else if lit 1 \<le> capacityRatio then lit (8 / 10)
      else if lit (8 / 10) \<le> capacityRatio then lit (4 / 10)
      else 0)"

definition scoreFairness :: "Scorer \<Rightarrow> CandidatePlan \<Rightarrow> f64" where
  "scoreFairness s c =
    (case si_Tenant (s_input s) of
       None \<Rightarrow> 1
     | Some tenant \<Rightarrow>
       if ts_GuaranteedCores tenant \<le> 0 then 1
       else
        let cur = si_Current (s_input s);
            delta = of_int64 (cp_Replicas c) * cp_CPURequest c - of_int64 (cs_Replicas cur) * cs_CPURequest cur;
            projectedUsage = ts_CurrentCores tenant + delta in
        if projectedUsage \<le> ts_GuaranteedCores tenant then 1
        else if projectedUsage \<le> ts_MaxCores tenant then lit (7 / 10)
        else lit (2 / 10))"

definition dimensionScore :: "CandidateScore \<Rightarrow> string \<Rightarrow> f64" where
  "dimensionScore score name =
    (if name = ''slo'' \<or> name = ''slo_compliance'' then sc_SLO score
     else if name = ''cost'' then sc_Cost score
     else if name = ''carbon'' then sc_Carbon score
     else if name = ''fairness'' then sc_Fairness score
     else 0)"

definition computeWeighted :: "Scorer \<Rightarrow> CandidateScore \<Rightarrow> f64" where
  "computeWeighted s score =
    (if s_objectives s = [] then (sc_SLO score + sc_Cost score + sc_Carbon score + sc_Fairness score) / lit 4
     else
      let total = foldl (\<lambda>t ob. t + po_Weight ob) 0 (s_objectives s);
          totalWeight = (if total \<le> 0 then 1 else total) in
      foldl (\<lambda>w ob. w + po_Weight ob / totalWeight * dimensionScore score (po_Name ob)) 0 (s_objectives s))"

text \<open>The running minimum and maximum of the first pass, from \<open>math.MaxFloat64\<close> and 0.\<close>

definition batch_min :: "f64 list \<Rightarrow> f64" where
  "batch_min xs = foldl (\<lambda>m x. if x < m then x else m) max_float64 xs"

definition batch_max :: "f64 list \<Rightarrow> f64" where
  "batch_max xs = foldl (\<lambda>m x. if m < x then x else m) 0 xs"

definition ScoreAll :: "Scorer \<Rightarrow> CandidatePlan list \<Rightarrow> ScoredCandidate list" where
  "ScoreAll s candidates =
    (let costs = map cp_EstimatedCost candidates; carbons = map cp_EstimatedCarbon candidates;
         minCost = batch_min costs; maxCost = batch_max costs;
         minCarbon = batch_min carbons; maxCarbon = batch_max carbons in
     map (\<lambda>c.
       let score = \<lparr>sc_SLO = scoreSLO s c, sc_Cost = scoreCost (cp_EstimatedCost c) minCost maxCost,
             sc_Carbon = scoreCarbon (cp_EstimatedCarbon c) minCarbon maxCarbon,
             sc_Fairness = scoreFairness s c, sc_Weighted = 0\<rparr> in
       \<lparr>sd_Plan = c, sd_Score = score\<lparr>sc_Weighted := computeWeighted s score\<rparr>, sd_Constraints = [],
        sd_Viable = True\<rparr>) candidates)"

section \<open>Library\<close>

lemma batch_min_le: "x \<in> set xs \<Longrightarrow> Fin 0 \<le> x \<Longrightarrow> batch_min xs \<le> x"
proof -
  have init: "max_float64 \<noteq> NaN" by (simp add: max_float64_def)
  have *: "foldl (\<lambda>m x. if x < m then x else m) a xs \<le> a \<and> foldl (\<lambda>m x. if x < m then x else m) a xs \<noteq> NaN \<and>
      (\<forall>x \<in> set xs. x \<noteq> NaN \<longrightarrow> foldl (\<lambda>m x. if x < m then x else m) a xs \<le> x)" if "a \<noteq> NaN" for a xs
    using that
  proof (induction xs arbitrary: a)
    case (Cons y ys)
    let ?a = "if y < a then y else a"
    have "?a \<noteq> NaN" using Cons.prems by (cases y) auto
    moreover have "?a \<le> a" "y \<noteq> NaN \<longrightarrow> ?a \<le> y"
      using Cons.prems f64_less_imp_le [of y a] f64_not_less [of y a] by auto
    ultimately show ?case using Cons.IH [of ?a] f64_le_trans by (auto split del: if_split)
  qed auto
  show "x \<in> set xs \<Longrightarrow> Fin 0 \<le> x \<Longrightarrow> batch_min xs \<le> x"
    using * [OF init, of xs] by (auto simp: batch_min_def)
qed

lemma batch_max_ge: "x \<in> set xs \<Longrightarrow> x \<noteq> NaN \<Longrightarrow> x \<le> batch_max xs"
proof -
  have *: "a \<le> foldl (\<lambda>m x. if m < x then x else m) a xs \<and>
      (\<forall>x \<in> set xs. x \<noteq> NaN \<longrightarrow> x \<le> foldl (\<lambda>m x. if m < x then x else m) a xs)" if "a \<noteq> NaN" for a xs
    using that
  proof (induction xs arbitrary: a)
    case (Cons y ys)
    let ?a = "if a < y then y else a"
    have "?a \<noteq> NaN" using Cons.prems by (cases y) auto
    moreover have "a \<le> ?a" "y \<noteq> NaN \<longrightarrow> y \<le> ?a"
      using Cons.prems f64_less_imp_le [of a y] f64_not_less [of a y] by auto
    ultimately show ?case using Cons.IH [of ?a] f64_le_trans by (auto split del: if_split)
  qed auto
  show "x \<in> set xs \<Longrightarrow> x \<noteq> NaN \<Longrightarrow> x \<le> batch_max xs"
    using * [of 0 xs] by (auto simp: batch_max_def zero_Fin)
qed

text \<open>Both extremes are the initial value or an element.\<close>

lemma batch_min_mem: "batch_min xs = max_float64 \<or> batch_min xs \<in> set xs"
proof -
  have "foldl (\<lambda>m x. if x < m then x else m) a xs \<in> insert a (set xs)" for a xs
    by (rule foldl_inv) auto
  then show ?thesis by (auto simp: batch_min_def)
qed

lemma batch_max_mem: "batch_max xs = 0 \<or> batch_max xs \<in> set xs"
proof -
  have "foldl (\<lambda>m x. if m < x then x else m) a xs \<in> insert a (set xs)" for a xs
    by (rule foldl_inv) auto
  then show ?thesis by (auto simp: batch_max_def)
qed

subsection \<open>Ranges\<close>

lemma unit64_lits: "0 \<le> q \<Longrightarrow> q \<le> 1 \<Longrightarrow> unit64 (lit q)"
  by (rule inrange_rnd) simp_all

lemma unit64_normalize:
  assumes "nonneg64 v" "nonneg64 a" "nonneg64 b" "a \<le> v" "v \<le> b"
  shows "unit64 (normalize v a b)"
proof (cases "b \<le> a")
  case False
  then have "a < b" using assms by auto
  then show ?thesis
    using unit64_ratio [OF assms] by (auto simp: normalize_def Let_def intro!: inrange_0 inrange_1)
qed (simp add: normalize_def inrange_0)

lemma unit64_scoreCost_batch:
  assumes "\<forall>x \<in> set xs. nonneg64 x" "v \<in> set xs"
  shows "unit64 (1 - normalize v (batch_min xs) (batch_max xs))"
proof -
  have v: "nonneg64 v" using assms by blast
  then have ge: "batch_min xs \<le> v" "v \<le> batch_max xs"
    using batch_min_le [OF assms(2)] batch_max_ge [OF assms(2)] by auto
  have "nonneg64 (batch_max xs)" using batch_max_mem [of xs] assms(1) by (auto simp: zero_Fin)
  moreover have "nonneg64 (batch_min xs)"
    using batch_min_mem [of xs] assms(1) nonneg64_max_float64 by metis
  ultimately show ?thesis using unit64_normalize [OF v] ge by (intro unit64_one_minus) auto
qed

lemma of_int64_pos:
  assumes "1 \<le> n" "in64 n"
  shows "inrange 1 9223372036854775808 (of_int64 n)"
proof -
  have "rep 9223372036854775808" by (rule rep_dyadic [of _ 1 63]) (simp_all add: pow2_nat)
  then show ?thesis using assms unfolding of_int64_def by (intro inrange_rnd) (auto simp: in64_def)
qed

lemma severity_bonus_range:
  "inrange 0 (1 / 4) (if c then lit (2 / 10) else if d then lit (1 / 10) else 0)"
proof -
  have "rep (1 / 4)" by (rule rep_dyadic_frac [of _ 2 1]) simp_all
  then show ?thesis by (auto intro!: inrange_rnd inrange_0)
qed

text \<open>While the SLO is breached: a candidate below the current replicas scores 0, one at the current
  replicas at most 0.4, one above at least 0.6 and at most 1.\<close>

definition degraded_range :: "int \<Rightarrow> int \<Rightarrow> f64 \<Rightarrow> bool" where
  "degraded_range replicas current score =
    (if replicas < current then score = 0
     else if replicas = current then Fin 0 \<le> score \<and> score \<le> lit (4 / 10)
     else lit (6 / 10) \<le> score \<and> score \<le> 1)"

lemma scale_up_score_range:
  assumes "nonneg64 improvement" "inrange 0 (1 / 4) bonus"
  shows "\<exists>r. lit (6 / 10) + fmin improvement 1 * lit (3 / 10) + bonus = Fin r \<and> rep r \<and>
     lit (6 / 10) \<le> Fin r"
proof -
  obtain a where a: "lit (6 / 10) = Fin a" "rep a" "0 \<le> a" "a \<le> 1"
    using unit64_lits [of "6 / 10"] by (auto simp: inrange_iff)
  have "unit64 (fmin improvement 1)" using assms(1) by (auto simp: one_Fin)
  then have "unit64 (fmin improvement 1 * lit (3 / 10))" by (intro unit64_mult unit64_lits) simp_all
  then obtain b where b: "fmin improvement 1 * lit (3 / 10) = Fin b" "0 \<le> b" "b \<le> 1"
    by (auto simp: inrange_iff)
  obtain c where c: "bonus = Fin c" "0 \<le> c" "c \<le> 1" using assms(2) by (auto simp: inrange_iff)
  have "inrange a 2 (Fin a + Fin b)" using a b by (auto intro!: inrange_rnd)
  then obtain d where d: "Fin a + Fin b = Fin d" "a \<le> d" "d \<le> 2" "rep d" by (auto simp: inrange_iff)
  have "inrange a 3 (Fin d + Fin c)" using a c d by (auto intro!: inrange_rnd)
  then show ?thesis using a b c d by (auto simp: inrange_iff)
qed

lemma scoreDegradedSLO_range:
  assumes "in64 (cp_Replicas c)"
  shows "degraded_range (cp_Replicas c) (currentReplicasOf (s_input s)) (scoreDegradedSLO s c)"
proof -
  let ?cur = "currentReplicasOf (s_input s)"
  let ?b = "if lit 10 \<le> ss_BurnRate (si_SLO (s_input s)) then lit (2 / 10)
            else if lit 1 \<le> ss_BurnRate (si_SLO (s_input s)) then lit (1 / 10) else 0"
  have b: "inrange 0 (1 / 4) ?b" by (rule severity_bonus_range)
  consider "cp_Replicas c < ?cur" | "cp_Replicas c = ?cur" | "?cur < cp_Replicas c" by linarith
  then show ?thesis
  proof cases
    case 1
    then show ?thesis by (simp add: degraded_range_def scoreDegradedSLO_def currentReplicasOf_def Let_def)
  next
    case 2
    have "inrange 0 (1 + 1 / 4) (lit (2 / 10) + ?b)"
      using inrange_add [OF unit64_lits b, of "2 / 10"] rep_dyadic_frac [of "5 / 4" 2 5] by simp
    then obtain r where r: "lit (2 / 10) + ?b = Fin r" "0 \<le> r" by (auto simp: inrange_iff)
    obtain f where f: "lit (4 / 10) = Fin f" "0 \<le> f" using unit64_lits [of "4 / 10"] by (auto simp: inrange_iff)
    have "scoreDegradedSLO s c = (if lit (4 / 10) < lit (2 / 10) + ?b then lit (4 / 10) else lit (2 / 10) + ?b)"
      using 2 by (simp add: scoreDegradedSLO_def currentReplicasOf_def Let_def)
    then show ?thesis using 2 r f by (simp add: degraded_range_def)
  next
    case 3
    then have up: "\<not> cp_Replicas c < ?cur" "cp_Replicas c \<noteq> ?cur" by auto
    have d: "1 \<le> cp_Replicas c - ?cur" "in64 (cp_Replicas c - ?cur)" "in64 ?cur"
      using 3 assms currentReplicasOf_ge1 [of "s_input s"] by (auto simp: in64_def)
    let ?i = "of_int64 (wrap64 (cp_Replicas c - ?cur)) / of_int64 ?cur"
    have "nonneg64 ?i"
    proof -
      obtain p q where p: "of_int64 (cp_Replicas c - ?cur) = Fin p" "1 \<le> p" "p \<le> 9223372036854775808"
        and q: "of_int64 ?cur = Fin q" "1 \<le> q"
        using of_int64_pos d currentReplicasOf_ge1 [of "s_input s"] by (metis inrange_iff)
      have "0 \<le> p / q" "p / q \<le> 9223372036854775808" using p q by (auto simp: divide_le_eq)
      moreover have "rep 9223372036854775808" by (rule rep_dyadic [of _ 1 63]) (simp_all add: pow2_nat)
      ultimately have "inrange 0 9223372036854775808 (rnd (p / q))" by (intro inrange_rnd) simp_all
      then show ?thesis using d p q by (auto simp: wrap_simps inrange_iff)
    qed
    then obtain r where r: "lit (6 / 10) + fmin ?i 1 * lit (3 / 10) + ?b = Fin r" "lit (6 / 10) \<le> Fin r"
      using scale_up_score_range [OF _ b] by blast
    have "scoreDegradedSLO s c = (if 1 < Fin r then 1 else Fin r)"
      unfolding r(1) [symmetric] using up by (simp add: scoreDegradedSLO_def currentReplicasOf_def Let_def)
    moreover have "lit (6 / 10) \<le> 1"
      using unit64_lits [of "6 / 10"] by (auto simp: inrange_iff one_Fin)
    ultimately show ?thesis using up r(2) by (auto simp: degraded_range_def one_Fin)
  qed
qed

lemma ok64_scoreSLO: "ok64 (scoreSLO s c)"
  by (simp add: scoreSLO_def scoreDegradedSLO_def Let_def)

lemma unit64_scoreSLO:
  assumes "in64 (cp_Replicas c)"
  shows "unit64 (scoreSLO s c)"
proof (cases "\<not> ss_Compliant (si_SLO (s_input s)) \<and> hasObservedSLOSignal (si_SLO (s_input s))")
  case True
  then have d: "scoreSLO s c = scoreDegradedSLO s c" by (simp add: scoreSLO_def)
  have l: "Fin 0 \<le> lit (6 / 10)" "lit (4 / 10) \<le> Fin 1"
    using unit64_lits [of "6 / 10"] unit64_lits [of "4 / 10"] by (simp_all add: inrange_ok64)
  show ?thesis
    using scoreDegradedSLO_range [OF assms, of s] ok64_scoreSLO [of s c] l f64_le_trans
    by (auto simp: d degraded_range_def inrange_ok64 one_Fin zero_Fin split: if_splits)
next
  case False
  then show ?thesis by (auto simp: scoreSLO_def Let_def intro!: unit64_lits inrange_0 inrange_1)
qed

lemma unit64_scoreFairness: "unit64 (scoreFairness s c)"
  by (auto simp: scoreFairness_def Let_def intro!: unit64_lits inrange_1 split: option.split)

lemma unit64_mean4:
  assumes "unit64 a" "unit64 b" "unit64 c" "unit64 d"
  shows "unit64 ((a + b + c + d) / lit 4)"
proof -
  have "inrange 0 4 (a + b + c + d)"
    using inrange_add [OF inrange_add [OF inrange_add [OF assms(1,2)] assms(3)] assms(4)] by simp
  moreover have "lit 4 = Fin 4" by (simp add: rnd_exact)
  ultimately show ?thesis by (auto simp: inrange_iff intro!: inrange_rnd [of 0 1, unfolded inrange_iff])
qed

lemma map_sd_Plan_ScoreAll [simp]: "map sd_Plan (ScoreAll s cs) = cs"
  by (simp add: ScoreAll_def Let_def comp_def)

lemma ScoreAll_elem:
  assumes "sc \<in> set (ScoreAll s cs)"
  obtains c where "c \<in> set cs" "sd_Plan sc = c" "sd_Viable sc" "sc_SLO (sd_Score sc) = scoreSLO s c"
    "sc_Cost (sd_Score sc) = scoreCost (cp_EstimatedCost c) (batch_min (map cp_EstimatedCost cs)) (batch_max (map cp_EstimatedCost cs))"
    "sc_Carbon (sd_Score sc) = scoreCarbon (cp_EstimatedCarbon c) (batch_min (map cp_EstimatedCarbon cs)) (batch_max (map cp_EstimatedCarbon cs))"
    "sc_Fairness (sd_Score sc) = scoreFairness s c"
    "sc_Weighted (sd_Score sc) = computeWeighted s (sd_Score sc\<lparr>sc_Weighted := 0\<rparr>)"
  using assms by (auto simp: ScoreAll_def Let_def)

definition score_unit :: "CandidateScore \<Rightarrow> bool" where
  "score_unit sc = (unit64 (sc_SLO sc) \<and> unit64 (sc_Cost sc) \<and> unit64 (sc_Carbon sc) \<and> unit64 (sc_Fairness sc))"

lemma score_unit_update [simp]: "score_unit (sc\<lparr>sc_Weighted := w\<rparr>) = score_unit sc"
  by (simp add: score_unit_def)

definition plan_finite :: "CandidatePlan \<Rightarrow> bool" where
  "plan_finite p = (in64 (cp_Replicas p) \<and> nonneg64 (cp_EstimatedCost p) \<and> nonneg64 (cp_EstimatedCarbon p))"

lemma ScoreAll_unit:
  assumes "\<forall>p \<in> set cs. plan_finite p" "sc \<in> set (ScoreAll s cs)"
  shows "score_unit (sd_Score sc)"
  using assms(2)
proof (rule ScoreAll_elem)
  fix c
  assume c: "c \<in> set cs" and f: "sc_SLO (sd_Score sc) = scoreSLO s c"
    "sc_Cost (sd_Score sc) = scoreCost (cp_EstimatedCost c) (batch_min (map cp_EstimatedCost cs)) (batch_max (map cp_EstimatedCost cs))"
    "sc_Carbon (sd_Score sc) = scoreCarbon (cp_EstimatedCarbon c) (batch_min (map cp_EstimatedCarbon cs)) (batch_max (map cp_EstimatedCarbon cs))"
    "sc_Fairness (sd_Score sc) = scoreFairness s c"
  have "unit64 (sc_Cost (sd_Score sc))" "unit64 (sc_Carbon (sd_Score sc))"
    unfolding f scoreCost_def scoreCarbon_def using assms(1) c
    by (auto simp: plan_finite_def intro!: unit64_scoreCost_batch)
  then show ?thesis
    using f assms(1) c unit64_scoreSLO unit64_scoreFairness by (auto simp: score_unit_def plan_finite_def)
qed

text \<open>With weights between 0 and 1, as admission requires, the normalised weights lie between 0 and 1
  and the aggregate is finite and nonnegative.\<close>

lemma unit64_dimensionScore: "score_unit sc \<Longrightarrow> unit64 (dimensionScore sc name)"
  by (auto simp: dimensionScore_def score_unit_def intro!: inrange_0)

lemma unit64_normalizedWeight:
  assumes "\<forall>ob \<in> set obs. unit64 (po_Weight ob)" "ob \<in> set obs"
  defines "tw \<equiv> foldl (\<lambda>t ob. t + po_Weight ob) 0 obs"
  shows "unit64 (po_Weight ob / (if tw \<le> 0 then 1 else tw))"
proof -
  have z: "inrange 0 9007199254740992 0" by (simp add: zero_Fin)
  have t: "inrange 0 9007199254740992 tw" "po_Weight ob \<le> tw"
    unfolding tw_def using assms(1,2) by (intro inrange_sum_unit sum_ge_elem z; blast)+
  have w: "unit64 (po_Weight ob)" using assms(1,2) by blast
  show ?thesis
  proof (cases "tw \<le> 0")
    case True
    then have "tw = 0" using t by (auto simp: inrange_iff zero_Fin)
    then show ?thesis using w t(2) by (auto simp: inrange_iff zero_Fin one_Fin rnd_exact)
  next
    case False
    then have "Fin 0 < tw" "tw < PInf" using t(1) by (auto simp: inrange_iff zero_Fin)
    then show ?thesis using False w t(2) by (auto simp: inrange_iff intro!: unit64_div [unfolded inrange_iff])
  qed
qed

lemma computeWeighted_bounds:
  assumes "score_unit sc" "\<forall>ob \<in> set (s_objectives s). unit64 (po_Weight ob)"
  shows "inrange 0 9007199254740992 (computeWeighted s sc)"
proof (cases "s_objectives s = []")
  case True
  then show ?thesis
    using assms(1) unit64_mean4 inrange_weaken [of 0 1 _ 0 9007199254740992]
    by (simp add: computeWeighted_def score_unit_def)
next
  case False
  have z: "inrange 0 9007199254740992 0" by (simp add: zero_Fin)
  show ?thesis
    using False unfolding computeWeighted_def Let_def
    by (simp split del: if_split)
      (intro inrange_sum_unit z unit64_mult unit64_normalizedWeight unit64_dimensionScore assms)
qed

section \<open>Properties\<close>

text \<open>C10. When every candidate has a finite nonnegative cost and carbon estimate, scoring the batch
  keeps the candidates in order, marks them viable, and gives each a score between 0 and 1 on every
  dimension, in float64 arithmetic; without policy objectives the weighted aggregate lies between 0
  and 1 as well.\<close>

theorem ScoreAll_range:
  assumes "\<forall>p \<in> set candidates. plan_finite p"
  shows "map sd_Plan (ScoreAll s candidates) = candidates \<and>
    (\<forall>sc \<in> set (ScoreAll s candidates). sd_Viable sc \<and> score_unit (sd_Score sc) \<and>
       (s_objectives s = [] \<longrightarrow> unit64 (sc_Weighted (sd_Score sc))))"
proof -
  have "unit64 (sc_Weighted (sd_Score sc))" if "sc \<in> set (ScoreAll s candidates)" "s_objectives s = []" for sc
    using ScoreAll_unit [OF assms that(1)] that
    by (elim ScoreAll_elem) (simp add: computeWeighted_def score_unit_def unit64_mean4)
  moreover have "sd_Viable sc" if "sc \<in> set (ScoreAll s candidates)" for sc
    using that by (rule ScoreAll_elem)
  ultimately show ?thesis using ScoreAll_unit [OF assms] by auto
qed

lemma ScoreAll_range_witness:
  "\<exists>sc. ScoreAll (NewScorer (demo_input 2) []) [demo_plan 2] = [sc] \<and> unit64 (sc_Weighted (sd_Score sc))"
proof -
  have p: "\<forall>p \<in> set [demo_plan 2]. plan_finite p"
    by (auto simp: plan_finite_def demo_plan_def in64_def of_int64_exact)
  let ?r = "ScoreAll (NewScorer (demo_input 2) []) [demo_plan 2]"
  have "map sd_Plan ?r = [demo_plan 2]" by (rule map_sd_Plan_ScoreAll)
  then obtain sc where "?r = [sc]" by blast
  then show ?thesis using ScoreAll_range [OF p, of "NewScorer (demo_input 2) []"] by (simp add: NewScorer_def)
qed

text \<open>While the SLO is breached and observed, a candidate with fewer replicas than the service has
  scores 0 on the SLO dimension, one with as many scores at most 0.4, and one with more scores
  between 0.6 and 1: shrinking is never rewarded and growing always beats staying.\<close>

theorem scoreSLO_degraded:
  assumes "\<not> ss_Compliant (si_SLO (s_input s))" "hasObservedSLOSignal (si_SLO (s_input s))"
    and "in64 (cp_Replicas c)"
  shows "degraded_range (cp_Replicas c) (max 1 (cs_Replicas (si_Current (s_input s)))) (scoreSLO s c)"
proof -
  have "currentReplicasOf (s_input s) = max 1 (cs_Replicas (si_Current (s_input s)))"
    by (auto simp: currentReplicasOf_def)
  then show ?thesis using assms scoreDegradedSLO_range [OF assms(3), of s] by (simp add: scoreSLO_def)
qed

lemma scoreSLO_degraded_witness:
  "let s = NewScorer (demo_input 4\<lparr>si_SLO := zero_SLOStatus\<lparr>ss_BurnRate := lit 2\<rparr>\<rparr>) [] in
   scoreSLO s (demo_plan 2) = 0 \<and> lit (6 / 10) \<le> scoreSLO s (demo_plan 6)"
proof -
  let ?s = "NewScorer (demo_input 4\<lparr>si_SLO := zero_SLOStatus\<lparr>ss_BurnRate := lit 2\<rparr>\<rparr>) []"
  have h: "\<not> ss_Compliant (si_SLO (s_input ?s))" "hasObservedSLOSignal (si_SLO (s_input ?s))"
    by (simp_all add: NewScorer_def zero_SLOStatus_def hasObservedSLOSignal_def zero_Fin rnd_exact)
  show ?thesis
    using scoreSLO_degraded [OF h, of "demo_plan 2"] scoreSLO_degraded [OF h, of "demo_plan 6"]
    by (simp add: NewScorer_def demo_plan_def demo_input_def degraded_range_def in64_def Let_def)
qed

end
