(* ===== verification/Pareto.thy ===== *)
theory Pareto
  imports Scorer
begin

text \<open>
  The Pareto front and the choice on it, \<open>internal/engine/pareto.go\<close>.
\<close>

section \<open>Operations\<close>

definition scoreDominates :: "CandidateScore \<Rightarrow> CandidateScore \<Rightarrow> bool" where
  "scoreDominates a b =
    (if sc_SLO a < sc_SLO b \<or> sc_Cost a < sc_Cost b \<or> sc_Carbon a < sc_Carbon b \<or> sc_Fairness a < sc_Fairness b
     then False
     else sc_SLO b < sc_SLO a \<or> sc_Cost b < sc_Cost a \<or> sc_Carbon b < sc_Carbon a \<or> sc_Fairness b < sc_Fairness a)"

definition FindParetoFront :: "ScoredCandidate list \<Rightarrow> ScoredCandidate list" where
  "FindParetoFront candidates =
    (if candidates = [] then []
     else if length candidates = 1 then candidates
     else keep_undominated (\<lambda>a b. scoreDominates (sd_Score a) (sd_Score b)) candidates)"

definition disruption :: "CandidatePlan \<Rightarrow> CurrentState \<Rightarrow> f64" where
  "disruption plan current =
    (let replicaDelta = of_int64 (wrap64 (cp_Replicas plan - cs_Replicas current));
         cpuDelta = cp_CPURequest plan - cs_CPURequest current;
         spotDelta = cp_SpotRatio plan - cs_SpotRatio current in
     fsqrt (replicaDelta * replicaDelta + cpuDelta * cpuDelta + spotDelta * spotDelta))"

text \<open>The loop keeps the best candidate and its distance; on an empty front the source indexes out
  of range, the value \<open>None\<close>.\<close>

definition better :: "CurrentState \<Rightarrow> ScoredCandidate \<times> f64 \<Rightarrow> ScoredCandidate \<Rightarrow> ScoredCandidate \<times> f64" where
  "better current st c =
    (case st of (best, bestDist) \<Rightarrow>
      if sc_Weighted (sd_Score best) < sc_Weighted (sd_Score c) then (c, disruption (sd_Plan c) current)
      else if feq (sc_Weighted (sd_Score c)) (sc_Weighted (sd_Score best)) then
        (let d = disruption (sd_Plan c) current in if d < bestDist then (c, d) else (best, bestDist))
      else (best, bestDist))"

definition SelectBest :: "ScoredCandidate list \<Rightarrow> CurrentState \<Rightarrow> ScoredCandidate option" where
  "SelectBest front current =
    (case front of
       [] \<Rightarrow> None
     | [c] \<Rightarrow> Some c
     | c # rest \<Rightarrow> Some (fst (foldl (better current) (c, disruption (sd_Plan c) current) rest)))"

section \<open>Library\<close>

definition score_ok :: "CandidateScore \<Rightarrow> bool" where
  "score_ok s = (sc_SLO s \<noteq> NaN \<and> sc_Cost s \<noteq> NaN \<and> sc_Carbon s \<noteq> NaN \<and> sc_Fairness s \<noteq> NaN)"

text \<open>Without NaN the test is: at least as good everywhere, better somewhere.\<close>

lemma scoreDominates_iff:
  assumes "score_ok a" "score_ok b"
  shows "scoreDominates a b \<longleftrightarrow>
    sc_SLO b \<le> sc_SLO a \<and> sc_Cost b \<le> sc_Cost a \<and> sc_Carbon b \<le> sc_Carbon a \<and> sc_Fairness b \<le> sc_Fairness a \<and>
    (sc_SLO b < sc_SLO a \<or> sc_Cost b < sc_Cost a \<or> sc_Carbon b < sc_Carbon a \<or> sc_Fairness b < sc_Fairness a)"
proof -
  have le: "sc_SLO b \<le> sc_SLO a \<longleftrightarrow> \<not> sc_SLO a < sc_SLO b" "sc_Cost b \<le> sc_Cost a \<longleftrightarrow> \<not> sc_Cost a < sc_Cost b"
    "sc_Carbon b \<le> sc_Carbon a \<longleftrightarrow> \<not> sc_Carbon a < sc_Carbon b"
    "sc_Fairness b \<le> sc_Fairness a \<longleftrightarrow> \<not> sc_Fairness a < sc_Fairness b"
    using assms f64_not_less unfolding score_ok_def by blast+
  show ?thesis unfolding scoreDominates_def le by (simp; blast)
qed

lemma scoreDominates_irrefl: "\<not> scoreDominates a a"
  by (simp add: scoreDominates_def)

lemma scoreDominates_trans:
  assumes "score_ok a" "score_ok b" "score_ok c" "scoreDominates a b" "scoreDominates b c"
  shows "scoreDominates a c"
proof -
  note ab = assms(4) [unfolded scoreDominates_iff [OF assms(1,2)]]
  note bc = assms(5) [unfolded scoreDominates_iff [OF assms(2,3)]]
  have "sc_SLO c \<le> sc_SLO a" "sc_Cost c \<le> sc_Cost a" "sc_Carbon c \<le> sc_Carbon a" "sc_Fairness c \<le> sc_Fairness a"
    using ab bc by (meson f64_le_trans)+
  moreover have "sc_SLO c < sc_SLO a \<or> sc_Cost c < sc_Cost a \<or> sc_Carbon c < sc_Carbon a \<or> sc_Fairness c < sc_Fairness a"
    using ab bc by (meson f64_le_less_trans)
  ultimately show ?thesis using assms by (simp add: scoreDominates_iff)
qed

lemma pareto_dominance:
  fixes cs :: "ScoredCandidate list"
  assumes "\<forall>c \<in> set cs. score_ok (sd_Score c)"
  shows "dominance (\<lambda>a b. scoreDominates (sd_Score a) (sd_Score b)) cs"
proof
  show "\<not> scoreDominates (sd_Score x) (sd_Score x)" for x :: ScoredCandidate by (rule scoreDominates_irrefl)
qed (use assms scoreDominates_trans in blast)

lemma FindParetoFront_filter:
  assumes "\<forall>c \<in> set cs. score_ok (sd_Score c)"
  shows "FindParetoFront cs = filter (undominated (\<lambda>a b. scoreDominates (sd_Score a) (sd_Score b)) cs) cs"
proof -
  consider "cs = []" | c where "cs = [c]" | "cs \<noteq> []" "length cs \<noteq> 1" by (cases cs rule: list.exhaust) auto
  then show ?thesis
  proof cases
    case 3
    then show ?thesis
      using dominance.keep_undominated_filter [OF pareto_dominance [OF assms]] by (simp add: FindParetoFront_def)
  qed (auto simp: FindParetoFront_def undominated_def scoreDominates_irrefl)
qed

lemma FindParetoFront_subset: "set (FindParetoFront cs) \<subseteq> set cs"
  by (auto simp: FindParetoFront_def keep_undominated_def unmarked_def dest: set_zip_leftD)

lemma FindParetoFront_nonempty:
  assumes "\<forall>c \<in> set cs. score_ok (sd_Score c)" "cs \<noteq> []"
  shows "FindParetoFront cs \<noteq> []"
  using dominance.keep_undominated_nonempty [OF pareto_dominance [OF assms(1)] assms(2)] assms(2)
  by (simp add: FindParetoFront_def)

subsection \<open>Disruption\<close>

lemma nn_square: "x \<noteq> NaN \<Longrightarrow> Fin 0 \<le> x * (x :: f64)"
  by (cases x) (auto intro: nn_rnd)

lemma nn_sqrt: "Fin 0 \<le> x \<Longrightarrow> Fin 0 \<le> fsqrt x"
  using fsqrt_nonneg [of x] by (cases x) auto

lemma fin_diff_not_NaN: "Fin a - Fin b \<noteq> NaN"
  by (simp add: minus_f64_def)

definition plan_resources_finite :: "CandidatePlan \<Rightarrow> CurrentState \<Rightarrow> bool" where
  "plan_resources_finite p cur =
    (\<forall>x \<in> {cp_CPURequest p, cp_SpotRatio p, cs_CPURequest cur, cs_SpotRatio cur}. \<exists>r. x = Fin r)"

lemma nn_not_NaN: "Fin 0 \<le> x \<Longrightarrow> x \<noteq> NaN"
  by auto

lemma disruption_nonneg: "plan_resources_finite p cur \<Longrightarrow> Fin 0 \<le> disruption p cur"
  unfolding disruption_def Let_def
  by (intro nn_sqrt nn_add nn_square)
    (auto simp: plan_resources_finite_def fin_diff_not_NaN of_int64_def)

subsection \<open>The selection loop\<close>

text \<open>\<open>beats a b\<close>: strictly better for the loop.\<close>

definition beats :: "CurrentState \<Rightarrow> ScoredCandidate \<Rightarrow> ScoredCandidate \<Rightarrow> bool" where
  "beats cur a b = (sc_Weighted (sd_Score b) < sc_Weighted (sd_Score a) \<or>
     sc_Weighted (sd_Score a) = sc_Weighted (sd_Score b) \<and> disruption (sd_Plan a) cur < disruption (sd_Plan b) cur)"

definition comparable :: "CurrentState \<Rightarrow> ScoredCandidate \<Rightarrow> bool" where
  "comparable cur c = (sc_Weighted (sd_Score c) \<noteq> NaN \<and> disruption (sd_Plan c) cur \<noteq> NaN)"

lemma better_alt:
  "comparable cur c \<Longrightarrow> better cur (b, disruption (sd_Plan b) cur) c =
    (let w = (if beats cur c b then c else b) in (w, disruption (sd_Plan w) cur))"
  by (auto simp: better_def beats_def comparable_def Let_def feq_iff)

lemma not_beats_trans:
  assumes "comparable cur a" "comparable cur b" "comparable cur c" "\<not> beats cur b a" "\<not> beats cur c b"
  shows "\<not> beats cur c a"
proof -
  have w: "sc_Weighted (sd_Score b) \<le> sc_Weighted (sd_Score a)" "sc_Weighted (sd_Score c) \<le> sc_Weighted (sd_Score b)"
    using assms by (auto simp: beats_def comparable_def f64_not_less)
  show ?thesis
  proof
    assume "beats cur c a"
    then have eq: "sc_Weighted (sd_Score c) = sc_Weighted (sd_Score a)"
      "disruption (sd_Plan c) cur < disruption (sd_Plan a) cur"
      using f64_le_trans [OF w(2,1)] assms(1,3) f64_not_less by (auto simp: beats_def comparable_def)
    then have "sc_Weighted (sd_Score b) = sc_Weighted (sd_Score a)" using w f64_antisym by simp
    then have "disruption (sd_Plan a) cur \<le> disruption (sd_Plan b) cur"
      "disruption (sd_Plan b) cur \<le> disruption (sd_Plan c) cur"
      using assms eq by (auto simp: beats_def comparable_def f64_not_less)
    then have "disruption (sd_Plan a) cur \<le> disruption (sd_Plan c) cur" by (rule f64_le_trans)
    then show False using eq(2) f64_le_less_trans f64_less_irrefl by blast
  qed
qed

lemma not_beats_sym:
  assumes "comparable cur a" "comparable cur b" "beats cur a b"
  shows "\<not> beats cur b a"
  using assms f64_less_asym by (auto simp: beats_def)

lemma foldl_better:
  assumes "\<forall>c \<in> set (b # cs). comparable cur c"
  shows "\<exists>w \<in> set (b # cs). foldl (better cur) (b, disruption (sd_Plan b) cur) cs = (w, disruption (sd_Plan w) cur) \<and>
     (\<forall>c \<in> set (b # cs). \<not> beats cur c w)"
  using assms
proof (induction cs arbitrary: b)
  case Nil
  then show ?case by (simp add: beats_def)
next
  case (Cons c cs)
  let ?b = "if beats cur c b then c else b"
  obtain w where w: "w \<in> set (?b # cs)" "foldl (better cur) (?b, disruption (sd_Plan ?b) cur) cs = (w, disruption (sd_Plan w) cur)"
    "\<forall>x \<in> set (?b # cs). \<not> beats cur x w"
    using Cons.IH [of ?b] Cons.prems by (auto split: if_splits)
  have "\<not> beats cur c ?b" "\<not> beats cur b ?b"
    using Cons.prems not_beats_sym [of cur c b] by (auto simp: beats_def)
  moreover have "\<not> beats cur ?b w" "comparable cur ?b" "comparable cur w" using w Cons.prems by auto
  ultimately have "\<not> beats cur c w" "\<not> beats cur b w"
    using not_beats_trans [of cur w ?b c] not_beats_trans [of cur w ?b b] Cons.prems by auto
  then show ?case using w Cons.prems by (auto simp: better_alt Let_def split: if_splits)
qed

lemma SelectBest_best:
  assumes "\<forall>c \<in> set front. comparable cur c" "front \<noteq> []"
  obtains w where "SelectBest front cur = Some w" "w \<in> set front" "\<And>c. c \<in> set front \<Longrightarrow> \<not> beats cur c w"
proof -
  obtain b cs where f: "front = b # cs" using assms(2) by (cases front) auto
  obtain w where w: "w \<in> set (b # cs)" "foldl (better cur) (b, disruption (sd_Plan b) cur) cs = (w, disruption (sd_Plan w) cur)"
     "\<forall>c \<in> set (b # cs). \<not> beats cur c w"
    using foldl_better [of b cs cur] assms(1) f by blast
  moreover have "SelectBest front cur = Some w" using f w by (cases cs) (auto simp: SelectBest_def)
  ultimately show ?thesis using that f by blast
qed

text \<open>Without any hypothesis the choice is an element of the front.\<close>

lemma SelectBest_mem:
  assumes "SelectBest front cur = Some w"
  shows "w \<in> set front"
proof -
  have *: "fst (foldl (better cur) st cs) \<in> insert (fst st) (set cs)" for st cs
    by (rule foldl_inv [where P = "\<lambda>st'. fst st' \<in> insert (fst st) (set cs)"])
      (auto simp: better_def Let_def split: prod.splits)
  show ?thesis
    using assms * [of "(hd front, disruption (sd_Plan (hd front)) cur)" "tl front"]
    by (auto simp: SelectBest_def split: list.splits)
qed

section \<open>Properties\<close>

definition pareto_better :: "CandidateScore \<Rightarrow> CandidateScore \<Rightarrow> bool" where
  "pareto_better a b =
    (sc_SLO b \<le> sc_SLO a \<and> sc_Cost b \<le> sc_Cost a \<and> sc_Carbon b \<le> sc_Carbon a \<and> sc_Fairness b \<le> sc_Fairness a \<and>
     (sc_SLO b < sc_SLO a \<or> sc_Cost b < sc_Cost a \<or> sc_Carbon b < sc_Carbon a \<or> sc_Fairness b < sc_Fairness a))"

lemma filter_undominated_cong:
  assumes "\<forall>c \<in> set cs. score_ok (sd_Score c)"
  shows "filter (undominated (\<lambda>a b. scoreDominates (sd_Score a) (sd_Score b)) cs) cs =
    filter (\<lambda>b. \<not> (\<exists>a \<in> set cs. pareto_better (sd_Score a) (sd_Score b))) (cs :: ScoredCandidate list)"
  using assms by (intro filter_cong) (auto simp: undominated_def pareto_better_def scoreDominates_iff)

text \<open>C7. On scores without NaN the front is exactly the candidates that no candidate matches or
  exceeds on all four dimensions while exceeding one, in their order, and it is empty only for an
  empty input.\<close>

theorem FindParetoFront_spec:
  assumes "\<forall>c \<in> set candidates. score_ok (sd_Score c)"
  shows "FindParetoFront candidates =
      filter (\<lambda>b. \<not> (\<exists>a \<in> set candidates. pareto_better (sd_Score a) (sd_Score b))) candidates \<and>
    (FindParetoFront candidates = [] \<longleftrightarrow> candidates = [])"
  using FindParetoFront_filter [OF assms] filter_undominated_cong [OF assms] FindParetoFront_nonempty [OF assms]
  by auto

definition demo_scored :: "int \<Rightarrow> f64 \<Rightarrow> f64 \<Rightarrow> ScoredCandidate" where
  "demo_scored n slo cost = \<lparr>sd_Plan = demo_plan n,
     sd_Score = \<lparr>sc_SLO = slo, sc_Cost = cost, sc_Carbon = 1, sc_Fairness = 1, sc_Weighted = slo\<rparr>,
     sd_Constraints = [], sd_Viable = True\<rparr>"

lemma FindParetoFront_spec_witness:
  "FindParetoFront [demo_scored 1 0 1, demo_scored 2 1 1, demo_scored 3 1 0] = [demo_scored 2 1 1]"
  using FindParetoFront_spec [of "[demo_scored 1 0 1, demo_scored 2 1 1, demo_scored 3 1 0]"]
  by (simp add: score_ok_def demo_scored_def zero_Fin one_Fin pareto_better_def)

text \<open>C8. From a nonempty front, when no weighted score or distance is NaN, the selection returns a
  candidate of the front with the highest weighted score and, among those with that score, one at
  the least distance from the current state.\<close>

theorem SelectBest_spec:
  assumes "front \<noteq> []" "\<forall>c \<in> set front. comparable cur c"
  shows "\<exists>w \<in> set front. SelectBest front cur = Some w \<and>
    (\<forall>c \<in> set front. sc_Weighted (sd_Score c) \<le> sc_Weighted (sd_Score w)) \<and>
    (\<forall>c \<in> set front. sc_Weighted (sd_Score c) = sc_Weighted (sd_Score w) \<longrightarrow>
       disruption (sd_Plan w) cur \<le> disruption (sd_Plan c) cur)"
proof -
  obtain w where w: "SelectBest front cur = Some w" "w \<in> set front" "\<And>c. c \<in> set front \<Longrightarrow> \<not> beats cur c w"
    using SelectBest_best [OF assms(2,1)] by blast
  have "comparable cur c" if "c \<in> set front" for c using assms(2) that by blast
  then show ?thesis using w by (intro bexI [of _ w]) (auto simp: beats_def comparable_def f64_not_less)
qed

lemma SelectBest_spec_witness:
  "\<exists>w. SelectBest [demo_scored 1 0 1, demo_scored 5 1 1, demo_scored 3 1 1] (si_Current (demo_input 2)) = Some w \<and>
     sc_Weighted (sd_Score w) = 1"
proof -
  let ?f = "[demo_scored 1 0 1, demo_scored 5 1 1, demo_scored 3 1 1]" and ?cur = "si_Current (demo_input 2)"
  have "plan_resources_finite (demo_plan n) ?cur" for n
    by (auto simp: plan_resources_finite_def demo_plan_def demo_input_def zero_Fin one_Fin)
  then have "disruption (demo_plan n) ?cur \<noteq> NaN" for n by (rule nn_not_NaN [OF disruption_nonneg])
  then have c: "\<forall>c \<in> set ?f. comparable ?cur c" by (auto simp: comparable_def demo_scored_def zero_Fin one_Fin)
  show ?thesis using SelectBest_spec [OF _ c] by (auto simp: demo_scored_def zero_Fin one_Fin)
qed

end
