(* ===== verification/Solver.thy ===== *)
theory Solver
  imports Pareto
begin

text \<open>
  One optimisation cycle, \<open>internal/engine/solver.go\<close>: generation, forecast-driven injection,
  scoring, the constraints of every matched policy, the Pareto front, the choice, and the decision
  record. The clock, the UUID generator and \<open>math/rand\<close>'s permutation are arguments.
\<close>

section \<open>Operations\<close>

record 'ast Solver =
  sv_PolicyEngine :: "'ast PolicyEngine option"
  sv_MaxCandidates :: int

definition NewSolver :: "'ast PolicyEngine option \<Rightarrow> int \<Rightarrow> 'ast Solver" where
  "NewSolver policyEngine maxCandidates =
    \<lparr>sv_PolicyEngine = policyEngine,
     sv_MaxCandidates = (if maxCandidates \<le> 0 then DefaultMaxCandidates else maxCandidates)\<rparr>"

record ObjectiveWithSource =
  ow_Objective :: PolicyObjective
  ow_PolicyName :: string

definition collectObjectives :: "SolverInput \<Rightarrow> ObjectiveWithSource list" where
  "collectObjectives input = concat (map (\<lambda>mp.
     map (\<lambda>obj. \<lparr>ow_Objective = obj, ow_PolicyName = op_Name (mp_Policy mp)\<rparr>)
       (ops_Objectives (op_Spec (mp_Policy mp)))) (si_Policies input))"

definition violationResult :: "string \<Rightarrow> ConstraintViolation \<Rightarrow> ConstraintResult" where
  "violationResult name v = \<lparr>cr_Expr = cv_Expr v, cr_Reason = cv_Reason v, cr_Hard = cv_Hard v,
     cr_Passed = False, cr_PolicyName = name\<rparr>"

definition passingResult :: "string \<Rightarrow> CompiledConstraint \<Rightarrow> ConstraintResult" where
  "passingResult name cc = \<lparr>cr_Expr = cc_Expr cc, cr_Reason = cc_Reason cc, cr_Hard = cc_Hard cc,
     cr_Passed = True, cr_PolicyName = name\<rparr>"

text \<open>The loop body of \<open>applyConstraints\<close> on one candidate: the context holds only the candidate,
  everything else is a zero value.\<close>

definition candidateContext :: "CandidatePlan \<Rightarrow> EvalContext" where
  "candidateContext plan = \<lparr>ec_Candidate = plan, ec_Current = zero_CurrentState, ec_SLO = zero_SLOStatus,
     ec_Tenant = zero_TenantStatus, ec_Forecast = zero_ForecastResult, ec_Metrics = Map.empty,
     ec_Cluster = zero_ClusterState\<rparr>"

definition applyTo :: "'ast PolicyEngine \<Rightarrow> CompiledPolicy \<Rightarrow> MatchedPolicy \<Rightarrow> ScoredCandidate \<Rightarrow> ScoredCandidate" where
  "applyTo engine compiled mp sc =
    (let name = op_Name (mp_Policy mp) in
     case Evaluate engine (mp_Key mp) (candidateContext (sd_Plan sc)) of
       Inl err \<Rightarrow>
         sc\<lparr>sd_Constraints := sd_Constraints sc @ [\<lparr>cr_Expr = ''engine error'', cr_Reason = cel_error_text err,
             cr_Hard = True, cr_Passed = False, cr_PolicyName = name\<rparr>], sd_Viable := False\<rparr>
     | Inr result \<Rightarrow>
         let passing = filter (\<lambda>cc. \<not> list_ex (\<lambda>v. cv_Expr v = cc_Expr cc) (er_Violations result))
               (cpo_Constraints compiled);
             w = sc_Weighted (sd_Score sc);
             w1 = w - er_Penalties result;
             w' = (if 0 < er_Penalties result then (if w1 < 0 then 0 else w1) else w) in
         sc\<lparr>sd_Constraints := sd_Constraints sc @ map (violationResult name) (er_Violations result) @
               map (passingResult name) passing,
            sd_Viable := (if \<not> er_Passed result then False else sd_Viable sc),
            sd_Score := (sd_Score sc)\<lparr>sc_Weighted := w'\<rparr>\<rparr>)"

definition applyConstraints :: "'ast Solver \<Rightarrow> ScoredCandidate list \<Rightarrow> MatchedPolicy \<Rightarrow> ScoredCandidate list" where
  "applyConstraints s scored mp =
    (case sv_PolicyEngine s of
       None \<Rightarrow> scored
     | Some engine \<Rightarrow>
       (case GetCompiled engine (mp_Key mp) of
          None \<Rightarrow> scored
        | Some compiled \<Rightarrow> map (applyTo engine compiled mp) scored))"

definition filterViable :: "ScoredCandidate list \<Rightarrow> ScoredCandidate list" where
  "filterViable scored = filter sd_Viable scored"

definition arrow_d :: "int \<Rightarrow> int \<Rightarrow> string" where
  "arrow_d a b = fmt_d a @ '' '' @ arrow @ '' '' @ fmt_d b"

definition arrow_f :: "nat \<Rightarrow> f64 \<Rightarrow> f64 \<Rightarrow> string \<Rightarrow> string" where
  "arrow_f k a b unit = fmt_f k a @ unit @ arrow @ fmt_f k b @ unit"

definition buildAction :: "SolverInput \<Rightarrow> ScoredCandidate \<Rightarrow> bool \<Rightarrow> ScalingAction" where
  "buildAction input best dryRun =
    (let plan = sd_Plan best; cur = si_Current input; w = sc_Weighted (sd_Score best);
         currentReplicas = cs_Replicas cur;
         cpuChanged = (\<not> feq (cp_CPURequest plan) (cs_CPURequest cur));
         memoryChanged = (\<not> feq (cp_MemoryRequest plan) (cs_MemoryRequest cur));
         spotChanged = (\<not> feq (cp_SpotRatio plan) (cs_SpotRatio cur));
         score = '' (weighted score '' @ fmt_f 3 w @ '')'';
         (ty, reason) =
           (if currentReplicas < cp_Replicas plan then
              (ActionScaleUp, ''scale up: '' @ arrow_d currentReplicas (cp_Replicas plan) @ '' replicas'' @ score)
            else if cp_Replicas plan < currentReplicas then
              (ActionScaleDown, ''scale down: '' @ arrow_d currentReplicas (cp_Replicas plan) @ '' replicas'' @ score)
            else if cpuChanged \<or> memoryChanged then
              (ActionTune, ''tune: cpu '' @ arrow_f 3 (cs_CPURequest cur) (cp_CPURequest plan) [] @
                 '', mem '' @ arrow_f 3 (cs_MemoryRequest cur) (cp_MemoryRequest plan) [] @ '' GiB'' @
                 (if spotChanged
                  then '', spot '' @ arrow_f 0 (cs_SpotRatio cur * lit 100) (cp_SpotRatio plan * lit 100) ''%'' else []) @
                 score)
            else if spotChanged then
              (ActionNoAction, ''current state is optimal for supported actuators'')
            else (ActionNoAction, ''current state is optimal'')) in
     \<lparr>sa_Type = ty, sa_TargetReplica = wrap32 (cp_Replicas plan), sa_CPURequest = cp_CPURequest plan,
      sa_MemoryRequest = cp_MemoryRequest plan, sa_SpotRatio = cp_SpotRatio plan, sa_DryRun = dryRun,
      sa_Reason = reason, sa_Confidence = w, sa_TuningParams = Map.empty\<rparr>)"

text \<open>The zero value of an action, whose type is Go's empty string, appears only inside a record that
  is overwritten before it is returned.\<close>

definition staleAction :: ScalingAction where
  "staleAction = \<lparr>sa_Type = ActionNoAction, sa_TargetReplica = 0, sa_CPURequest = 0, sa_MemoryRequest = 0,
     sa_SpotRatio = 0, sa_DryRun = False, sa_Reason = [], sa_Confidence = 0, sa_TuningParams = Map.empty\<rparr>"

definition buildRecord ::
  "string \<Rightarrow> gotime \<Rightarrow> SolverInput \<Rightarrow> ScoredCandidate list \<Rightarrow> ScoredCandidate list \<Rightarrow> string list
   \<Rightarrow> ObjectiveWithSource list \<Rightarrow> bool \<Rightarrow> DecisionRecord" where
  "buildRecord ident ts input scored front policyNames objectives dryRun =
    \<lparr>dr_ID = ident, dr_Timestamp = ts, dr_Namespace = si_Namespace input, dr_Service = si_Service input,
     dr_Trigger = si_Trigger input, dr_CurrentState = si_Current input, dr_SLOStatus = si_SLO input,
     dr_TenantStatus = si_Tenant input, dr_ForecastState = si_Forecast input,
     dr_ClusterState = si_Cluster input, dr_Metrics = si_Metrics input, dr_Candidates = scored,
     dr_ParetoFront = front, dr_SelectedAction = staleAction, dr_PolicyNames = policyNames,
     dr_ObjectiveWeights = foldl (\<lambda>m ob. m(po_Name (ow_Objective ob) \<mapsto> po_Weight (ow_Objective ob))) Map.empty objectives,
     dr_ActionType = ActionNoAction, dr_DryRun = dryRun, dr_Confidence = 0\<rparr>"

definition currentAction :: "SolverInput \<Rightarrow> bool \<Rightarrow> string \<Rightarrow> ScalingAction" where
  "currentAction input dryRun reason =
    \<lparr>sa_Type = ActionNoAction, sa_TargetReplica = wrap32 (cs_Replicas (si_Current input)),
     sa_CPURequest = cs_CPURequest (si_Current input), sa_MemoryRequest = cs_MemoryRequest (si_Current input),
     sa_SpotRatio = cs_SpotRatio (si_Current input), sa_DryRun = dryRun, sa_Reason = reason,
     sa_Confidence = 0, sa_TuningParams = Map.empty\<rparr>"

definition noAction :: "SolverInput \<Rightarrow> string \<Rightarrow> gotime \<Rightarrow> string \<Rightarrow> ScalingAction \<times> DecisionRecord" where
  "noAction input ident ts reason =
    (let action = currentAction input False reason in
     (action,
      \<lparr>dr_ID = ident, dr_Timestamp = ts, dr_Namespace = si_Namespace input, dr_Service = si_Service input,
       dr_Trigger = si_Trigger input, dr_CurrentState = si_Current input, dr_SLOStatus = si_SLO input,
       dr_TenantStatus = None, dr_ForecastState = None, dr_ClusterState = zero_ClusterState,
       dr_Metrics = Map.empty, dr_Candidates = [], dr_ParetoFront = [], dr_SelectedAction = action,
       dr_PolicyNames = [], dr_ObjectiveWeights = Map.empty, dr_ActionType = ActionNoAction,
       dr_DryRun = False, dr_Confidence = 0\<rparr>))"

definition injectForecast :: "SolverInput \<Rightarrow> CandidatePlan list \<Rightarrow> CandidatePlan list" where
  "injectForecast input candidates =
    (case si_Forecast input of
       None \<Rightarrow> candidates
     | Some f \<Rightarrow>
       let c1 = (if PreWarmingChangeThreshold < fr_ChangePercent f
                 then candidates @ PreWarmingCandidates input else candidates) in
       if SpotRiskThreshold < fr_SpotRiskScore f then c1 @ SpotReductionCandidates input else c1)"

text \<open>\<open>Solve\<close> returns the action and its record; \<open>None\<close> would be the panic of \<open>SelectBest\<close> on an
  empty front.\<close>

definition Solve ::
  "(int \<Rightarrow> nat \<Rightarrow> nat list) \<Rightarrow> gotime \<Rightarrow> string \<Rightarrow> 'ast Solver \<Rightarrow> SolverInput \<Rightarrow> (ScalingAction \<times> DecisionRecord) option" where
  "Solve rngPerm now decisionID s input =
    (let candidates = injectForecast input (GenerateCandidates rngPerm input (sv_MaxCandidates s)) in
     if candidates = [] then Some (noAction input decisionID now ''no candidates generated'')
     else
      let objSources = collectObjectives input;
          scorer = NewScorer input (map ow_Objective objSources);
          policyNames = map (\<lambda>mp. op_Name (mp_Policy mp)) (si_Policies input);
          dryRun = list_ex (\<lambda>mp. ops_DryRun (op_Spec (mp_Policy mp))) (si_Policies input);
          scored = foldl (applyConstraints s) (ScoreAll scorer candidates) (si_Policies input);
          viable = filterViable scored in
      if viable = [] then
        (let action = currentAction input dryRun ''all candidates filtered by constraints'' in
         Some (action, (buildRecord decisionID now input scored [] policyNames objSources dryRun)
           \<lparr>dr_SelectedAction := action, dr_ActionType := ActionNoAction\<rparr>))
      else
       (let front = FindParetoFront viable in
        case SelectBest front (si_Current input) of
          None \<Rightarrow> None
        | Some best \<Rightarrow>
          let action = buildAction input best dryRun in
          Some (action, (buildRecord decisionID now input scored front policyNames objSources dryRun)
            \<lparr>dr_SelectedAction := action, dr_ActionType := sa_Type action, dr_Confidence := sa_Confidence action\<rparr>)))"

section \<open>Library\<close>

subsection \<open>Constraints decide viability\<close>

text \<open>The hard constraints of the compiled policies among \<open>mps\<close> hold of a plan.\<close>

definition hard_ok :: "'ast Solver \<Rightarrow> MatchedPolicy list \<Rightarrow> CandidatePlan \<Rightarrow> bool" where
  "hard_ok s mps plan = (\<forall>mp \<in> set mps.
     case sv_PolicyEngine s of None \<Rightarrow> True
     | Some engine \<Rightarrow> (case GetCompiled engine (mp_Key mp) of None \<Rightarrow> True
         | Some cp \<Rightarrow> \<forall>c \<in> set (cpo_Constraints cp). cc_Hard c \<longrightarrow> satisfied (candidateContext plan) c))"

lemma applyTo_fields:
  assumes "GetCompiled engine (mp_Key mp) = Some cp"
  shows "sd_Plan (applyTo engine cp mp sc) = sd_Plan sc"
    "sd_Viable (applyTo engine cp mp sc) \<longleftrightarrow> sd_Viable sc \<and>
       (\<forall>c \<in> set (cpo_Constraints cp). cc_Hard c \<longrightarrow> satisfied (candidateContext (sd_Plan sc)) c)"
    "sc_SLO (sd_Score (applyTo engine cp mp sc)) = sc_SLO (sd_Score sc)"
    "sc_Cost (sd_Score (applyTo engine cp mp sc)) = sc_Cost (sd_Score sc)"
    "sc_Carbon (sd_Score (applyTo engine cp mp sc)) = sc_Carbon (sd_Score sc)"
    "sc_Fairness (sd_Score (applyTo engine cp mp sc)) = sc_Fairness (sd_Score sc)"
  by (auto simp: applyTo_def Let_def Evaluate_compiled [OF assms])

text \<open>What the constraints never change: the plans, and the four dimension scores.\<close>

definition same_dims :: "CandidateScore \<Rightarrow> CandidateScore \<Rightarrow> bool" where
  "same_dims a b = (sc_SLO a = sc_SLO b \<and> sc_Cost a = sc_Cost b \<and> sc_Carbon a = sc_Carbon b \<and> sc_Fairness a = sc_Fairness b)"

lemma applyConstraints_elem:
  assumes "sc \<in> set (applyConstraints s scored mp)"
  obtains sc0 where "sc0 \<in> set scored" "sd_Plan sc = sd_Plan sc0" "same_dims (sd_Score sc) (sd_Score sc0)"
    "sd_Viable sc \<longleftrightarrow> sd_Viable sc0 \<and> hard_ok s [mp] (sd_Plan sc0)"
proof (cases "\<exists>engine cp. sv_PolicyEngine s = Some engine \<and> GetCompiled engine (mp_Key mp) = Some cp")
  case True
  then obtain engine cp where e: "sv_PolicyEngine s = Some engine" "GetCompiled engine (mp_Key mp) = Some cp" by blast
  then obtain sc0 where "sc0 \<in> set scored" "sc = applyTo engine cp mp sc0"
    using assms by (auto simp: applyConstraints_def)
  then show ?thesis using that e applyTo_fields [OF e(2)] by (simp add: same_dims_def hard_ok_def)
next
  case False
  then have "applyConstraints s scored mp = scored" "hard_ok s [mp] (sd_Plan sc)"
    by (auto simp: applyConstraints_def hard_ok_def split: option.splits)
  then show ?thesis using that [of sc] assms by (simp add: same_dims_def)
qed

lemma foldl_applyConstraints_elem:
  assumes "sc \<in> set (foldl (applyConstraints s) scored mps)"
  shows "\<exists>sc0 \<in> set scored. sd_Plan sc = sd_Plan sc0 \<and> same_dims (sd_Score sc) (sd_Score sc0) \<and>
    (sd_Viable sc \<longleftrightarrow> sd_Viable sc0 \<and> hard_ok s mps (sd_Plan sc0))"
  using assms
proof (induction mps arbitrary: scored)
  case Nil
  then show ?case by (auto simp: same_dims_def hard_ok_def)
next
  case (Cons mp mps)
  then obtain sc1 where sc1: "sc1 \<in> set (applyConstraints s scored mp)" "sd_Plan sc = sd_Plan sc1"
    "same_dims (sd_Score sc) (sd_Score sc1)" "sd_Viable sc \<longleftrightarrow> sd_Viable sc1 \<and> hard_ok s mps (sd_Plan sc1)"
    by fastforce
  from sc1(1) show ?case
  proof (rule applyConstraints_elem)
    fix sc0 assume "sc0 \<in> set scored" "sd_Plan sc1 = sd_Plan sc0" "same_dims (sd_Score sc1) (sd_Score sc0)"
      "sd_Viable sc1 \<longleftrightarrow> sd_Viable sc0 \<and> hard_ok s [mp] (sd_Plan sc0)"
    then show ?thesis using sc1 by (intro bexI [of _ sc0]) (auto simp: same_dims_def hard_ok_def)
  qed
qed

lemma map_plan_applyConstraints: "map sd_Plan (foldl (applyConstraints s) scored mps) = map sd_Plan scored"
proof (induction mps arbitrary: scored)
  case (Cons mp mps)
  have "map sd_Plan (applyConstraints s scored mp) = map sd_Plan scored"
    by (auto simp: applyConstraints_def applyTo_fields split: option.split)
  then show ?case using Cons by simp
qed simp

subsection \<open>Weighted scores stay comparable\<close>

lemma applyTo_weighted:
  assumes "GetCompiled engine (mp_Key mp) = Some cp" "inrange 0 9007199254740992 (sc_Weighted (sd_Score sc))"
  shows "inrange 0 9007199254740992 (sc_Weighted (sd_Score (applyTo engine cp mp sc)))"
proof -
  let ?p = "tenths (length (filter (penalised (candidateContext (sd_Plan sc))) (cpo_Constraints cp)))"
  let ?w = "sc_Weighted (sd_Score sc)"
  have p: "inrange 0 9007199254740992 ?p" by (rule inrange_tenths)
  have "inrange 0 9007199254740992 (if ?w - ?p < 0 then 0 else ?w - ?p)"
    using assms(2) p rep_pow2 [of 53] by (intro inrange_diff_clamp [where d = 9007199254740992]) simp_all
  then show ?thesis using assms(2) by (simp add: applyTo_def Let_def Evaluate_compiled [OF assms(1)])
qed

lemma foldl_applyConstraints_weighted:
  assumes "\<forall>sc \<in> set scored. inrange 0 9007199254740992 (sc_Weighted (sd_Score sc))"
  shows "\<forall>sc \<in> set (foldl (applyConstraints s) scored mps). inrange 0 9007199254740992 (sc_Weighted (sd_Score sc))"
  using assms
  by (intro foldl_inv [where P = "\<lambda>scored. \<forall>sc \<in> set scored. inrange 0 9007199254740992 (sc_Weighted (sd_Score sc))"])
    (auto simp: applyConstraints_def applyTo_weighted split: option.splits)

definition objectives_ok :: "SolverInput \<Rightarrow> bool" where
  "objectives_ok input = (\<forall>mp \<in> set (si_Policies input).
     \<forall>ob \<in> set (ops_Objectives (op_Spec (mp_Policy mp))). unit64 (po_Weight ob))"

lemma set_injectForecast:
  "set (injectForecast input cs) \<subseteq> set cs \<union> (set (PreWarmingCandidates input) \<union> set (SpotReductionCandidates input))"
  "injectForecast input cs = [] \<Longrightarrow> cs = []"
  by (auto simp: injectForecast_def Let_def split: option.splits if_splits)

abbreviation scoredCandidates :: "(int \<Rightarrow> nat \<Rightarrow> nat list) \<Rightarrow> 'ast Solver \<Rightarrow> SolverInput \<Rightarrow> ScoredCandidate list" where
  "scoredCandidates rngPerm s input \<equiv> foldl (applyConstraints s)
     (ScoreAll (NewScorer input (map ow_Objective (collectObjectives input)))
       (injectForecast input (GenerateCandidates rngPerm input (sv_MaxCandidates s)))) (si_Policies input)"

lemma injected_plans_good:
  assumes "input_finite input" "perm_ok rngPerm" "p \<in> set (injectForecast input (GenerateCandidates rngPerm input n))"
  shows "plan_good p"
  using assms set_injectForecast(1) [of input "GenerateCandidates rngPerm input n"]
    GenerateCandidates_cases(4) [OF assms(2), of input n] rawCandidates_good injected_good
  by blast

lemma scored_ok:
  assumes "input_finite input" "perm_ok rngPerm" "objectives_ok input" "sc \<in> set (scoredCandidates rngPerm s input)"
  shows "plan_good (sd_Plan sc)" "score_ok (sd_Score sc)" "comparable (si_Current input) sc"
    "sd_Viable sc \<longleftrightarrow> hard_ok s (si_Policies input) (sd_Plan sc)"
proof -
  let ?cs = "injectForecast input (GenerateCandidates rngPerm input (sv_MaxCandidates s))"
  let ?s = "NewScorer input (map ow_Objective (collectObjectives input))"
  have good: "plan_good p" if "p \<in> set ?cs" for p using injected_plans_good [OF assms(1,2) that] .
  then have fin: "\<forall>p \<in> set ?cs. plan_finite p" by (auto simp: plan_good_def plan_finite_def)
  obtain sc0 where sc0: "sc0 \<in> set (ScoreAll ?s ?cs)" "sd_Plan sc = sd_Plan sc0" "same_dims (sd_Score sc) (sd_Score sc0)"
    "sd_Viable sc \<longleftrightarrow> sd_Viable sc0 \<and> hard_ok s (si_Policies input) (sd_Plan sc0)"
    using foldl_applyConstraints_elem [OF assms(4)] by blast
  have "sd_Plan ` set (ScoreAll ?s ?cs) = set ?cs" by (metis list.set_map map_sd_Plan_ScoreAll)
  then have mem: "sd_Plan sc \<in> set ?cs" using sc0(1,2) by auto
  then show g: "plan_good (sd_Plan sc)" by (rule good)
  have unit: "score_unit (sd_Score x)" if "x \<in> set (ScoreAll ?s ?cs)" for x using ScoreAll_unit [OF fin that] .
  have nn: "unit64 x \<Longrightarrow> x \<noteq> NaN" for x by auto
  show "score_ok (sd_Score sc)"
    using unit [OF sc0(1)] sc0(3) nn unfolding score_ok_def score_unit_def same_dims_def by metis
  show "sd_Viable sc \<longleftrightarrow> hard_ok s (si_Policies input) (sd_Plan sc)"
    using sc0 by (metis ScoreAll_elem)
  have "\<forall>ob \<in> set (s_objectives ?s). unit64 (po_Weight ob)"
    using assms(3) by (auto simp: NewScorer_def collectObjectives_def objectives_ok_def)
  then have "\<forall>x \<in> set (ScoreAll ?s ?cs). inrange 0 9007199254740992 (sc_Weighted (sd_Score x))"
    using unit computeWeighted_bounds by (metis ScoreAll_elem score_unit_update)
  then have "inrange 0 9007199254740992 (sc_Weighted (sd_Score sc))"
    using foldl_applyConstraints_weighted assms(4) by blast
  moreover have "plan_resources_finite (sd_Plan sc) (si_Current input)"
    using g assms(1) by (auto simp: plan_resources_finite_def plan_good_def input_finite_def inrange_iff)
  ultimately show "comparable (si_Current input) sc"
    using nn_not_NaN [OF disruption_nonneg] by (auto simp: comparable_def)
qed

subsection \<open>The shape of a decision\<close>

lemma Solve_cases:
  assumes "perm_ok rngPerm" "Solve rngPerm now ident s input = Some (action, rec)"
  obtains
    "filterViable (scoredCandidates rngPerm s input) = []"
    "action = currentAction input (list_ex (\<lambda>mp. ops_DryRun (op_Spec (mp_Policy mp))) (si_Policies input))
       ''all candidates filtered by constraints''"
    "dr_Candidates rec = scoredCandidates rngPerm s input" "dr_ParetoFront rec = []" "dr_SelectedAction rec = action"
  | best where "SelectBest (FindParetoFront (filterViable (scoredCandidates rngPerm s input))) (si_Current input) = Some best"
    "action = buildAction input best (list_ex (\<lambda>mp. ops_DryRun (op_Spec (mp_Policy mp))) (si_Policies input))"
    "dr_Candidates rec = scoredCandidates rngPerm s input"
    "dr_ParetoFront rec = FindParetoFront (filterViable (scoredCandidates rngPerm s input))"
    "dr_SelectedAction rec = action"
proof -
  have "injectForecast input (GenerateCandidates rngPerm input (sv_MaxCandidates s)) \<noteq> []"
    using set_injectForecast(2) GenerateCandidates_cases(1) [OF assms(1)] by blast
  then show ?thesis
    using assms(2) that unfolding Solve_def Let_def
    by (auto simp: buildRecord_def split: if_splits option.splits)
qed

lemma buildAction_fields [simp]:
  "sa_TargetReplica (buildAction input best d) = wrap32 (cp_Replicas (sd_Plan best))"
  "sa_CPURequest (buildAction input best d) = cp_CPURequest (sd_Plan best)"
  "sa_MemoryRequest (buildAction input best d) = cp_MemoryRequest (sd_Plan best)"
  "sa_SpotRatio (buildAction input best d) = cp_SpotRatio (sd_Plan best)"
  "sa_DryRun (buildAction input best d) = d"
  "sa_Confidence (buildAction input best d) = sc_Weighted (sd_Score best)"
  "sa_Type (buildAction input best d) =
    (if cs_Replicas (si_Current input) < cp_Replicas (sd_Plan best) then ActionScaleUp
     else if cp_Replicas (sd_Plan best) < cs_Replicas (si_Current input) then ActionScaleDown
     else if feq (cp_CPURequest (sd_Plan best)) (cs_CPURequest (si_Current input)) \<and>
       feq (cp_MemoryRequest (sd_Plan best)) (cs_MemoryRequest (si_Current input)) then ActionNoAction
     else ActionTune)"
  by (simp_all add: buildAction_def Let_def)

lemma Solve_returns:
  assumes "perm_ok rngPerm" "input_finite input" "objectives_ok input"
  shows "\<exists>action rec. Solve rngPerm now ident s input = Some (action, rec) \<and>
    (filterViable (dr_Candidates rec) = [] \<or>
     (\<exists>best \<in> set (dr_ParetoFront rec). action = buildAction input best (sa_DryRun action) \<and>
        (\<forall>c \<in> set (dr_ParetoFront rec). sc_Weighted (sd_Score c) \<le> sc_Weighted (sd_Score best))))"
proof -
  let ?v = "filterViable (scoredCandidates rngPerm s input)" and ?cur = "si_Current input"
  have ne: "injectForecast input (GenerateCandidates rngPerm input (sv_MaxCandidates s)) \<noteq> []"
    using set_injectForecast(2) GenerateCandidates_cases(1) [OF assms(1)] by blast
  show ?thesis
  proof (cases "?v = []")
    case True
    then show ?thesis using ne by (simp add: Solve_def Let_def buildRecord_def)
  next
    case False
    have ok: "\<forall>c \<in> set ?v. score_ok (sd_Score c)" "\<forall>c \<in> set ?v. comparable ?cur c"
      using scored_ok [OF assms(2,1,3)] by (auto simp: filterViable_def)
    have c: "\<forall>c \<in> set (FindParetoFront ?v). comparable ?cur c" using ok(2) FindParetoFront_subset by blast
    obtain w where w: "SelectBest (FindParetoFront ?v) ?cur = Some w" "w \<in> set (FindParetoFront ?v)"
      "\<And>c. c \<in> set (FindParetoFront ?v) \<Longrightarrow> \<not> beats ?cur c w"
      using SelectBest_best [OF c FindParetoFront_nonempty [OF ok(1) False]] by blast
    have "sc_Weighted (sd_Score x) \<le> sc_Weighted (sd_Score w)" if "x \<in> set (FindParetoFront ?v)" for x
      using w(3) [OF that] c that w(2) f64_not_less unfolding beats_def comparable_def by blast
    then show ?thesis using ne False w(1,2) by (simp add: Solve_def Let_def buildRecord_def) blast
  qed
qed


section \<open>Properties\<close>


text \<open>C2. On finite inputs (at most \<open>2 ^ 52\<close> replicas, requests up to \<open>2 ^ 40\<close>, objective weights and
  the current spot ratio between 0 and 1) the solver always returns, and when some candidate
  satisfies the hard constraints the chosen one has the highest weighted score on the Pareto front
  of the viable candidates.\<close>

theorem Solve_total:
  assumes "perm_ok rngPerm" "input_finite input" "objectives_ok input"
  shows "\<exists>action rec. Solve rngPerm now ident s input = Some (action, rec) \<and>
    (filterViable (dr_Candidates rec) = [] \<or>
     (\<exists>best \<in> set (dr_ParetoFront rec). action = buildAction input best (sa_DryRun action) \<and>
        (\<forall>c \<in> set (dr_ParetoFront rec). sc_Weighted (sd_Score c) \<le> sc_Weighted (sd_Score best))))"
  using assms by (rule Solve_returns)

definition demo_solver :: "unit Solver" where
  "demo_solver = NewSolver (Some demo_engine) 0"

definition demo_policy :: MatchedPolicy where
  "demo_policy = \<lparr>mp_Policy = \<lparr>op_Name = ''ha'', op_Namespace = ''default'', op_UID = ''uid'', op_Generation = 1,
     op_Spec = \<lparr>ops_Selector = None, ops_Objectives = [\<lparr>po_Name = ''cost'', po_Weight = 1, po_Direction = DirectionMinimize\<rparr>],
       ops_Constraints = [], ops_ScalingBehavior = None, ops_DryRun = True, ops_Priority = 100\<rparr>\<rparr>, mp_Key = ''uid/1''\<rparr>"

lemma demo_input_finite: "perm_ok (\<lambda>seed n. [0..<n])" "input_finite (demo_input 4\<lparr>si_Policies := [demo_policy]\<rparr>)"
  "objectives_ok (demo_input 4\<lparr>si_Policies := [demo_policy]\<rparr>)"
  by (auto simp: perm_ok_def input_finite_def demo_input_def zero_Fin one_Fin objectives_ok_def demo_policy_def)

lemma Solve_total_witness:
  "\<exists>action rec. Solve (\<lambda>seed n. [0..<n]) 1 ''id'' demo_solver (demo_input 4\<lparr>si_Policies := [demo_policy]\<rparr>) = Some (action, rec)"
  using Solve_total [OF demo_input_finite, of 1 "''id''" demo_solver] by blast


end
