(* ===== verification/Circuit_Breaker.thy ===== *)
theory Circuit_Breaker
  imports Go_Base
begin

text \<open>
  The contract that the two circuit breakers of the program share (the safety guard of the
  actuators, and the client of the ML service): a success closes the breaker, a check does not
  change what later checks answer, and a failure blocks for at most the pause. From it: however
  outcomes and checks interleave, the breaker lets calls through again one pause after the last
  failure.
\<close>

datatype breaker_event = Checked gotime | Failed gotime | Succeeded gotime

fun event_time :: "breaker_event \<Rightarrow> gotime" where
  "event_time (Checked t) = t"
| "event_time (Failed t) = t"
| "event_time (Succeeded t) = t"

fun is_failure :: "breaker_event \<Rightarrow> bool" where
  "is_failure (Failed t) = True"
| "is_failure _ = False"

locale circuit_breaker =
  fixes blocked :: "'s \<Rightarrow> gotime \<Rightarrow> bool"
    and check :: "'s \<Rightarrow> gotime \<Rightarrow> 's"
    and fail :: "'s \<Rightarrow> gotime \<Rightarrow> 's"
    and succeed :: "'s \<Rightarrow> gotime \<Rightarrow> 's"
    and pause :: duration
  assumes succeed_closes: "\<not> blocked (succeed s t) u"
    and check_keeps: "blocked (check s t) u \<Longrightarrow> blocked s u"
    and fail_bounded: "blocked (fail s t) u \<Longrightarrow> blocked s u \<or> u < t + pause"
begin

fun breaker_step :: "'s \<Rightarrow> breaker_event \<Rightarrow> 's" where
  "breaker_step s (Checked t) = check s t"
| "breaker_step s (Failed t) = fail s t"
| "breaker_step s (Succeeded t) = succeed s t"

text \<open>A later blocked answer comes from a failure less than one pause ago, or from the start.\<close>

lemma blocked_cause:
  "blocked (foldl breaker_step s es) u \<Longrightarrow> blocked s u \<or> (\<exists>t. Failed t \<in> set es \<and> u < t + pause)"
proof (induction es arbitrary: s)
  case (Cons e es)
  then have "blocked (breaker_step s e) u \<or> (\<exists>t. Failed t \<in> set es \<and> u < t + pause)" by simp
  then show ?case
    by (cases e) (use succeed_closes check_keeps fail_bounded in \<open>auto, blast+\<close>)
qed simp

theorem reopens:
  assumes "\<And>v. \<not> blocked s v" "\<forall>e \<in> set es. is_failure e \<longrightarrow> event_time e + pause \<le> u"
  shows "\<not> blocked (foldl breaker_step s es) u"
  using blocked_cause [of s es u] assms by fastforce

theorem closed_after_success:
  assumes "\<forall>e \<in> set es. \<not> is_failure e"
  shows "\<not> blocked (foldl breaker_step s (Succeeded t # es)) u"
proof
  assume "blocked (foldl breaker_step s (Succeeded t # es)) u"
  then have "blocked (succeed s t) u \<or> (\<exists>v. Failed v \<in> set es \<and> u < v + pause)"
    using blocked_cause [of "succeed s t" es u] by simp
  then show False using succeed_closes assms by auto
qed

end

end
