(* ===== verification/Safety_Guard.thy ===== *)
theory Safety_Guard
  imports Engine_Types Circuit_Breaker
begin

text \<open>
  The safety guard of \<open>internal/actuator/safety.go\<close> and the types of
  \<open>internal/actuator/interface.go\<close>: the emergency stop, the cooldown between actuations and the
  circuit breaker per service. The mutex makes every operation atomic, so a run is a sequence of
  operations. The clock reading of an operation is its argument \<open>now\<close>; the Kubernetes reads of the
  emergency stop are the arguments \<open>getNamespace\<close> (the annotations of a namespace, \<open>None\<close> on any
  error) and \<open>getConfigMap\<close> (the data of a ConfigMap).
\<close>

section \<open>Data\<close>

record ServiceRef =
  ref_Namespace :: string
  ref_Name :: string
  ref_APIVersion :: string
  ref_Kind :: string

record ActuationOptions =
  ao_DryRun :: bool
  ao_Canary :: bool
  ao_MaxChange :: f64
  ao_CooldownSeconds :: int

record ChangeRecord =
  ch_Resource :: string
  ch_Field :: string
  ch_OldValue :: string
  ch_NewValue :: string
  ch_Timestamp :: gotime

record ActuationResult =
  ar_Applied :: bool
  ar_PreviousState :: string
  ar_Changes :: "ChangeRecord list"
  ar_Error :: "string option"

datatype guard_error = ErrEmergencyStop | ErrCooldownActive | ErrCircuitOpen

datatype ActuationOutcome = OutcomeImproved | OutcomeDegraded

record circuitEntry =
  consecutiveStrikes :: int
  pausedUntil :: gotime

record cooldownEntry =
  lastActuated :: gotime

record SafetyGuard =
  sg_circuits :: "string \<rightharpoonup> circuitEntry"
  sg_cooldowns :: "string \<rightharpoonup> cooldownEntry"

definition AnnotationPause :: string where
  "AnnotationPause = ''optipilot.ai/pause''"

definition GlobalPauseConfigMap :: string where
  "GlobalPauseConfigMap = ''optipilot-system/optipilot-pause''"

definition circuitBreakerMaxStrikes :: int where
  "circuitBreakerMaxStrikes = 3"

definition circuitBreakerPauseDuration :: duration where
  "circuitBreakerPauseDuration = 15 * minute"

section \<open>Operations\<close>

definition NewSafetyGuard :: SafetyGuard where
  "NewSafetyGuard = \<lparr>sg_circuits = Map.empty, sg_cooldowns = Map.empty\<rparr>"

definition serviceKey :: "ServiceRef \<Rightarrow> string" where
  "serviceKey ref = ref_Namespace ref @ ''/'' @ ref_Name ref"

definition splitNamespacedName :: "string \<Rightarrow> string \<times> string" where
  "splitNamespacedName s =
    (if CHR ''/'' \<in> set s
     then (takeWhile (\<lambda>c. c \<noteq> CHR ''/'') s, tl (dropWhile (\<lambda>c. c \<noteq> CHR ''/'') s))
     else (''default'', s))"

definition CheckEmergencyStop ::
  "(string \<Rightarrow> (string \<rightharpoonup> string) option) \<Rightarrow> (string \<times> string \<Rightarrow> (string \<rightharpoonup> string) option) \<Rightarrow> ServiceRef \<Rightarrow> guard_error option" where
  "CheckEmergencyStop getNamespace getConfigMap ref =
    (if (case getNamespace (ref_Namespace ref) of
           None \<Rightarrow> False | Some annotations \<Rightarrow> annotations AnnotationPause = Some ''true'')
     then Some ErrEmergencyStop
     else if (case getConfigMap (splitNamespacedName GlobalPauseConfigMap) of
           None \<Rightarrow> False | Some data \<Rightarrow> data ''pause'' = Some ''true'')
     then Some ErrEmergencyStop
     else None)"

definition CheckCooldown :: "gotime \<Rightarrow> SafetyGuard \<Rightarrow> ServiceRef \<Rightarrow> ActuationOptions \<Rightarrow> guard_error option" where
  "CheckCooldown now s ref opts =
    (if ao_CooldownSeconds opts \<le> 0 then None
     else
      case sg_cooldowns s (serviceKey ref) of
        None \<Rightarrow> None
      | Some entry \<Rightarrow>
        let minGap = wrap64 (ao_CooldownSeconds opts * second) in
        if time_sub now (lastActuated entry) < minGap then Some ErrCooldownActive else None)"

definition RecordActuation :: "gotime \<Rightarrow> SafetyGuard \<Rightarrow> ServiceRef \<Rightarrow> SafetyGuard" where
  "RecordActuation now s ref =
    s\<lparr>sg_cooldowns := (sg_cooldowns s)(serviceKey ref \<mapsto> \<lparr>lastActuated = now\<rparr>)\<rparr>"

definition CheckCircuit :: "gotime \<Rightarrow> SafetyGuard \<Rightarrow> ServiceRef \<Rightarrow> guard_error option \<times> SafetyGuard" where
  "CheckCircuit now s ref =
    (case sg_circuits s (serviceKey ref) of
       None \<Rightarrow> (None, s)
     | Some entry \<Rightarrow>
       if circuitBreakerMaxStrikes \<le> consecutiveStrikes entry then
         (if now < pausedUntil entry then (Some ErrCircuitOpen, s)
          else (None, s\<lparr>sg_circuits := (sg_circuits s)(serviceKey ref := None)\<rparr>))
       else (None, s))"

definition RecordOutcome :: "gotime \<Rightarrow> SafetyGuard \<Rightarrow> ServiceRef \<Rightarrow> ActuationOutcome \<Rightarrow> SafetyGuard" where
  "RecordOutcome now s ref outcome =
    (if outcome = OutcomeImproved then s\<lparr>sg_circuits := (sg_circuits s)(serviceKey ref := None)\<rparr>
     else
      let entry = (case sg_circuits s (serviceKey ref) of
             Some e \<Rightarrow> e | None \<Rightarrow> \<lparr>consecutiveStrikes = 0, pausedUntil = 0\<rparr>);
          entry1 = entry\<lparr>consecutiveStrikes := wrap64 (consecutiveStrikes entry + 1)\<rparr>;
          entry2 = (if circuitBreakerMaxStrikes \<le> consecutiveStrikes entry1
                    then entry1\<lparr>pausedUntil := time_add now circuitBreakerPauseDuration\<rparr> else entry1) in
      s\<lparr>sg_circuits := (sg_circuits s)(serviceKey ref \<mapsto> entry2)\<rparr>)"

definition StrikeCount :: "SafetyGuard \<Rightarrow> ServiceRef \<Rightarrow> int" where
  "StrikeCount s ref = (case sg_circuits s (serviceKey ref) of Some e \<Rightarrow> consecutiveStrikes e | None \<Rightarrow> 0)"

definition IsCircuitOpen :: "gotime \<Rightarrow> SafetyGuard \<Rightarrow> ServiceRef \<Rightarrow> bool \<times> SafetyGuard" where
  "IsCircuitOpen now s ref = (let r = CheckCircuit now s ref in (fst r = Some ErrCircuitOpen, snd r))"

text \<open>The three checks of \<open>Allow\<close> read the clock one after the other, here at \<open>now1\<close> and \<open>now2\<close>.\<close>

definition Allow ::
  "(string \<Rightarrow> (string \<rightharpoonup> string) option) \<Rightarrow> (string \<times> string \<Rightarrow> (string \<rightharpoonup> string) option) \<Rightarrow> gotime \<Rightarrow> gotime \<Rightarrow>
   SafetyGuard \<Rightarrow> ServiceRef \<Rightarrow> ActuationOptions \<Rightarrow> guard_error option \<times> SafetyGuard" where
  "Allow getNamespace getConfigMap now1 now2 s ref opts =
    (case CheckEmergencyStop getNamespace getConfigMap ref of
       Some e \<Rightarrow> (Some e, s)
     | None \<Rightarrow>
       (case CheckCooldown now1 s ref opts of
          Some e \<Rightarrow> (Some e, s)
        | None \<Rightarrow> CheckCircuit now2 s ref))"

section \<open>Library\<close>

lemma splitNamespacedName_join:
  "CHR ''/'' \<notin> set a \<Longrightarrow> splitNamespacedName (a @ ''/'' @ b) = (a, b)"
  by (simp add: splitNamespacedName_def takeWhile_append dropWhile_append takeWhile_eq_all_conv)

text \<open>Kubernetes names hold no slash, so the keys of different services differ.\<close>

lemma serviceKey_inj:
  assumes "CHR ''/'' \<notin> set (ref_Name r)" "CHR ''/'' \<notin> set (ref_Name q)"
  shows "serviceKey r = serviceKey q \<longleftrightarrow> ref_Namespace r = ref_Namespace q \<and> ref_Name r = ref_Name q"
  using append_sep_inj [of "ref_Namespace r" "CHR ''/''" "ref_Name r" "ref_Namespace q" "ref_Name q"] assms
  by (auto simp: serviceKey_def)

abbreviation circuit_blocked :: "ServiceRef \<Rightarrow> SafetyGuard \<Rightarrow> gotime \<Rightarrow> bool" where
  "circuit_blocked ref s t \<equiv> fst (CheckCircuit t s ref) = Some ErrCircuitOpen"

lemma circuit_blocked_iff:
  "circuit_blocked ref s t \<longleftrightarrow> (\<exists>e. sg_circuits s (serviceKey ref) = Some e \<and>
     circuitBreakerMaxStrikes \<le> consecutiveStrikes e \<and> t < pausedUntil e)"
  by (auto simp: CheckCircuit_def split: option.splits)

interpretation guard: circuit_breaker "circuit_blocked ref" "\<lambda>s t. snd (CheckCircuit t s ref)"
  "\<lambda>s t. RecordOutcome t s ref OutcomeDegraded" "\<lambda>s t. RecordOutcome t s ref OutcomeImproved"
  circuitBreakerPauseDuration for ref
proof
  show "\<not> circuit_blocked ref (RecordOutcome t s ref OutcomeImproved) u" for s t u
    by (simp add: circuit_blocked_iff RecordOutcome_def)
  show "circuit_blocked ref s u" if "circuit_blocked ref (snd (CheckCircuit t s ref)) u" for s t u
    using that unfolding circuit_blocked_iff by (auto simp: CheckCircuit_def split: option.splits if_splits)
  show "circuit_blocked ref s u \<or> u < t + circuitBreakerPauseDuration"
    if "circuit_blocked ref (RecordOutcome t s ref OutcomeDegraded) u" for s t u
    using that unfolding circuit_blocked_iff by (auto simp: RecordOutcome_def Let_def time_add_def split: option.splits if_splits)
qed

text \<open>Consecutive degraded outcomes.\<close>

lemma strikes_run:
  assumes "sg_circuits s (serviceKey ref) = None" "ts \<noteq> []" "length ts < 2 ^ 62"
  shows "\<exists>e. sg_circuits (foldl (\<lambda>s t. RecordOutcome t s ref OutcomeDegraded) s ts) (serviceKey ref) = Some e \<and>
    consecutiveStrikes e = int (length ts) \<and>
    (3 \<le> length ts \<longrightarrow> pausedUntil e = last ts + circuitBreakerPauseDuration)"
  using assms(2,3)
proof (induction ts rule: rev_induct)
  case (snoc t ts)
  let ?r = "foldl (\<lambda>s t. RecordOutcome t s ref OutcomeDegraded) s"
  have in64: "in64 (int (length ts) + 1)" using snoc.prems by (simp add: in64_def)
  show ?case
  proof (cases "ts = []")
    case True
    then show ?thesis
      using assms(1) by (simp add: RecordOutcome_def Let_def wrap_simps in64_def circuitBreakerMaxStrikes_def)
  next
    case False
    then obtain e where "sg_circuits (?r ts) (serviceKey ref) = Some e" "consecutiveStrikes e = int (length ts)"
      using snoc by auto
    then show ?thesis
      using in64 by (simp add: RecordOutcome_def Let_def wrap_simps time_add_def circuitBreakerMaxStrikes_def add.commute)
  qed
qed simp

text \<open>Operations on one service leave the others alone.\<close>

lemma other_service:
  assumes "serviceKey r \<noteq> serviceKey q"
  shows "fst (CheckCircuit t (RecordOutcome u s r oc) q) = fst (CheckCircuit t s q)"
    "CheckCooldown t (RecordOutcome u s r oc) q opts = CheckCooldown t s q opts"
    "CheckCooldown t (RecordActuation u s r) q opts = CheckCooldown t s q opts"
    "fst (CheckCircuit t (RecordActuation u s r) q) = fst (CheckCircuit t s q)"
  using assms by (auto simp: CheckCircuit_def CheckCooldown_def RecordOutcome_def RecordActuation_def Let_def split: option.split)

text \<open>The cooldown on mathematical times: a 32-bit number of seconds does not overflow.\<close>

lemma CheckCooldown_None:
  assumes "in32 (ao_CooldownSeconds opts)"
  shows "CheckCooldown now s ref opts = None \<longleftrightarrow> ao_CooldownSeconds opts \<le> 0 \<or>
    (case sg_cooldowns s (serviceKey ref) of None \<Rightarrow> True
     | Some e \<Rightarrow> ao_CooldownSeconds opts * 1000000000 \<le> now - lastActuated e)"
proof -
  have gap: "in64 (ao_CooldownSeconds opts * second)" using assms by (simp add: in64_def in32_def)
  have "satur64 x < ao_CooldownSeconds opts * second \<longleftrightarrow> x < ao_CooldownSeconds opts * second"
    if "0 < ao_CooldownSeconds opts" for x
    using that gap by (intro satur64_less_iff) auto
  then show ?thesis
    using gap by (auto simp: CheckCooldown_def time_sub_def wrap_simps not_le not_less split: option.split)
qed

lemma Allow_None:
  assumes "Allow getNamespace getConfigMap now1 now2 s ref opts = (None, s')"
  shows "CheckCooldown now1 s ref opts = None" "sg_cooldowns s' = sg_cooldowns s"
  using assms by (auto simp: Allow_def CheckCircuit_def split: option.splits if_splits)

lemma Allow_cooldowns: "sg_cooldowns (snd (Allow getNamespace getConfigMap now1 now2 s ref opts)) = sg_cooldowns s"
  by (auto simp: Allow_def CheckCircuit_def split: option.splits)

text \<open>A run of the guard for one service: checks and outcomes in any order.\<close>

fun guard_step :: "ServiceRef \<Rightarrow> SafetyGuard \<Rightarrow> breaker_event \<Rightarrow> SafetyGuard" where
  "guard_step ref s (Checked t) = snd (CheckCircuit t s ref)"
| "guard_step ref s (Failed t) = RecordOutcome t s ref OutcomeDegraded"
| "guard_step ref s (Succeeded t) = RecordOutcome t s ref OutcomeImproved"

lemma guard_step_eq: "guard_step ref = guard.breaker_step ref"
proof (intro ext)
  show "guard_step ref s e = guard.breaker_step ref s e" for s e by (cases e) simp_all
qed

section \<open>Properties\<close>

text \<open>C12. Actuation is allowed exactly when neither the namespace annotation nor the global ConfigMap
  pauses it, the cooldown is off or the service was never actuated or at least the cooldown ago,
  and the circuit of the service is not open.\<close>

theorem Allow_iff:
  assumes "in32 (ao_CooldownSeconds opts)"
  shows "fst (Allow getNamespace getConfigMap now1 now2 s ref opts) = None \<longleftrightarrow>
    \<not> (\<exists>a. getNamespace (ref_Namespace ref) = Some a \<and> a ''optipilot.ai/pause'' = Some ''true'') \<and>
    \<not> (\<exists>d. getConfigMap (''optipilot-system'', ''optipilot-pause'') = Some d \<and> d ''pause'' = Some ''true'') \<and>
    (ao_CooldownSeconds opts \<le> 0 \<or> (case sg_cooldowns s (serviceKey ref) of None \<Rightarrow> True
       | Some e \<Rightarrow> ao_CooldownSeconds opts * 1000000000 \<le> now1 - lastActuated e)) \<and>
    (case sg_circuits s (serviceKey ref) of None \<Rightarrow> True
       | Some e \<Rightarrow> consecutiveStrikes e < 3 \<or> pausedUntil e \<le> now2)"
proof -
  note cool = CheckCooldown_None [OF assms, of now1 s ref]
  have split: "splitNamespacedName GlobalPauseConfigMap = (''optipilot-system'', ''optipilot-pause'')"
    by (simp add: GlobalPauseConfigMap_def splitNamespacedName_def)
  have stop: "CheckEmergencyStop getNamespace getConfigMap ref = None \<longleftrightarrow>
      \<not> (\<exists>a. getNamespace (ref_Namespace ref) = Some a \<and> a ''optipilot.ai/pause'' = Some ''true'') \<and>
      \<not> (\<exists>d. getConfigMap (''optipilot-system'', ''optipilot-pause'') = Some d \<and> d ''pause'' = Some ''true'')"
    by (auto simp: CheckEmergencyStop_def split AnnotationPause_def split: option.splits)
  have circ: "fst (CheckCircuit now2 s ref) = None \<longleftrightarrow>
      (case sg_circuits s (serviceKey ref) of None \<Rightarrow> True
       | Some e \<Rightarrow> consecutiveStrikes e < 3 \<or> pausedUntil e \<le> now2)"
    by (auto simp: CheckCircuit_def circuitBreakerMaxStrikes_def split: option.split)
  have "fst (Allow getNamespace getConfigMap now1 now2 s ref opts) = None \<longleftrightarrow>
      CheckEmergencyStop getNamespace getConfigMap ref = None \<and> CheckCooldown now1 s ref opts = None \<and>
      fst (CheckCircuit now2 s ref) = None"
    by (auto simp: Allow_def split: option.split)
  then show ?thesis using stop cool circ by blast
qed

abbreviation demo_ref :: ServiceRef where
  "demo_ref \<equiv> \<lparr>ref_Namespace = ''prod'', ref_Name = ''web'', ref_APIVersion = ''apps/v1'', ref_Kind = ''Deployment''\<rparr>"

lemma Allow_iff_witness:
  "fst (Allow (\<lambda>_. None) (\<lambda>_. None) (70 * second) (70 * second) (RecordActuation (20 * second) NewSafetyGuard demo_ref) demo_ref
     \<lparr>ao_DryRun = False, ao_Canary = False, ao_MaxChange = 0, ao_CooldownSeconds = 60\<rparr>) \<noteq> None"
  using Allow_iff [of "\<lparr>ao_DryRun = False, ao_Canary = False, ao_MaxChange = 0, ao_CooldownSeconds = 60\<rparr>"
      "\<lambda>_. None" "\<lambda>_. None" "70 * second" "70 * second" "RecordActuation (20 * second) NewSafetyGuard demo_ref" demo_ref]
  by (simp add: in32_def RecordActuation_def NewSafetyGuard_def)

text \<open>Three consecutive degraded outcomes open the circuit and fewer do not: after outcomes at times
  \<open>ts\<close> on a service without strikes, the circuit is open at \<open>u\<close> exactly when there were at least
  three and \<open>u\<close> is less than 15 minutes after the last.\<close>

theorem circuit_opens_after_three:
  assumes "sg_circuits s (serviceKey ref) = None" "ts \<noteq> []" "length ts < 2 ^ 62"
  shows "fst (CheckCircuit u (foldl (\<lambda>s t. RecordOutcome t s ref OutcomeDegraded) s ts) ref) = Some ErrCircuitOpen \<longleftrightarrow>
    3 \<le> length ts \<and> u < last ts + 900000000000"
  using strikes_run [OF assms]
  by (auto simp: circuit_blocked_iff circuitBreakerMaxStrikes_def circuitBreakerPauseDuration_def)

lemma circuit_opens_after_three_witness:
  "fst (CheckCircuit (5 * minute) (foldl (\<lambda>s t. RecordOutcome t s demo_ref OutcomeDegraded) NewSafetyGuard
     [1 * minute, 2 * minute, 3 * minute]) demo_ref) = Some ErrCircuitOpen \<and>
   fst (CheckCircuit (18 * minute) (foldl (\<lambda>s t. RecordOutcome t s demo_ref OutcomeDegraded) NewSafetyGuard
     [1 * minute, 2 * minute, 3 * minute]) demo_ref) \<noteq> Some ErrCircuitOpen"
proof -
  have n: "sg_circuits NewSafetyGuard (serviceKey demo_ref) = None" by (simp add: NewSafetyGuard_def)
  show ?thesis
    using circuit_opens_after_three [OF n, of "[1 * minute, 2 * minute, 3 * minute]" "5 * minute"]
      circuit_opens_after_three [OF n, of "[1 * minute, 2 * minute, 3 * minute]" "18 * minute"] by simp
qed

text \<open>However checks and outcomes interleave, a new guard does not hold a service back once every
  degraded outcome is at least 15 minutes old.\<close>

theorem circuit_reopens:
  assumes "\<forall>e \<in> set es. is_failure e \<longrightarrow> event_time e + 900000000000 \<le> u"
  shows "fst (CheckCircuit u (foldl (guard_step ref) NewSafetyGuard es) ref) = None"
proof -
  have "\<not> circuit_blocked ref NewSafetyGuard v" for v by (simp add: circuit_blocked_iff NewSafetyGuard_def)
  then have "\<not> circuit_blocked ref (foldl (guard_step ref) NewSafetyGuard es) u"
    unfolding guard_step_eq using assms by (intro guard.reopens) (simp_all add: circuitBreakerPauseDuration_def)
  then show ?thesis by (cases "fst (CheckCircuit u (foldl (guard_step ref) NewSafetyGuard es) ref)")
      (auto simp: CheckCircuit_def split: option.splits if_splits)
qed

lemma circuit_reopens_witness:
  "fst (CheckCircuit (20 * minute) (foldl (guard_step demo_ref) NewSafetyGuard
     [Failed minute, Checked (2 * minute), Failed (2 * minute), Failed (3 * minute), Checked (4 * minute)]) demo_ref) = None"
  by (rule circuit_reopens) simp

end
