(* ===== verification/Pod_Actuator.thy ===== *)
theory Pod_Actuator
  imports Safety_Guard
begin

text \<open>
  Scaling of workloads, \<open>internal/actuator/pod_actuator.go\<close>, and the dispatch of \<open>Registry\<close> in
  \<open>internal/actuator/interface.go\<close>. The Kubernetes client is a record of functions on a world \<open>'w\<close>; of a
  Deployment and an HPA the model has the fields that the actuator reads or writes. \<open>encoding/json\<close> enters as
  the text it writes for the two snapshot structs and as the function \<open>pc_unmarshal\<close> that reads one back.
\<close>

section \<open>Data\<close>

text \<open>\<open>resource.Quantity\<close>, by the constructor that made it.\<close>

datatype Quantity = NewMilliQuantity int | NewQuantity int | QuantityText string

record Container =
  ct_Name :: string
  ct_Requests :: "string \<rightharpoonup> Quantity"

record Deployment =
  dp_Name :: string
  dp_Replicas :: "int option"
  dp_Annotations :: "string \<rightharpoonup> string"
  dp_Containers :: "Container list"

record HorizontalPodAutoscaler =
  hpa_Name :: string
  hpa_TargetKind :: string
  hpa_TargetName :: string
  hpa_MinReplicas :: "int option"
  hpa_MaxReplicas :: int
  hpa_Annotations :: "string \<rightharpoonup> string"

datatype get_error = NotFound | GetFailed string

text \<open>A patch sends what differs between the object that was read and the changed one.\<close>

record 'w pod_client =
  pc_ListHPAs :: "string \<Rightarrow> 'w \<Rightarrow> (string + HorizontalPodAutoscaler list) \<times> 'w"
  pc_GetDeployment :: "string \<Rightarrow> string \<Rightarrow> 'w \<Rightarrow> (get_error + Deployment) \<times> 'w"
  pc_PatchDeployment :: "string \<Rightarrow> string \<Rightarrow> Deployment \<Rightarrow> Deployment \<Rightarrow> 'w \<Rightarrow> string option \<times> 'w"
  pc_PatchHPA :: "string \<Rightarrow> HorizontalPodAutoscaler \<Rightarrow> HorizontalPodAutoscaler \<Rightarrow> 'w \<Rightarrow> string option \<times> 'w"
  pc_now :: "'w \<Rightarrow> gotime \<times> 'w"
  pc_timeText :: "gotime \<Rightarrow> string"
  pc_unmarshal :: "string \<Rightarrow> string + int"

record PodActuator =
  pa_MinReplicas :: int

datatype pod_error =
    ErrListHPAs string
  | ErrPatchHPA string
  | ErrGetDeployment get_error
  | ErrPatchDeployment string
  | ErrGetForRollback string
  | ErrParsePreviousState string
  | ErrRollbackPatch string

definition AnnotationPreviousState :: string where
  "AnnotationPreviousState = ''optipilot.ai/previous-state''"

definition AnnotationVPARecommendation :: string where
  "AnnotationVPARecommendation = ''optipilot.ai/vpa-recommendation''"

definition emptyResult :: ActuationResult where
  "emptyResult = \<lparr>ar_Applied = False, ar_PreviousState = [], ar_Changes = [], ar_Error = None\<rparr>"

definition NewPodActuator :: PodActuator where
  "NewPodActuator = \<lparr>pa_MinReplicas = 1\<rparr>"

section \<open>Helpers\<close>

definition jsonKey :: "string \<Rightarrow> string" where
  "jsonKey k = [CHR 0x22] @ k @ [CHR 0x22] @ '':''"

definition deploymentSnapshot :: "int \<Rightarrow> string" where
  "deploymentSnapshot replicas = ''{'' @ jsonKey ''replicas'' @ fmt_d replicas @ ''}''"

definition hpaSnapshot :: "int \<Rightarrow> int \<Rightarrow> string" where
  "hpaSnapshot minR maxR =
     ''{'' @ jsonKey ''minReplicas'' @ fmt_d minR @ '','' @ jsonKey ''maxReplicas'' @ fmt_d maxR @ ''}''"

definition quoted :: "string \<Rightarrow> string" where
  "quoted s = [CHR 0x22] @ s @ [CHR 0x22]"

definition vpaRecommendation :: "ScalingAction \<Rightarrow> string \<Rightarrow> string" where
  "vpaRecommendation action timestamp =
     ''{'' @ jsonKey ''cpu'' @ quoted (fmt_f 0 (sa_CPURequest action * lit 1000) @ ''m'') @ '','' @
     jsonKey ''memory'' @ quoted (fmt_f 0 (sa_MemoryRequest action * lit 1024) @ ''Mi'') @ '','' @
     jsonKey ''timestamp'' @ quoted timestamp @ ''}''"

definition applyMaxChange :: "int \<Rightarrow> int \<Rightarrow> f64 \<Rightarrow> int" where
  "applyMaxChange current target maxChangeFrac =
    (if maxChangeFrac \<le> 0 \<or> current = 0 then target
     else
       let d = to_int32 (of_int64 current * maxChangeFrac);
           maxDelta = (if d < 1 then 1 else d) in
       if wrap32 (current + maxDelta) < target then wrap32 (current + maxDelta)
       else if target < wrap32 (current - maxDelta) then wrap32 (current - maxDelta)
       else target)"

definition change :: "string \<Rightarrow> string \<Rightarrow> int \<Rightarrow> int \<Rightarrow> gotime \<Rightarrow> ChangeRecord" where
  "change res fld old new t =
     \<lparr>ch_Resource = res, ch_Field = fld, ch_OldValue = fmt_d old, ch_NewValue = fmt_d new, ch_Timestamp = t\<rparr>"

section \<open>HPA mode\<close>

definition findHPA :: "ServiceRef \<Rightarrow> HorizontalPodAutoscaler list \<Rightarrow> HorizontalPodAutoscaler option" where
  "findHPA ref hpas = find (\<lambda>h. hpa_TargetName h = ref_Name ref \<and> (hpa_TargetKind h = ref_Kind ref \<or> ref_Kind ref = [])) hpas"

text \<open>\<open>Inr None\<close>: no HPA targets the workload.\<close>

definition applyHPA ::
  "'w pod_client \<Rightarrow> ServiceRef \<Rightarrow> int \<Rightarrow> ActuationOptions \<Rightarrow> 'w \<Rightarrow> (pod_error + ActuationResult option) \<times> 'w"
where
  "applyHPA c ref target opts w =
    (case pc_ListHPAs c (ref_Namespace ref) w of
       (Inl e, w1) \<Rightarrow> (Inl (ErrListHPAs e), w1)
     | (Inr hpas, w1) \<Rightarrow>
       (case findHPA ref hpas of
          None \<Rightarrow> (Inr None, w1)
        | Some hpa \<Rightarrow>
          (let prevMin = (case hpa_MinReplicas hpa of None \<Rightarrow> 1 | Some m \<Rightarrow> m);
               prevMax = hpa_MaxReplicas hpa;
               prev = hpaSnapshot prevMin prevMax;
               name = ''HPA/'' @ hpa_Name hpa in
           if ao_DryRun opts then
             (case pc_now c w1 of (t, w2) \<Rightarrow>
               (Inr (Some \<lparr>ar_Applied = False, ar_PreviousState = prev,
                  ar_Changes = [change name ''spec.maxReplicas'' prevMax target t], ar_Error = None\<rparr>), w2))
           else
             (let target' = applyMaxChange prevMax target (ao_MaxChange opts);
                  hpa' = hpa\<lparr>hpa_MaxReplicas := target', hpa_MinReplicas := Some target',
                    hpa_Annotations := (hpa_Annotations hpa)(AnnotationPreviousState \<mapsto> prev)\<rparr> in
              case pc_PatchHPA c (ref_Namespace ref) hpa hpa' w1 of
                (Some e, w2) \<Rightarrow> (Inl (ErrPatchHPA e), w2)
              | (None, w2) \<Rightarrow>
                (case pc_now c w2 of (t1, w3) \<Rightarrow> (case pc_now c w3 of (t2, w4) \<Rightarrow>
                  (Inr (Some \<lparr>ar_Applied = True, ar_PreviousState = prev,
                     ar_Changes = [change name ''spec.minReplicas'' prevMin target' t1, change name ''spec.maxReplicas'' prevMax target' t2],
                     ar_Error = None\<rparr>), w4)))))))"

section \<open>Direct mode\<close>

definition setRequests :: "ScalingAction \<Rightarrow> Container \<Rightarrow> Container" where
  "setRequests action ct =
    (let r0 = ct_Requests ct;
         r1 = (if 0 < sa_CPURequest action
               then r0(''cpu'' \<mapsto> NewMilliQuantity (to_int64 (sa_CPURequest action * lit 1000))) else r0);
         r2 = (if 0 < sa_MemoryRequest action
               then r1(''memory'' \<mapsto> NewQuantity (to_int64 (sa_MemoryRequest action * lit 1024 * lit 1024 * lit 1024))) else r1) in
     ct\<lparr>ct_Requests := r2\<rparr>)"

definition prevReplicas :: "Deployment \<Rightarrow> int" where
  "prevReplicas deploy = (case dp_Replicas deploy of None \<Rightarrow> 1 | Some r \<Rightarrow> r)"

definition scaledDeployment :: "Deployment \<Rightarrow> int \<Rightarrow> ScalingAction \<Rightarrow> Deployment" where
  "scaledDeployment deploy target action =
    deploy\<lparr>dp_Replicas := Some target,
      dp_Annotations := (dp_Annotations deploy)(AnnotationPreviousState \<mapsto> deploymentSnapshot (prevReplicas deploy)),
      dp_Containers := (if 0 < sa_CPURequest action \<or> 0 < sa_MemoryRequest action
        then map (setRequests action) (dp_Containers deploy) else dp_Containers deploy)\<rparr>"

definition applyDeployment ::
  "'w pod_client \<Rightarrow> ServiceRef \<Rightarrow> int \<Rightarrow> ScalingAction \<Rightarrow> ActuationOptions \<Rightarrow> 'w \<Rightarrow> (pod_error + ActuationResult) \<times> 'w"
where
  "applyDeployment c ref target action opts w =
    (case pc_GetDeployment c (ref_Namespace ref) (ref_Name ref) w of
       (Inl e, w1) \<Rightarrow> (Inl (ErrGetDeployment e), w1)
     | (Inr deploy, w1) \<Rightarrow>
       (let prev = prevReplicas deploy; name = ''Deployment/'' @ dp_Name deploy in
        if ao_DryRun opts then
          (case pc_now c w1 of (t, w2) \<Rightarrow>
            (Inr \<lparr>ar_Applied = False, ar_PreviousState = deploymentSnapshot prev,
               ar_Changes = [change name ''spec.replicas'' prev target t], ar_Error = None\<rparr>, w2))
        else
          (let target' = applyMaxChange prev target (ao_MaxChange opts) in
           case pc_PatchDeployment c (ref_Namespace ref) (ref_Name ref) deploy (scaledDeployment deploy target' action) w1 of
             (Some e, w2) \<Rightarrow> (Inl (ErrPatchDeployment e), w2)
           | (None, w2) \<Rightarrow>
             (case pc_now c w2 of (t, w3) \<Rightarrow>
               (Inr \<lparr>ar_Applied = True, ar_PreviousState = deploymentSnapshot prev,
                  ar_Changes = [change name ''spec.replicas'' prev target' t], ar_Error = None\<rparr>, w3)))))"

definition annotateVPA :: "'w pod_client \<Rightarrow> ServiceRef \<Rightarrow> ScalingAction \<Rightarrow> 'w \<Rightarrow> 'w" where
  "annotateVPA c ref action w =
    (case pc_GetDeployment c (ref_Namespace ref) (ref_Name ref) w of
       (Inl e, w1) \<Rightarrow> w1
     | (Inr deploy, w1) \<Rightarrow>
       (case pc_now c w1 of (t, w2) \<Rightarrow>
          snd (pc_PatchDeployment c (ref_Namespace ref) (ref_Name ref) deploy
            (deploy\<lparr>dp_Annotations := (dp_Annotations deploy)(AnnotationVPARecommendation \<mapsto> vpaRecommendation action (pc_timeText c t))\<rparr>) w2)))"

section \<open>The actuator\<close>

definition podCanApply :: "ScalingAction \<Rightarrow> bool" where
  "podCanApply action = (sa_Type action = ActionScaleUp \<or> sa_Type action = ActionScaleDown \<or> sa_Type action = ActionTune)"

definition podTarget :: "PodActuator \<Rightarrow> ScalingAction \<Rightarrow> int" where
  "podTarget p action = (let m = (if pa_MinReplicas p < 1 then 1 else pa_MinReplicas p) in
     if sa_TargetReplica action < m then m else sa_TargetReplica action)"

definition podApply ::
  "'w pod_client \<Rightarrow> PodActuator \<Rightarrow> ServiceRef \<Rightarrow> ScalingAction \<Rightarrow> ActuationOptions \<Rightarrow> 'w \<Rightarrow> (pod_error + ActuationResult) \<times> 'w"
where
  "podApply c p ref action opts w =
    (case applyHPA c ref (podTarget p action) opts w of
       (Inl e, w1) \<Rightarrow> (Inl e, w1)
     | (Inr (Some r), w1) \<Rightarrow> (Inr r, if sa_Type action = ActionTune then annotateVPA c ref action w1 else w1)
     | (Inr None, w1) \<Rightarrow> applyDeployment c ref (podTarget p action) action opts w1)"

definition podRollback :: "'w pod_client \<Rightarrow> ServiceRef \<Rightarrow> 'w \<Rightarrow> pod_error option \<times> 'w" where
  "podRollback c ref w =
    (case pc_GetDeployment c (ref_Namespace ref) (ref_Name ref) w of
       (Inl NotFound, w1) \<Rightarrow> (None, w1)
     | (Inl (GetFailed e), w1) \<Rightarrow> (Some (ErrGetForRollback e), w1)
     | (Inr deploy, w1) \<Rightarrow>
       (case dp_Annotations deploy AnnotationPreviousState of
          None \<Rightarrow> (None, w1)
        | Some prev \<Rightarrow>
          if prev = [] then (None, w1)
          else
            (case pc_unmarshal c prev of
               Inl e \<Rightarrow> (Some (ErrParsePreviousState e), w1)
             | Inr replicas \<Rightarrow>
               (case pc_PatchDeployment c (ref_Namespace ref) (ref_Name ref) deploy (deploy\<lparr>dp_Replicas := Some replicas\<rparr>) w1 of
                  (e, w2) \<Rightarrow> (map_option ErrRollbackPatch e, w2)))))"

section \<open>The registry\<close>

text \<open>Each actuator has its own errors; a registry of several uses a common type \<open>'e\<close> of them.\<close>

record ('w, 'e) Actuator =
  act_Apply :: "ServiceRef \<Rightarrow> ScalingAction \<Rightarrow> ActuationOptions \<Rightarrow> 'w \<Rightarrow> ('e + ActuationResult) \<times> 'w"
  act_Rollback :: "ServiceRef \<Rightarrow> 'w \<Rightarrow> 'e option \<times> 'w"
  act_CanApply :: "ScalingAction \<Rightarrow> bool"

definition podActuator :: "'w pod_client \<Rightarrow> PodActuator \<Rightarrow> ('w, pod_error) Actuator" where
  "podActuator c p = \<lparr>act_Apply = podApply c p, act_Rollback = podRollback c, act_CanApply = podCanApply\<rparr>"

type_synonym ('w, 'e) Registry = "('w, 'e) Actuator list"

definition NewRegistry :: "('w, 'e) Registry" where
  "NewRegistry = []"

definition Register :: "('w, 'e) Registry \<Rightarrow> ('w, 'e) Actuator \<Rightarrow> ('w, 'e) Registry" where
  "Register r a = r @ [a]"

fun registryApply ::
  "('w, 'e) Registry \<Rightarrow> ServiceRef \<Rightarrow> ScalingAction \<Rightarrow> ActuationOptions \<Rightarrow> 'w \<Rightarrow> ('e + ActuationResult) \<times> 'w"
where
  "registryApply [] ref action opts w = (Inr emptyResult, w)"
| "registryApply (a # as) ref action opts w =
    (if act_CanApply a action then act_Apply a ref action opts w else registryApply as ref action opts w)"

fun registryRollback :: "('w, 'e) Registry \<Rightarrow> ServiceRef \<Rightarrow> 'w \<Rightarrow> 'e list \<times> 'w" where
  "registryRollback [] ref w = ([], w)"
| "registryRollback (a # as) ref w =
    (case act_Rollback a ref w of (e, w1) \<Rightarrow>
     (case registryRollback as ref w1 of (es, w2) \<Rightarrow> ((case e of None \<Rightarrow> es | Some x \<Rightarrow> x # es), w2)))"

section \<open>The API server\<close>

text \<open>The documented behaviour the actuator relies on, with \<open>stored\<close> the Deployments of the world: reads give
  what is stored and change nothing; an accepted patch of the stored object sets the fields that were changed, a
  refused one changes nothing; calls on other kinds do not touch Deployments; a snapshot is read back.\<close>

type_synonym 'w deployments = "string \<Rightarrow> string \<Rightarrow> 'w \<Rightarrow> Deployment option"

definition same_spec :: "Deployment option \<Rightarrow> Deployment \<Rightarrow> bool" where
  "same_spec s d = (case s of None \<Rightarrow> False | Some x \<Rightarrow>
     dp_Replicas x = dp_Replicas d \<and> dp_Annotations x = dp_Annotations d \<and> dp_Containers x = dp_Containers d)"

definition pod_ok :: "'w pod_client \<Rightarrow> 'w deployments \<Rightarrow> bool" where
  "pod_ok c stored =
    ((\<forall>ns n w r w'. pc_GetDeployment c ns n w = (r, w') \<longrightarrow>
        (\<forall>ns n. stored ns n w' = stored ns n w) \<and> (\<forall>d. r = Inr d \<longrightarrow> stored ns n w = Some d) \<and>
        (r = Inl NotFound \<longrightarrow> stored ns n w = None)) \<and>
     (\<forall>ns n d d' w e w'. stored ns n w = Some d \<longrightarrow> pc_PatchDeployment c ns n d d' w = (e, w') \<longrightarrow>
        (if e = None then same_spec (stored ns n w') d' else stored ns n w' = stored ns n w)) \<and>
     (\<forall>ns n w. stored ns n (snd (pc_now c w)) = stored ns n w) \<and>
     (\<forall>ns n m w. stored ns n (snd (pc_ListHPAs c m w)) = stored ns n w) \<and>
     (\<forall>ns n m h h' w. stored ns n (snd (pc_PatchHPA c m h h' w)) = stored ns n w) \<and>
     (\<forall>ns n w d r. stored ns n w = Some d \<longrightarrow> dp_Replicas d = Some r \<longrightarrow> in32 r) \<and>
     (\<forall>r. in32 r \<longrightarrow> pc_unmarshal c (deploymentSnapshot r) = Inr r))"

lemma pod_get:
  assumes "pod_ok c stored" "pc_GetDeployment c ns n w = (r, w')"
  shows "stored a b w' = stored a b w" "r = Inr d \<Longrightarrow> stored ns n w = Some d" "r = Inl NotFound \<Longrightarrow> stored ns n w = None"
  using assms(1) [unfolded pod_ok_def, THEN conjunct1, rule_format, OF assms(2)] by simp_all

lemma pod_patch:
  "pod_ok c stored \<Longrightarrow> stored ns n w = Some d \<Longrightarrow> pc_PatchDeployment c ns n d d' w = (e, w') \<Longrightarrow>
   (if e = None then same_spec (stored ns n w') d' else stored ns n w' = stored ns n w)"
  by (rule pod_ok_def [THEN iffD1, THEN conjunct2, THEN conjunct1, rule_format])

lemma pod_other:
  assumes "pod_ok c stored"
  shows "pc_now c w = (t, w') \<Longrightarrow> stored ns n w' = stored ns n w" "pc_ListHPAs c m w = (r, w') \<Longrightarrow> stored ns n w' = stored ns n w"
  using assms unfolding pod_ok_def by (metis snd_conv)+

lemma pod_replicas32: "pod_ok c stored \<Longrightarrow> stored ns n w = Some d \<Longrightarrow> in32 (prevReplicas d)"
  unfolding pod_ok_def prevReplicas_def by (auto simp: in32_def split: option.split)

lemma pod_unmarshal: "pod_ok c stored \<Longrightarrow> in32 r \<Longrightarrow> pc_unmarshal c (deploymentSnapshot r) = Inr r"
  unfolding pod_ok_def by blast

lemma same_spec_iff:
  "same_spec s d \<longleftrightarrow> (\<exists>x. s = Some x \<and> dp_Replicas x = dp_Replicas d \<and> dp_Annotations x = dp_Annotations d \<and> dp_Containers x = dp_Containers d)"
  by (simp add: same_spec_def split: option.split)

section \<open>Library\<close>

lemma applyDeployment_ok:
  assumes "pod_ok c stored" "applyDeployment c ref target action opts w = (Inr r, w')" "\<not> ao_DryRun opts"
  defines "dep \<equiv> stored (ref_Namespace ref) (ref_Name ref)"
  shows "ar_Applied r \<and> ar_Error r = None \<and> (\<exists>d. dep w = Some d \<and> ar_PreviousState r = deploymentSnapshot (prevReplicas d) \<and>
    same_spec (dep w') (scaledDeployment d (applyMaxChange (prevReplicas d) target (ao_MaxChange opts)) action))"
proof -
  obtain x w1 where g: "pc_GetDeployment c (ref_Namespace ref) (ref_Name ref) w = (x, w1)" by fastforce
  obtain d where d: "x = Inr d" using assms(2) g by (cases x) (auto simp: applyDeployment_def)
  let ?d = "scaledDeployment d (applyMaxChange (prevReplicas d) target (ao_MaxChange opts)) action"
  obtain e w2 where p: "pc_PatchDeployment c (ref_Namespace ref) (ref_Name ref) d ?d w1 = (e, w2)" by fastforce
  obtain t w3 where n: "pc_now c w2 = (t, w3)" by fastforce
  have s: "dep w = Some d" "dep w1 = Some d" using pod_get [OF assms(1) g] d by (auto simp: dep_def)
  have "e = None" "w' = w3" "ar_Applied r" "ar_Error r = None" "ar_PreviousState r = deploymentSnapshot (prevReplicas d)"
    using assms(2,3) g d p n by (auto simp: applyDeployment_def Let_def split: option.splits)
  then show ?thesis
    using s pod_patch [OF assms(1) _ p] pod_other(1) [OF assms(1) n] by (simp add: dep_def)
qed

lemma podRollback_ok:
  assumes "pod_ok c stored" "podRollback c ref w = (None, w')"
  defines "dep \<equiv> stored (ref_Namespace ref) (ref_Name ref)"
  assumes "dep w = Some d" "dp_Annotations d AnnotationPreviousState = Some (deploymentSnapshot r)" "in32 r"
  shows "same_spec (dep w') (d\<lparr>dp_Replicas := Some r\<rparr>)"
proof -
  obtain x w1 where g: "pc_GetDeployment c (ref_Namespace ref) (ref_Name ref) w = (x, w1)" by fastforce
  have "x \<noteq> Inl NotFound" using pod_get(3) [OF assms(1) g] assms(4) by (auto simp: dep_def)
  then obtain d' where "x = Inr d'" using assms(2) g by (auto simp: podRollback_def split: sum.splits get_error.splits)
  then have x: "x = Inr d" using pod_get(2) [OF assms(1) g] assms(4) by (simp add: dep_def)
  have s: "dep w1 = Some d" using pod_get(1) [OF assms(1) g] assms(4) by (simp add: dep_def)
  obtain e w2 where p: "pc_PatchDeployment c (ref_Namespace ref) (ref_Name ref) d (d\<lparr>dp_Replicas := Some r\<rparr>) w1 = (e, w2)" by fastforce
  have "deploymentSnapshot r \<noteq> []" by (simp add: deploymentSnapshot_def)
  then have "e = None" "w' = w2"
    using assms(2,5) g x p pod_unmarshal [OF assms(1,6)] by (auto simp: podRollback_def)
  then show ?thesis using pod_patch [OF assms(1) _ p] s by (simp add: dep_def)
qed

text \<open>What a dry run leaves alone.\<close>

definition workload :: "Deployment option \<Rightarrow> (int option \<times> Container list) option" where
  "workload s = map_option (\<lambda>d. (dp_Replicas d, dp_Containers d)) s"

lemma annotateVPA_workload:
  fixes ref :: ServiceRef
  assumes "pod_ok c stored"
  defines "dep \<equiv> stored (ref_Namespace ref) (ref_Name ref)"
  shows "workload (dep (annotateVPA c ref action w)) = workload (dep w)"
proof -
  obtain x w1 where g: "pc_GetDeployment c (ref_Namespace ref) (ref_Name ref) w = (x, w1)" by fastforce
  have s: "dep w1 = dep w" using pod_get(1) [OF assms(1) g] by (simp add: dep_def)
  show ?thesis
  proof (cases x)
    case (Inl e)
    then show ?thesis using g s by (simp add: annotateVPA_def)
  next
    case (Inr d)
    then have d: "dep w = Some d" using pod_get(2) [OF assms(1) g] by (simp add: dep_def)
    obtain t w2 where t: "pc_now c w1 = (t, w2)" by fastforce
    have 2: "dep w2 = Some d" using pod_other(1) [OF assms(1) t] s d by (simp add: dep_def)
    let ?d = "d\<lparr>dp_Annotations := (dp_Annotations d)(AnnotationVPARecommendation \<mapsto> vpaRecommendation action (pc_timeText c t))\<rparr>"
    obtain e w3 where p: "pc_PatchDeployment c (ref_Namespace ref) (ref_Name ref) d ?d w2 = (e, w3)" by fastforce
    then show ?thesis
      using pod_patch [OF assms(1) _ p] 2 d g t Inr
      by (auto simp: annotateVPA_def workload_def dep_def same_spec_iff split: if_splits)
  qed
qed

lemma applyHPA_dry:
  assumes "pod_ok c stored" "ao_DryRun opts" "applyHPA c ref target opts w = (r, w')"
  shows "stored ns n w' = stored ns n w" "r = Inr (Some x) \<Longrightarrow> \<not> ar_Applied x"
proof -
  obtain l w1 where l: "pc_ListHPAs c (ref_Namespace ref) w = (l, w1)" by fastforce
  obtain t w2 where t: "pc_now c w1 = (t, w2)" by fastforce
  note kept = pod_other(2) [OF assms(1) l] pod_other(1) [OF assms(1) t]
  show "stored ns n w' = stored ns n w"
    using assms(2,3) l t kept by (auto simp: applyHPA_def Let_def split: sum.splits option.splits)
  show "\<not> ar_Applied x" if "r = Inr (Some x)"
    using assms(2,3) l t that by (auto simp: applyHPA_def Let_def split: sum.splits option.splits)
qed

lemma podApply_dry:
  assumes "pod_ok c stored" "ao_DryRun opts" "podApply c p ref action opts w = (r, w')"
  defines "dep \<equiv> stored (ref_Namespace ref) (ref_Name ref)"
  shows "workload (dep w') = workload (dep w) \<and> (\<forall>x. r = Inr x \<longrightarrow> \<not> ar_Applied x)"
proof -
  obtain h w1 where h: "applyHPA c ref (podTarget p action) opts w = (h, w1)" by fastforce
  note 1 = applyHPA_dry [OF assms(1,2) h]
  consider e where "h = Inl e" | x where "h = Inr (Some x)" | "h = Inr None" by (metis old.sum.exhaust option.exhaust)
  then show ?thesis
  proof cases
    case 3
    obtain g w2 where g: "pc_GetDeployment c (ref_Namespace ref) (ref_Name ref) w1 = (g, w2)" by fastforce
    obtain t w3 where t: "pc_now c w2 = (t, w3)" by fastforce
    note k = pod_get(1) [OF assms(1) g] pod_other(1) [OF assms(1) t]
    show ?thesis
      using assms(2,3) h 3 g t k 1(1) by (cases g) (auto simp: podApply_def applyDeployment_def Let_def dep_def)
  qed (use assms(3) h 1 annotateVPA_workload [OF assms(1)] in \<open>auto simp: podApply_def dep_def split: if_splits\<close>)
qed

text \<open>Without an HPA for the service the actuator scales the Deployment.\<close>

definition no_HPA :: "'w pod_client \<Rightarrow> ServiceRef \<Rightarrow> bool" where
  "no_HPA c ref = (\<forall>w hpas w'. pc_ListHPAs c (ref_Namespace ref) w = (Inr hpas, w') \<longrightarrow> findHPA ref hpas = None)"

lemma podApply_direct:
  assumes "pod_ok c stored" "no_HPA c ref" "podApply c p ref action opts w = (Inr r, w')" "\<not> ao_DryRun opts"
  defines "dep \<equiv> stored (ref_Namespace ref) (ref_Name ref)"
  shows "ar_Applied r \<and> ar_Error r = None \<and> (\<exists>d. dep w = Some d \<and> ar_PreviousState r = deploymentSnapshot (prevReplicas d) \<and>
    same_spec (dep w') (scaledDeployment d (applyMaxChange (prevReplicas d) (podTarget p action) (ao_MaxChange opts)) action))"
proof -
  obtain x w1 where l: "pc_ListHPAs c (ref_Namespace ref) w = (x, w1)" by fastforce
  have "\<not> isl x" using assms(3) l by (cases x) (auto simp: podApply_def applyHPA_def)
  then obtain hpas where x: "x = Inr hpas" by (cases x) auto
  have "findHPA ref hpas = None" using assms(2) l x unfolding no_HPA_def by blast
  then have "applyDeployment c ref (podTarget p action) action opts w1 = (Inr r, w')"
    using assms(3) l x by (simp add: podApply_def applyHPA_def)
  from applyDeployment_ok [OF assms(1) this assms(4)] show ?thesis
    using pod_other(2) [OF assms(1) l] by (simp add: dep_def)
qed

text \<open>Bounds of a limited change.\<close>

lemma maxDelta_bound:
  assumes "0 \<le> current" "current \<le> 1000000" "inrange 0 100 f"
  shows "to_int32 (of_int64 current * f) \<le> 100000000"
proof -
  have c: "inrange 0 1000000 (of_int64 current)"
    using assms(1,2) rep_of_int [of current] by (simp add: of_int64_exact)
  have "rep 100000000" using rep_of_int [of 100000000] by simp
  then have "inrange 0 (1000000 * 100) (of_int64 current * f)" using inrange_mult [OF c assms(3)] by simp
  then obtain r where r: "of_int64 current * f = Fin r" "0 \<le> r" "r \<le> 100000000" by (auto simp: inrange_iff)
  then have "\<lfloor>r\<rfloor> \<le> 100000000" by (simp add: floor_le_iff)
  then show ?thesis using r by (simp add: Let_def trunc_rat_def)
qed

section \<open>Properties\<close>

text \<open>A limited change: the new replica count lies between the current count and the target, is at least 1, and
  moves by at most the allowed fraction of the current count (or by one replica when that is less).\<close>
theorem applyMaxChange_bounds:
  assumes "0 \<le> current" "current \<le> 1000000" "1 \<le> target" "target \<le> 2147483647" "inrange 0 100 f" "0 < f"
  defines "r \<equiv> applyMaxChange current target f"
  shows "1 \<le> r \<and> min current target \<le> r \<and> r \<le> max current target \<and>
    (current = 0 \<or> \<bar>r - current\<bar> \<le> max 1 (to_int32 (of_int64 current * f)))"
proof -
  define d where "d = to_int32 (of_int64 current * f)"
  have d: "d \<le> 100000000" using maxDelta_bound [OF assms(1,2,5)] by (simp add: d_def)
  have "\<not> f \<le> 0" using assms(5,6) by (cases f) (auto simp: zero_Fin)
  moreover have "wrap32 (current + max 1 d) = current + max 1 d" "wrap32 (current - max 1 d) = current - max 1 d"
    using assms(1,2) d by (auto intro!: wrap32_id simp: in32_def)
  moreover have "(if d < 1 then 1 else d) = max 1 d" by simp
  ultimately show ?thesis
    using assms(1,3) unfolding r_def applyMaxChange_def Let_def d_def [symmetric] by auto
qed

lemma applyMaxChange_bounds_witness: "applyMaxChange 10 30 (lit (1 / 2)) \<le> 15 \<and> 10 \<le> applyMaxChange 10 30 (lit (1 / 2))"
proof -
  have f: "inrange 0 100 (lit (1 / 2))" "0 < lit (1 / 2)" "to_int32 (of_int64 10 * lit (1 / 2)) = 5"
    by (code_simp)+
  show ?thesis using applyMaxChange_bounds [OF _ _ _ _ f(1,2), of 10 30] f(3) by (simp add: abs_le_iff)
qed

text \<open>C22. Scaling a Deployment and rolling back: an accepted scaling sets the replicas to the target, at least the
  configured minimum and limited by the maximal change; an accepted rollback then brings back the replicas from before (one
  where none were given) and leaves the annotations; the resource requests stay those of the scaling.\<close>
theorem pod_rollback_restores:
  assumes "pod_ok c stored" "no_HPA c ref" "\<not> ao_DryRun opts"
    "podApply c p ref action opts w = (Inr r, w1)" "podRollback c ref w1 = (None, w2)"
  defines "dep \<equiv> stored (ref_Namespace ref) (ref_Name ref)"
  shows "\<exists>d d1 d2. dep w = Some d \<and> dep w1 = Some d1 \<and> dep w2 = Some d2 \<and>
    dp_Replicas d1 = Some (applyMaxChange (prevReplicas d) (podTarget p action) (ao_MaxChange opts)) \<and>
    dp_Replicas d2 = Some (prevReplicas d) \<and> dp_Annotations d2 = dp_Annotations d1 \<and> dp_Containers d2 = dp_Containers d1"
proof -
  obtain d where d: "dep w = Some d"
      "same_spec (dep w1) (scaledDeployment d (applyMaxChange (prevReplicas d) (podTarget p action) (ao_MaxChange opts)) action)"
    using podApply_direct [OF assms(1,2,4,3)] by (auto simp: dep_def)
  then obtain d1 where d1: "dep w1 = Some d1" "dp_Replicas d1 = Some (applyMaxChange (prevReplicas d) (podTarget p action) (ao_MaxChange opts))"
      "dp_Annotations d1 AnnotationPreviousState = Some (deploymentSnapshot (prevReplicas d))"
    by (auto simp: same_spec_iff scaledDeployment_def)
  have "same_spec (dep w2) (d1\<lparr>dp_Replicas := Some (prevReplicas d)\<rparr>)"
    using podRollback_ok [OF assms(1,5) _ d1(3)] d1(1) pod_replicas32 [OF assms(1)] d(1) by (auto simp: dep_def)
  then show ?thesis using d(1) d1 by (auto simp: same_spec_iff)
qed

text \<open>A server with one Deployment, whose snapshots are read by their digits.\<close>

definition readSnapshot :: "string \<Rightarrow> string + int" where
  "readSnapshot s = (let t = drop 12 s; n = butlast t in
     if t \<noteq> [] \<and> n \<noteq> [] then Inr (if hd n = CHR ''-'' then - int (undigits (tl n)) else int (undigits n)) else Inl ''unexpected end'')"

lemma readSnapshot_ok: "readSnapshot (deploymentSnapshot r) = Inr r"
proof -
  have n: "hd (digits k) \<noteq> CHR ''-''" for k
    using digits_no_sep(1) [of k] digits_nonempty [of k] by (metis hd_in_set)
  have "drop 12 (deploymentSnapshot r) = fmt_d r @ ''}''" by (simp add: deploymentSnapshot_def jsonKey_def)
  then show ?thesis using n [of "nat \<bar>r\<bar>"] by (cases "r < 0") (auto simp: readSnapshot_def butlast_append fmt_d_def)
qed

definition validStored :: "Deployment deployments" where
  "validStored ns n w = (case dp_Replicas w of Some r \<Rightarrow> if in32 r then Some w else None | None \<Rightarrow> Some w)"

definition oneDeployment :: "Deployment pod_client" where
  "oneDeployment = \<lparr>pc_ListHPAs = (\<lambda>ns w. (Inr [], w)),
     pc_GetDeployment = (\<lambda>ns n w. (case validStored ns n w of Some d \<Rightarrow> Inr d | None \<Rightarrow> Inl NotFound, w)),
     pc_PatchDeployment = (\<lambda>ns n d d' w. case validStored ns n d' of Some x \<Rightarrow> (None, d') | None \<Rightarrow> (Some ''invalid'', w)),
     pc_PatchHPA = (\<lambda>ns h h' w. (None, w)), pc_now = Pair 0, pc_timeText = (\<lambda>t. []), pc_unmarshal = readSnapshot\<rparr>"

lemma validStored_Some: "validStored ns n w = Some d \<longleftrightarrow> w = d \<and> (\<forall>r. dp_Replicas d = Some r \<longrightarrow> in32 r)"
  by (auto simp: validStored_def split: option.splits)

lemma validStored_None: "validStored ns n w = None \<longleftrightarrow> (\<exists>r. dp_Replicas w = Some r \<and> \<not> in32 r)"
  by (auto simp: validStored_def split: option.splits)

lemma oneDeployment_sel [simp]:
  "pc_ListHPAs oneDeployment ns w = (Inr [], w)"
  "pc_GetDeployment oneDeployment ns n w = (case validStored ns n w of Some d \<Rightarrow> Inr d | None \<Rightarrow> Inl NotFound, w)"
  "pc_PatchDeployment oneDeployment ns n d d' w = (case validStored ns n d' of Some x \<Rightarrow> (None, d') | None \<Rightarrow> (Some ''invalid'', w))"
  "pc_PatchHPA oneDeployment ns h h' w = (None, w)" "pc_now oneDeployment w = (0, w)" "pc_unmarshal oneDeployment = readSnapshot"
  by (simp_all add: oneDeployment_def)

lemma oneDeployment_ok: "pod_ok oneDeployment validStored"
  unfolding pod_ok_def
  by (auto simp: validStored_Some readSnapshot_ok same_spec_iff split: option.splits)

lemma oneDeployment_no_HPA: "no_HPA oneDeployment ref"
  by (simp add: no_HPA_def findHPA_def)

definition demo_deploy :: Deployment where
  "demo_deploy = \<lparr>dp_Name = ''web'', dp_Replicas = Some 4, dp_Annotations = Map.empty, dp_Containers = []\<rparr>"

definition demo_ref :: ServiceRef where
  "demo_ref = \<lparr>ref_Namespace = ''shop'', ref_Name = ''web'', ref_APIVersion = ''apps/v1'', ref_Kind = ''Deployment''\<rparr>"

definition demo_action :: ScalingAction where
  "demo_action = \<lparr>sa_Type = ActionScaleUp, sa_TargetReplica = 12, sa_CPURequest = 0, sa_MemoryRequest = 0, sa_SpotRatio = 0,
     sa_DryRun = False, sa_Reason = [], sa_Confidence = 1, sa_TuningParams = Map.empty\<rparr>"

definition demo_opts :: ActuationOptions where
  "demo_opts = \<lparr>ao_DryRun = False, ao_Canary = True, ao_MaxChange = 0, ao_CooldownSeconds = 0\<rparr>"

lemma demo_pod_runs:
  "case podApply oneDeployment NewPodActuator demo_ref demo_action demo_opts demo_deploy of (x, w1) \<Rightarrow>
     \<not> isl x \<and> fst (podRollback oneDeployment demo_ref w1) = None"
  by code_simp

lemma pod_rollback_restores_witness:
  "case podApply oneDeployment NewPodActuator demo_ref demo_action demo_opts demo_deploy of (r, w1) \<Rightarrow>
     dp_Replicas w1 = Some 12 \<and> dp_Replicas (snd (podRollback oneDeployment demo_ref w1)) = Some 4"
proof -
  obtain r w1 w2 where a: "podApply oneDeployment NewPodActuator demo_ref demo_action demo_opts demo_deploy = (Inr r, w1)"
      "podRollback oneDeployment demo_ref w1 = (None, w2)"
    using demo_pod_runs by (auto simp: isl_def split: prod.splits) (metis prod.collapse sum.exhaust)
  have "\<not> ao_DryRun demo_opts" "applyMaxChange 4 12 0 = 12" "podTarget NewPodActuator demo_action = 12"
    by (simp_all add: demo_opts_def applyMaxChange_def podTarget_def NewPodActuator_def demo_action_def zero_Fin)
  then show ?thesis
    using pod_rollback_restores [OF oneDeployment_ok oneDeployment_no_HPA _ a] a
    by (auto simp: validStored_Some demo_deploy_def prevReplicas_def demo_opts_def)
qed

end
