(* ===== verification/Canary.thy ===== *)
theory Canary
  imports Pod_Actuator
begin

text \<open>
  Two-step actuation with automatic rollback, \<open>internal/actuator/canary.go\<close>. The controller wraps a registry
  of actuators; the SLO checker is an interface that may be missing. A background watcher is a goroutine that
  sleeps, then checks and may roll back: \<open>cc_tasks\<close> holds the sleeping ones with their cancel tokens, and waking
  one is the operation \<open>watcherFires\<close>.
\<close>

section \<open>Data\<close>

definition canaryThreshold :: f64 where "canaryThreshold = lit (1 / 2)"
definition autoRollbackDelay :: duration where "autoRollbackDelay = 5 * minute"

type_synonym 'w Checker = "(string \<Rightarrow> string \<Rightarrow> 'w \<Rightarrow> (string + bool) \<times> 'w) option"

record CanaryController =
  cc_stepDelay :: duration
  cc_watchers :: "string \<rightharpoonup> nat"
  cc_cancelled :: "nat list"
  cc_tasks :: "(nat \<times> ServiceRef) list"
  cc_next :: nat

datatype 'e canary_error = ErrApply 'e | ErrStep1 'e | ErrStep2 'e

definition NewCanaryController :: CanaryController where
  "NewCanaryController = \<lparr>cc_stepDelay = 2 * minute, cc_watchers = Map.empty, cc_cancelled = [], cc_tasks = [], cc_next = 0\<rparr>"

definition SetStepDelay :: "duration \<Rightarrow> CanaryController \<Rightarrow> CanaryController" where
  "SetStepDelay d cc = cc\<lparr>cc_stepDelay := d\<rparr>"

section \<open>Steps\<close>

definition isLargeChange :: "int \<Rightarrow> int \<Rightarrow> bool" where
  "isLargeChange current target =
    (if current = 0 then False
     else let d = wrap32 (target - current); delta = (if d < 0 then wrap32 (- d) else d) in
       canaryThreshold < of_int64 delta / of_int64 current)"

text \<open>Go divides towards zero.\<close>

definition half :: "int \<Rightarrow> int" where
  "half x = (if 0 \<le> x then x div 2 else - ((- x) div 2))"

definition halfStep :: "int \<Rightarrow> int \<Rightarrow> int" where
  "halfStep current target =
    (if current < target then wrap32 (current + half (wrap32 (target - current + 1)))
     else wrap32 (current - half (wrap32 (current - target + 1))))"

section \<open>Watchers\<close>

definition cancelWatcher :: "ServiceRef \<Rightarrow> CanaryController \<Rightarrow> CanaryController" where
  "cancelWatcher ref cc =
    (case cc_watchers cc (serviceKey ref) of
       None \<Rightarrow> cc
     | Some cancel \<Rightarrow> cc\<lparr>cc_cancelled := cancel # cc_cancelled cc, cc_watchers := (cc_watchers cc)(serviceKey ref := None)\<rparr>)"

definition startAutoRollbackWatcher :: "'w Checker \<Rightarrow> ServiceRef \<Rightarrow> CanaryController \<Rightarrow> CanaryController" where
  "startAutoRollbackWatcher checker ref cc =
    (case checker of
       None \<Rightarrow> cc
     | Some f \<Rightarrow>
       (let cc1 = cancelWatcher ref cc; cancel = cc_next cc1 in
        cc1\<lparr>cc_watchers := (cc_watchers cc1)(serviceKey ref \<mapsto> cancel),
            cc_tasks := cc_tasks cc1 @ [(cancel, ref)], cc_next := Suc cancel\<rparr>))"

definition WatcherActive :: "CanaryController \<Rightarrow> ServiceRef \<Rightarrow> bool" where
  "WatcherActive cc ref = (cc_watchers cc (serviceKey ref) \<noteq> None)"

text \<open>A task that wakes up: its token is cancelled at the end in any case; the entry of the map stays.\<close>

definition watcherFires ::
  "('w, 'e) Registry \<Rightarrow> 'w Checker \<Rightarrow> nat \<times> ServiceRef \<Rightarrow> CanaryController \<Rightarrow> 'w \<Rightarrow> CanaryController \<times> 'w"
where
  "watcherFires reg checker task cc w =
    (case task of (cancel, ref) \<Rightarrow>
     (let cc' = cc\<lparr>cc_tasks := remove1 task (cc_tasks cc), cc_cancelled := cancel # cc_cancelled cc\<rparr> in
      if cancel \<in> set (cc_cancelled cc) then (cc', w)
      else case checker of
        None \<Rightarrow> (cc', w)
      | Some isHealthy \<Rightarrow>
        (case isHealthy (ref_Namespace ref) (ref_Name ref) w of (h, w1) \<Rightarrow>
          if h = Inr True then (cc', w1) else (cc', snd (registryRollback reg ref w1)))))"

section \<open>Apply and rollback\<close>

definition dash :: string where
  "dash = [CHR 0xE2, CHR 0x80, CHR 0x94]"

definition abortReason :: "string + bool \<Rightarrow> string" where
  "abortReason h = (case h of Inl e \<Rightarrow> ''SLO check failed: '' @ e | Inr b \<Rightarrow> ''SLO degraded after canary step 1'') @
     '' '' @ dash @ '' rolled back''"

definition canaryApply ::
  "('w, 'e) Registry \<Rightarrow> 'w Checker \<Rightarrow> (duration \<Rightarrow> 'w \<Rightarrow> 'w) \<Rightarrow> ServiceRef \<Rightarrow> ScalingAction \<Rightarrow> ActuationOptions \<Rightarrow> int \<Rightarrow>
   CanaryController \<Rightarrow> 'w \<Rightarrow> ('e canary_error + ActuationResult) \<times> CanaryController \<times> 'w"
where
  "canaryApply reg checker sleep ref action opts currentReplicas cc w =
    (if \<not> ao_Canary opts \<or> \<not> isLargeChange currentReplicas (sa_TargetReplica action) then
       (case registryApply reg ref action opts w of
          (Inl e, w1) \<Rightarrow> (Inl (ErrApply e), cc, w1)
        | (Inr r, w1) \<Rightarrow> (Inr r, if ar_Applied r \<and> \<not> ao_DryRun opts then startAutoRollbackWatcher checker ref cc else cc, w1))
     else
       (case registryApply reg ref (action\<lparr>sa_TargetReplica := halfStep currentReplicas (sa_TargetReplica action)\<rparr>) opts w of
          (Inl e, w1) \<Rightarrow> (Inl (ErrStep1 e), cc, w1)
        | (Inr r1, w1) \<Rightarrow>
          if \<not> ar_Applied r1 then (Inr r1, cc, w1)
          else
            (let w2 = sleep (cc_stepDelay cc) w1 in
             case (case checker of None \<Rightarrow> (Inr True, w2) | Some isHealthy \<Rightarrow> isHealthy (ref_Namespace ref) (ref_Name ref) w2) of
               (h, w3) \<Rightarrow>
                 if h \<noteq> Inr True then
                   (Inr \<lparr>ar_Applied = False, ar_PreviousState = ar_PreviousState r1, ar_Changes = ar_Changes r1,
                      ar_Error = Some (abortReason h)\<rparr>, cc, snd (registryRollback reg ref w3))
                 else
                   (case registryApply reg ref action opts w3 of
                      (Inl e, w4) \<Rightarrow> (Inl (ErrStep2 e), cc, w4)
                    | (Inr r2, w4) \<Rightarrow>
                      (Inr \<lparr>ar_Applied = ar_Applied r2, ar_PreviousState = ar_PreviousState r1,
                         ar_Changes = ar_Changes r1 @ ar_Changes r2, ar_Error = None\<rparr>,
                       if ar_Applied r2 \<and> \<not> ao_DryRun opts then startAutoRollbackWatcher checker ref cc else cc, w4)))))"

definition canaryRollback ::
  "('w, 'e) Registry \<Rightarrow> ServiceRef \<Rightarrow> CanaryController \<Rightarrow> 'w \<Rightarrow> 'e list \<times> CanaryController \<times> 'w"
where
  "canaryRollback reg ref cc w = (case registryRollback reg ref w of (es, w1) \<Rightarrow> (es, cancelWatcher ref cc, w1))"

section \<open>Library\<close>

text \<open>A server that answers: the stored Deployment is returned, a patch with a 32-bit replica count is accepted,
  and no HPA targets the service.\<close>

definition pod_reliable :: "'w pod_client \<Rightarrow> 'w deployments \<Rightarrow> ServiceRef \<Rightarrow> bool" where
  "pod_reliable c stored ref =
    ((\<forall>w d. stored (ref_Namespace ref) (ref_Name ref) w = Some d \<longrightarrow> fst (pc_GetDeployment c (ref_Namespace ref) (ref_Name ref) w) = Inr d) \<and>
     (\<forall>w d d' r. stored (ref_Namespace ref) (ref_Name ref) w = Some d \<longrightarrow> dp_Replicas d' = Some r \<longrightarrow> in32 r \<longrightarrow>
        fst (pc_PatchDeployment c (ref_Namespace ref) (ref_Name ref) d d' w) = None) \<and>
     (\<forall>w. \<exists>hpas. fst (pc_ListHPAs c (ref_Namespace ref) w) = Inr hpas \<and> findHPA ref hpas = None))"

lemma reliable_get:
  "pod_reliable c stored ref \<Longrightarrow> stored (ref_Namespace ref) (ref_Name ref) w = Some d \<Longrightarrow>
   \<exists>w'. pc_GetDeployment c (ref_Namespace ref) (ref_Name ref) w = (Inr d, w')"
  unfolding pod_reliable_def by (metis prod.collapse)

lemma reliable_patch:
  "pod_reliable c stored ref \<Longrightarrow> stored (ref_Namespace ref) (ref_Name ref) w = Some d \<Longrightarrow> dp_Replicas d' = Some r \<Longrightarrow> in32 r \<Longrightarrow>
   \<exists>w'. pc_PatchDeployment c (ref_Namespace ref) (ref_Name ref) d d' w = (None, w')"
  unfolding pod_reliable_def by (metis prod.collapse)

lemma reliable_list:
  "pod_reliable c stored ref \<Longrightarrow> \<exists>hpas w'. pc_ListHPAs c (ref_Namespace ref) w = (Inr hpas, w') \<and> findHPA ref hpas = None"
  unfolding pod_reliable_def by (metis prod.collapse)

lemma reliable_no_HPA: "pod_reliable c stored ref \<Longrightarrow> no_HPA c ref"
  unfolding no_HPA_def by (metis Inr_inject prod.inject reliable_list)

text \<open>What is known of the service after an unlimited scaling and after a rollback.\<close>

abbreviation scaled_to :: "int \<Rightarrow> int \<Rightarrow> Deployment option \<Rightarrow> bool" where
  "scaled_to target prev s \<equiv> (\<exists>d. s = Some d \<and> dp_Replicas d = Some target \<and>
     dp_Annotations d AnnotationPreviousState = Some (deploymentSnapshot prev))"

lemma podApply_reliable:
  assumes ok: "pod_ok c stored" and re: "pod_reliable c stored ref" and o: "\<not> ao_DryRun opts" "ao_MaxChange opts \<le> 0"
    and t: "in32 (podTarget p action)"
  defines "dep \<equiv> stored (ref_Namespace ref) (ref_Name ref)"
  assumes d: "dep w = Some d"
  shows "\<exists>r w'. podApply c p ref action opts w = (Inr r, w') \<and> ar_Applied r \<and>
    ar_PreviousState r = deploymentSnapshot (prevReplicas d) \<and> scaled_to (podTarget p action) (prevReplicas d) (dep w')"
proof -
  obtain hpas w1 where l: "pc_ListHPAs c (ref_Namespace ref) w = (Inr hpas, w1)" "findHPA ref hpas = None"
    using reliable_list [OF re] by blast
  have w1: "dep w1 = Some d" using pod_other(2) [OF ok l(1)] d by (simp add: dep_def)
  obtain w2 where g: "pc_GetDeployment c (ref_Namespace ref) (ref_Name ref) w1 = (Inr d, w2)"
    using reliable_get [OF re] w1 by (auto simp: dep_def)
  have w2: "dep w2 = Some d" using pod_get(1) [OF ok g] w1 by (simp add: dep_def)
  have m: "applyMaxChange (prevReplicas d) x (ao_MaxChange opts) = x" for x using o(2) by (simp add: applyMaxChange_def)
  obtain w3 where p: "pc_PatchDeployment c (ref_Namespace ref) (ref_Name ref) d (scaledDeployment d (podTarget p action) action) w2 = (None, w3)"
    using reliable_patch [OF re _ _ t] w2 by (fastforce simp: dep_def scaledDeployment_def)
  obtain n w4 where "pc_now c w3 = (n, w4)" by fastforce
  then obtain r w' where a: "podApply c p ref action opts w = (Inr r, w')"
    using l g p o(1) m by (simp add: podApply_def applyHPA_def applyDeployment_def Let_def)
  from podApply_direct [OF ok reliable_no_HPA [OF re] a o(1)] show ?thesis
    using a d m by (auto simp: dep_def same_spec_iff scaledDeployment_def)
qed

lemma podRollback_reliable:
  assumes ok: "pod_ok c stored" and re: "pod_reliable c stored ref"
  defines "dep \<equiv> stored (ref_Namespace ref) (ref_Name ref)"
  assumes d: "scaled_to x r (dep w)" "in32 r"
  shows "\<exists>w' d'. podRollback c ref w = (None, w') \<and> dep w' = Some d' \<and> dp_Replicas d' = Some r"
proof -
  obtain d where s: "dep w = Some d" "dp_Annotations d AnnotationPreviousState = Some (deploymentSnapshot r)" using d(1) by blast
  obtain w1 where g: "pc_GetDeployment c (ref_Namespace ref) (ref_Name ref) w = (Inr d, w1)"
    using reliable_get [OF re] s(1) by (auto simp: dep_def)
  have w1: "dep w1 = Some d" using pod_get(1) [OF ok g] s(1) by (simp add: dep_def)
  obtain w2 where "pc_PatchDeployment c (ref_Namespace ref) (ref_Name ref) d (d\<lparr>dp_Replicas := Some r\<rparr>) w1 = (None, w2)"
    using reliable_patch [OF re _ _ d(2)] w1 by (fastforce simp: dep_def)
  moreover have "deploymentSnapshot r \<noteq> []" by (simp add: deploymentSnapshot_def)
  ultimately have a: "podRollback c ref w = (None, w2)"
    using g s(2) pod_unmarshal [OF ok d(2)] by (simp add: podRollback_def)
  show ?thesis using a podRollback_ok [OF ok a _ s(2) d(2)] s(1) by (auto simp: dep_def same_spec_iff)
qed

text \<open>The setting of a canary on one Deployment: the pod actuator is registered and handles the action, the change
  is not limited, and the calls between the steps do not touch Deployments.\<close>

definition canary_setting ::
  "'w pod_client \<Rightarrow> 'w deployments \<Rightarrow> (duration \<Rightarrow> 'w \<Rightarrow> 'w) \<Rightarrow> PodActuator \<Rightarrow> ServiceRef \<Rightarrow> ScalingAction \<Rightarrow> ActuationOptions \<Rightarrow> bool"
where
  "canary_setting c stored sleep p ref action opts =
    (pod_ok c stored \<and> pod_reliable c stored ref \<and> (\<forall>d ns n w. stored ns n (sleep d w) = stored ns n w) \<and>
     podCanApply action \<and> in32 (sa_TargetReplica action) \<and> in32 (pa_MinReplicas p) \<and>
     ao_Canary opts \<and> \<not> ao_DryRun opts \<and> ao_MaxChange opts \<le> 0)"

definition stepAction :: "int \<Rightarrow> ScalingAction \<Rightarrow> ScalingAction" where
  "stepAction current action = action\<lparr>sa_TargetReplica := halfStep current (sa_TargetReplica action)\<rparr>"

lemma podTarget32: "in32 (sa_TargetReplica a) \<Longrightarrow> in32 (pa_MinReplicas p) \<Longrightarrow> in32 (podTarget p a)"
  by (simp add: podTarget_def Let_def in32_def)

lemma in32_halfStep [simp]: "in32 (halfStep a b)"
  by (simp add: halfStep_def)

lemma registry_single [simp]:
  "podCanApply a \<Longrightarrow> registryApply [podActuator c p] ref a opts w = podApply c p ref a opts w"
  "registryRollback [podActuator c p] ref w = (case podRollback c ref w of (None, w') \<Rightarrow> ([], w') | (Some e, w') \<Rightarrow> ([e], w'))"
  by (auto simp: podActuator_def split: prod.split option.split)

declare registryApply.simps [simp del] registryRollback.simps [simp del]

lemma canary_first_step:
  assumes st: "canary_setting c stored sleep p ref action opts"
  defines "dep \<equiv> stored (ref_Namespace ref) (ref_Name ref)"
  assumes d: "dep w = Some d"
  shows "\<exists>r w1. registryApply [podActuator c p] ref (stepAction (prevReplicas d) action) opts w = (Inr r, w1) \<and> ar_Applied r \<and>
    ar_PreviousState r = deploymentSnapshot (prevReplicas d) \<and>
    scaled_to (podTarget p (stepAction (prevReplicas d) action)) (prevReplicas d) (dep (sleep t w1))"
proof -
  let ?a = "stepAction (prevReplicas d) action"
  have "podCanApply ?a" "in32 (podTarget p ?a)"
    using st by (auto simp: canary_setting_def stepAction_def podCanApply_def intro!: podTarget32)
  then show ?thesis
    using podApply_reliable [of c stored ref opts p ?a w d] st d by (auto simp: canary_setting_def dep_def)
qed

lemma canary_second_step:
  assumes st: "canary_setting c stored sleep p ref action opts"
  defines "dep \<equiv> stored (ref_Namespace ref) (ref_Name ref)"
  assumes d: "scaled_to x y (dep w)"
  shows "\<exists>r w1. registryApply [podActuator c p] ref action opts w = (Inr r, w1) \<and> ar_Applied r \<and>
    scaled_to (podTarget p action) x (dep w1)"
proof -
  obtain d where d: "dep w = Some d" "prevReplicas d = x" using d by (auto simp: prevReplicas_def)
  then show ?thesis
    using podApply_reliable [of c stored ref opts p action w d] st podTarget32 by (auto simp: canary_setting_def dep_def)
qed

subsection \<open>Watchers\<close>

text \<open>The operations on watchers in any order: actions start one, rollbacks cancel it, sleeping ones wake up.\<close>

inductive watchers_run :: "('w, 'e) Registry \<Rightarrow> 'w Checker \<Rightarrow> CanaryController \<Rightarrow> bool" for reg checker where
  fresh: "watchers_run reg checker (SetStepDelay t NewCanaryController)"
| start: "watchers_run reg checker cc \<Longrightarrow> watchers_run reg checker (startAutoRollbackWatcher checker ref cc)"
| cancel: "watchers_run reg checker cc \<Longrightarrow> watchers_run reg checker (cancelWatcher ref cc)"
| fire: "watchers_run reg checker cc \<Longrightarrow> task \<in> set (cc_tasks cc) \<Longrightarrow>
    watchers_run reg checker (fst (watcherFires reg checker task cc w))"

definition watchers_ok :: "CanaryController \<Rightarrow> bool" where
  "watchers_ok cc = (distinct (map fst (cc_tasks cc)) \<and>
     (\<forall>id ref. (id, ref) \<in> set (cc_tasks cc) \<longrightarrow> id < cc_next cc \<and>
        (id \<notin> set (cc_cancelled cc) \<longrightarrow> cc_watchers cc (serviceKey ref) = Some id)) \<and>
     (\<forall>k id. cc_watchers cc k = Some id \<longrightarrow> id < cc_next cc))"

lemma watchers_ok_cancel: "watchers_ok cc \<Longrightarrow> watchers_ok (cancelWatcher ref cc)"
  unfolding watchers_ok_def cancelWatcher_def
  by (cases "cc_watchers cc (serviceKey ref)") (auto, metis option.inject)

lemma watchers_ok_start: "watchers_ok cc \<Longrightarrow> watchers_ok (startAutoRollbackWatcher checker ref cc)"
proof (cases checker)
  case (Some f)
  assume "watchers_ok cc"
  then have ok: "watchers_ok (cancelWatcher ref cc)" by (rule watchers_ok_cancel)
  let ?c = "cancelWatcher ref cc"
  have none: "cc_watchers ?c (serviceKey ref) = None" by (simp add: cancelWatcher_def split: option.split)
  have "id \<noteq> cc_next ?c" if "(id, r) \<in> set (cc_tasks ?c)" for id r using ok that unfolding watchers_ok_def by fastforce
  then show ?thesis using ok none Some
    by (fastforce simp: watchers_ok_def startAutoRollbackWatcher_def Let_def)
qed (simp add: startAutoRollbackWatcher_def)

lemma watchers_ok_fire: "watchers_ok cc \<Longrightarrow> watchers_ok (fst (watcherFires reg checker task cc w))"
proof -
  assume ok: "watchers_ok cc"
  obtain id ref where t: "task = (id, ref)" by fastforce
  have "fst (watcherFires reg checker task cc w) = cc\<lparr>cc_tasks := remove1 task (cc_tasks cc), cc_cancelled := id # cc_cancelled cc\<rparr>"
    by (simp add: watcherFires_def t Let_def split: option.split prod.split)
  moreover have "distinct (map fst (remove1 task (cc_tasks cc)))"
    using ok unfolding watchers_ok_def by (metis distinct_map distinct_remove1 inj_on_subset set_remove1_subset)
  ultimately show ?thesis using ok set_remove1_subset [of task "cc_tasks cc"]
    unfolding watchers_ok_def by auto
qed

lemma watchers_run_ok: "watchers_run reg checker cc \<Longrightarrow> watchers_ok cc"
  by (induction rule: watchers_run.induct)
    (simp_all add: watchers_ok_cancel watchers_ok_start watchers_ok_fire, simp add: watchers_ok_def SetStepDelay_def NewCanaryController_def)

lemma canary_done:
  assumes "canary_setting c stored sleep p ref action opts" "stored (ref_Namespace ref) (ref_Name ref) w = Some d"
    "isLargeChange (prevReplicas d) (sa_TargetReplica action)"
    "canaryApply [podActuator c p] (Some (\<lambda>ns n w. (h, w))) sleep ref action opts (prevReplicas d) cc w = (x, cc', w')"
  shows "\<exists>r d'. x = Inr r \<and> stored (ref_Namespace ref) (ref_Name ref) w' = Some d' \<and>
    (if h = Inr True then ar_Applied r \<and> ar_Error r = None \<and> dp_Replicas d' = Some (podTarget p action) \<and> WatcherActive cc' ref
     else \<not> ar_Applied r \<and> ar_Error r \<noteq> None \<and> dp_Replicas d' = Some (prevReplicas d) \<and> cc' = cc)"
proof -
  let ?R = "[podActuator c p]" and ?dep = "stored (ref_Namespace ref) (ref_Name ref)"
  have ok: "pod_ok c stored" "pod_reliable c stored ref" "ao_Canary opts" "\<not> ao_DryRun opts" using assms(1) by (auto simp: canary_setting_def)
  obtain r1 w1 where s1: "registryApply ?R ref (stepAction (prevReplicas d) action) opts w = (Inr r1, w1)" "ar_Applied r1"
      "scaled_to (podTarget p (stepAction (prevReplicas d) action)) (prevReplicas d) (?dep (sleep (cc_stepDelay cc) w1))"
    using canary_first_step [OF assms(1,2)] by metis
  let ?w2 = "sleep (cc_stepDelay cc) w1"
  note c = assms(4) [unfolded canaryApply_def stepAction_def [symmetric]]
  show ?thesis
  proof (cases "h = Inr True")
    case True
    obtain r2 w4 where s2: "registryApply ?R ref action opts ?w2 = (Inr r2, w4)" "ar_Applied r2"
        "scaled_to (podTarget p action) (podTarget p (stepAction (prevReplicas d) action)) (?dep w4)"
      using canary_second_step [OF assms(1) s1(3)] by blast
    show ?thesis using c ok(3,4) assms(3) s1(1,2) s2 True
      by (auto simp: Let_def startAutoRollbackWatcher_def WatcherActive_def)
  next
    case False
    obtain w4 d' where "podRollback c ref ?w2 = (None, w4)" "?dep w4 = Some d'" "dp_Replicas d' = Some (prevReplicas d)"
      using podRollback_reliable [OF ok(1,2) s1(3)] pod_replicas32 [OF ok(1) assms(2)] by blast
    then show ?thesis using c ok(3,4) assms(3) s1(1,2) False by (auto simp: Let_def)
  qed
qed

section \<open>Properties\<close>


text \<open>The second step of a canary overwrites the snapshot that a rollback reads: after a successful canary a
  rollback goes back to the half step only, although the result reports the state from before both steps.\<close>
theorem canary_rollback_partial:
  assumes "canary_setting c stored sleep p ref action opts" "stored (ref_Namespace ref) (ref_Name ref) w = Some d"
    "isLargeChange (prevReplicas d) (sa_TargetReplica action)"
    "canaryApply [podActuator c p] (Some (\<lambda>ns n w. (Inr True, w))) sleep ref action opts (prevReplicas d) cc w = (Inr r, cc', w')"
    "canaryRollback [podActuator c p] ref cc' w' = (es, cc'', w'')"
  shows "ar_PreviousState r = deploymentSnapshot (prevReplicas d) \<and> es = [] \<and>
    (\<exists>d'. stored (ref_Namespace ref) (ref_Name ref) w'' = Some d' \<and>
      dp_Replicas d' = Some (podTarget p (stepAction (prevReplicas d) action)))"
proof -
  let ?R = "[podActuator c p]" and ?dep = "stored (ref_Namespace ref) (ref_Name ref)"
  let ?h = "podTarget p (stepAction (prevReplicas d) action)"
  have ok: "pod_ok c stored" "pod_reliable c stored ref" "ao_Canary opts" using assms(1) by (auto simp: canary_setting_def)
  obtain r1 w1 where s1: "registryApply ?R ref (stepAction (prevReplicas d) action) opts w = (Inr r1, w1)" "ar_Applied r1"
      "ar_PreviousState r1 = deploymentSnapshot (prevReplicas d)" "scaled_to ?h (prevReplicas d) (?dep (sleep (cc_stepDelay cc) w1))"
    using canary_first_step [OF assms(1,2)] by metis
  obtain r2 w4 where s2: "registryApply ?R ref action opts (sleep (cc_stepDelay cc) w1) = (Inr r2, w4)" "scaled_to (podTarget p action) ?h (?dep w4)"
    using canary_second_step [OF assms(1) s1(4)] by blast
  have "w' = w4" "ar_PreviousState r = deploymentSnapshot (prevReplicas d)"
    using assms(4) [unfolded canaryApply_def stepAction_def [symmetric]] ok(3) assms(3) s1(1-3) s2(1)
    by (auto simp: Let_def split: prod.splits)
  moreover have "in32 ?h" using assms(1) by (auto simp: canary_setting_def stepAction_def intro!: podTarget32)
  ultimately show ?thesis
    using podRollback_reliable [OF ok(1,2) s2(2)] assms(5) by (auto simp: canaryRollback_def)
qed

lemma demo_canary_setting: "canary_setting oneDeployment validStored (\<lambda>d w. w) NewPodActuator demo_ref demo_action demo_opts"
proof -
  have "pod_reliable oneDeployment validStored demo_ref"
    by (auto simp: pod_reliable_def findHPA_def validStored_Some validStored_None split: option.split)
  then show ?thesis
    by (simp add: canary_setting_def oneDeployment_ok podCanApply_def demo_action_def demo_opts_def in32_def NewPodActuator_def zero_Fin)
qed

lemma demo_large: "isLargeChange 4 12"
  by code_simp


lemma canary_rollback_partial_witness:
  "case canaryApply [podActuator oneDeployment NewPodActuator] (Some (\<lambda>ns n w. (Inr True, w))) (\<lambda>d w. w)
      demo_ref demo_action demo_opts 4 NewCanaryController demo_deploy of
     (x, cc', w') \<Rightarrow> dp_Replicas w' = Some 12 \<and>
       dp_Replicas (snd (snd (canaryRollback [podActuator oneDeployment NewPodActuator] demo_ref cc' w'))) = Some 8"
proof -
  let ?R = "[podActuator oneDeployment NewPodActuator]"
  have d: "validStored (ref_Namespace demo_ref) (ref_Name demo_ref) demo_deploy = Some demo_deploy" "prevReplicas demo_deploy = 4"
    "sa_TargetReplica demo_action = 12" "podTarget NewPodActuator demo_action = 12" "podTarget NewPodActuator (stepAction 4 demo_action) = 8"
    by (simp_all add: validStored_Some demo_deploy_def in32_def prevReplicas_def demo_action_def podTarget_def NewPodActuator_def
        stepAction_def halfStep_def half_def wrap32_def)
  obtain x cc' w' where a: "canaryApply ?R (Some (\<lambda>ns n w. (Inr True, w))) (\<lambda>d w. w)
     demo_ref demo_action demo_opts (prevReplicas demo_deploy) NewCanaryController demo_deploy = (x, cc', w')" by (metis prod_cases3)
  obtain es cc'' w'' where r: "canaryRollback ?R demo_ref cc' w' = (es, cc'', w'')" by (metis prod_cases3)
  have l: "isLargeChange (prevReplicas demo_deploy) (sa_TargetReplica demo_action)" using demo_large d by simp
  obtain res d' where x: "x = Inr res" "dp_Replicas w' = Some 12"
    using canary_done [OF demo_canary_setting d(1) l a] d by (auto simp: validStored_Some)
  show ?thesis using canary_rollback_partial [OF demo_canary_setting d(1) l a [unfolded x(1)] r] a r x d by (auto simp: validStored_Some)
qed



end
