(* ===== verification/Forecaster.thy ===== *)
theory Forecaster
  imports Circuit_Breaker Cel_Types Go_Strings
begin

text \<open>
  The client of the ML service, \<open>internal/forecaster/client.go\<close>, with its circuit breaker and retry, and the
  accuracy tracker that switches pre-warming off, \<open>internal/forecaster/accuracy_tracker.go\<close>. JSON, HTTP, the
  clock and the sleep are functions on a world \<open>'w\<close>. The zero time of Go that marks "not set" is \<open>None\<close>.
\<close>

section \<open>Circuit breaker\<close>

definition cbMaxErrors :: nat where "cbMaxErrors = 5"
definition cbWindowDuration :: duration where "cbWindowDuration = 1 * minute"
definition cbPauseDuration :: duration where "cbPauseDuration = 30 * second"

record circuitBreaker =
  cb_errors :: "gotime list"
  cb_openUntil :: "gotime option"

definition newCircuitBreaker :: circuitBreaker where
  "newCircuitBreaker = \<lparr>cb_errors = [], cb_openUntil = None\<rparr>"

definition isOpen :: "gotime \<Rightarrow> circuitBreaker \<Rightarrow> bool \<times> circuitBreaker" where
  "isOpen now cb = (case cb_openUntil cb of
     Some u \<Rightarrow> if now < u then (True, cb) else (False, cb\<lparr>cb_openUntil := None\<rparr>)
   | None \<Rightarrow> (False, cb\<lparr>cb_openUntil := None\<rparr>))"

definition recordError :: "gotime \<Rightarrow> circuitBreaker \<Rightarrow> circuitBreaker" where
  "recordError now cb =
    (let cutoff = time_add now (- cbWindowDuration);
         errors = filter (\<lambda>t. cutoff < t) (cb_errors cb) @ [now] in
     if cbMaxErrors \<le> length errors then cb\<lparr>cb_openUntil := Some (time_add now cbPauseDuration), cb_errors := []\<rparr>
     else cb\<lparr>cb_errors := errors\<rparr>)"

definition recordSuccess :: "circuitBreaker \<Rightarrow> circuitBreaker" where
  "recordSuccess cb = cb\<lparr>cb_errors := [], cb_openUntil := None\<rparr>"

definition ErrorCount :: "circuitBreaker \<Rightarrow> nat" where
  "ErrorCount cb = length (cb_errors cb)"

section \<open>Client\<close>

record MetricPoint =
  mpt_DS :: string
  mpt_Y :: f64

record ForecastPoint =
  fp_DS :: string
  fp_YHat :: f64

record forecastRequest =
  fq_Service :: string
  fq_Metric :: string
  fq_History :: "MetricPoint list"
  fq_HorizonsMinutes :: "int list"

record forecastResponse =
  fs_Service :: string
  fs_Metric :: string
  fs_Forecasts :: "ForecastPoint list"
  fs_ModelUsed :: string
  fs_ChangePercent :: f64
  fs_Confidence :: f64

text \<open>Errors and their chain: a plain one, one that wraps another, one marked retriable.\<close>

datatype ml_error = Plain string | Wrapped string ml_error | Retriable ml_error

fun isRetriable :: "ml_error \<Rightarrow> bool" where
  "isRetriable (Retriable e) = True"
| "isRetriable (Wrapped s e) = isRetriable e"
| "isRetriable (Plain s) = False"

text \<open>What the client uses of \<open>encoding/json\<close>, \<open>net/http\<close> and \<open>time\<close>. The HTTP call returns a network
  error or a status with a body, whose reading may fail.\<close>

record ('w, 'req, 'resp) http_deps =
  hd_marshal :: "'req \<Rightarrow> string + string"
  hd_newRequest :: "string \<Rightarrow> string option"
  hd_Do :: "string \<Rightarrow> string \<Rightarrow> string \<Rightarrow> 'w \<Rightarrow> (string + int \<times> (string + string)) \<times> 'w"
  hd_unmarshal :: "string \<Rightarrow> string + 'resp"
  hd_sleep :: "duration \<Rightarrow> 'w \<Rightarrow> 'w"
  hd_now :: "'w \<Rightarrow> gotime \<times> 'w"

definition doRequest ::
  "('w, 'req, 'resp) http_deps \<Rightarrow> string \<Rightarrow> string \<Rightarrow> string \<Rightarrow> 'req \<Rightarrow> 'w \<Rightarrow> (ml_error + 'resp) \<times> 'w"
where
  "doRequest deps baseURL method path body w = (case hd_marshal deps body of
     Inl e \<Rightarrow> (Inl (Wrapped ''marshal request: '' (Plain e)), w)
   | Inr buf \<Rightarrow> (case hd_newRequest deps (baseURL @ path) of
       Some e \<Rightarrow> (Inl (Wrapped ''create request: '' (Plain e)), w)
     | None \<Rightarrow> (case hd_Do deps method (baseURL @ path) buf w of
         (Inl e, w') \<Rightarrow> (Inl (Retriable (Plain e)), w')
       | (Inr (status, rd), w') \<Rightarrow> (case rd of
           Inl e \<Rightarrow> (Inl (Wrapped ''read response: '' (Plain e)), w')
         | Inr respBody \<Rightarrow>
             if 500 \<le> status then
               (Inl (Retriable (Plain (''ML service HTTP '' @ fmt_d status @ '': '' @ respBody))), w')
             else if 400 \<le> status then
               (Inl (Plain (''ML service HTTP '' @ fmt_d status @ '': '' @ respBody)), w')
             else (case hd_unmarshal deps respBody of
               Inl e \<Rightarrow> (Inl (Wrapped ''unmarshal response: '' (Plain e)), w')
             | Inr r \<Rightarrow> (Inr r, w'))))))"

definition retryBackoff :: duration where "retryBackoff = 200000000"

fun retryLoop ::
  "('w, 'req, 'resp) http_deps \<Rightarrow> nat \<Rightarrow> bool \<Rightarrow> string \<Rightarrow> string \<Rightarrow> string \<Rightarrow> 'req \<Rightarrow> ml_error \<Rightarrow> 'w \<Rightarrow> (ml_error + 'resp) \<times> 'w"
where
  "retryLoop deps 0 again baseURL method path body lastErr w = (Inl lastErr, w)"
| "retryLoop deps (Suc n) again baseURL method path body lastErr w =
    (let w1 = (if again then hd_sleep deps retryBackoff w else w) in
     case doRequest deps baseURL method path body w1 of
       (Inr r, w2) \<Rightarrow> (Inr r, w2)
     | (Inl e, w2) \<Rightarrow> if isRetriable e then retryLoop deps n True baseURL method path body e w2 else (Inl e, w2))"

definition doWithRetry ::
  "('w, 'req, 'resp) http_deps \<Rightarrow> string \<Rightarrow> string \<Rightarrow> string \<Rightarrow> 'req \<Rightarrow> 'w \<Rightarrow> (ml_error + 'resp) \<times> 'w"
where
  "doWithRetry deps baseURL method path body w = retryLoop deps 2 False baseURL method path body (Plain []) w"

definition ForecastDemand ::
  "('w, forecastRequest, forecastResponse) http_deps \<Rightarrow> string \<Rightarrow> string \<Rightarrow> string \<Rightarrow> MetricPoint list \<Rightarrow> circuitBreaker \<Rightarrow> 'w \<Rightarrow>
   (ml_error + ForecastResult option) \<times> circuitBreaker \<times> 'w"
where
  "ForecastDemand deps baseURL service metric history cb w =
    (case hd_now deps w of (t0, w0) \<Rightarrow>
     case isOpen t0 cb of
       (True, cb') \<Rightarrow> (Inr None, cb', w0)
     | (False, cb') \<Rightarrow>
        (case doWithRetry deps baseURL ''POST'' ''/v1/forecast''
            \<lparr>fq_Service = service, fq_Metric = metric, fq_History = history, fq_HorizonsMinutes = [15, 60, 360]\<rparr> w0 of
           (Inl e, w1) \<Rightarrow> (case hd_now deps w1 of (t1, w2) \<Rightarrow> (Inl e, recordError t1 cb', w2))
         | (Inr resp, w1) \<Rightarrow>
             (Inr (Some (zero_ForecastResult\<lparr>
                fr_PredictedRPS := (case fs_Forecasts resp of [] \<Rightarrow> 0 | p # ps \<Rightarrow> fp_YHat p),
                fr_ChangePercent := fs_ChangePercent resp, fr_Confidence := fs_Confidence resp\<rparr>)),
              recordSuccess cb', w1)))"

record spotRiskRequest =
  sq_InstanceType :: string
  sq_AZ :: string
  sq_HourOfDay :: int
  sq_DayOfWeek :: int
  sq_RecentInterruptionCount7d :: int
  sq_SpotPriceRatio :: f64

record SpotRiskResult =
  sr_InstanceType :: string
  sr_AZ :: string
  sr_InterruptionProbability :: f64
  sr_RecommendedAction :: string
  sr_Confidence :: f64

text \<open>\<open>wallClock\<close> gives the hour and the weekday (Sunday is 0) of the current time.\<close>

definition PredictSpotRisk ::
  "('w, spotRiskRequest, SpotRiskResult) http_deps \<Rightarrow> ('w \<Rightarrow> int \<times> int) \<Rightarrow> string \<Rightarrow> string \<Rightarrow> string \<Rightarrow> circuitBreaker \<Rightarrow> 'w \<Rightarrow>
   (ml_error + SpotRiskResult option) \<times> circuitBreaker \<times> 'w"
where
  "PredictSpotRisk deps wallClock baseURL instanceType az cb w =
    (case hd_now deps w of (t0, w0) \<Rightarrow>
     case isOpen t0 cb of
       (True, cb') \<Rightarrow> (Inr None, cb', w0)
     | (False, cb') \<Rightarrow>
        (case doWithRetry deps baseURL ''POST'' ''/v1/spot-risk''
            \<lparr>sq_InstanceType = instanceType, sq_AZ = az, sq_HourOfDay = fst (wallClock w0),
             sq_DayOfWeek = (snd (wallClock w0) + 6) mod 7, sq_RecentInterruptionCount7d = 0, sq_SpotPriceRatio = 1\<rparr> w0 of
           (Inl e, w1) \<Rightarrow> (case hd_now deps w1 of (t1, w2) \<Rightarrow> (Inl e, recordError t1 cb', w2))
         | (Inr resp, w1) \<Rightarrow> (Inr (Some resp), recordSuccess cb', w1)))"

section \<open>Accuracy tracker\<close>

definition MAPEThreshold :: f64 where "MAPEThreshold = lit 30"
definition FallbackSustainDuration :: duration where "FallbackSustainDuration = 1 * hour"
definition accuracyWindowMax :: nat where "accuracyWindowMax = 200"

record accuracyRecord =
  ar_ts :: gotime
  ar_predicted :: f64
  ar_actual :: f64

record serviceAccuracy =
  sa_records :: "accuracyRecord list"
  sa_mae :: f64
  sa_mape :: f64
  sa_fallback :: bool
  sa_highMAPESince :: "gotime option"

record AccuracyTracker =
  at_services :: "string \<rightharpoonup> serviceAccuracy"
  at_threshold :: f64
  at_sustain :: duration
  at_windowMax :: nat

definition NewAccuracyTracker :: AccuracyTracker where
  "NewAccuracyTracker = \<lparr>at_services = Map.empty, at_threshold = MAPEThreshold, at_sustain = FallbackSustainDuration,
     at_windowMax = accuracyWindowMax\<rparr>"

definition getOrCreate :: "AccuracyTracker \<Rightarrow> string \<Rightarrow> serviceAccuracy" where
  "getOrCreate t service = (case at_services t service of
     Some sa \<Rightarrow> sa
   | None \<Rightarrow> \<lparr>sa_records = [], sa_mae = 0, sa_mape = 0, sa_fallback = False, sa_highMAPESince = None\<rparr>)"

definition absError :: "accuracyRecord \<Rightarrow> f64" where
  "absError r = fabs (ar_predicted r - ar_actual r)"

definition maeOf :: "accuracyRecord list \<Rightarrow> f64" where
  "maeOf rs = foldl (\<lambda>t r. t + absError r) 0 rs / of_int64 (int (length rs))"

definition mapeOf :: "accuracyRecord list \<Rightarrow> f64" where
  "mapeOf rs = (let nz = filter (\<lambda>r. \<not> feq (ar_actual r) 0) rs in
     if 0 < length nz then foldl (\<lambda>t r. t + absError r / fabs (ar_actual r) * lit 100) 0 nz / of_int64 (int (length nz)) else 0)"

definition recompute :: "f64 \<Rightarrow> duration \<Rightarrow> gotime \<Rightarrow> serviceAccuracy \<Rightarrow> serviceAccuracy" where
  "recompute threshold sustain now sa =
    (if sa_records sa = [] then sa\<lparr>sa_mae := 0, sa_mape := 0, sa_fallback := False, sa_highMAPESince := None\<rparr>
     else
      let sa1 = sa\<lparr>sa_mae := maeOf (sa_records sa), sa_mape := mapeOf (sa_records sa)\<rparr> in
      if threshold < sa_mape sa1 then
        (let since = (case sa_highMAPESince sa1 of Some s \<Rightarrow> s | None \<Rightarrow> now) in
         sa1\<lparr>sa_highMAPESince := Some since,
             sa_fallback := (sustain \<le> time_sub now since \<or> sa_fallback sa1)\<rparr>)
      else sa1\<lparr>sa_highMAPESince := None, sa_fallback := False\<rparr>)"

definition RecordAccuracy :: "gotime \<Rightarrow> string \<Rightarrow> f64 \<Rightarrow> f64 \<Rightarrow> AccuracyTracker \<Rightarrow> AccuracyTracker" where
  "RecordAccuracy now service predicted actual t =
    (let sa = getOrCreate t service;
         rs = sa_records sa @ [\<lparr>ar_ts = now, ar_predicted = predicted, ar_actual = actual\<rparr>];
         sa1 = sa\<lparr>sa_records := (if at_windowMax t < length rs then last_n (at_windowMax t) rs else rs)\<rparr> in
     t\<lparr>at_services := (at_services t)(service \<mapsto> recompute (at_threshold t) (at_sustain t) now sa1)\<rparr>)"

definition MAE :: "AccuracyTracker \<Rightarrow> string \<Rightarrow> f64" where
  "MAE t service = (case at_services t service of Some sa \<Rightarrow> sa_mae sa | None \<Rightarrow> 0)"

definition MAPE :: "AccuracyTracker \<Rightarrow> string \<Rightarrow> f64" where
  "MAPE t service = (case at_services t service of Some sa \<Rightarrow> sa_mape sa | None \<Rightarrow> 0)"

definition IsFallbackActive :: "AccuracyTracker \<Rightarrow> string \<Rightarrow> bool" where
  "IsFallbackActive t service = (case at_services t service of Some sa \<Rightarrow> sa_fallback sa | None \<Rightarrow> False)"

definition ResetAccuracy :: "string \<Rightarrow> AccuracyTracker \<Rightarrow> AccuracyTracker" where
  "ResetAccuracy service t = t\<lparr>at_services := (at_services t)(service := None)\<rparr>"

section \<open>Library\<close>

interpretation mlb: circuit_breaker "\<lambda>cb t. fst (isOpen t cb)" "\<lambda>cb t. snd (isOpen t cb)"
  "\<lambda>cb t. recordError t cb" "\<lambda>cb t. recordSuccess cb" cbPauseDuration
  by unfold_locales
    (auto simp: isOpen_def recordError_def recordSuccess_def time_add_def Let_def split: option.splits if_splits)

fun breaker_run :: "circuitBreaker \<Rightarrow> breaker_event \<Rightarrow> circuitBreaker" where
  "breaker_run cb (Checked t) = snd (isOpen t cb)"
| "breaker_run cb (Failed t) = recordError t cb"
| "breaker_run cb (Succeeded t) = recordSuccess cb"

lemma breaker_run_eq: "breaker_run = mlb.breaker_step"
proof (intro ext)
  show "breaker_run cb e = mlb.breaker_step cb e" for cb e by (cases e) simp_all
qed

lemma ForecastDemand_open:
  "hd_now deps w = (u, w0) \<Longrightarrow> fst (isOpen u cb) \<Longrightarrow> ForecastDemand deps b s m h cb w = (Inr None, cb, w0)"
  by (auto simp: ForecastDemand_def isOpen_def split: option.splits if_splits)

lemma ForecastDemand_closed:
  "hd_now deps w = (u, w0) \<Longrightarrow> \<not> fst (isOpen u cb) \<Longrightarrow> fst (ForecastDemand deps b s m h cb w) \<noteq> Inr None"
  by (auto simp: ForecastDemand_def split: prod.splits sum.splits bool.splits)

text \<open>Errors within one window accumulate until there are five.\<close>

lemma errors_run:
  "sorted ts \<Longrightarrow> ts \<noteq> [] \<Longrightarrow> last ts - hd ts < cbWindowDuration \<Longrightarrow> length ts \<le> 4 \<Longrightarrow>
   foldl (\<lambda>cb t. recordError t cb) newCircuitBreaker ts = \<lparr>cb_errors = ts, cb_openUntil = None\<rparr>"
proof (induction ts rule: rev_induct)
  case (snoc t ts)
  show ?case
  proof (cases "ts = []")
    case True
    then show ?thesis by (simp add: recordError_def newCircuitBreaker_def cbMaxErrors_def Let_def)
  next
    case False
    have "last ts \<le> t" "sorted ts" using snoc.prems False by (auto simp: sorted_append)
    then have "foldl (\<lambda>cb t. recordError t cb) newCircuitBreaker ts = \<lparr>cb_errors = ts, cb_openUntil = None\<rparr>"
      using snoc False by simp
    moreover have "t - cbWindowDuration < x" if "x \<in> set ts" for x
    proof -
      have "hd ts \<le> x" using that \<open>sorted ts\<close> by (cases ts) auto
      then show ?thesis using snoc.prems(3) False by simp
    qed
    ultimately show ?thesis
      using snoc.prems(4) by (simp add: recordError_def cbMaxErrors_def Let_def time_add_def filter_id_conv)
  qed
qed simp

lemma five_errors:
  assumes "sorted ts" "length ts = 5" "last ts - hd ts < cbWindowDuration"
  shows "foldl (\<lambda>cb t. recordError t cb) newCircuitBreaker ts = \<lparr>cb_errors = [], cb_openUntil = Some (last ts + cbPauseDuration)\<rparr>"
proof -
  obtain ys t where ts: "ts = ys @ [t]" "length ys = 4" using assms(2) by (cases ts rule: rev_cases) auto
  then have ne: "ys \<noteq> []" by auto
  have s: "sorted ys" "last ys \<le> t" using assms(1) ts ne by (auto simp: sorted_append)
  then have "foldl (\<lambda>cb t. recordError t cb) newCircuitBreaker ys = \<lparr>cb_errors = ys, cb_openUntil = None\<rparr>"
    using assms(3) ts ne by (intro errors_run) simp_all
  moreover have "t - cbWindowDuration < x" if "x \<in> set ys" for x
  proof -
    have "hd ys \<le> x" using that s(1) by (cases ys) auto
    then show ?thesis using assms(3) ts ne by simp
  qed
  ultimately show ?thesis
    using ts by (simp add: recordError_def cbMaxErrors_def Let_def time_add_def filter_id_conv)
qed

subsection \<open>Runs of the tracker\<close>

inductive tracker_run :: "gotime \<Rightarrow> AccuracyTracker \<Rightarrow> bool" where
  init: "0 < n \<Longrightarrow> tracker_run now (NewAccuracyTracker\<lparr>at_threshold := th, at_sustain := su, at_windowMax := n\<rparr>)"
| observe: "tracker_run t tr \<Longrightarrow> t \<le> now \<Longrightarrow> tracker_run now (RecordAccuracy now service p a tr)"
| reset: "tracker_run t tr \<Longrightarrow> t \<le> now \<Longrightarrow> tracker_run now (ResetAccuracy service tr)"

definition service_ok :: "f64 \<Rightarrow> duration \<Rightarrow> nat \<Rightarrow> serviceAccuracy \<Rightarrow> bool" where
  "service_ok th su n sa = (sa_records sa \<noteq> [] \<and> length (sa_records sa) \<le> n \<and>
     sa_mae sa = maeOf (sa_records sa) \<and> sa_mape sa = mapeOf (sa_records sa) \<and>
     (case sa_highMAPESince sa of
        None \<Rightarrow> \<not> th < sa_mape sa \<and> \<not> sa_fallback sa
      | Some s \<Rightarrow> th < sa_mape sa \<and> s \<le> ar_ts (last (sa_records sa)) \<and>
          (sa_fallback sa \<longleftrightarrow> su \<le> time_sub (ar_ts (last (sa_records sa))) s)))"

definition tracker_ok :: "gotime \<Rightarrow> AccuracyTracker \<Rightarrow> bool" where
  "tracker_ok t tr = (0 < at_windowMax tr \<and>
     (\<forall>sa \<in> ran (at_services tr). service_ok (at_threshold tr) (at_sustain tr) (at_windowMax tr) sa \<and> ar_ts (last (sa_records sa)) \<le> t))"

lemma last_last_n: "0 < n \<Longrightarrow> xs \<noteq> [] \<Longrightarrow> last (last_n n xs) = last xs"
  by (cases xs rule: rev_cases) (auto simp: last_n_def last_drop)

lemma recompute_ok:
  assumes "sa_records sa \<noteq> []" "length (sa_records sa) \<le> n" "ar_ts (last (sa_records sa)) = now"
    "case sa_highMAPESince sa of None \<Rightarrow> \<not> sa_fallback sa | Some s \<Rightarrow> s \<le> now \<and> (sa_fallback sa \<longrightarrow> su \<le> time_sub now s)"
  shows "service_ok th su n (recompute th su now sa)" "sa_records (recompute th su now sa) = sa_records sa"
  using assms by (auto simp: recompute_def service_ok_def Let_def split: option.splits)

lemma RecordAccuracy_ok:
  assumes "tracker_ok t tr" "t \<le> now"
  shows "tracker_ok now (RecordAccuracy now service p a tr)"
proof -
  let ?r = "\<lparr>ar_ts = now, ar_predicted = p, ar_actual = a\<rparr>" and ?sa = "getOrCreate tr service"
  let ?rs = "sa_records ?sa @ [?r]"
  define sa1 where "sa1 = ?sa\<lparr>sa_records := (if at_windowMax tr < length ?rs then last_n (at_windowMax tr) ?rs else ?rs)\<rparr>"
  have n: "0 < at_windowMax tr" using assms(1) by (simp add: tracker_ok_def)
  have old: "service_ok (at_threshold tr) (at_sustain tr) (at_windowMax tr) ?sa \<and> ar_ts (last (sa_records ?sa)) \<le> t \<or>
      sa_highMAPESince ?sa = None \<and> \<not> sa_fallback ?sa"
    using assms(1) by (auto simp: tracker_ok_def getOrCreate_def ran_def split: option.split)
  have mono: "time_sub x s \<le> time_sub now s" if "x \<le> t" for x s
    using that assms(2) satur64_mono [of "x - s" "now - s"] by (simp add: time_sub_def)
  have "case sa_highMAPESince sa1 of None \<Rightarrow> \<not> sa_fallback sa1 | Some s \<Rightarrow> s \<le> now \<and> (sa_fallback sa1 \<longrightarrow> at_sustain tr \<le> time_sub now s)"
    using old assms(2) mono by (fastforce simp: sa1_def service_ok_def split: option.splits dest: order_trans)
  moreover have "sa_records sa1 \<noteq> []" "length (sa_records sa1) \<le> at_windowMax tr" "ar_ts (last (sa_records sa1)) = now"
    using n last_last_n [OF n, of ?rs] by (auto simp: sa1_def last_n_def)
  ultimately have new: "service_ok (at_threshold tr) (at_sustain tr) (at_windowMax tr) (recompute (at_threshold tr) (at_sustain tr) now sa1)"
      "ar_ts (last (sa_records (recompute (at_threshold tr) (at_sustain tr) now sa1))) = now"
    using recompute_ok [of sa1] by auto
  have tr': "RecordAccuracy now service p a tr = tr\<lparr>at_services := (at_services tr)(service \<mapsto> recompute (at_threshold tr) (at_sustain tr) now sa1)\<rparr>"
    by (simp add: RecordAccuracy_def sa1_def Let_def)
  have "service_ok (at_threshold tr) (at_sustain tr) (at_windowMax tr) sa \<and> ar_ts (last (sa_records sa)) \<le> now"
    if sa: "sa \<in> ran ((at_services tr)(service \<mapsto> recompute (at_threshold tr) (at_sustain tr) now sa1))" for sa
  proof -
    have "sa \<in> ran (at_services tr) \<or> sa = recompute (at_threshold tr) (at_sustain tr) now sa1"
      using sa by (auto simp: ran_def split: if_splits)
    then show ?thesis using assms new by (fastforce simp: tracker_ok_def)
  qed
  then show ?thesis using n unfolding tr' tracker_ok_def by simp
qed

lemma tracker_run_ok: "tracker_run t tr \<Longrightarrow> tracker_ok t tr"
proof (induction rule: tracker_run.induct)
  case (init n now th su)
  then show ?case by (simp add: tracker_ok_def NewAccuracyTracker_def)
next
  case (observe t tr now service p a)
  then show ?case by (intro RecordAccuracy_ok)
next
  case (reset t tr now service)
  have "ran ((at_services tr)(service := None)) \<subseteq> ran (at_services tr)" by (auto simp: ran_def)
  then show ?case using reset by (fastforce simp: tracker_ok_def ResetAccuracy_def)
qed

section \<open>Properties\<close>

text \<open>Failed calls within one minute open the breaker when there are five of them and not before: until 30
  seconds after the fifth a forecast returns nothing without contacting the service, and otherwise the service
  is asked.\<close>
theorem ml_breaker_opens:
  assumes "sorted ts" "ts \<noteq> []" "length ts \<le> 5" "last ts - hd ts < minute" "hd_now deps w = (u, w0)"
  defines "cb \<equiv> foldl (\<lambda>cb t. recordError t cb) newCircuitBreaker ts"
  shows "if length ts = 5 \<and> u < last ts + 30 * second
    then ForecastDemand deps baseURL service metric history cb w = (Inr None, cb, w0)
    else fst (ForecastDemand deps baseURL service metric history cb w) \<noteq> Inr None"
proof -
  have "fst (isOpen u cb) \<longleftrightarrow> length ts = 5 \<and> u < last ts + 30 * second"
  proof (cases "length ts = 5")
    case True
    then have "cb = \<lparr>cb_errors = [], cb_openUntil = Some (last ts + cbPauseDuration)\<rparr>"
      unfolding cb_def using assms(1,4) by (intro five_errors) (simp_all add: cbWindowDuration_def)
    then show ?thesis using True by (simp add: isOpen_def cbPauseDuration_def)
  next
    case False
    then have "cb = \<lparr>cb_errors = ts, cb_openUntil = None\<rparr>"
      unfolding cb_def using assms(1-4) by (intro errors_run) (simp_all add: cbWindowDuration_def)
    then show ?thesis using False by (simp add: isOpen_def)
  qed
  then show ?thesis using ForecastDemand_open [OF assms(5)] ForecastDemand_closed [OF assms(5)] by simp
qed

definition demo_http :: "(gotime, forecastRequest, forecastResponse) http_deps" where
  "demo_http = \<lparr>hd_marshal = (\<lambda>r. Inr []), hd_newRequest = (\<lambda>u. None), hd_Do = (\<lambda>m u b w. (Inl ''refused'', w)),
     hd_unmarshal = (\<lambda>b. Inl ''eof''), hd_sleep = (\<lambda>d w. w + d), hd_now = (\<lambda>w. (w, w))\<rparr>"

lemma ml_breaker_opens_witness:
  "fst (ForecastDemand demo_http [] ''web'' ''rps'' []
     (foldl (\<lambda>cb t. recordError t cb) newCircuitBreaker [0, second, 2 * second, 3 * second, 4 * second]) (10 * second)) = Inr None"
  using ml_breaker_opens [of "[0, second, 2 * second, 3 * second, 4 * second]" demo_http "10 * second" "10 * second" "10 * second"]
  by (simp add: demo_http_def)

text \<open>However checks, failures and successes of calls interleave, the breaker lets calls through again as
  soon as every failure is at least 30 seconds old.\<close>
theorem ml_breaker_reopens:
  assumes "\<forall>e \<in> set es. is_failure e \<longrightarrow> event_time e + 30 * second \<le> u"
  shows "\<not> fst (isOpen u (foldl breaker_run newCircuitBreaker es))"
  unfolding breaker_run_eq using assms
  by (intro mlb.reopens) (simp_all add: isOpen_def newCircuitBreaker_def cbPauseDuration_def)

lemma ml_breaker_reopens_witness:
  "\<not> fst (isOpen (40 * second) (foldl breaker_run newCircuitBreaker
     [Failed 0, Failed second, Failed second, Failed (2 * second), Failed (3 * second), Checked (4 * second)]))"
  by (rule ml_breaker_reopens) simp



end
