(* ===== verification/Optimizer.thy ===== *)
theory Optimizer
  imports Policy_Controller Solver Canary Forecaster
begin

text \<open>
  The optimization loop, \<open>internal/controller/optimizer_controller.go\<close> and \<open>optimizer_forecast.go\<close>: for every
  ServiceObjective it reads the state of the workload, attaches a forecast, finds the policies, solves, journals
  the decision and actuates it behind the safety guard. It composes the models of the policy controller, the
  solver, the ML client, the guard, the canary controller and the actuators. What it calls outside (Kubernetes,
  Prometheus, clock, UUIDs, the journal's database, \<open>resource.Quantity\<close>, \<open>sort.Slice\<close>) is in \<open>opt_deps\<close>, functions
  on a world \<open>'w\<close>. Log lines and counters are output only. Events carry their values instead of the text.
\<close>

section \<open>Data\<close>

datatype 'e opt_event =
    DryRunDecision ActionType string
  | OptimizationDecision ActionType string
  | ActuationBlocked guard_error
  | ActuationFailed "'e canary_error + 'e"
  | Actuated ActionType nat

datatype range_error = ErrNoData | ErrRange string

record 'w prom_client =
  pq_Query :: "'w prom_query"
  pq_QueryRange :: "string \<Rightarrow> gotime \<Rightarrow> gotime \<Rightarrow> duration \<Rightarrow> 'w \<Rightarrow> (range_error + (gotime \<times> f64) list) \<times> 'w"

text \<open>The canary controller has a registry of its own. \<open>od_burnOrder\<close> is the order in which Go visits a map.\<close>

record ('w, 'e) opt_deps =
  od_Policies :: "'w policy_deps"
  od_ListObjectives :: "'w \<Rightarrow> (string + ServiceObjective list) \<times> 'w"
  od_GetDeployment :: "string \<Rightarrow> string \<Rightarrow> 'w \<Rightarrow> (get_error + Deployment) \<times> 'w"
  od_MilliValue :: "Quantity \<Rightarrow> int"
  od_Value :: "Quantity \<Rightarrow> int"
  od_Prom :: "'w prom_client option"
  od_Journal :: "(DecisionRecord \<Rightarrow> 'w \<Rightarrow> string option \<times> 'w) option"
  od_Event :: "ServiceObjective \<Rightarrow> 'e opt_event \<Rightarrow> 'w \<Rightarrow> 'w"
  od_Registry :: "('w, 'e) Registry option"
  od_CanaryRegistry :: "('w, 'e) Registry"
  od_Checker :: "'w Checker"
  od_sleep :: "duration \<Rightarrow> 'w \<Rightarrow> 'w"
  od_http :: "('w, forecastRequest, forecastResponse) http_deps"
  od_mlURL :: string
  od_now :: "'w \<Rightarrow> gotime \<times> 'w"
  od_uuid :: "'w \<Rightarrow> string \<times> 'w"
  od_rngPerm :: "int \<Rightarrow> nat \<Rightarrow> nat list"
  od_getNamespace :: "'w \<Rightarrow> string \<Rightarrow> (string \<rightharpoonup> string) option"
  od_getConfigMap :: "'w \<Rightarrow> string \<times> string \<Rightarrow> (string \<rightharpoonup> string) option"
  od_timeText :: "gotime \<Rightarrow> string"
  od_sortPoints :: "(gotime \<times> f64 \<Rightarrow> gotime \<times> f64 \<Rightarrow> bool) \<Rightarrow> (gotime \<times> f64) list \<Rightarrow> (gotime \<times> f64) list"
  od_burnOrder :: "(string \<rightharpoonup> string) \<Rightarrow> string list"

text \<open>The state: guard, canary controller and ML client (its circuit breaker) are optional.\<close>

record 'ast OptimizerController =
  oc_Solver :: "'ast Solver"
  oc_SafetyGuard :: "SafetyGuard option"
  oc_CanaryCtrl :: "CanaryController option"
  oc_Forecaster :: "circuitBreaker option"
  oc_ForecastLookback :: duration
  oc_ForecastStep :: duration
  oc_ForecastMinPoints :: int

definition forecastMetricLabel :: string where "forecastMetricLabel = ''cpu_cores_rate''"
definition defaultForecastLookback :: duration where "defaultForecastLookback = 90 * minute"
definition defaultForecastStep :: duration where "defaultForecastStep = minute"
definition defaultForecastMinPoints :: int where "defaultForecastMinPoints = 6"

section \<open>Forecast\<close>

definition effectiveForecastLookback :: "'ast OptimizerController \<Rightarrow> duration" where
  "effectiveForecastLookback oc = (if 0 < oc_ForecastLookback oc then oc_ForecastLookback oc else defaultForecastLookback)"

definition effectiveForecastStep :: "'ast OptimizerController \<Rightarrow> duration" where
  "effectiveForecastStep oc = (if 0 < oc_ForecastStep oc then oc_ForecastStep oc else defaultForecastStep)"

definition effectiveForecastMinPoints :: "'ast OptimizerController \<Rightarrow> int" where
  "effectiveForecastMinPoints oc = (if 0 < oc_ForecastMinPoints oc then oc_ForecastMinPoints oc else defaultForecastMinPoints)"

text \<open>\<open>regexp.QuoteMeta\<close>.\<close>

definition QuoteMeta :: "string \<Rightarrow> string" where
  "QuoteMeta s = concat (map (\<lambda>c. if c \<in> set (CHR 0x5C # ''.+*?()|[]{}^$'') then [CHR 0x5C, c] else [c]) s)"

definition podSelector :: "string \<Rightarrow> string \<Rightarrow> string" where
  "podSelector ns name = ''{namespace='' @ quoted ns @ '',pod=~'' @ quoted (QuoteMeta name @ ''-.*'') @
     '',container!='' @ quoted [] @ '',container!='' @ quoted ''POD'' @ ''}''"

definition deploymentCPURateQuery :: "string \<Rightarrow> string \<Rightarrow> string" where
  "deploymentCPURateQuery ns name = ''sum(rate(container_cpu_usage_seconds_total'' @ podSelector ns name @ ''[5m]))''"

definition fetchDemandHistory ::
  "('w, 'e) opt_deps \<Rightarrow> 'w prom_client \<Rightarrow> 'ast OptimizerController \<Rightarrow> string \<Rightarrow> string \<Rightarrow> 'w \<Rightarrow> (string + MetricPoint list) \<times> 'w"
where
  "fetchDemandHistory d prom oc ns name w =
    (case od_now d w of (finish_at, w1) \<Rightarrow>
     (case pq_QueryRange prom (deploymentCPURateQuery ns name) (time_add finish_at (- effectiveForecastLookback oc)) finish_at
         (effectiveForecastStep oc) w1 of
        (Inl ErrNoData, w2) \<Rightarrow> (Inr [], w2)
      | (Inl (ErrRange e), w2) \<Rightarrow> (Inl e, w2)
      | (Inr points, w2) \<Rightarrow>
        (Inr (map (\<lambda>(t, v). \<lparr>mpt_DS = od_timeText d t, mpt_Y = v\<rparr>) (od_sortPoints d (\<lambda>p q. fst p < fst q) points)), w2)))"

definition average :: "MetricPoint list \<Rightarrow> f64" where
  "average h = foldl (\<lambda>s p. s + mpt_Y p) 0 h / of_int64 (int (length h))"

definition changePercent :: "f64 \<Rightarrow> f64 \<Rightarrow> f64" where
  "changePercent avgOld avgNew =
    (let eps = lit (1 / 1000000000);
         chg = (if avgOld < eps \<and> eps < avgNew then lit 100
                else if avgOld < eps then 0
                else (avgNew - avgOld) / avgOld * lit 100);
         capped = (if lit 500 < chg then lit 500 else chg) in
     if capped < lit (- 90) then lit (- 90) else capped)"

definition heuristicForecastFromHistory :: "MetricPoint list \<Rightarrow> int \<Rightarrow> ForecastResult option" where
  "heuristicForecastFromHistory h minPoints =
    (let need = (if minPoints \<le> 0 then defaultForecastMinPoints else minPoints); mid = length h div 2 in
     if int (length h) < need then None
     else Some (zero_ForecastResult\<lparr>fr_PredictedRPS := average (drop mid h),
       fr_ChangePercent := changePercent (average (take mid h)) (average (drop mid h)), fr_Confidence := lit (45 / 100)\<rparr>))"

text \<open>The forecast of the ML service, if there is one; the breaker's state afterwards.\<close>

definition mlForecast ::
  "('w, 'e) opt_deps \<Rightarrow> 'ast OptimizerController \<Rightarrow> string \<Rightarrow> MetricPoint list \<Rightarrow> 'w \<Rightarrow>
   ForecastResult option \<times> 'ast OptimizerController \<times> 'w"
where
  "mlForecast d oc key history w = (case oc_Forecaster oc of
     None \<Rightarrow> (None, oc, w)
   | Some cb \<Rightarrow> (case ForecastDemand (od_http d) (od_mlURL d) key forecastMetricLabel history cb w of
       (r, cb', w') \<Rightarrow> (case r of Inl e \<Rightarrow> None | Inr fc \<Rightarrow> fc, oc\<lparr>oc_Forecaster := Some cb'\<rparr>, w')))"

definition attachForecast ::
  "('w, 'e) opt_deps \<Rightarrow> ServiceObjective \<Rightarrow> SolverInput \<Rightarrow> 'ast OptimizerController \<Rightarrow> 'w \<Rightarrow>
   SolverInput \<times> 'ast OptimizerController \<times> 'w"
where
  "attachForecast d so input oc w =
    (if cvr_Kind (so_TargetRef so) \<noteq> ''Deployment'' then (input, oc, w)
     else case od_Prom d of
       None \<Rightarrow> (input, oc, w)
     | Some prom \<Rightarrow>
       (let minPts = effectiveForecastMinPoints oc; name = cvr_Name (so_TargetRef so) in
        case fetchDemandHistory d prom oc (so_Namespace so) name w of
          (Inl e, w1) \<Rightarrow> (input, oc, w1)
        | (Inr history, w1) \<Rightarrow>
          if int (length history) < minPts then (input, oc, w1)
          else (case mlForecast d oc (so_Namespace so @ ''/'' @ name) history w1 of (ml, oc', w2) \<Rightarrow>
            (input\<lparr>si_Forecast := (case ml of Some fc \<Rightarrow> Some fc | None \<Rightarrow> heuristicForecastFromHistory history minPts)\<rparr>, oc', w2))))"

section \<open>Solver input\<close>

definition parsePercentOrZero :: "string \<Rightarrow> f64" where
  "parsePercentOrZero raw = (let trimmed = TrimSpace (TrimSuffix raw ''%'') in
     if trimmed = [] then 0 else (case ParseFloat trimmed of None \<Rightarrow> 0 | Some v \<Rightarrow> v / lit 100))"

definition parseFloatOrZero :: "string \<Rightarrow> f64" where
  "parseFloatOrZero raw = (case ParseFloat (TrimSpace raw) of None \<Rightarrow> 0 | Some v \<Rightarrow> v)"

definition maxBurn :: "string list \<Rightarrow> (string \<rightharpoonup> string) \<Rightarrow> f64" where
  "maxBurn order burns = foldl (\<lambda>x k. case burns k of
     None \<Rightarrow> x | Some b \<Rightarrow> (let v = parseFloatOrZero b in if x < v then v else x)) 0 order"

definition buildSLOStatus :: "('w, 'e) opt_deps \<Rightarrow> ServiceObjective \<Rightarrow> SLOStatus" where
  "buildSLOStatus d so =
    (let burns = sos_CurrentBurn (so_Status so) in
     zero_SLOStatus\<lparr>ss_Compliant := foldl (\<lambda>b c. if cd_Type c = conditionSLOCompliant then cd_Status c = ConditionTrue else b)
         False (sos_Conditions (so_Status so)),
       ss_BudgetRemaining := parsePercentOrZero (sos_BudgetRemaining (so_Status so)),
       ss_BurnRate := maxBurn (od_burnOrder d burns) burns\<rparr>)"

definition queryScalarOrZero :: "('w, 'e) opt_deps \<Rightarrow> string \<Rightarrow> 'w \<Rightarrow> f64 \<times> 'w" where
  "queryScalarOrZero d q w = (case od_Prom d of
     None \<Rightarrow> (0, w)
   | Some prom \<Rightarrow> (case pq_Query prom q w of (Inl e, w') \<Rightarrow> (0, w') | (Inr v, w') \<Rightarrow> (v, w')))"

definition sumRequests :: "string \<Rightarrow> (Quantity \<Rightarrow> f64) \<Rightarrow> Container list \<Rightarrow> f64" where
  "sumRequests res amount cts =
    foldl (\<lambda>x ct. case ct_Requests ct res of None \<Rightarrow> x | Some q \<Rightarrow> x + amount q) 0 cts"

definition memoryUsageQuery :: "string \<Rightarrow> string \<Rightarrow> string" where
  "memoryUsageQuery ns name = ''sum(container_memory_working_set_bytes'' @ podSelector ns name @ '') / 1073741824''"

definition readCurrentState :: "('w, 'e) opt_deps \<Rightarrow> ServiceObjective \<Rightarrow> 'w \<Rightarrow> (get_error + CurrentState) \<times> 'w" where
  "readCurrentState d so w =
    (let state = zero_CurrentState\<lparr>cs_Replicas := 1\<rparr> in
     if cvr_Kind (so_TargetRef so) \<noteq> ''Deployment'' then (Inr state, w)
     else case od_GetDeployment d (so_Namespace so) (cvr_Name (so_TargetRef so)) w of
       (Inl e, w1) \<Rightarrow> (Inl e, w1)
     | (Inr dep, w1) \<Rightarrow>
       (let replicas = (case dp_Replicas dep of None \<Rightarrow> 1 | Some r \<Rightarrow> if 0 < r then r else 1);
            cpu = sumRequests ''cpu'' (\<lambda>q. of_int64 (od_MilliValue d q) / lit 1000) (dp_Containers dep);
            mem = sumRequests ''memory'' (\<lambda>q. of_int64 (od_Value d q) / lit 1073741824) (dp_Containers dep) in
        case queryScalarOrZero d (deploymentCPURateQuery (so_Namespace so) (dp_Name dep)) w1 of (cpuUsage, w2) \<Rightarrow>
        (case queryScalarOrZero d (memoryUsageQuery (so_Namespace so) (dp_Name dep)) w2 of (memUsage, w3) \<Rightarrow>
          (Inr (state\<lparr>cs_Replicas := replicas, cs_CPURequest := (if feq cpu 0 then lit (1 / 10) else cpu),
             cs_MemoryRequest := (if feq mem 0 then lit (1 / 4) else mem), cs_CPUUsage := cpuUsage, cs_MemoryUsage := memUsage\<rparr>), w3))))"

definition rightSized :: "f64 \<Rightarrow> f64 \<Rightarrow> int \<Rightarrow> f64 \<Rightarrow> f64 option" where
  "rightSized usage request replicas least =
    (if 0 < usage \<and> 0 < replicas then
       (let raw = usage / of_int64 replicas * lit (13 / 10); per = (if raw < least then least else raw) in
        if request * lit (2 / 10) < fabs (per - request) then Some per else None)
     else None)"

definition buildSolverInput ::
  "('w, 'e) opt_deps \<Rightarrow> ServiceObjective \<Rightarrow> 'ast OptimizerController \<Rightarrow> 'w \<Rightarrow> SolverInput \<times> 'ast OptimizerController \<times> 'w"
where
  "buildSolverInput d so oc w =
    (case readCurrentState d so w of (r, w1) \<Rightarrow>
     (let cur = (case r of
            Inl e \<Rightarrow> zero_CurrentState\<lparr>cs_Replicas := 1, cs_CPURequest := lit (1 / 10), cs_MemoryRequest := lit (1 / 4)\<rparr>
          | Inr s \<Rightarrow> s) in
      attachForecast d so
        \<lparr>si_Namespace = so_Namespace so, si_Service = cvr_Name (so_TargetRef so), si_Current = cur, si_SLO = buildSLOStatus d so,
         si_Policies = [], si_Tenant = None, si_Forecast = None,
         si_Metrics = [''cpu_usage'' \<mapsto> cs_CPUUsage cur, ''memory_usage_gib'' \<mapsto> cs_MemoryUsage cur],
         si_Cluster = zero_ClusterState, si_InstanceTypes = [''m5.large''], si_Region = ''us-east-1'',
         si_RightSizedCPU = rightSized (cs_CPUUsage cur) (cs_CPURequest cur) (cs_Replicas cur) (lit (1 / 100)),
         si_RightSizedMemory = rightSized (cs_MemoryUsage cur) (cs_MemoryRequest cur) (cs_Replicas cur) (lit (1 / 32)),
         si_Trigger = ''periodic''\<rparr> oc w1))"

section \<open>Actuation\<close>

definition ruleFor :: "ActionType \<Rightarrow> OptimizationPolicy \<Rightarrow> ScalingRule option" where
  "ruleFor ty p = (case ops_ScalingBehavior (op_Spec p) of
     None \<Rightarrow> None
   | Some sb \<Rightarrow> (case ty of ActionScaleUp \<Rightarrow> sb_ScaleUp sb | ActionScaleDown \<Rightarrow> sb_ScaleDown sb | _ \<Rightarrow> None))"

definition maxChangeOf :: "ScalingRule \<Rightarrow> f64" where
  "maxChangeOf rule = of_int64 (sr_MaxPercent rule) / lit 100"

definition addRule :: "ActuationOptions \<Rightarrow> ScalingRule \<Rightarrow> ActuationOptions" where
  "addRule opts rule =
    opts\<lparr>ao_MaxChange := (if 0 < sr_MaxPercent rule \<and> (feq (ao_MaxChange opts) 0 \<or> maxChangeOf rule < ao_MaxChange opts)
        then maxChangeOf rule else ao_MaxChange opts),
      ao_CooldownSeconds := (if ao_CooldownSeconds opts < sr_CooldownSeconds rule then sr_CooldownSeconds rule else ao_CooldownSeconds opts)\<rparr>"

definition buildActuationOptions :: "ScalingAction \<Rightarrow> OptimizationPolicy list \<Rightarrow> ActuationOptions" where
  "buildActuationOptions action policies =
    foldl (\<lambda>opts p. case ruleFor (sa_Type action) p of None \<Rightarrow> opts | Some rule \<Rightarrow> addRule opts rule)
      \<lparr>ao_DryRun = sa_DryRun action, ao_Canary = False, ao_MaxChange = 0, ao_CooldownSeconds = 0\<rparr> policies"

definition objectiveRef :: "ServiceObjective \<Rightarrow> ServiceRef" where
  "objectiveRef so = \<lparr>ref_Namespace = so_Namespace so, ref_Name = cvr_Name (so_TargetRef so),
     ref_APIVersion = cvr_APIVersion (so_TargetRef so), ref_Kind = cvr_Kind (so_TargetRef so)\<rparr>"

text \<open>The guard's answer; it reads the clock for the cooldown and for the circuit.\<close>

definition guardAllow ::
  "('w, 'e) opt_deps \<Rightarrow> ServiceRef \<Rightarrow> ActuationOptions \<Rightarrow> 'ast OptimizerController \<Rightarrow> 'w \<Rightarrow>
   guard_error option \<times> 'ast OptimizerController \<times> 'w"
where
  "guardAllow d ref opts oc w = (case oc_SafetyGuard oc of
     None \<Rightarrow> (None, oc, w)
   | Some g \<Rightarrow> (case od_now d w of (t1, w1) \<Rightarrow> (case od_now d w1 of (t2, w2) \<Rightarrow>
       (case Allow (od_getNamespace d w) (od_getConfigMap d w) t1 t2 g ref opts of (e, g') \<Rightarrow>
         (e, oc\<lparr>oc_SafetyGuard := Some g'\<rparr>, w2)))))"

definition applyAction ::
  "('w, 'e) opt_deps \<Rightarrow> ('w, 'e) Registry \<Rightarrow> ServiceRef \<Rightarrow> ScalingAction \<Rightarrow> ActuationOptions \<Rightarrow> int \<Rightarrow> 'ast OptimizerController \<Rightarrow> 'w \<Rightarrow>
   (('e canary_error + 'e) + ActuationResult) \<times> 'ast OptimizerController \<times> 'w"
where
  "applyAction d reg ref action opts currentReplicas oc w = (case oc_CanaryCtrl oc of
     Some cc \<Rightarrow>
       (case canaryApply (od_CanaryRegistry d) (od_Checker d) (od_sleep d) ref action opts currentReplicas cc w of (r, cc', w1) \<Rightarrow>
         (map_sum Inl id r, oc\<lparr>oc_CanaryCtrl := Some cc'\<rparr>, w1))
   | None \<Rightarrow> (case registryApply reg ref action opts w of (r, w1) \<Rightarrow> (map_sum Inr id r, oc, w1)))"

definition guardOutcome ::
  "('w, 'e) opt_deps \<Rightarrow> ServiceRef \<Rightarrow> ActuationOutcome \<Rightarrow> 'ast OptimizerController \<Rightarrow> 'w \<Rightarrow> 'ast OptimizerController \<times> 'w"
where
  "guardOutcome d ref outcome oc w = (case oc_SafetyGuard oc of
     None \<Rightarrow> (oc, w)
   | Some g \<Rightarrow> (case od_now d w of (t, w1) \<Rightarrow> (oc\<lparr>oc_SafetyGuard := Some (RecordOutcome t g ref outcome)\<rparr>, w1)))"

definition guardActuation ::
  "('w, 'e) opt_deps \<Rightarrow> ServiceRef \<Rightarrow> 'ast OptimizerController \<Rightarrow> 'w \<Rightarrow> 'ast OptimizerController \<times> 'w"
where
  "guardActuation d ref oc w = (case oc_SafetyGuard oc of
     None \<Rightarrow> (oc, w)
   | Some g \<Rightarrow> (case od_now d w of (t, w1) \<Rightarrow> (oc\<lparr>oc_SafetyGuard := Some (RecordActuation t g ref)\<rparr>, w1)))"

definition actuate ::
  "('w, 'e) opt_deps \<Rightarrow> ('w, 'e) Registry \<Rightarrow> ServiceObjective \<Rightarrow> ScalingAction \<Rightarrow> ActuationOptions \<Rightarrow> int \<Rightarrow>
   'ast OptimizerController \<Rightarrow> 'w \<Rightarrow> 'ast OptimizerController \<times> 'w"
where
  "actuate d reg so action opts currentReplicas oc w =
    (let ref = objectiveRef so in
     case guardAllow d ref opts oc w of
       (Some e, oc1, w1) \<Rightarrow> (oc1, od_Event d so (ActuationBlocked e) w1)
     | (None, oc1, w1) \<Rightarrow>
       (case applyAction d reg ref action opts currentReplicas oc1 w1 of
          (Inl e, oc2, w2) \<Rightarrow> guardOutcome d ref OutcomeDegraded oc2 (od_Event d so (ActuationFailed e) w2)
        | (Inr r, oc2, w2) \<Rightarrow>
          if ar_Applied r then
            (case guardActuation d ref oc2 (od_Event d so (Actuated (sa_Type action) (length (ar_Changes r))) w2) of (oc3, w3) \<Rightarrow>
               guardOutcome d ref OutcomeImproved oc3 w3)
          else (oc2, w2)))"

section \<open>The loop\<close>

definition journalWrite :: "('w, 'e) opt_deps \<Rightarrow> DecisionRecord \<Rightarrow> 'w \<Rightarrow> 'w" where
  "journalWrite d rec w = (case od_Journal d of None \<Rightarrow> w | Some write \<Rightarrow> snd (write rec w))"

definition act ::
  "('w, 'e) opt_deps \<Rightarrow> ServiceObjective \<Rightarrow> OptimizationPolicy list \<Rightarrow> int \<Rightarrow> ScalingAction \<Rightarrow> 'ast OptimizerController \<Rightarrow> 'w \<Rightarrow>
   'ast OptimizerController \<times> 'w"
where
  "act d so policies replicas action oc w =
    (if sa_Type action = ActionNoAction then (oc, w)
     else
       (let w1 = od_Event d so ((if sa_DryRun action then DryRunDecision else OptimizationDecision) (sa_Type action) (sa_Reason action)) w in
        case od_Registry d of
          None \<Rightarrow> (oc, w1)
        | Some reg \<Rightarrow> actuate d reg so action (buildActuationOptions action policies) (wrap32 replicas) oc w1))"

definition matchedPolicy :: "OptimizationPolicy \<Rightarrow> MatchedPolicy" where
  "matchedPolicy p = \<lparr>mp_Policy = p, mp_Key = PolicyKey p\<rparr>"

text \<open>\<open>None\<close> is the panic of \<open>Solve\<close>, which ends the process.\<close>

definition optimizeService ::
  "('w, 'e) opt_deps \<Rightarrow> ServiceObjective \<Rightarrow> 'ast OptimizerController \<Rightarrow> 'w \<Rightarrow> ('ast OptimizerController \<times> 'w) option"
where
  "optimizeService d so oc w =
    (if \<not> serviceObjectiveReadyForOptimization so then Some (oc, w)
     else case buildSolverInput d so oc w of (input, oc1, w1) \<Rightarrow>
       (case FindPoliciesForService (od_Policies d) so w1 of
          (Inl e, w2) \<Rightarrow> Some (oc1, w2)
        | (Inr policies, w2) \<Rightarrow>
          (case od_uuid d w2 of (ident, w3) \<Rightarrow> (case od_now d w3 of (now, w4) \<Rightarrow>
            (case Solve (od_rngPerm d) now ident (oc_Solver oc1) (input\<lparr>si_Policies := map matchedPolicy policies\<rparr>) of
               None \<Rightarrow> None
             | Some (action, rec) \<Rightarrow>
               Some (act d so policies (cs_Replicas (si_Current input)) action oc1 (journalWrite d rec w4)))))))"

fun optimizeAll ::
  "('w, 'e) opt_deps \<Rightarrow> ServiceObjective list \<Rightarrow> 'ast OptimizerController \<Rightarrow> 'w \<Rightarrow> ('ast OptimizerController \<times> 'w) option"
where
  "optimizeAll d [] oc w = Some (oc, w)"
| "optimizeAll d (so # sos) oc w = (case optimizeService d so oc w of
     None \<Rightarrow> None | Some (oc1, w1) \<Rightarrow> optimizeAll d sos oc1 w1)"

definition runOptimizationCycle ::
  "('w, 'e) opt_deps \<Rightarrow> 'ast OptimizerController \<Rightarrow> 'w \<Rightarrow> ('ast OptimizerController \<times> 'w) option"
where
  "runOptimizationCycle d oc w = (case od_ListObjectives d w of
     (Inl e, w1) \<Rightarrow> Some (oc, w1)
   | (Inr sos, w1) \<Rightarrow> optimizeAll d sos oc w1)"

section \<open>Lemmas\<close>

subsection \<open>Options\<close>

definition rulesFor :: "ActionType \<Rightarrow> OptimizationPolicy list \<Rightarrow> ScalingRule list" where
  "rulesFor ty ps = List.map_filter (ruleFor ty) ps"

lemma rulesFor_simps [simp]:
  "rulesFor ty [] = []"
  "rulesFor ty (p # ps) = (case ruleFor ty p of None \<Rightarrow> rulesFor ty ps | Some r \<Rightarrow> r # rulesFor ty ps)"
  by (simp_all add: rulesFor_def List.map_filter_def split: option.split)

lemma in_rulesFor: "r \<in> set (rulesFor ty ps) \<longleftrightarrow> (\<exists>p \<in> set ps. ruleFor ty p = Some r)"
  by (induction ps) (auto split: option.splits)

lemma buildActuationOptions_rules:
  "buildActuationOptions action ps =
    foldl addRule \<lparr>ao_DryRun = sa_DryRun action, ao_Canary = False, ao_MaxChange = 0, ao_CooldownSeconds = 0\<rparr> (rulesFor (sa_Type action) ps)"
proof -
  have "foldl (\<lambda>opts p. case ruleFor ty p of None \<Rightarrow> opts | Some rule \<Rightarrow> addRule opts rule) x ps = foldl addRule x (rulesFor ty ps)" for ty x
    by (induction ps arbitrary: x) (auto split: option.split)
  then show ?thesis by (simp add: buildActuationOptions_def)
qed

lemma addRules_fields:
  "ao_DryRun (foldl addRule x rs) = ao_DryRun x" "ao_Canary (foldl addRule x rs) = ao_Canary x"
  "ao_CooldownSeconds (foldl addRule x rs) = foldl max (ao_CooldownSeconds x) (map sr_CooldownSeconds rs)"
  by (induction rs arbitrary: x) (auto simp: addRule_def max_def)

lemma foldl_max_ge: "(a :: int) \<le> foldl max a xs \<and> (\<forall>x \<in> set xs. x \<le> foldl max a xs)"
proof (induction xs arbitrary: a)
  case (Cons y xs)
  then have "max a y \<le> foldl max (max a y) xs" by blast
  then show ?case using Cons [of "max a y"] by (simp add: max.bounded_iff)
qed simp

lemma foldl_max_in: "foldl max (a :: int) xs \<in> insert a (set xs)"
proof (induction xs arbitrary: a)
  case (Cons y xs)
  then show ?case using Cons [of "max a y"] by (auto simp: max_def split: if_splits)
qed simp

lemma options_fields:
  "ao_DryRun (buildActuationOptions action ps) = sa_DryRun action"
  "ao_Canary (buildActuationOptions action ps) = False"
  "r \<in> set (rulesFor (sa_Type action) ps) \<Longrightarrow> sr_CooldownSeconds r \<le> ao_CooldownSeconds (buildActuationOptions action ps)"
  using foldl_max_ge [of 0 "map sr_CooldownSeconds (rulesFor (sa_Type action) ps)"]
  by (auto simp: buildActuationOptions_rules addRules_fields)

lemma options_cooldown32:
  assumes "\<forall>r \<in> set (rulesFor (sa_Type action) ps). in32 (sr_CooldownSeconds r)"
  shows "in32 (ao_CooldownSeconds (buildActuationOptions action ps))"
  using assms foldl_max_in [of 0 "map sr_CooldownSeconds (rulesFor (sa_Type action) ps)"]
  by (auto simp: buildActuationOptions_rules addRules_fields in32_def)

text \<open>The fraction of a rule is a positive number.\<close>

lemma maxChangeOf_pos:
  assumes "0 < sr_MaxPercent r" and "in32 (sr_MaxPercent r)"
  shows "\<exists>q > 0. maxChangeOf r = Fin q"
proof -
  have a: "of_int64 (sr_MaxPercent r) = Fin (of_int (sr_MaxPercent r))"
    using assms by (auto simp: of_int64_def in32_def intro!: rnd_exact rep_of_int)
  have l: "lit 100 = Fin 100" by (simp add: rnd_exact)
  have "inrange (1 / 128) 4294967296 (rnd (of_int (sr_MaxPercent r) / 100))"
  proof (rule inrange_rnd)
    show "rep (1 / 128)" by (rule rep_dyadic_frac [of _ 7 1]) simp_all
    have "1 \<le> sr_MaxPercent r" "sr_MaxPercent r \<le> 2147483647" using assms by (auto simp: in32_def)
    then have "(1 :: rat) \<le> of_int (sr_MaxPercent r)" "of_int (sr_MaxPercent r) \<le> (2147483647 :: rat)" by linarith+
    then show "1 / 128 \<le> of_int (sr_MaxPercent r) / (100 :: rat)" "of_int (sr_MaxPercent r) / (100 :: rat) \<le> 4294967296" by linarith+
  qed simp
  then show ?thesis by (auto simp: maxChangeOf_def a l inrange_iff)
qed

definition limits :: "ScalingRule list \<Rightarrow> f64 list" where
  "limits rs = map maxChangeOf (filter (\<lambda>r. 0 < sr_MaxPercent r) rs)"

lemma addRules_limit:
  assumes "ao_MaxChange x = 0 \<or> (\<exists>q > 0. ao_MaxChange x = Fin q)" and "\<forall>r \<in> set rs. in32 (sr_MaxPercent r)"
  shows "ao_MaxChange x = 0 \<and> limits rs = [] \<and> ao_MaxChange (foldl addRule x rs) = 0 \<or>
    (\<exists>q > 0. ao_MaxChange (foldl addRule x rs) = Fin q) \<and>
    (ao_MaxChange (foldl addRule x rs) \<in> set (limits rs) \<or> ao_MaxChange x \<noteq> 0 \<and> ao_MaxChange (foldl addRule x rs) = ao_MaxChange x) \<and>
    (\<forall>m \<in> set (limits rs). ao_MaxChange (foldl addRule x rs) \<le> m) \<and>
    (ao_MaxChange x = 0 \<or> ao_MaxChange (foldl addRule x rs) \<le> ao_MaxChange x)"
  using assms
proof (induction rs arbitrary: x)
  case Nil
  then show ?case by (auto simp: limits_def zero_Fin)
next
  case (Cons r rs)
  let ?x = "addRule x r"
  show ?case
  proof (cases "0 < sr_MaxPercent r")
    case False
    then have "ao_MaxChange ?x = ao_MaxChange x" "limits (r # rs) = limits rs" by (simp_all add: addRule_def limits_def)
    then show ?thesis using Cons.IH [of ?x] Cons.prems by simp
  next
    case True
    then obtain q where q: "0 < q" "maxChangeOf r = Fin q" using maxChangeOf_pos Cons.prems by auto
    have x: "\<exists>y > 0. ao_MaxChange ?x = Fin y" "ao_MaxChange ?x \<noteq> 0" "ao_MaxChange ?x \<le> Fin q"
      "ao_MaxChange x = 0 \<or> ao_MaxChange ?x \<le> ao_MaxChange x" "ao_MaxChange ?x \<in> {Fin q, ao_MaxChange x}"
      "ao_MaxChange x = 0 \<Longrightarrow> ao_MaxChange ?x = Fin q"
      using True q Cons.prems(1) by (auto simp: addRule_def zero_Fin)
    have l: "limits (r # rs) = Fin q # limits rs" using True q by (simp add: limits_def)
    have "ao_MaxChange ?x = 0 \<or> (\<exists>q > 0. ao_MaxChange ?x = Fin q)" using x(1) by blast
    note ih = Cons.IH [OF this]
    let ?y = "ao_MaxChange (foldl addRule x (r # rs))"
    have y: "(\<exists>q > 0. ?y = Fin q)" "?y \<in> set (limits rs) \<or> ?y = ao_MaxChange ?x" "\<forall>m \<in> set (limits rs). ?y \<le> m" "?y \<le> ao_MaxChange ?x"
      using ih Cons.prems(2) x(2) by auto
    then have "?y \<le> Fin q" "ao_MaxChange x = 0 \<or> ?y \<le> ao_MaxChange x" using x(3,4) f64_le_trans by blast+
    moreover have "?y \<in> set (limits (r # rs)) \<or> ao_MaxChange x \<noteq> 0 \<and> ?y = ao_MaxChange x" using y(2) x(5,6) l by auto
    ultimately show ?thesis using y l by auto
  qed
qed

subsection \<open>The heuristic forecast\<close>

lemma inrange_average:
  assumes "\<forall>p \<in> set h. inrange 0 (2 ^ k) (mpt_Y p)" and "h \<noteq> []" and "length h \<le> 2 ^ 20" and "k \<le> 900"
  shows "inrange 0 (2 ^ (k + 20)) (average h)"
proof -
  have s: "inrange 0 (2 ^ (k + 20)) (foldl (\<lambda>s p. s + mpt_Y p) 0 h)" using assms by (intro sum_nonneg_ge) auto
  have n: "1 \<le> length h" "length h \<le> 2 ^ 20" using assms by (cases h; simp)+
  have r: "rep (of_nat (length h))" using rep_of_int [of "int (length h)"] n(2) by simp
  have "of_int64 (int (length h)) = Fin (of_nat (length h))" using r by (simp add: of_int64_def rnd_exact)
  then have c: "inrange 1 (of_nat (length h)) (of_int64 (int (length h)))" using n r by simp
  have "rep (2 ^ (k + 20))" using assms(4) by (intro rep_dyadic [of _ 1 "int (k + 20)"]) (simp_all add: pow2_nat nat_add_distrib)
  then show ?thesis unfolding average_def by (rule inrange_div_ge1 [OF s c])
qed

lemma clamp_range:
  assumes "x \<noteq> NaN" and "ok64 x"
  shows "inrange (- 90) 500 (let capped = (if lit 500 < x then lit 500 else x) in if capped < lit (- 90) then lit (- 90) else capped)"
proof -
  have l: "lit 500 = Fin 500" "lit (- 90) = Fin (- 90)" by (simp_all add: rnd_exact)
  show ?thesis using assms by (cases x) (auto simp: l Let_def)
qed

lemma changePercent_range:
  assumes "inrange 0 b x" and "inrange 0 b y"
  shows "inrange (- 90) 500 (changePercent x y)"
proof -
  let ?eps = "lit (1 / 1000000000)"
  have e: "inrange (1 / 2 ^ 40) 1 ?eps" by (rule inrange_rnd) (auto intro: rep_dyadic_frac [of _ 40 1])
  then obtain c where c: "?eps = Fin c" "0 < c" by (auto simp: inrange_iff)
  obtain q r where q: "x = Fin q" "y = Fin r" using assms by (auto simp: inrange_iff)
  have h: "lit 100 = Fin 100" by (simp add: rnd_exact)
  let ?chg = "if x < ?eps \<and> ?eps < y then lit 100 else if x < ?eps then 0 else (y - x) / x * lit 100"
  have "?chg \<noteq> NaN \<and> ok64 ?chg"
  proof (cases "x < ?eps")
    case True
    then show ?thesis by (auto simp: h zero_Fin)
  next
    case False
    then have "0 < q" using c q by auto
    then show ?thesis using False q by (cases "y - x"; cases "(y - x) / x") (auto simp: h minus_f64_def rnd_rep dest: rnd_rep)
  qed
  then show ?thesis using clamp_range [of ?chg] by (simp add: changePercent_def Let_def)
qed

section \<open>Properties\<close>

text \<open>The options of an actuation are the strictest of the matched policies: the cooldown is the largest of the
  rules for the direction of the action, or 0; the limit on the change is the smallest of their positive limits,
  or absent when there is none; dry run is the action's, and a canary is never asked for.\<close>
theorem options_strictest:
  assumes "\<forall>r \<in> set (rulesFor (sa_Type action) ps). in32 (sr_MaxPercent r)"
  shows "let opts = buildActuationOptions action ps; rs = rulesFor (sa_Type action) ps in
    ao_DryRun opts = sa_DryRun action \<and> \<not> ao_Canary opts \<and>
    ao_CooldownSeconds opts = Max (insert 0 (sr_CooldownSeconds ` set rs)) \<and>
    (if limits rs = [] then ao_MaxChange opts = 0
     else 0 < ao_MaxChange opts \<and> ao_MaxChange opts \<in> set (limits rs) \<and> list_all (\<lambda>m. ao_MaxChange opts \<le> m) (limits rs))"
proof -
  let ?rs = "rulesFor (sa_Type action) ps"
  have "foldl max 0 (map sr_CooldownSeconds ?rs) = Max (insert 0 (sr_CooldownSeconds ` set ?rs))"
    using foldl_max_ge [of 0 "map sr_CooldownSeconds ?rs"] foldl_max_in [of 0 "map sr_CooldownSeconds ?rs"]
    by (intro Max_eqI [symmetric]) auto
  moreover note addRules_limit [OF _ assms, of "\<lparr>ao_DryRun = sa_DryRun action, ao_Canary = False, ao_MaxChange = 0, ao_CooldownSeconds = 0\<rparr>"]
  ultimately show ?thesis
    by (auto simp: buildActuationOptions_rules addRules_fields Let_def list_all_iff zero_Fin)
qed

definition demo_scaling :: "int \<Rightarrow> int \<Rightarrow> OptimizationPolicy" where
  "demo_scaling most cool = (demo_pol ''p'' 1 None)\<lparr>op_Spec := (op_Spec (demo_pol ''p'' 1 None))
    \<lparr>ops_ScalingBehavior := Some \<lparr>sb_ScaleUp = Some \<lparr>sr_MaxPercent = most, sr_CooldownSeconds = cool\<rparr>, sb_ScaleDown = None\<rparr>\<rparr>\<rparr>"

lemma options_strictest_witness:
  "ao_CooldownSeconds (buildActuationOptions demo_action [demo_scaling 50 60, demo_scaling 25 30]) = 60 \<and>
   ao_MaxChange (buildActuationOptions demo_action [demo_scaling 50 60, demo_scaling 25 30]) \<le> lit (25 / 100)"
proof -
  have r: "rulesFor (sa_Type demo_action) [demo_scaling 50 60, demo_scaling 25 30] =
      [\<lparr>sr_MaxPercent = 50, sr_CooldownSeconds = 60\<rparr>, \<lparr>sr_MaxPercent = 25, sr_CooldownSeconds = 30\<rparr>]" by code_simp
  have "maxChangeOf \<lparr>sr_MaxPercent = 25, sr_CooldownSeconds = 30\<rparr> = lit (25 / 100)" by code_simp
  then show ?thesis
    using options_strictest [of demo_action "[demo_scaling 50 60, demo_scaling 25 30]", unfolded r Let_def]
    by (simp add: limits_def in32_def)
qed

text \<open>The trend heuristic answers exactly when there are enough points. On at least two finite nonnegative
  points its change is a number between -90 and 500 percent, whatever the history, all-zero halves and overflow
  of the quotient included.\<close>
theorem heuristic_bounds:
  assumes "2 \<le> length h" and "length h \<le> 2 ^ 20" and "k \<le> 900" and "\<forall>p \<in> set h. inrange 0 (2 ^ k) (mpt_Y p)"
  shows "case heuristicForecastFromHistory h n of
      None \<Rightarrow> int (length h) < (if n \<le> 0 then 6 else n)
    | Some f \<Rightarrow> (if n \<le> 0 then 6 else n) \<le> int (length h) \<and>
        inrange (- 90) 500 (fr_ChangePercent f) \<and> inrange 0 (2 ^ (k + 20)) (fr_PredictedRPS f)"
proof -
  have "inrange 0 (2 ^ (k + 20)) (average (take (length h div 2) h))" "inrange 0 (2 ^ (k + 20)) (average (drop (length h div 2) h))"
    using assms by (auto intro!: inrange_average dest: in_set_takeD in_set_dropD simp: take_eq_Nil drop_eq_Nil)
  then show ?thesis
    using changePercent_range by (auto simp: heuristicForecastFromHistory_def Let_def defaultForecastMinPoints_def zero_ForecastResult_def)
qed

definition demo_history :: "MetricPoint list" where
  "demo_history = map (\<lambda>y. \<lparr>mpt_DS = [], mpt_Y = Fin y\<rparr>) [0, 1, 2, 8]"

lemma heuristic_bounds_witness:
  "case heuristicForecastFromHistory demo_history 4 of None \<Rightarrow> False | Some f \<Rightarrow> inrange (- 90) 500 (fr_ChangePercent f)"
proof -
  have "inrange 0 (2 ^ 3) (mpt_Y p)" if "p \<in> set demo_history" for p
    using that by (auto simp: demo_history_def)
  then show ?thesis
    using heuristic_bounds [of demo_history 3 4] by (auto simp: demo_history_def split: option.splits)
qed

end
