(* ===== verification/Optimizer_Safety.thy ===== *)
theory Optimizer_Safety
  imports Optimizer
begin

text \<open>
  What one round of the optimization loop guarantees end to end, from the policies over the solver and the options
  to the guard and the actuator: the cooldown of every matched policy is kept between actuations, and a dry-run
  policy keeps the workload unchanged.
\<close>

section \<open>A relation kept by the calls of a round\<close>

text \<open>The calls a round makes, the registries apart, stay within a reflexive and transitive relation of worlds: that
  the clock does not go back, or that Deployments are not touched.\<close>

definition calls_within :: "('w \<Rightarrow> 'w \<Rightarrow> bool) \<Rightarrow> ('w, 'e) opt_deps \<Rightarrow> bool" where
  "calls_within R d = (reflp R \<and> transp R \<and>
    (\<forall>w. R w (snd (od_now d w))) \<and> (\<forall>w. R w (snd (od_uuid d w))) \<and> (\<forall>so e w. R w (od_Event d so e w)) \<and>
    (\<forall>ns n w. R w (snd (od_GetDeployment d ns n w))) \<and>
    (\<forall>f rec w. od_Journal d = Some f \<longrightarrow> R w (snd (f rec w))) \<and>
    (\<forall>p q w. od_Prom d = Some p \<longrightarrow> R w (snd (pq_Query p q w))) \<and>
    (\<forall>p q a b s w. od_Prom d = Some p \<longrightarrow> R w (snd (pq_QueryRange p q a b s w))) \<and>
    (\<forall>ns w. R w (snd (pd_ListPolicies (od_Policies d) ns w))) \<and>
    (\<forall>m u b w. R w (snd (hd_Do (od_http d) m u b w))) \<and> (\<forall>t w. R w (hd_sleep (od_http d) t w)) \<and>
    (\<forall>w. R w (snd (hd_now (od_http d) w))))"

lemma within_refl: "calls_within R d \<Longrightarrow> R w w"
  by (simp add: calls_within_def reflpD)

lemma within_trans:
  assumes "calls_within R d"
  shows "R a b \<Longrightarrow> R b c \<Longrightarrow> R a c"
  by (rule transpD [OF assms [unfolded calls_within_def, THEN conjunct2, THEN conjunct1]])

text \<open>The laws of \<^const>\<open>calls_within\<close> for a call with a known result.\<close>

lemma within_calls:
  assumes "calls_within R d"
  shows "od_now d w = (t, w') \<Longrightarrow> R w w'" "od_uuid d w = (ident, w') \<Longrightarrow> R w w'" "R w (od_Event d so e w)"
    "od_GetDeployment d ns n w = (dep, w') \<Longrightarrow> R w w'" "od_Journal d = Some f \<Longrightarrow> R w (snd (f rec w))"
    "od_Prom d = Some p \<Longrightarrow> pq_Query p q w = (v, w') \<Longrightarrow> R w w'"
    "od_Prom d = Some p \<Longrightarrow> pq_QueryRange p q a b s w = (vs, w') \<Longrightarrow> R w w'"
    "pd_ListPolicies (od_Policies d) ns w = (ps, w') \<Longrightarrow> R w w'"
    "hd_Do (od_http d) m u body w = (resp, w') \<Longrightarrow> R w w'" "R w (hd_sleep (od_http d) dur w)"
    "hd_now (od_http d) w = (t, w') \<Longrightarrow> R w w'"
  using assms unfolding calls_within_def by (metis snd_conv)+

lemma doRequest_within:
  assumes "calls_within R d" and "doRequest (od_http d) url m path body w = (r, w')"
  shows "R w w'"
  using assms(2) within_refl [OF assms(1)] within_calls(9) [OF assms(1)]
  by (auto simp: doRequest_def split: sum.splits option.splits prod.splits if_splits)

lemma retryLoop_within:
  assumes "calls_within R d" and "retryLoop (od_http d) n again url m path body err w = (r, w')"
  shows "R w w'"
  using assms(2)
proof (induction n arbitrary: again err w)
  case 0
  then show ?case using within_refl [OF assms(1)] by simp
next
  case (Suc n)
  let ?w = "if again then hd_sleep (od_http d) retryBackoff w else w"
  obtain x w2 where x: "doRequest (od_http d) url m path body ?w = (x, w2)" by fastforce
  have "R w ?w" using within_refl [OF assms(1)] within_calls(10) [OF assms(1)] by simp
  then have "R w w2" using doRequest_within [OF assms(1) x] within_trans [OF assms(1)] by blast
  moreover have "R w2 w'" using Suc.prems Suc.IH x within_refl [OF assms(1)]
    by (auto simp: Let_def split: sum.splits if_splits)
  ultimately show ?case using within_trans [OF assms(1)] by blast
qed

lemma ForecastDemand_within:
  assumes "calls_within R d" and "ForecastDemand (od_http d) url key metric history cb w = (r, cb', w')"
  shows "R w w'"
proof -
  obtain t w0 where t: "hd_now (od_http d) w = (t, w0)" by fastforce
  note R = within_calls(11) [OF assms(1)] and trans = within_trans [OF assms(1)]
  have "R w0 w'"
  proof (cases "fst (isOpen t cb)")
    case True
    then show ?thesis using assms(2) t within_refl [OF assms(1)] by (cases "isOpen t cb") (auto simp: ForecastDemand_def)
  next
    case False
    let ?body = "\<lparr>fq_Service = key, fq_Metric = metric, fq_History = history, fq_HorizonsMinutes = [15, 60, 360]\<rparr>"
    obtain x w1 where x: "doWithRetry (od_http d) url ''POST'' ''/v1/forecast'' ?body w0 = (x, w1)" by fastforce
    have "R w0 w1" using x retryLoop_within [OF assms(1)] by (simp add: doWithRetry_def)
    moreover have "R w1 w'"
      using False assms(2) t x R within_refl [OF assms(1)]
      by (cases "isOpen t cb"; cases x) (auto simp: ForecastDemand_def split: prod.splits)
    ultimately show ?thesis by (rule trans)
  qed
  then show ?thesis using R [OF t] trans by blast
qed

section \<open>The input of a round\<close>

lemma queryScalarOrZero_within:
  assumes "calls_within R d" and "queryScalarOrZero d q w = (v, w')"
  shows "R w w'"
  using assms(2) within_refl [OF assms(1)] within_calls(6) [OF assms(1)]
  by (auto simp: queryScalarOrZero_def split: option.splits prod.splits sum.splits)

lemma readCurrentState_within:
  assumes "calls_within R d" and "readCurrentState d so w = (r, w')"
  shows "R w w'"
proof (cases "cvr_Kind (so_TargetRef so) = ''Deployment''")
  case False
  then show ?thesis using assms(2) within_refl [OF assms(1)] by (auto simp: readCurrentState_def)
next
  case True
  obtain g w1 where g: "od_GetDeployment d (so_Namespace so) (cvr_Name (so_TargetRef so)) w = (g, w1)" by fastforce
  have 1: "R w w1" using within_calls(4) [OF assms(1) g] .
  show ?thesis
  proof (cases g)
    case (Inl e)
    then show ?thesis using assms(2) True g 1 by (auto simp: readCurrentState_def)
  next
    case (Inr dep)
    obtain v w2 where v: "queryScalarOrZero d (deploymentCPURateQuery (so_Namespace so) (dp_Name dep)) w1 = (v, w2)" by fastforce
    obtain u w3 where u: "queryScalarOrZero d (memoryUsageQuery (so_Namespace so) (dp_Name dep)) w2 = (u, w3)" by fastforce
    have "w' = w3" using assms(2) True g Inr v u by (auto simp: readCurrentState_def Let_def)
    then show ?thesis
      using 1 queryScalarOrZero_within [OF assms(1) v] queryScalarOrZero_within [OF assms(1) u] within_trans [OF assms(1)] by blast
  qed
qed

lemma fetchDemandHistory_within:
  assumes "calls_within R d" and "od_Prom d = Some prom" and "fetchDemandHistory d prom oc ns name w = (r, w')"
  shows "R w w'"
proof -
  obtain t w1 where t: "od_now d w = (t, w1)" by fastforce
  have "R w1 w'"
    using assms(3) t within_calls(7) [OF assms(1,2)]
    by (auto simp: fetchDemandHistory_def split: prod.splits sum.splits range_error.splits)
  then show ?thesis using within_calls(1) [OF assms(1) t] within_trans [OF assms(1)] by blast
qed

text \<open>Forecasting changes the ML client's breaker only, and of the input the forecast only.\<close>

definition same_but_breaker :: "'ast OptimizerController \<Rightarrow> 'ast OptimizerController \<Rightarrow> bool" where
  "same_but_breaker oc oc' = (\<exists>cb. oc' = oc\<lparr>oc_Forecaster := cb\<rparr>)"

lemma same_but_breaker_refl [simp]: "same_but_breaker oc oc"
  unfolding same_but_breaker_def by (rule exI [of _ "oc_Forecaster oc"]) simp

lemma same_but_breakerD:
  "same_but_breaker oc oc' \<Longrightarrow> oc_SafetyGuard oc' = oc_SafetyGuard oc \<and> oc_CanaryCtrl oc' = oc_CanaryCtrl oc \<and> oc_Solver oc' = oc_Solver oc"
  by (auto simp: same_but_breaker_def)

lemma mlForecast_within:
  assumes "calls_within R d" and "mlForecast d oc key h w = (r, oc', w')"
  shows "R w w' \<and> same_but_breaker oc oc'"
proof (cases "oc_Forecaster oc")
  case None
  then show ?thesis using assms(2) within_refl [OF assms(1)] by (simp add: mlForecast_def)
next
  case (Some cb)
  obtain x cb' w1 where x: "ForecastDemand (od_http d) (od_mlURL d) key forecastMetricLabel h cb w = (x, cb', w1)" by (metis prod_cases3)
  then show ?thesis
    using assms(2) Some ForecastDemand_within [OF assms(1) x] by (auto simp: mlForecast_def same_but_breaker_def)
qed

lemma attachForecast_within:
  assumes "calls_within R d" and "attachForecast d so i oc w = (i', oc', w')"
  shows "R w w' \<and> same_but_breaker oc oc' \<and> (\<exists>f. i' = i\<lparr>si_Forecast := f\<rparr>)"
proof -
  have same: "\<exists>f. i = i\<lparr>si_Forecast := f\<rparr>" by (rule exI [of _ "si_Forecast i"]) simp
  show ?thesis
  proof (cases "cvr_Kind (so_TargetRef so) = ''Deployment'' \<and> od_Prom d \<noteq> None")
    case False
    then show ?thesis using assms(2) same within_refl [OF assms(1)] by (auto simp: attachForecast_def split: option.splits)
  next
    case dep: True
    then obtain prom where p: "od_Prom d = Some prom" by auto
    obtain h w1 where h: "fetchDemandHistory d prom oc (so_Namespace so) (cvr_Name (so_TargetRef so)) w = (h, w1)" by fastforce
    note 1 = fetchDemandHistory_within [OF assms(1) p h]
    show ?thesis
    proof (cases "\<exists>xs. h = Inr xs \<and> effectiveForecastMinPoints oc \<le> int (length xs)")
      case False
      then show ?thesis using assms(2) dep p h 1 same by (cases h) (auto simp: attachForecast_def Let_def)
    next
      case True
      then obtain xs where xs: "h = Inr xs" "effectiveForecastMinPoints oc \<le> int (length xs)" by blast
      obtain ml oc2 w2 where ml: "mlForecast d oc (so_Namespace so @ ''/'' @ cvr_Name (so_TargetRef so)) xs w1 = (ml, oc2, w2)"
        by (metis prod_cases3)
      have "oc' = oc2" "w' = w2" "\<exists>f. i' = i\<lparr>si_Forecast := f\<rparr>"
        using assms(2) dep p h xs ml by (auto simp: attachForecast_def Let_def)
      then show ?thesis using mlForecast_within [OF assms(1) ml] 1 within_trans [OF assms(1)] by blast
    qed
  qed
qed

lemma buildSolverInput_within:
  assumes "calls_within R d" and "buildSolverInput d so oc w = (i, oc', w')"
  shows "R w w' \<and> same_but_breaker oc oc'"
proof -
  obtain r w1 where r: "readCurrentState d so w = (r, w1)" by fastforce
  then show ?thesis
    using assms(2) readCurrentState_within [OF assms(1) r] attachForecast_within [OF assms(1)] within_trans [OF assms(1)]
    unfolding buildSolverInput_def Let_def r prod.case by blast
qed

section \<open>Actuation\<close>

definition registry_within :: "('w \<Rightarrow> 'w \<Rightarrow> bool) \<Rightarrow> ('w, 'e) Registry \<Rightarrow> bool" where
  "registry_within R reg = (\<forall>a \<in> set reg. \<forall>ref action opts w. R w (snd (act_Apply a ref action opts w)))"

lemma registryApply_within:
  assumes "reflp R" and "registry_within R reg"
  shows "R w (snd (registryApply reg ref action opts w))"
  using assms(2) by (induction reg) (auto simp: registry_within_def registryApply.simps reflpD [OF assms(1)])

text \<open>Without a canary both ways to apply an action are one call of a registry.\<close>

lemma applyAction_cases:
  assumes "\<not> ao_Canary opts" and "applyAction d reg ref action opts n oc w = (r, oc', w')"
  obtains (direct) x where "oc_CanaryCtrl oc = None" and "registryApply reg ref action opts w = (x, w')"
      and "r = map_sum Inr id x" and "oc' = oc"
  | (canary) x cc where "registryApply (od_CanaryRegistry d) ref action opts w = (x, w')"
      and "\<And>y. r = Inr y \<Longrightarrow> x = Inr y" and "oc' = oc\<lparr>oc_CanaryCtrl := Some cc\<rparr>"
proof (cases "oc_CanaryCtrl oc")
  case None
  obtain x w1 where x: "registryApply reg ref action opts w = (x, w1)" by fastforce
  then show ?thesis using that(1) None assms(2) by (auto simp: applyAction_def)
next
  case (Some cc)
  obtain x w1 where x: "registryApply (od_CanaryRegistry d) ref action opts w = (x, w1)" by fastforce
  show ?thesis
  proof (cases x)
    case (Inl e)
    then show ?thesis using that(2) [of x cc] x Some assms by (auto simp: applyAction_def canaryApply_def)
  next
    case (Inr y)
    then show ?thesis using that(2) [of x] x Some assms by (auto simp: applyAction_def canaryApply_def)
  qed
qed

lemma applyAction_within:
  assumes "\<not> ao_Canary opts" and "reflp R" and "registry_within R reg" and "registry_within R (od_CanaryRegistry d)"
    and "applyAction d reg ref action opts n oc w = (r, oc', w')"
  shows "R w w' \<and> oc_SafetyGuard oc' = oc_SafetyGuard oc"
  using assms(1,5)
proof (cases rule: applyAction_cases)
  case (direct x)
  then show ?thesis using registryApply_within [OF assms(2,3)] by (metis snd_conv)
next
  case (canary x cc)
  then show ?thesis using registryApply_within [OF assms(2,4), of w ref action opts] by simp
qed

text \<open>The clock, with \<open>clock\<close> the time of a world: a reading lies between the time before and after the call.\<close>

abbreviation no_earlier :: "('w \<Rightarrow> gotime) \<Rightarrow> 'w \<Rightarrow> 'w \<Rightarrow> bool" where
  "no_earlier clock w w' \<equiv> clock w \<le> clock w'"

definition clock_ok :: "('w, 'e) opt_deps \<Rightarrow> ('w \<Rightarrow> gotime) \<Rightarrow> bool" where
  "clock_ok d clock = (calls_within (no_earlier clock) d \<and> registry_within (no_earlier clock) (od_CanaryRegistry d) \<and>
    (\<forall>reg. od_Registry d = Some reg \<longrightarrow> registry_within (no_earlier clock) reg) \<and>
    (\<forall>w. clock w \<le> fst (od_now d w) \<and> fst (od_now d w) \<le> clock (snd (od_now d w))))"

lemma clock_now: "clock_ok d clock \<Longrightarrow> od_now d w = (t, w') \<Longrightarrow> clock w \<le> t \<and> t \<le> clock w'"
  unfolding clock_ok_def by (metis fst_conv snd_conv)

lemma guardOutcome_cooldowns:
  "guardOutcome d ref oc x w = (x', w') \<Longrightarrow> map_option sg_cooldowns (oc_SafetyGuard x') = map_option sg_cooldowns (oc_SafetyGuard x)"
  by (auto simp: guardOutcome_def RecordOutcome_def Let_def split: option.splits prod.splits)

text \<open>The recorded actuations after a step: as before, or the service is recorded at a time after its cooldown.\<close>

definition cooldown_kept :: "string \<Rightarrow> int \<Rightarrow> (string \<rightharpoonup> cooldownEntry) \<Rightarrow> (string \<rightharpoonup> cooldownEntry) \<Rightarrow> bool" where
  "cooldown_kept key secs m m' \<longleftrightarrow> m' = m \<or> (\<exists>t. m' = m(key \<mapsto> \<lparr>lastActuated = t\<rparr>) \<and>
    (\<forall>e. m key = Some e \<longrightarrow> 0 < secs \<longrightarrow> lastActuated e + secs * second \<le> t))"

lemma actuate_cooldown:
  assumes "clock_ok d clock" and "od_Registry d = Some reg" and "\<not> ao_Canary opts" and "in32 (ao_CooldownSeconds opts)"
    and "oc_SafetyGuard oc = Some g" and "actuate d reg so action opts n oc w = (oc', w')"
  shows "\<exists>g'. oc_SafetyGuard oc' = Some g' \<and> cooldown_kept (serviceKey (objectiveRef so)) (ao_CooldownSeconds opts) (sg_cooldowns g) (sg_cooldowns g')"
proof -
  let ?ref = "objectiveRef so"
  obtain t1 w1 where t1: "od_now d w = (t1, w1)" by fastforce
  obtain t2 w2 where t2: "od_now d w1 = (t2, w2)" by fastforce
  obtain e g1 where a: "Allow (od_getNamespace d w) (od_getConfigMap d w) t1 t2 g ?ref opts = (e, g1)" by fastforce
  let ?oc1 = "oc\<lparr>oc_SafetyGuard := Some g1\<rparr>"
  have ga: "guardAllow d ?ref opts oc w = (e, ?oc1, w2)" using assms(5) t1 t2 a by (simp add: guardAllow_def)
  have g1: "sg_cooldowns g1 = sg_cooldowns g"
    using Allow_cooldowns [of "od_getNamespace d w" "od_getConfigMap d w" t1 t2 g ?ref opts] a by simp
  show ?thesis
  proof (cases e)
    case (Some x)
    then show ?thesis using assms(6) ga g1 by (auto simp: actuate_def Let_def cooldown_kept_def)
  next
    case None
    obtain r oc2 w3 where ap: "applyAction d reg ?ref action opts n ?oc1 w2 = (r, oc2, w3)" by (metis prod_cases3)
    have wi: "calls_within (no_earlier clock) d" and rw: "registry_within (no_earlier clock) reg" "registry_within (no_earlier clock) (od_CanaryRegistry d)"
      using assms(1,2) by (auto simp: clock_ok_def)
    have 2: "clock w2 \<le> clock w3" "oc_SafetyGuard oc2 = Some g1"
      using applyAction_within [OF assms(3) _ rw ap] wi by (auto simp: calls_within_def)
    show ?thesis
    proof (cases "\<exists>x. r = Inr x \<and> ar_Applied x")
      case False
      then show ?thesis
        using assms(6) ga ap None 2(2) g1 guardOutcome_cooldowns [of d ?ref OutcomeDegraded oc2]
        by (cases r) (fastforce simp: actuate_def Let_def cooldown_kept_def)+
    next
      case True
      then obtain x where x: "r = Inr x" "ar_Applied x" by blast
      let ?w = "od_Event d so (Actuated (sa_Type action) (length (ar_Changes x))) w3"
      obtain t w4 where t: "od_now d ?w = (t, w4)" by fastforce
      have "t1 \<le> t"
        using clock_now [OF assms(1) t1] clock_now [OF assms(1) t2] 2(1) within_calls(3) [OF wi] clock_now [OF assms(1) t] by (meson order_trans)
      moreover have "0 < ao_CooldownSeconds opts \<longrightarrow> (\<forall>e. sg_cooldowns g (serviceKey ?ref) = Some e \<longrightarrow>
          ao_CooldownSeconds opts * 1000000000 \<le> t1 - lastActuated e)"
        using Allow_None(1) [of "od_getNamespace d w" "od_getConfigMap d w" t1 t2 g ?ref opts g1] a None
          CheckCooldown_None [OF assms(4), of t1 g ?ref] by auto
      ultimately have k: "cooldown_kept (serviceKey ?ref) (ao_CooldownSeconds opts) (sg_cooldowns g) (sg_cooldowns (RecordActuation t g1 ?ref))"
        unfolding cooldown_kept_def by (intro disjI2 exI [of _ t]) (auto simp: RecordActuation_def g1)
      have "guardOutcome d ?ref OutcomeImproved (oc2\<lparr>oc_SafetyGuard := Some (RecordActuation t g1 ?ref)\<rparr>) w4 = (oc', w')"
        using assms(6) ga ap None x 2(2) t by (simp add: actuate_def Let_def guardActuation_def)
      from guardOutcome_cooldowns [OF this] show ?thesis using k by fastforce
    qed
  qed
qed

section \<open>A round\<close>

text \<open>A round ends without a decision, or acts on the decision of the solver for the policies it found.\<close>

definition decided ::
  "('w, 'e) opt_deps \<Rightarrow> ServiceObjective \<Rightarrow> 'ast Solver \<Rightarrow> OptimizationPolicy list \<Rightarrow> ScalingAction \<Rightarrow> bool"
where
  "decided d so s policies action = (\<exists>v v' now ident input rec. FindPoliciesForService (od_Policies d) so v = (Inr policies, v') \<and>
     Solve (od_rngPerm d) now ident s (input\<lparr>si_Policies := map matchedPolicy policies\<rparr>) = Some (action, rec))"

lemma optimizeService_cases:
  assumes "calls_within R d" and "optimizeService d so oc w = Some (oc', w')"
  obtains (idle) "same_but_breaker oc oc'" and "R w w'"
  | (acted) policies action oc1 w1 n where "decided d so (oc_Solver oc) policies action" and "same_but_breaker oc oc1"
      and "R w w1" and "act d so policies n action oc1 w1 = (oc', w')"
proof (cases "serviceObjectiveReadyForOptimization so")
  case False
  then show ?thesis using that(1) assms(2) within_refl [OF assms(1)] by (simp add: optimizeService_def)
next
  case True
  note trans = within_trans [OF assms(1)]
  obtain i oc1 w1 where b: "buildSolverInput d so oc w = (i, oc1, w1)" by (metis prod_cases3)
  note 1 = buildSolverInput_within [OF assms(1) b]
  obtain ps w2 where f: "FindPoliciesForService (od_Policies d) so w1 = (ps, w2)" by fastforce
  have 2: "R w1 w2" using f within_calls(8) [OF assms(1)] by (auto simp: FindPoliciesForService_def split: prod.splits sum.splits)
  show ?thesis
  proof (cases ps)
    case (Inl e)
    then show ?thesis using that(1) assms(2) True b f 1 2 trans by (auto simp: optimizeService_def)
  next
    case (Inr policies)
    obtain ident w3 where u: "od_uuid d w2 = (ident, w3)" by fastforce
    obtain now w4 where n: "od_now d w3 = (now, w4)" by fastforce
    let ?S = "Solve (od_rngPerm d) now ident (oc_Solver oc1) (i\<lparr>si_Policies := map matchedPolicy policies\<rparr>)"
    have e: "optimizeService d so oc w = (case ?S of None \<Rightarrow> None | Some (action, rec) \<Rightarrow>
        Some (act d so policies (cs_Replicas (si_Current i)) action oc1 (journalWrite d rec w4)))"
      by (simp only: optimizeService_def True b f Inr u n prod.case sum.case not_True_eq_False if_False)
    then obtain action rec where s: "?S = Some (action, rec)" using assms(2) by (cases ?S) auto
    have j: "R w4 (journalWrite d rec w4)"
      using within_refl [OF assms(1)] within_calls(5) [OF assms(1)] by (auto simp: journalWrite_def split: option.split)
    have "R w (journalWrite d rec w4)"
      using 1 2 within_calls(2) [OF assms(1) u] within_calls(1) [OF assms(1) n] j trans by blast
    moreover have "decided d so (oc_Solver oc) policies action"
    proof -
      have "oc_Solver oc1 = oc_Solver oc" using same_but_breakerD 1 by blast
      then show ?thesis unfolding decided_def using f Inr s by (intro exI) auto
    qed
    moreover have "act d so policies (cs_Replicas (si_Current i)) action oc1 (journalWrite d rec w4) = (oc', w')"
      using assms(2) e s by simp
    ultimately show ?thesis using that(2) 1 by blast
  qed
qed

lemma decided_dry:
  assumes "decided d so s policies action" and "sa_Type action \<noteq> ActionNoAction"
  shows "sa_DryRun action = list_ex (\<lambda>p. ops_DryRun (op_Spec p)) policies"
proof -
  obtain now ident i rec where "Solve (od_rngPerm d) now ident s (i\<lparr>si_Policies := map matchedPolicy policies\<rparr>) = Some (action, rec)"
    using assms(1) by (auto simp: decided_def)
  then show ?thesis
    using assms(2) by (auto simp: Solve_def Let_def noAction_def currentAction_def buildAction_def matchedPolicy_def list_ex_iff
        split: if_splits option.splits prod.splits)
qed

lemma decided_policies:
  "decided d so s policies action \<Longrightarrow> \<exists>v v'. FindPoliciesForService (od_Policies d) so v = (Inr policies, v')"
  by (auto simp: decided_def)

text \<open>The cooldown of a rule is a Go \<open>int32\<close>.\<close>

definition policies_wf :: "('w, 'e) opt_deps \<Rightarrow> ServiceObjective \<Rightarrow> bool" where
  "policies_wf d so = (\<forall>v ps v'. FindPoliciesForService (od_Policies d) so v = (Inr ps, v') \<longrightarrow>
     (\<forall>p \<in> set ps. \<forall>ty r. ruleFor ty p = Some r \<longrightarrow> in32 (sr_CooldownSeconds r)))"

text \<open>The dry run of the registered pod actuator.\<close>

lemma registry_dry:
  assumes "pod_ok c stored" "ao_DryRun opts" "registryApply [podActuator c p] ref action opts w = (r, w')"
  shows "workload (stored (ref_Namespace ref) (ref_Name ref) w') = workload (stored (ref_Namespace ref) (ref_Name ref) w) \<and>
    (\<forall>x. r = Inr x \<longrightarrow> \<not> ar_Applied x)"
proof (cases "podCanApply action")
  case True
  then show ?thesis using assms podApply_dry [OF assms(1,2)] by simp
next
  case False
  then show ?thesis using assms(3) by (auto simp: registryApply.simps podActuator_def emptyResult_def)
qed

abbreviation same_workload :: "'w deployments \<Rightarrow> ServiceObjective \<Rightarrow> 'w \<Rightarrow> 'w \<Rightarrow> bool" where
  "same_workload stored so w w' \<equiv>
     workload (stored (so_Namespace so) (cvr_Name (so_TargetRef so)) w') = workload (stored (so_Namespace so) (cvr_Name (so_TargetRef so)) w)"

definition cooldowns_of :: "'ast OptimizerController \<Rightarrow> (string \<rightharpoonup> cooldownEntry) option" where
  "cooldowns_of oc = map_option sg_cooldowns (oc_SafetyGuard oc)"

lemma guardAllow_within:
  assumes "calls_within R d" and "guardAllow d ref opts oc w = (e, oc', w')"
  shows "R w w' \<and> cooldowns_of oc' = cooldowns_of oc \<and> oc_CanaryCtrl oc' = oc_CanaryCtrl oc"
proof (cases "oc_SafetyGuard oc")
  case None
  then show ?thesis using assms within_refl by (auto simp: guardAllow_def)
next
  case (Some g)
  obtain t1 w1 where t1: "od_now d w = (t1, w1)" by fastforce
  obtain t2 w2 where t2: "od_now d w1 = (t2, w2)" by fastforce
  have "R w w2" using within_calls(1) [OF assms(1) t1] within_calls(1) [OF assms(1) t2] within_trans [OF assms(1)] by blast
  then show ?thesis
    using assms(2) Some t1 t2 Allow_cooldowns [of "od_getNamespace d w" "od_getConfigMap d w" t1 t2 g ref opts]
    by (auto simp: guardAllow_def cooldowns_of_def split: prod.splits)
qed

lemma guardOutcome_within:
  assumes "calls_within R d" and "guardOutcome d ref x oc w = (oc', w')"
  shows "R w w' \<and> cooldowns_of oc' = cooldowns_of oc"
  using assms(2) within_refl [OF assms(1)] within_calls(1) [OF assms(1)] guardOutcome_cooldowns [OF assms(2)]
  by (auto simp: guardOutcome_def cooldowns_of_def split: option.splits prod.splits)

lemma actuate_dry:
  assumes "pod_ok c stored" and "calls_within (same_workload stored so) d" and "reg = [podActuator c p]"
    and "od_CanaryRegistry d = [podActuator c p]" and "\<not> ao_Canary opts" and "ao_DryRun opts"
    and "actuate d reg so action opts n oc w = (oc', w')"
  shows "same_workload stored so w w' \<and> cooldowns_of oc' = cooldowns_of oc"
proof -
  obtain e oc1 w1 where g: "guardAllow d (objectiveRef so) opts oc w = (e, oc1, w1)" by (metis prod_cases3)
  note 1 = guardAllow_within [OF assms(2) g] and ev = within_calls(3) [OF assms(2)]
  show ?thesis
  proof (cases e)
    case (Some x)
    then show ?thesis using assms(7) g 1 ev by (simp add: actuate_def Let_def) metis
  next
    case None
    obtain r oc2 w2 where ap: "applyAction d reg (objectiveRef so) action opts n oc1 w1 = (r, oc2, w2)" by (metis prod_cases3)
    have 2: "same_workload stored so w1 w2 \<and> cooldowns_of oc2 = cooldowns_of oc1 \<and> (\<forall>x. r = Inr x \<longrightarrow> \<not> ar_Applied x)"
      using assms(5) ap
    proof (cases rule: applyAction_cases)
      case (direct x)
      then show ?thesis using registry_dry [OF assms(1,6) direct(2) [unfolded assms(3)]]
        by (cases x) (auto simp: objectiveRef_def cooldowns_of_def)
    next
      case (canary x cc)
      note reg = registry_dry [OF assms(1,6) canary(1) [unfolded assms(4)]]
      have "\<not> ar_Applied y" if "r = Inr y" for y using reg canary(2) [OF that] by blast
      then show ?thesis using reg canary(3) by (simp add: objectiveRef_def cooldowns_of_def)
    qed
    show ?thesis
    proof (cases r)
      case (Inl x)
      then have o: "guardOutcome d (objectiveRef so) OutcomeDegraded oc2 (od_Event d so (ActuationFailed x) w2) = (oc', w')"
        using assms(7) g None ap by (simp add: actuate_def Let_def)
      show ?thesis using guardOutcome_within [OF assms(2) o] 1 2 ev by metis
    next
      case (Inr x)
      then show ?thesis using assms(7) g None ap 1 2 by (simp add: actuate_def Let_def)
    qed
  qed
qed

text \<open>A round returns: the solver does not panic on a finite input and weights in the unit interval.\<close>

definition weights_wf :: "('w, 'e) opt_deps \<Rightarrow> ServiceObjective \<Rightarrow> bool" where
  "weights_wf d so = (\<forall>v ps v'. FindPoliciesForService (od_Policies d) so v = (Inr ps, v') \<longrightarrow>
     (\<forall>p \<in> set ps. \<forall>ob \<in> set (ops_Objectives (op_Spec p)). unit64 (po_Weight ob)))"

lemma optimizeService_returns:
  assumes "perm_ok (od_rngPerm d)" and "weights_wf d so" and "input_finite (fst (buildSolverInput d so oc w))"
  shows "\<exists>oc' w'. optimizeService d so oc w = Some (oc', w')"
proof -
  obtain i oc1 w1 where b: "buildSolverInput d so oc w = (i, oc1, w1)" by (metis prod_cases3)
  obtain ps w2 where f: "FindPoliciesForService (od_Policies d) so w1 = (ps, w2)" by fastforce
  obtain ident w3 where u: "od_uuid d w2 = (ident, w3)" by fastforce
  obtain now w4 where n: "od_now d w3 = (now, w4)" by fastforce
  show ?thesis
  proof (cases ps)
    case (Inl e)
    then show ?thesis using b f by (simp add: optimizeService_def)
  next
    case (Inr policies)
    let ?i = "i\<lparr>si_Policies := map matchedPolicy policies\<rparr>"
    have fin: "input_finite ?i" using assms(3) b by (simp add: input_finite_def)
    have wts: "objectives_ok ?i" using assms(2) f Inr by (auto simp: weights_wf_def objectives_ok_def matchedPolicy_def)
    obtain action rec where "Solve (od_rngPerm d) now ident (oc_Solver oc1) ?i = Some (action, rec)"
      using Solve_returns [OF assms(1) fin wts] by blast
    then have "optimizeService d so oc w = Some (oc, w) \<or> optimizeService d so oc w =
        Some (act d so policies (cs_Replicas (si_Current i)) action oc1 (journalWrite d rec w4))"
      by (simp only: optimizeService_def b f Inr u n prod.case sum.case option.case) simp
    then show ?thesis by (metis surj_pair)
  qed
qed

section \<open>Properties\<close>


text \<open>C4. A dry-run policy keeps the workload as it is. When every list of policies found for a service has one in
  dry run, a round with the pod actuator changes neither the replicas nor the containers of the target Deployment,
  with or without HPA and canary controller, and records no actuation. Only annotations may change.\<close>
theorem dry_run_safe:
  assumes "pod_ok c stored" and "calls_within (same_workload stored so) d"
    and "od_Registry d = Some [podActuator c p]" and "od_CanaryRegistry d = [podActuator c p]"
    and "\<forall>v ps v'. FindPoliciesForService (od_Policies d) so v = (Inr ps, v') \<longrightarrow> (\<exists>q \<in> set ps. ops_DryRun (op_Spec q))"
    and "optimizeService d so oc w = Some (oc', w')"
  shows "same_workload stored so w w' \<and> cooldowns_of oc' = cooldowns_of oc"
  using assms(2,6)
proof (cases rule: optimizeService_cases)
  case idle
  then show ?thesis using same_but_breakerD by (fastforce simp: cooldowns_of_def)
next
  case (acted policies action oc1 w1 n)
  have oc1: "cooldowns_of oc1 = cooldowns_of oc" using same_but_breakerD [OF acted(2)] by (simp add: cooldowns_of_def)
  show ?thesis
  proof (cases "sa_Type action = ActionNoAction")
    case True
    then show ?thesis using acted(3,4) oc1 by (simp add: act_def)
  next
    case False
    let ?ev = "od_Event d so ((if sa_DryRun action then DryRunDecision else OptimizationDecision) (sa_Type action) (sa_Reason action)) w1"
    have a: "actuate d [podActuator c p] so action (buildActuationOptions action policies) (wrap32 n) oc1 ?ev = (oc', w')"
      using acted(4) False assms(3) by (simp add: act_def Let_def)
    have dry: "ao_DryRun (buildActuationOptions action policies)"
      using decided_dry [OF acted(1) False] decided_policies [OF acted(1)] assms(5) by (auto simp: options_fields list_ex_iff)
    have "\<not> ao_Canary (buildActuationOptions action policies)" by (simp add: options_fields)
    from actuate_dry [OF assms(1,2) refl assms(4) this dry a] show ?thesis
      using acted(3) oc1 within_calls(3) [where w = w1, OF assms(2)] by metis
  qed
qed


section \<open>A cluster with one Deployment\<close>

definition demo_ready :: ServiceObjective where
  "demo_ready = demo_so\<lparr>so_Status := (so_Status demo_so)\<lparr>sos_BudgetRemaining := ''80.00%'', sos_Conditions :=
    [\<lparr>cd_Type = conditionTargetFound, cd_Status = ConditionTrue, cd_Reason = ''Found'', cd_Message = [], cd_ObservedGeneration = 1\<rparr>,
     \<lparr>cd_Type = conditionSLOCompliant, cd_Status = ConditionTrue, cd_Reason = ''WithinTarget'', cd_Message = [], cd_ObservedGeneration = 1\<rparr>]\<rparr>\<rparr>"

definition demo_dry :: OptimizationPolicy where
  "demo_dry = (demo_scaling 50 60)\<lparr>op_Spec := (op_Spec (demo_scaling 50 60))\<lparr>ops_DryRun := True\<rparr>\<rparr>"

definition demo_opt_deps :: "OptimizationPolicy \<Rightarrow> (Deployment, pod_error) opt_deps" where
  "demo_opt_deps pol = \<lparr>od_Policies = \<lparr>pd_GetPolicy = \<lambda>ns name w. (Inl ApiNotFound, w), pd_ListPolicies = \<lambda>ns w. (Inr [pol], w),
      pd_ListObjectives = \<lambda>ns w. (Inr [demo_ready], w), pd_UpdateStatus = \<lambda>p s w. (None, w), pd_Event = None,
      pd_Selector = \<lambda>sel. Inr (\<lambda>l. True), pd_SetCondition = setStatusCondition, pd_sort = isort\<rparr>,
    od_ListObjectives = \<lambda>w. (Inr [demo_ready], w), od_GetDeployment = \<lambda>ns n w. (Inr w, w), od_MilliValue = \<lambda>q. 100, od_Value = \<lambda>q. 100,
    od_Prom = None, od_Journal = None, od_Event = \<lambda>so e w. w, od_Registry = Some [podActuator oneDeployment NewPodActuator],
    od_CanaryRegistry = [podActuator oneDeployment NewPodActuator], od_Checker = None, od_sleep = \<lambda>t w. w,
    od_http = \<lparr>hd_marshal = \<lambda>q. Inl [], hd_newRequest = \<lambda>u. None, hd_Do = \<lambda>m u b w. (Inl [], w), hd_unmarshal = \<lambda>b. Inl [],
      hd_sleep = \<lambda>t w. w, hd_now = Pair 0\<rparr>,
    od_mlURL = [], od_now = Pair 0, od_uuid = Pair ''id'', od_rngPerm = \<lambda>seed n. [0..<n],
    od_getNamespace = \<lambda>w n. None, od_getConfigMap = \<lambda>w n. None, od_timeText = \<lambda>t. [], od_sortPoints = isort, od_burnOrder = \<lambda>m. []\<rparr>"

definition demo_oc :: "unit OptimizerController" where
  "demo_oc = \<lparr>oc_Solver = demo_solver, oc_SafetyGuard = Some NewSafetyGuard, oc_CanaryCtrl = None, oc_Forecaster = None,
    oc_ForecastLookback = 0, oc_ForecastStep = 0, oc_ForecastMinPoints = 0\<rparr>"

lemma demo_find: "FindPoliciesForService (od_Policies (demo_opt_deps pol)) so w =
    (Inr (if policySelects (od_Policies (demo_opt_deps pol)) so pol then [pol] else []), w)"
  by (simp add: FindPoliciesForService_def demo_opt_deps_def isort_def)

lemma demo_calls_within: "reflp R \<Longrightarrow> transp R \<Longrightarrow> calls_within R (demo_opt_deps pol)"
  by (simp add: calls_within_def demo_opt_deps_def reflpD)

lemma demo_input: "input_finite (fst (buildSolverInput (demo_opt_deps pol) demo_ready demo_oc demo_deploy))"
proof -
  have r: "inrange 0 (2 ^ 40) (lit (1 / 10))" "inrange 0 (2 ^ 40) (lit (1 / 4))" by (rule inrange_rnd; simp)+
  have "dp_Replicas demo_deploy = Some 4" "dp_Containers demo_deploy = []" by (simp_all add: demo_deploy_def)
  then have "readCurrentState (demo_opt_deps pol) demo_ready demo_deploy = (Inr (zero_CurrentState\<lparr>cs_Replicas := 4,
      cs_CPURequest := lit (1 / 10), cs_MemoryRequest := lit (1 / 4)\<rparr>), demo_deploy)"
    by (simp add: readCurrentState_def demo_ready_def demo_so_def demo_opt_deps_def queryScalarOrZero_def sumRequests_def
        zero_CurrentState_def feq_iff zero_Fin Let_def)
  moreover have "attachForecast (demo_opt_deps pol) so i x w = (i, x, w)" for so i w and x :: "unit OptimizerController"
    by (simp add: attachForecast_def demo_opt_deps_def)
  ultimately show ?thesis
    using r by (simp add: buildSolverInput_def input_finite_def rightSized_def zero_CurrentState_def zero_Fin Let_def)
qed

lemma demo_wf:
  "weights_wf (demo_opt_deps (demo_scaling 50 60)) so" "weights_wf (demo_opt_deps demo_dry) so"
  "policies_wf (demo_opt_deps (demo_scaling 50 60)) so"
  by (auto simp: weights_wf_def policies_wf_def demo_find demo_dry_def demo_scaling_def demo_pol_def in32_def ruleFor_def
      split: if_splits ActionType.splits)

lemma demo_perm: "perm_ok (od_rngPerm (demo_opt_deps pol))"
  by (auto simp: perm_ok_def demo_opt_deps_def)

lemmas demo_returns = optimizeService_returns [OF demo_perm demo_wf(1) demo_input] optimizeService_returns [OF demo_perm demo_wf(2) demo_input]



lemma dry_run_safe_witness:
  "\<exists>oc' w'. optimizeService (demo_opt_deps demo_dry) demo_ready demo_oc demo_deploy = Some (oc', w') \<and>
     workload (validStored ''shop'' ''web'' w') = Some (Some 4, [])"
proof -
  let ?d = "demo_opt_deps demo_dry"
  obtain oc' w' where r: "optimizeService ?d demo_ready demo_oc demo_deploy = Some (oc', w')" using demo_returns(2) by blast
  have c: "calls_within (same_workload validStored demo_ready) ?d" by (rule demo_calls_within) (auto intro: reflpI transpI)
  have reg: "od_Registry ?d = Some [podActuator oneDeployment NewPodActuator]" "od_CanaryRegistry ?d = [podActuator oneDeployment NewPodActuator]"
    by (simp_all add: demo_opt_deps_def)
  have "policySelects (od_Policies ?d) demo_ready demo_dry" "ops_DryRun (op_Spec demo_dry)"
    by (simp_all add: policySelects_def demo_dry_def demo_scaling_def demo_pol_def)
  then have dry: "\<forall>v ps v'. FindPoliciesForService (od_Policies ?d) demo_ready v = (Inr ps, v') \<longrightarrow> (\<exists>q \<in> set ps. ops_DryRun (op_Spec q))"
    by (simp add: demo_find)
  have "workload (validStored ''shop'' ''web'' demo_deploy) = Some (Some 4, [])"
    by (simp add: workload_def validStored_def demo_deploy_def in32_def)
  then show ?thesis
    using dry_run_safe [OF oneDeployment_ok c reg dry r] r by (simp add: demo_ready_def demo_so_def)
qed

end
