(* ===== verification/Fairness.thy ===== *)
theory Fairness
  imports Go_Strings
begin

text \<open>
  Jain's fairness index over the tenants, \<open>internal/tenant/fairness.go\<close>. The Prometheus gauges that
  publish it are output only.
\<close>

section \<open>Operations\<close>

record FairnessInput =
  fi_Name :: string
  fi_CurrentCores :: f64
  fi_GuaranteedCores :: f64

record FairnessResult =
  fres_GlobalIndex :: f64
  fres_PerTenant :: "string \<rightharpoonup> f64"

text \<open>The tenants that take part, with their ratio.\<close>

definition ratios :: "FairnessInput list \<Rightarrow> (string \<times> f64) list" where
  "ratios inputs = map (\<lambda>i. (fi_Name i, fi_CurrentCores i / fi_GuaranteedCores i))
     (filter (\<lambda>i. \<not> fi_GuaranteedCores i \<le> 0) inputs)"

definition ComputeFairness :: "FairnessInput list \<Rightarrow> FairnessResult option" where
  "ComputeFairness inputs =
    (let perTenant = foldl (\<lambda>m (k, v). m(k \<mapsto> v)) Map.empty (ratios inputs);
         xs = map snd (ratios inputs);
         n = of_int64 (int (length xs)) in
     if feq n 0 then None
     else
      let sumX = foldl (\<lambda>s x. s + x) 0 xs;
          sumX2 = foldl (\<lambda>s x. s + x * x) 0 xs;
          index = (if feq sumX2 0 then 1 else (sumX * sumX) / (n * sumX2)) in
      Some \<lparr>fres_GlobalIndex = fmax 0 (fmin 1 index), fres_PerTenant = perTenant\<rparr>)"

section \<open>Library\<close>

text \<open>Usage and guarantees between 0 and \<open>2 ^ 40\<close> cores, a guarantee being at least \<open>2 ^ -40\<close> or not
  positive.\<close>

definition tenant_ok :: "FairnessInput \<Rightarrow> bool" where
  "tenant_ok i = (inrange 0 (2 ^ 40) (fi_CurrentCores i) \<and>
     (fi_GuaranteedCores i \<le> 0 \<or> inrange (1 / 2 ^ 40) (2 ^ 40) (fi_GuaranteedCores i)))"

lemma ratio_range:
  assumes "tenant_ok i" "\<not> fi_GuaranteedCores i \<le> 0"
  shows "inrange 0 (2 ^ 80) (fi_CurrentCores i / fi_GuaranteedCores i)"
proof -
  obtain p q where pq: "fi_CurrentCores i = Fin p" "fi_GuaranteedCores i = Fin q" "0 \<le> p" "p \<le> 2 ^ 40" "1 / 2 ^ 40 \<le> q"
    using assms by (auto simp: tenant_ok_def inrange_iff)
  have q0: "0 < q" by (rule less_le_trans [OF _ pq(5)]) simp
  have "p / q \<le> 2 ^ 40 / (1 / 2 ^ 40)" using pq q0 by (intro frac_le) simp_all
  then have "p / q \<le> 2 ^ 80" by simp
  moreover have "rep (2 ^ 80)" by (rule rep_pow2) simp
  ultimately show ?thesis using pq q0 by (auto intro!: inrange_rnd)
qed

lemma ratios_range:
  "\<forall>i \<in> set inputs. tenant_ok i \<Longrightarrow> x \<in> set (map snd (ratios inputs)) \<Longrightarrow> inrange 0 (2 ^ 80) x"
  using ratio_range by (auto simp: ratios_def)

lemma square_range:
  assumes "inrange 0 (2 ^ 80) x"
  shows "inrange 0 (2 ^ 160) (x * x)"
  using inrange_mult [OF assms assms] rep_pow2 [of 160] by simp

lemma jain_not_NaN:
  assumes "\<And>x. x \<in> set xs \<Longrightarrow> inrange 0 (2 ^ 80) x" "length xs \<le> 2 ^ 20" "xs \<noteq> []"
  defines "sx \<equiv> foldl (\<lambda>s x. s + x) 0 xs" and "sx2 \<equiv> foldl (\<lambda>s x. s + x * x) 0 xs"
    and "n \<equiv> of_int64 (int (length xs))"
  shows "feq sx2 0 \<or> sx * sx / (n * sx2) \<noteq> NaN"
proof (cases "feq sx2 0")
  case False
  have sx: "inrange 0 (2 ^ 100) sx" unfolding sx_def using sum_nonneg_ge [of xs 80 "\<lambda>x. x"] assms(1,2) by simp
  have sx2: "inrange 0 (2 ^ 180) sx2"
    unfolding sx2_def using sum_nonneg_ge [of xs 160 "\<lambda>x. x * x"] square_range assms(1,2) by simp
  have n: "n = Fin (of_nat (length xs))" using assms(2) by (simp add: n_def of_int64_exact)
  obtain a where a: "sx * sx = Fin a"
    using inrange_mult [OF sx sx] rep_pow2 [of 200] by (auto simp: inrange_iff)
  obtain b where b': "sx2 = Fin b" "0 \<le> b" "b \<le> 2 ^ 180" "rep b" using sx2 unfolding inrange_iff by blast
  then have "b \<noteq> 0" using False by (auto simp: zero_Fin)
  then have b: "sx2 = Fin b" "0 < b" "b \<le> 2 ^ 180" "rep b" using b' by auto
  have "1 \<le> (of_nat (length xs) :: rat)" using assms(3) by (cases xs) simp_all
  then have lo: "b \<le> of_nat (length xs) * b" using b by (simp add: mult_le_cancel_right1)
  have "(of_nat (length xs) :: rat) \<le> of_nat (2 ^ 20)" using assms(2) by (simp only: of_nat_le_iff)
  then have "of_nat (length xs) * b \<le> 2 ^ 20 * 2 ^ 180" using b by (intro mult_mono) simp_all
  then have "inrange b (2 ^ 200) (n * sx2)"
    unfolding n b(1) times_f64.simps using lo b rep_pow2 [of 200] by (intro inrange_rnd) simp_all
  then obtain c where "n * sx2 = Fin c" "0 < c" using b by (auto simp: inrange_iff)
  then show ?thesis using a by simp
qed simp

lemma ComputeFairness_in_unit:
  assumes "\<forall>i \<in> set inputs. tenant_ok i" "length inputs \<le> 2 ^ 20"
  shows "case ComputeFairness inputs of
      None \<Rightarrow> \<forall>i \<in> set inputs. fi_GuaranteedCores i \<le> 0
    | Some r \<Rightarrow> unit64 (fres_GlobalIndex r) \<and> (\<exists>i \<in> set inputs. \<not> fi_GuaranteedCores i \<le> 0)"
proof -
  let ?xs = "map snd (ratios inputs)"
  have "length ?xs \<le> length inputs" by (simp add: ratios_def)
  then have len: "length ?xs \<le> 2 ^ 20" using assms(2) by (rule le_trans)
  have n: "of_int64 (int (length ?xs)) = Fin (of_nat (length ?xs))" using len by (simp add: of_int64_exact)
  show ?thesis
  proof (cases "?xs = []")
    case True
    then have "ComputeFairness inputs = None" using n by (simp add: ComputeFairness_def Let_def zero_Fin)
    moreover have "\<forall>i \<in> set inputs. fi_GuaranteedCores i \<le> 0"
      using True by (auto simp: ratios_def filter_empty_conv)
    ultimately show ?thesis by simp
  next
    case False
    have "\<exists>i \<in> set inputs. \<not> fi_GuaranteedCores i \<le> 0" using False by (auto simp: ratios_def filter_empty_conv)
    moreover have "unit64 (fmax 0 (fmin 1 (if feq (foldl (\<lambda>s x. s + x * x) 0 ?xs) 0 then 1 else
        foldl (\<lambda>s x. s + x) 0 ?xs * foldl (\<lambda>s x. s + x) 0 ?xs /
        (of_int64 (int (length ?xs)) * foldl (\<lambda>s x. s + x * x) 0 ?xs))))"
    proof (rule fmax_fmin_unit)
      show "(if feq (foldl (\<lambda>s x. s + x * x) 0 ?xs) 0 then 1 else
        foldl (\<lambda>s x. s + x) 0 ?xs * foldl (\<lambda>s x. s + x) 0 ?xs /
        (of_int64 (int (length ?xs)) * foldl (\<lambda>s x. s + x * x) 0 ?xs)) \<noteq> NaN"
        using jain_not_NaN [OF ratios_range [OF assms(1)] len False] by (auto simp: one_Fin)
    qed simp
    moreover have "\<not> feq (of_int64 (int (length ?xs))) 0" using n False by (simp add: zero_Fin)
    ultimately show ?thesis by (simp add: ComputeFairness_def Let_def)
  qed
qed

section \<open>Properties\<close>

text \<open>For up to \<open>2 ^ 20\<close> tenants with usage up to \<open>2 ^ 40\<close> cores and guarantees between \<open>2 ^ -40\<close>
  and \<open>2 ^ 40\<close> (or none), an index is computed exactly when some tenant has a guarantee; it lies
  between 0 and 1, never NaN, although the quotient behind it may round or overflow.\<close>

theorem ComputeFairness_range:
  assumes "\<forall>i \<in> set inputs. tenant_ok i" "length inputs \<le> 2 ^ 20"
  shows "case ComputeFairness inputs of
      None \<Rightarrow> \<forall>i \<in> set inputs. fi_GuaranteedCores i \<le> 0
    | Some r \<Rightarrow> unit64 (fres_GlobalIndex r) \<and> (\<exists>i \<in> set inputs. \<not> fi_GuaranteedCores i \<le> 0)"
  by (rule ComputeFairness_in_unit [OF assms])

lemma ComputeFairness_range_witness:
  "\<exists>r. ComputeFairness [\<lparr>fi_Name = ''a'', fi_CurrentCores = lit 6, fi_GuaranteedCores = lit 2\<rparr>,
      \<lparr>fi_Name = ''b'', fi_CurrentCores = lit 1, fi_GuaranteedCores = lit 4\<rparr>] = Some r \<and> unit64 (fres_GlobalIndex r)"
proof -
  let ?i = "[\<lparr>fi_Name = ''a'', fi_CurrentCores = lit 6, fi_GuaranteedCores = lit 2\<rparr>,
      \<lparr>fi_Name = ''b'', fi_CurrentCores = lit 1, fi_GuaranteedCores = lit 4\<rparr>]"
  have ok: "\<forall>i \<in> set ?i. tenant_ok i" by (simp add: tenant_ok_def rnd_exact)
  show ?thesis
    using ComputeFairness_range [OF ok]
    by (cases "ComputeFairness ?i") (auto simp: rnd_exact zero_Fin)
qed

lemma sum_ones: "n \<le> 2 ^ 20 \<Longrightarrow> foldl (\<lambda>s x. s + x) 0 (replicate n (1 :: f64)) = Fin (of_nat n)"
proof (induction n)
  case (Suc n)
  have "rep (of_nat n + 1)" using rep_of_int [of "int n + 1"] Suc.prems by simp
  then have "Fin (of_nat n) + 1 = Fin (of_nat n + 1)" by (simp add: one_Fin rnd_exact)
  then show ?case using Suc by (simp add: replicate_app_Cons_same [symmetric] replicate_append_same [symmetric] add.commute)
qed (simp add: zero_Fin)

lemma foldl_squares_ones: "foldl (\<lambda>s x. s + x * x) a (replicate n (1 :: f64)) = foldl (\<lambda>s x. s + x) a (replicate n 1)"
  by (induction n arbitrary: a) (simp_all add: one_Fin rnd_exact)

lemma jain_ones:
  assumes "0 < n" "n \<le> 2 ^ 20"
  shows "(Fin (of_nat n) * Fin (of_nat n)) / (Fin (of_nat n) * Fin (of_nat n)) = 1"
proof -
  have "(of_nat n :: rat) * of_nat n = of_int (int n * int n)" by simp
  moreover have "int n * int n \<le> 2 ^ 20 * 2 ^ 20" using assms by (intro mult_mono) auto
  ultimately have "rep (of_nat n * of_nat n)" using rep_of_int [of "int n * int n"] by simp
  then show ?thesis using assms by (simp add: rnd_exact one_Fin)
qed

text \<open>When every tenant with a guarantee uses exactly its guarantee the index is exactly 1, with no
  rounding error, for up to \<open>2 ^ 20\<close> tenants.\<close>

theorem ComputeFairness_exact:
  assumes "\<forall>i \<in> set inputs. fi_GuaranteedCores i \<le> 0 \<or> (\<exists>r. fi_CurrentCores i = Fin r \<and> fi_GuaranteedCores i = Fin r)"
    and "length inputs \<le> 2 ^ 20" "\<exists>i \<in> set inputs. \<not> fi_GuaranteedCores i \<le> 0"
  shows "\<exists>r. ComputeFairness inputs = Some r \<and> fres_GlobalIndex r = 1"
proof -
  let ?xs = "map snd (ratios inputs)"
  define n where "n = length ?xs"
  have one: "x = 1" if x: "x \<in> set ?xs" for x
  proof -
    obtain i where i: "i \<in> set inputs" "\<not> fi_GuaranteedCores i \<le> 0" "x = fi_CurrentCores i / fi_GuaranteedCores i"
      using x by (auto simp: ratios_def)
    then obtain r where "fi_CurrentCores i = Fin r" "fi_GuaranteedCores i = Fin r" using assms(1) by blast
    then show ?thesis using i by (simp add: rnd_exact one_Fin zero_Fin)
  qed
  then have xs: "?xs = replicate n 1" unfolding n_def by (intro replicate_eqI) auto
  have "?xs \<noteq> []" using assms(3) by (auto simp: ratios_def filter_empty_conv)
  moreover have "length ?xs \<le> length inputs" by (simp add: ratios_def)
  ultimately have n: "0 < n" "n \<le> 2 ^ 20" using assms(2) by (auto simp: n_def)
  have "of_int64 (int n) = Fin (of_nat n)" using n by (simp add: of_int64_exact)
  then show ?thesis
    using n jain_ones [OF n] sum_ones [OF n(2)] unfolding ComputeFairness_def Let_def xs foldl_squares_ones
    by (simp add: zero_Fin one_Fin)
qed

lemma ComputeFairness_exact_witness:
  "\<exists>r. ComputeFairness [\<lparr>fi_Name = ''a'', fi_CurrentCores = lit 3, fi_GuaranteedCores = lit 3\<rparr>,
      \<lparr>fi_Name = ''b'', fi_CurrentCores = lit 7, fi_GuaranteedCores = 0\<rparr>,
      \<lparr>fi_Name = ''c'', fi_CurrentCores = lit 5, fi_GuaranteedCores = lit 5\<rparr>] = Some r \<and> fres_GlobalIndex r = 1"
  by (rule ComputeFairness_exact) (simp_all add: rnd_exact zero_Fin)

end
