(* ===== verification/Fair_Share.thy ===== *)
theory Fair_Share
  imports Fairness
begin

text \<open>
  The three-phase fair-share allocation, \<open>internal/tenant/fairshare.go\<close>. The source keeps the shares
  in a slice parallel to the inputs; here a round works on the list of pairs.
\<close>

section \<open>Operations\<close>

record ResourceShare =
  rs_Name :: string
  rs_GuaranteedCores :: f64
  rs_BurstCores :: f64
  rs_MaxCores :: f64
  rs_TotalCores :: f64

record FairShareInput =
  fs_Name :: string
  fs_Weight :: int
  fs_GuaranteedCoresPercent :: int
  fs_Burstable :: bool
  fs_MaxBurstPercent :: int
  fs_CurrentCores :: f64

type_synonym allotment = "(FairShareInput \<times> ResourceShare) list"

definition guaranteed :: "f64 \<Rightarrow> FairShareInput \<Rightarrow> f64" where
  "guaranteed clusterCores i = clusterCores * of_int64 (fs_GuaranteedCoresPercent i) / lit 100"

definition capOf :: "f64 \<Rightarrow> FairShareInput \<Rightarrow> f64" where
  "capOf clusterCores i = clusterCores * of_int64 (fs_MaxBurstPercent i) / lit 100"

definition newShare :: "f64 \<Rightarrow> FairShareInput \<Rightarrow> ResourceShare" where
  "newShare clusterCores i = \<lparr>rs_Name = fs_Name i, rs_GuaranteedCores = guaranteed clusterCores i,
     rs_BurstCores = 0, rs_MaxCores = 0, rs_TotalCores = 0\<rparr>"

definition sumWeights :: "FairShareInput list \<Rightarrow> int" where
  "sumWeights inputs = foldl (\<lambda>w i. wrap32 (w + fs_Weight i)) 0 inputs"

text \<open>Phases 1 and 2.\<close>

definition initialShares :: "f64 \<Rightarrow> FairShareInput list \<Rightarrow> allotment" where
  "initialShares clusterCores inputs =
    (let totalGuaranteed = foldl (\<lambda>t i. t + guaranteed clusterCores i) 0 inputs;
         r = clusterCores - totalGuaranteed;
         remaining = (if r < 0 then 0 else r);
         totalWeight = sumWeights (filter fs_Burstable inputs) in
     map (\<lambda>i. (i,
       if 0 < totalWeight \<and> 0 < remaining \<and> fs_Burstable i
       then (newShare clusterCores i)\<lparr>rs_BurstCores := remaining * of_int64 (fs_Weight i) / of_int64 totalWeight\<rparr>
       else newShare clusterCores i)) inputs)"

definition shareTotal :: "ResourceShare \<Rightarrow> f64" where
  "shareTotal s = rs_GuaranteedCores s + rs_BurstCores s"

text \<open>Phase 3: what one tenant gives back, the share after it, and who takes part in the
  redistribution.\<close>

definition excess :: "f64 \<Rightarrow> FairShareInput \<times> ResourceShare \<Rightarrow> f64 option" where
  "excess clusterCores p = (case p of (i, s) \<Rightarrow>
     if 0 < fs_MaxBurstPercent i \<and> capOf clusterCores i < shareTotal s
     then Some (shareTotal s - capOf clusterCores i) else None)"

definition capShare :: "f64 \<Rightarrow> FairShareInput \<times> ResourceShare \<Rightarrow> FairShareInput \<times> ResourceShare" where
  "capShare clusterCores p = (case excess clusterCores p of
     None \<Rightarrow> p
   | Some e \<Rightarrow> (case p of (i, s) \<Rightarrow>
       let b = rs_BurstCores s - e in (i, s\<lparr>rs_BurstCores := (if b < 0 then 0 else b)\<rparr>)))"

definition underCap :: "f64 \<Rightarrow> FairShareInput \<times> ResourceShare \<Rightarrow> bool" where
  "underCap clusterCores p = (case p of (i, s) \<Rightarrow> fs_Burstable i \<and>
     \<not> (0 < fs_MaxBurstPercent i \<and> capOf clusterCores i - lit (1 / 1000) \<le> shareTotal s))"

definition redistribute :: "f64 \<Rightarrow> f64 \<Rightarrow> allotment \<Rightarrow> allotment" where
  "redistribute clusterCores reclaimed a =
    (let uncappedWeight = sumWeights (map fst (filter (underCap clusterCores) a)) in
     if 0 < uncappedWeight
     then map (\<lambda>(i, s). if underCap clusterCores (i, s)
            then (i, s\<lparr>rs_BurstCores := rs_BurstCores s + reclaimed * of_int64 (fs_Weight i) / of_int64 uncappedWeight\<rparr>)
            else (i, s)) a
     else a)"

fun capRounds :: "nat \<Rightarrow> f64 \<Rightarrow> allotment \<Rightarrow> allotment" where
  "capRounds 0 clusterCores a = a"
| "capRounds (Suc n) clusterCores a =
    (let excesses = List.map_filter (excess clusterCores) a;
         reclaimed = foldl (\<lambda>r e. r + e) 0 excesses;
         a' = map (capShare clusterCores) a in
     if excesses = [] \<or> reclaimed < lit (1 / 1000) then a'
     else capRounds n clusterCores (redistribute clusterCores reclaimed a'))"

definition finishShare :: "f64 \<Rightarrow> FairShareInput \<times> ResourceShare \<Rightarrow> ResourceShare" where
  "finishShare clusterCores p = (case p of (i, s) \<Rightarrow>
    if 0 < fs_MaxBurstPercent i then
      (let cap = capOf clusterCores i;
           b = cap - rs_GuaranteedCores s;
           s' = (if cap < shareTotal s then s\<lparr>rs_BurstCores := (if b < 0 then 0 else b)\<rparr> else s) in
       s'\<lparr>rs_MaxCores := cap, rs_TotalCores := shareTotal s'\<rparr>)
    else s\<lparr>rs_MaxCores := clusterCores, rs_TotalCores := shareTotal s\<rparr>)"

definition ComputeFairShares :: "f64 \<Rightarrow> FairShareInput list \<Rightarrow> ResourceShare list" where
  "ComputeFairShares clusterCores inputs =
    (if inputs = [] \<or> clusterCores \<le> 0 then []
     else map (finishShare clusterCores) (capRounds 10 clusterCores (initialShares clusterCores inputs)))"

definition AllocationStatusFor :: "f64 \<Rightarrow> ResourceShare \<Rightarrow> string" where
  "AllocationStatusFor currentCores share =
    (if rs_GuaranteedCores share \<le> 0 then (if 0 < currentCores then ''bursting'' else ''under_allocated'')
     else
      let ratio = currentCores / rs_GuaranteedCores share in
      if rs_TotalCores share < currentCores then ''throttled''
      else if 1 < ratio then ''bursting''
      else if lit (8 / 10) \<le> ratio then ''guaranteed''
      else ''under_allocated'')"

section \<open>Library\<close>

lemma map_fst_capShare: "map fst (map (capShare c) a) = map fst a"
  by (auto simp: capShare_def Let_def split: option.split prod.split)

lemma map_fst_redistribute: "map fst (redistribute c r a) = map fst a"
  by (auto simp: redistribute_def Let_def split: prod.split)

lemma map_fst_capRounds: "map fst (capRounds n c a) = map fst a"
proof (induction n arbitrary: a)
  case (Suc n)
  then show ?case by (simp add: Let_def map_fst_redistribute map_fst_capShare del: map_map)
qed simp

lemma map_fst_initialShares: "map fst (initialShares c inputs) = inputs"
  by (simp add: initialShares_def Let_def comp_def)

text \<open>Names and guarantees never change after the first phase.\<close>

abbreviation fixed_part :: "FairShareInput \<times> ResourceShare \<Rightarrow> string \<times> f64" where
  "fixed_part p \<equiv> (rs_Name (snd p), rs_GuaranteedCores (snd p))"

lemma fixed_capShare: "fixed_part (capShare c p) = fixed_part p"
  by (auto simp: capShare_def Let_def split: option.split prod.split)

lemma fixed_redistribute: "map fixed_part (redistribute c r a) = map fixed_part a"
  by (auto simp: redistribute_def Let_def split: prod.split)

lemma fixed_capRounds: "map fixed_part (capRounds n c a) = map fixed_part a"
proof (induction n arbitrary: a)
  case (Suc n)
  have "map fixed_part (map (capShare c) a) = map fixed_part a"
    using fixed_capShare by (simp add: comp_def)
  then show ?case using Suc by (simp only: capRounds.simps Let_def fixed_redistribute split: if_split) simp
qed simp

lemma fixed_initialShares:
  "map fixed_part (initialShares c inputs) = map (\<lambda>i. (fs_Name i, guaranteed c i)) inputs"
  by (simp add: initialShares_def Let_def comp_def newShare_def)

subsection \<open>Bounds\<close>

text \<open>Clusters of up to \<open>2 ^ 40\<close> cores, percentages as admission allows them, weights up to 1024, up to
  \<open>2 ^ 20\<close> tenants. A round can enlarge a burst share by a factor of at most \<open>2 ^ 32\<close>, so after the
  ten rounds nothing has overflowed.\<close>

definition share_input_ok :: "FairShareInput \<Rightarrow> bool" where
  "share_input_ok i = (0 \<le> fs_Weight i \<and> fs_Weight i \<le> 1024 \<and>
     0 \<le> fs_GuaranteedCoresPercent i \<and> fs_GuaranteedCoresPercent i \<le> 100 \<and>
     0 \<le> fs_MaxBurstPercent i \<and> fs_MaxBurstPercent i \<le> 100)"

lemma percent_range:
  assumes "inrange 0 (2 ^ 40) c" "0 \<le> p" "p \<le> 100"
  shows "inrange 0 (2 ^ 48) (c * of_int64 p / lit 100)"
proof -
  have "rep (2 ^ 47)" "rep (2 ^ 48)" by (rule rep_pow2; simp)+
  moreover have "inrange 0 (2 ^ 7) (of_int64 p)" using assms rep_of_int [of p] by (simp add: of_int64_exact)
  ultimately have "inrange 0 (2 ^ 40 * 2 ^ 7) (c * of_int64 p)" using assms(1) by (intro inrange_mult) simp_all
  then have "inrange 0 (2 ^ 48) (c * of_int64 p)" by (rule inrange_weaken) simp_all
  moreover have "inrange 1 100 (lit 100)" by (simp add: rnd_exact)
  ultimately show ?thesis using \<open>rep (2 ^ 48)\<close> by (intro inrange_div_ge1)
qed

lemma weight_div_range:
  assumes "inrange 0 (2 ^ k) x" "0 \<le> w" "w \<le> 1024" "0 < W" "in32 W" "k \<le> 900"
  shows "inrange 0 (2 ^ (k + 10)) (x * of_int64 w / of_int64 W)"
proof -
  have r: "rep (2 ^ (k + 10))" using assms(6) by (intro rep_pow2) simp
  have "inrange 0 (2 ^ 10) (of_int64 w)" using assms rep_of_int [of w] by (simp add: of_int64_exact)
  then have "inrange 0 (2 ^ k * 2 ^ 10) (x * of_int64 w)"
    using assms(1) r by (intro inrange_mult) (simp_all add: power_add)
  moreover have "inrange 1 (2 ^ 31) (of_int64 W)"
    using assms(4,5) rep_of_int [of W] by (simp add: of_int64_exact in32_def)
  ultimately show ?thesis using r inrange_div_ge1 by (metis power_add)
qed

lemma in32_sumWeights: "in32 (sumWeights is)"
  unfolding sumWeights_def by (rule foldl_inv) (simp_all add: in32_def [of 0])

definition allot_ok :: "nat \<Rightarrow> allotment \<Rightarrow> bool" where
  "allot_ok k a = (\<forall>(i, s) \<in> set a. share_input_ok i \<and> inrange 0 (2 ^ 48) (rs_GuaranteedCores s) \<and>
     inrange 0 (2 ^ k) (rs_BurstCores s))"

lemma allot_okD:
  assumes "allot_ok k a" "(i, s) \<in> set a"
  shows "share_input_ok i" "inrange 0 (2 ^ 48) (rs_GuaranteedCores s)" "inrange 0 (2 ^ k) (rs_BurstCores s)"
  using assms by (auto simp: allot_ok_def)

lemma shareTotal_range:
  assumes "inrange 0 (2 ^ 48) (rs_GuaranteedCores s)" "inrange 0 (2 ^ k) (rs_BurstCores s)" "48 \<le> k" "k \<le> 900"
  shows "inrange 0 (2 ^ (k + 1)) (shareTotal s)"
proof -
  have "(2 :: rat) ^ 48 \<le> 2 ^ k" using assms(3) by (intro power_increasing) simp_all
  then have "inrange 0 (2 ^ k) (rs_GuaranteedCores s)" using assms(1) by (auto elim: inrange_weaken)
  moreover have "rep (2 ^ (k + 1))" using assms(4) by (intro rep_pow2) simp
  ultimately have "inrange (0 + 0) (2 ^ k + 2 ^ k) (shareTotal s)"
    unfolding shareTotal_def using assms(2) by (intro inrange_add) simp_all
  then show ?thesis by simp
qed

lemma excess_range:
  assumes "allot_ok k a" "p \<in> set a" "excess c p = Some e" "inrange 0 (2 ^ 40) c" "48 \<le> k" "k \<le> 900"
  shows "inrange 0 (2 ^ (k + 1)) e"
proof -
  obtain i s where p: "p = (i, s)" by fastforce
  have "inrange 0 (2 ^ (k + 1)) (shareTotal s)"
    using allot_okD [OF assms(1)] assms(2,5,6) p by (intro shareTotal_range) auto
  moreover have "Fin 0 \<le> capOf c i"
    using allot_okD(1) [OF assms(1)] assms(2,4) p percent_range [of c "fs_MaxBurstPercent i"]
    by (auto simp: share_input_ok_def capOf_def dest!: inrange_less_eq)
  moreover have "capOf c i \<le> shareTotal s" and e: "e = shareTotal s - capOf c i"
    using assms(3) p f64_less_imp_le by (auto simp: excess_def split: if_splits)
  moreover have "rep (2 ^ (k + 1))" using assms(6) by (intro rep_pow2) simp
  ultimately show ?thesis unfolding e by (intro inrange_diff_le)
qed

lemma capShare_range:
  assumes "allot_ok k a" "inrange 0 (2 ^ 40) c" "48 \<le> k" "k \<le> 900"
  shows "allot_ok k (map (capShare c) a)"
proof -
  have "share_input_ok i \<and> inrange 0 (2 ^ 48) (rs_GuaranteedCores s) \<and> inrange 0 (2 ^ k) (rs_BurstCores s)"
    if mem: "(i, s) \<in> set (map (capShare c) a)" for i s
  proof -
    obtain p where p: "p \<in> set a" "(i, s) = capShare c p" using mem by auto
    obtain i0 s0 where p0: "p = (i0, s0)" by fastforce
    note ok = allot_okD [OF assms(1), of i0 s0]
    show ?thesis
    proof (cases "excess c p")
      case None
      then show ?thesis using p p0 ok by (simp add: capShare_def)
    next
      case (Some e)
      let ?b = "rs_BurstCores s0 - e"
      have s: "i = i0" "s = s0\<lparr>rs_BurstCores := (if ?b < 0 then 0 else ?b)\<rparr>"
        using p(2) Some p0 by (auto simp: capShare_def Let_def)
      have e: "inrange 0 (2 ^ (k + 1)) e" using excess_range [OF assms(1) p(1) Some assms(2-4)] .
      have r: "rep (2 ^ k)" "rep (2 ^ (k + 1))" using assms(4) rep_pow2 [of k] rep_pow2 [of "k + 1"] by simp_all
      have "inrange 0 (2 ^ k) (if ?b < 0 then 0 else ?b)"
        using ok(3) p p0 e r by (intro inrange_diff_clamp [where d = "2 ^ (k + 1)"]) auto
      then show ?thesis using s ok p p0 by simp
    qed
  qed
  then show ?thesis unfolding allot_ok_def by blast
qed

lemma redistribute_range:
  assumes "allot_ok k a" "inrange 0 (2 ^ (k + 21)) r" "48 \<le> k" "k \<le> 800"
  shows "allot_ok (k + 32) (redistribute c r a)"
proof -
  let ?W = "sumWeights (map fst (filter (underCap c) a))"
  have up: "(2 :: rat) ^ k \<le> 2 ^ (k + 31)" "(2 :: rat) ^ k \<le> 2 ^ (k + 32)" by (intro power_increasing; simp)+
  have same: "allot_ok (k + 32) a"
    using assms(1) up(2) unfolding allot_ok_def by (fastforce elim: inrange_weaken)
  have "inrange 0 (2 ^ (k + 32)) (rs_BurstCores s + r * of_int64 (fs_Weight i) / of_int64 ?W)"
    if "(i, s) \<in> set a" "0 < ?W" for i s
  proof -
    have "inrange 0 (2 ^ (k + 21 + 10)) (r * of_int64 (fs_Weight i) / of_int64 ?W)"
      using allot_okD(1) [OF assms(1) that(1)] that(2) in32_sumWeights assms
      by (intro weight_div_range) (auto simp: share_input_ok_def)
    then have "inrange 0 (2 ^ (k + 31)) (r * of_int64 (fs_Weight i) / of_int64 ?W)" by (simp add: add.commute)
    moreover have "inrange 0 (2 ^ (k + 31)) (rs_BurstCores s)"
      using allot_okD(3) [OF assms(1) that(1)] up(1) by (auto elim: inrange_weaken)
    moreover have dbl: "(2 :: rat) ^ (k + 31) + 2 ^ (k + 31) = 2 ^ (k + 32)" by (simp add: power_add)
    moreover have "rep (2 ^ (k + 32))" using assms(4) by (intro rep_pow2) simp
    ultimately have "inrange (0 + 0) (2 ^ (k + 31) + 2 ^ (k + 31)) (rs_BurstCores s + r * of_int64 (fs_Weight i) / of_int64 ?W)"
      by (intro inrange_add) simp_all
    then show ?thesis unfolding dbl by simp
  qed
  then show ?thesis
    using same unfolding redistribute_def Let_def allot_ok_def by (auto split: if_splits)
qed

lemma length_redistribute: "length (redistribute c r a) = length a"
  using arg_cong [OF map_fst_redistribute [of c r a], of length] by simp

lemma round_range:
  assumes "allot_ok k a" "inrange 0 (2 ^ 40) c" "length a \<le> 2 ^ 20" "48 \<le> k" "k \<le> 700"
  shows "allot_ok (k + 32) (redistribute c (foldl (\<lambda>r e. r + e) 0 (List.map_filter (excess c) a)) (map (capShare c) a))"
proof -
  let ?es = "List.map_filter (excess c) a"
  have "inrange 0 (2 ^ (k + 1)) e" if "e \<in> set ?es" for e
    using that excess_range [OF assms(1) _ _ assms(2)] assms(4,5) by (auto simp: map_filter_def)
  moreover have "length ?es \<le> 2 ^ 20"
    using order_trans [OF length_filter_le assms(3)] by (simp add: map_filter_def)
  ultimately have "inrange 0 (2 ^ (k + 1 + 20)) (foldl (\<lambda>r e. r + e) 0 ?es)"
    using assms(5) sum_nonneg_ge [of ?es "k + 1" "\<lambda>x. x"] by simp
  then have "inrange 0 (2 ^ (k + 21)) (foldl (\<lambda>r e. r + e) 0 ?es)" by (simp add: add.commute)
  then show ?thesis using assms capShare_range by (intro redistribute_range) auto
qed

lemma allot_ok_mono: "allot_ok l b \<Longrightarrow> l \<le> m \<Longrightarrow> allot_ok m b"
  using power_increasing [of l m "2 :: rat"] unfolding allot_ok_def by (fastforce elim: inrange_weaken)

lemma capRounds_range:
  assumes "allot_ok k a" "inrange 0 (2 ^ 40) c" "length a \<le> 2 ^ 20" "48 \<le> k" "k + 32 * n \<le> 700"
  shows "allot_ok (k + 32 * n) (capRounds n c a)"
  using assms(1,3,4,5)
proof (induction n arbitrary: a k)
  case (Suc n)
  let ?r = "foldl (\<lambda>r e. r + e) 0 (List.map_filter (excess c) a)" and ?a = "map (capShare c) a"
  have capped: "allot_ok k ?a" using Suc.prems assms(2) by (intro capShare_range) auto
  have "allot_ok (k + 32) (redistribute c ?r ?a)" using Suc.prems assms(2) by (intro round_range) auto
  then have "allot_ok (k + 32 + 32 * n) (capRounds n c (redistribute c ?r ?a))"
    using Suc.prems length_redistribute by (intro Suc.IH) auto
  moreover have "k + 32 + 32 * n = k + 32 * Suc n" by simp
  ultimately show ?case using allot_ok_mono [OF capped] by (simp add: Let_def)
qed simp

lemma initialShares_range:
  assumes "\<forall>i \<in> set inputs. share_input_ok i" "inrange 0 (2 ^ 40) c" "length inputs \<le> 2 ^ 20"
  shows "allot_ok 60 (initialShares c inputs)"
proof -
  have g: "inrange 0 (2 ^ 48) (guaranteed c i)" if "i \<in> set inputs" for i
    using assms that unfolding guaranteed_def by (intro percent_range) (auto simp: share_input_ok_def)
  let ?t = "foldl (\<lambda>t i. t + guaranteed c i) 0 inputs" and ?W = "sumWeights (filter fs_Burstable inputs)"
  have r: "rep (2 ^ 40)" "rep (2 ^ 68)" by (rule rep_pow2; simp)+
  have t: "inrange 0 (2 ^ 68) ?t" using sum_nonneg_ge [of inputs 48 "guaranteed c"] g assms(3) by simp
  have rem: "inrange 0 (2 ^ 40) (if c - ?t < 0 then 0 else c - ?t)"
    using assms(2) t r by (rule inrange_diff_clamp)
  have "inrange 0 (2 ^ (40 + 10)) ((if c - ?t < 0 then 0 else c - ?t) * of_int64 (fs_Weight i) / of_int64 ?W)"
    if "i \<in> set inputs" "0 < ?W" for i
    using assms(1) that by (intro weight_div_range rem in32_sumWeights) (auto simp: share_input_ok_def)
  then have "inrange 0 (2 ^ 60) ((if c - ?t < 0 then 0 else c - ?t) * of_int64 (fs_Weight i) / of_int64 ?W)"
    if "i \<in> set inputs" "0 < ?W" for i
    by (rule inrange_weaken) (use that in simp_all)
  then show ?thesis
    using g assms(1) by (auto simp: initialShares_def Let_def allot_ok_def newShare_def inrange_0 split del: if_split split: if_splits)
qed


subsection \<open>Tenants that may not burst\<close>

definition no_burst_ok :: "allotment \<Rightarrow> bool" where
  "no_burst_ok a = (\<forall>(i, s) \<in> set a. \<not> fs_Burstable i \<longrightarrow> rs_BurstCores s = 0)"

lemma no_burst_initialShares: "no_burst_ok (initialShares c inputs)"
  by (auto simp: no_burst_ok_def initialShares_def Let_def newShare_def)

lemma no_burst_redistribute: "no_burst_ok a \<Longrightarrow> no_burst_ok (redistribute c r a)"
  by (fastforce simp: no_burst_ok_def redistribute_def Let_def underCap_def split: if_splits)

lemma zero_diff_clamp: "inrange 0 b e \<Longrightarrow> rep b \<Longrightarrow> (if 0 - e < 0 then 0 else 0 - e) = (0 :: f64)"
  using inrange_diff_clamp [of 0 0 b e] rep_0 by (auto simp: inrange_iff zero_Fin)

lemma no_burst_capShare:
  assumes "allot_ok k a" "no_burst_ok a" "inrange 0 (2 ^ 40) c" "48 \<le> k" "k \<le> 900"
  shows "no_burst_ok (map (capShare c) a)"
proof -
  have "rs_BurstCores s' = 0" if "(i, s) \<in> set a" "capShare c (i, s) = (i', s')" "\<not> fs_Burstable i'" for i s i' s'
  proof (cases "excess c (i, s)")
    case None
    then show ?thesis using that assms(2) by (auto simp: capShare_def no_burst_ok_def)
  next
    case (Some e)
    then have "inrange 0 (2 ^ (k + 1)) e" using excess_range [OF assms(1) that(1)] assms by simp
    moreover have "rs_BurstCores s = 0" using that Some assms(2) by (auto simp: capShare_def no_burst_ok_def Let_def)
    ultimately show ?thesis using that(2) Some zero_diff_clamp [of _ e] rep_pow2 [of "k + 1"] assms(5)
      by (auto simp: capShare_def Let_def split: if_splits)
  qed
  then show ?thesis unfolding no_burst_ok_def by (auto simp del: split_paired_All)
qed

lemma no_burst_capRounds:
  assumes "allot_ok k a" "no_burst_ok a" "inrange 0 (2 ^ 40) c" "length a \<le> 2 ^ 20" "48 \<le> k" "k + 32 * n \<le> 700"
  shows "no_burst_ok (capRounds n c a)"
  using assms(1,2,4,5,6)
proof (induction n arbitrary: a k)
  case (Suc n)
  let ?r = "foldl (\<lambda>r e. r + e) 0 (List.map_filter (excess c) a)" and ?a = "map (capShare c) a"
  have nb: "no_burst_ok ?a" using Suc.prems assms(3) by (intro no_burst_capShare) auto
  have "allot_ok (k + 32) (redistribute c ?r ?a)" using Suc.prems assms(3) by (intro round_range) auto
  then have "no_burst_ok (capRounds n c (redistribute c ?r ?a))"
    using Suc.prems nb length_redistribute by (intro Suc.IH [of "k + 32"] no_burst_redistribute) auto
  then show ?case using nb by (simp add: Let_def)
qed simp

subsection \<open>What a share promises\<close>

definition share_ok :: "f64 \<Rightarrow> FairShareInput \<Rightarrow> ResourceShare \<Rightarrow> bool" where
  "share_ok c i s = (rs_Name s = fs_Name i \<and> rs_GuaranteedCores s = guaranteed c i \<and>
     nonneg64 (rs_BurstCores s) \<and> rs_TotalCores s = rs_GuaranteedCores s + rs_BurstCores s \<and>
     rs_GuaranteedCores s \<le> rs_TotalCores s \<and>
     rs_MaxCores s = (if 0 < fs_MaxBurstPercent i then capOf c i else c) \<and>
     (\<not> fs_Burstable i \<longrightarrow> rs_BurstCores s = 0) \<and>
     (0 < fs_MaxBurstPercent i \<longrightarrow> rs_TotalCores s \<le> capOf c i \<or> rs_BurstCores s = 0 \<or>
        rs_BurstCores s = capOf c i - rs_GuaranteedCores s))"

lemma finishShare_ok:
  assumes "share_input_ok i" "rs_Name s = fs_Name i" "rs_GuaranteedCores s = guaranteed c i"
    "inrange 0 (2 ^ 48) (rs_GuaranteedCores s)" "inrange 0 (2 ^ k) (rs_BurstCores s)"
    "\<not> fs_Burstable i \<Longrightarrow> rs_BurstCores s = 0" "inrange 0 (2 ^ 40) c" "48 \<le> k" "k \<le> 900"
  shows "share_ok c i (finishShare c (i, s))"
proof -
  have r: "rep (2 ^ 48)" by (rule rep_pow2) simp
  have cap: "inrange 0 (2 ^ 48) (capOf c i)"
    using assms(1,7) unfolding capOf_def by (intro percent_range) (auto simp: share_input_ok_def)
  let ?d = "if capOf c i - rs_GuaranteedCores s < 0 then 0 else capOf c i - rs_GuaranteedCores s"
  have d: "inrange 0 (2 ^ 48) ?d" using cap assms(4) r r by (rule inrange_diff_clamp)
  have nb: "?d = 0" if lt: "capOf c i < shareTotal s" and nb: "\<not> fs_Burstable i"
  proof -
    have "shareTotal s = rs_GuaranteedCores s"
      using assms(4,6) nb by (auto simp: shareTotal_def inrange_iff zero_Fin rnd_exact)
    then obtain p q where pq: "capOf c i = Fin p" "rs_GuaranteedCores s = Fin q" "p < q" "0 \<le> p" "q \<le> 2 ^ 48"
      using lt cap assms(4) by (auto simp: inrange_iff)
    then have "inrange (- (2 ^ 48)) 0 (capOf c i - rs_GuaranteedCores s)"
      using r by (auto simp: minus_f64_def rep_minus intro!: inrange_rnd)
    then show ?thesis by (auto simp: inrange_iff zero_Fin)
  qed
  show ?thesis
  proof (cases "0 < fs_MaxBurstPercent i \<and> capOf c i < shareTotal s")
    case True
    define s' where "s' = s\<lparr>rs_BurstCores := ?d\<rparr>"
    have "finishShare c (i, s) = s'\<lparr>rs_MaxCores := capOf c i, rs_TotalCores := shareTotal s'\<rparr>"
      using True by (simp add: finishShare_def Let_def s'_def)
    then show ?thesis
      using True assms(2,3,4) d nb inrange_nonneg64 [OF d order_refl] inrange_add_ge [OF assms(4) d]
      by (auto simp: share_ok_def s'_def shareTotal_def)
  next
    case False
    then have "0 < fs_MaxBurstPercent i \<Longrightarrow> shareTotal s \<le> capOf c i"
      using cap shareTotal_range [OF assms(4,5,8,9)] by (auto simp: inrange_iff)
    then show ?thesis
      using False assms inrange_nonneg64 [OF assms(5) order_refl] inrange_add_ge [OF assms(4,5)]
      by (auto simp: share_ok_def finishShare_def Let_def shareTotal_def)
  qed
qed

lemma capped_allotment:
  assumes "inrange 0 (2 ^ 40) c" "length inputs \<le> 2 ^ 20" "\<forall>i \<in> set inputs. share_input_ok i"
  defines "a \<equiv> capRounds 10 c (initialShares c inputs)"
  shows "allot_ok 380 a" "no_burst_ok a" "map fst a = inputs"
    "map fixed_part a = map (\<lambda>i. (fs_Name i, guaranteed c i)) inputs"
proof -
  have i: "allot_ok 60 (initialShares c inputs)" using initialShares_range [OF assms(3,1,2)] .
  have l: "length (initialShares c inputs) \<le> 2 ^ 20" using assms(2) by (simp add: initialShares_def Let_def)
  show "allot_ok 380 a" using capRounds_range [OF i assms(1) l, of 10] by (simp add: a_def)
  show "no_burst_ok a" unfolding a_def
    using no_burst_capRounds [OF i no_burst_initialShares assms(1) l, of 10] by simp
  show "map fst a = inputs" by (simp add: a_def map_fst_capRounds map_fst_initialShares)
  show "map fixed_part a = map (\<lambda>i. (fs_Name i, guaranteed c i)) inputs"
    unfolding a_def fixed_capRounds fixed_initialShares ..
qed

section \<open>Properties\<close>

text \<open>C13. For every cluster of up to \<open>2 ^ 40\<close> cores and admissible tenants the allocation returns one share
  per tenant, in order: its guarantee is exactly the guaranteed percentage of the cluster, the burst part
  is a finite non-negative number, a tenant that may not burst gets none, the total is guarantee plus
  burst and never below the guarantee, and a capped tenant's total is within its cap unless its burst was
  cut to what the cap leaves above the guarantee (or to nothing).\<close>
theorem ComputeFairShares_ok:
  assumes "inrange 0 (2 ^ 40) c" "\<not> c \<le> 0" "length inputs \<le> 2 ^ 20" "\<forall>i \<in> set inputs. share_input_ok i"
  shows "list_all2 (share_ok c) inputs (ComputeFairShares c inputs)"
proof -
  define a where "a = capRounds 10 c (initialShares c inputs)"
  note ca = capped_allotment [OF assms(1,3,4), folded a_def]
  have res: "ComputeFairShares c inputs = map (finishShare c) a"
    using assms(2) ca(3) by (auto simp: ComputeFairShares_def simp flip: a_def)
  have "share_ok c (inputs ! j) (finishShare c (a ! j))" if "j < length a" for j
  proof -
    obtain i s where p: "a ! j = (i, s)" by fastforce
    then have mem: "(i, s) \<in> set a" using that nth_mem by metis
    have len: "length inputs = length a" using ca(3) by auto
    have "inputs ! j = i" using ca(3) that p by auto
    moreover have "rs_Name s = fs_Name i" "rs_GuaranteedCores s = guaranteed c i"
      using arg_cong [OF ca(4), of "\<lambda>l. l ! j"] that p len calculation by simp_all
    moreover note allot_okD [OF ca(1) mem]
    moreover have "\<not> fs_Burstable i \<Longrightarrow> rs_BurstCores s = 0" using ca(2) mem by (auto simp: no_burst_ok_def)
    ultimately show ?thesis unfolding p using assms(1) by (auto intro!: finishShare_ok [where k = 380])
  qed
  moreover have "length inputs = length a" using ca(3) by auto
  ultimately show ?thesis unfolding res by (simp add: list_all2_conv_all_nth)
qed

definition share_a :: FairShareInput where
  "share_a = \<lparr>fs_Name = ''a'', fs_Weight = 1, fs_GuaranteedCoresPercent = 50, fs_Burstable = False,
     fs_MaxBurstPercent = 30, fs_CurrentCores = 0\<rparr>"

definition share_b :: FairShareInput where
  "share_b = \<lparr>fs_Name = ''b'', fs_Weight = 1, fs_GuaranteedCoresPercent = 10, fs_Burstable = True,
     fs_MaxBurstPercent = 0, fs_CurrentCores = 0\<rparr>"

lemma ComputeFairShares_ok_witness:
  "list_all2 (share_ok (lit 100)) [share_a, share_b] (ComputeFairShares (lit 100) [share_a, share_b])"
  by (rule ComputeFairShares_ok)
    (simp_all add: share_input_ok_def share_a_def share_b_def rnd_exact zero_Fin)

text \<open>The cap phase over-commits the cluster when a tenant's guarantee lies above its own cap: the
  tenant cannot give back more than its burst, yet the whole excess counts as reclaimed again in each of the
  ten rounds. With 100 cores, a tenant guaranteed 50 and capped at 30, the other tenant ends with 250.\<close>
theorem ComputeFairShares_overcommits:
  "map rs_TotalCores (ComputeFairShares (lit 100) [share_a, share_b]) = [lit 50, lit 250]"
  by code_simp

end
