(* ===== verification/Global_Solver.thy ===== *)
theory Global_Solver
  imports Fairness "HOL-Library.Sublist"
begin

text \<open>
  The hub's solver, \<open>internal/global/solver.go\<close>, with the policy and cluster types of
  \<open>api/global/v1alpha1\<close> and the directives of \<open>internal/global/grpc/messages.go\<close>. The UUID library is a
  function \<open>uuid\<close> on a world \<open>'w\<close>, the sorting function and the iteration order of maps are arguments.
\<close>

section \<open>Data\<close>

type_synonym TrafficStrategy = string

definition StrategyLatency :: TrafficStrategy where "StrategyLatency = ''latency-optimized''"
definition StrategyCost :: TrafficStrategy where "StrategyCost = ''cost-optimized''"
definition StrategyCarbon :: TrafficStrategy where "StrategyCarbon = ''carbon-optimized''"
definition StrategyBalance :: TrafficStrategy where "StrategyBalance = ''balanced''"

definition ClusterUnreachable :: string where "ClusterUnreachable = ''unreachable''"
definition ClusterHibernating :: string where "ClusterHibernating = ''hibernating''"

lemmas strategy_defs = StrategyLatency_def StrategyCost_def StrategyCarbon_def StrategyBalance_def
lemmas health_defs = ClusterUnreachable_def ClusterHibernating_def

record TrafficShiftingSpec =
  tss_Strategy :: TrafficStrategy
  tss_MaxShiftPerCyclePercent :: int
  tss_MinDestinationSLOPercent :: f64
  tss_RollbackWindowSeconds :: int

record ClusterLifecycleSpec =
  lc_HibernationEnabled :: bool
  lc_MinActiveClusters :: int
  lc_IdleThresholdPercent :: int
  lc_IdleWindowMinutes :: int
  lc_WakeupLeadMinutes :: int
  lc_ExcludedClusters :: "string list"

record GlobalPolicySpec =
  gp_TrafficShifting :: "TrafficShiftingSpec option"
  gp_ClusterLifecycle :: "ClusterLifecycleSpec option"

record ClusterSnapshot =
  cl_Name :: string
  cl_Provider :: string
  cl_Region :: string
  cl_Health :: string
  cl_TotalCores :: f64
  cl_UsedCores :: f64
  cl_TotalMemoryGiB :: f64
  cl_UsedMemoryGiB :: f64
  cl_NodeCount :: int
  cl_SLOCompliancePercent :: f64
  cl_HourlyCostUSD :: f64
  cl_CarbonIntensityGCO2 :: f64
  cl_Labels :: "string \<rightharpoonup> string"
  cl_Excluded :: bool

record ClusterCapacityStatus =
  cap_TotalCores :: f64
  cap_UsedCores :: f64
  cap_TotalMemoryGiB :: f64
  cap_UsedMemoryGiB :: f64
  cap_NodeCount :: int

record ClusterProfile =
  cp_Name :: string
  cp_Provider :: string
  cp_Region :: string
  cp_CarbonIntensityGCO2PerKWh :: f64
  cp_Labels :: "string \<rightharpoonup> string"
  cp_Health :: string
  cp_Capacity :: "ClusterCapacityStatus option"
  cp_SLOCompliancePercent :: f64
  cp_HourlyCostUSD :: f64

datatype DirectiveType = DirectiveTrafficShift | DirectiveMigration | DirectiveHibernate | DirectiveWakeUp | DirectiveNoOp

record MigrationHint =
  mh_Namespace :: string
  mh_Workload :: string
  mh_FromCluster :: string
  mh_ToCluster :: string
  mh_Reason :: string

record Directive =
  dr_ID :: string
  dr_Type :: DirectiveType
  dr_ClusterName :: string
  dr_TrafficWeights :: "string \<rightharpoonup> int"
  dr_MigrationHints :: "MigrationHint list"
  dr_LifecycleAction :: string
  dr_Reason :: string

record GlobalInput =
  gi_Clusters :: "ClusterSnapshot list"
  gi_Policy :: "GlobalPolicySpec option"

record GlobalResult =
  gr_Directives :: "Directive list"
  gr_Summary :: string
  gr_Timestamp :: gotime

record ClusterScore =
  sc_Name :: string
  sc_Latency :: f64
  sc_Cost :: f64
  sc_Carbon :: f64
  sc_SLO :: f64
  sc_Total :: f64

section \<open>Traffic weights\<close>

definition UtilizationPercent :: "ClusterSnapshot \<Rightarrow> f64" where
  "UtilizationPercent c = (if feq (cl_TotalCores c) 0 then 0 else (cl_UsedCores c / cl_TotalCores c) * lit 100)"

definition FreeCores :: "ClusterSnapshot \<Rightarrow> f64" where
  "FreeCores c = cl_TotalCores c - cl_UsedCores c"

definition strategyWeights :: "TrafficStrategy \<Rightarrow> f64 \<times> f64 \<times> f64 \<times> f64" where
  "strategyWeights s =
    (if s = StrategyLatency then (lit (50 / 100), lit (15 / 100), lit (10 / 100), lit (25 / 100))
     else if s = StrategyCost then (lit (10 / 100), lit (50 / 100), lit (15 / 100), lit (25 / 100))
     else if s = StrategyCarbon then (lit (10 / 100), lit (15 / 100), lit (50 / 100), lit (25 / 100))
     else (lit (25 / 100), lit (25 / 100), lit (25 / 100), lit (25 / 100)))"

definition eligibleForTraffic :: "ClusterSnapshot list \<Rightarrow> f64 \<Rightarrow> ClusterSnapshot list" where
  "eligibleForTraffic clusters minSLO =
     filter (\<lambda>c. \<not> (cl_Health c = ClusterHibernating \<or> cl_Health c = ClusterUnreachable) \<and>
                 \<not> (0 < minSLO \<and> cl_SLOCompliancePercent c < minSLO)) clusters"

definition maxOf :: "(ClusterSnapshot \<Rightarrow> f64) \<Rightarrow> ClusterSnapshot list \<Rightarrow> f64" where
  "maxOf f clusters = foldl (\<lambda>m c. if m < f c then f c else m) 0 clusters"

definition scoreCluster :: "TrafficStrategy \<Rightarrow> f64 \<Rightarrow> f64 \<Rightarrow> ClusterSnapshot \<Rightarrow> ClusterScore" where
  "scoreCluster strategy maxCost maxCarbon c =
    (let (wLat, wCost, wCarbon, wSLO) = strategyWeights strategy;
         costNorm = (if 0 < maxCost then 1 - (cl_HourlyCostUSD c / maxCost) else 1);
         carbonNorm = (if 0 < maxCarbon then 1 - (cl_CarbonIntensityGCO2 c / maxCarbon) else 1);
         s = cl_SLOCompliancePercent c / lit 100;
         sloNorm = (if 1 < s then 1 else s);
         latencyNorm = (if 0 < cl_TotalCores c then FreeCores c / cl_TotalCores c else 0) in
     \<lparr>sc_Name = cl_Name c, sc_Latency = latencyNorm, sc_Cost = costNorm, sc_Carbon = carbonNorm, sc_SLO = sloNorm,
      sc_Total = wLat * latencyNorm + wCost * costNorm + wCarbon * carbonNorm + wSLO * sloNorm\<rparr>)"

definition scoreClusters :: "ClusterSnapshot list \<Rightarrow> TrafficStrategy \<Rightarrow> ClusterScore list" where
  "scoreClusters clusters strategy =
     map (scoreCluster strategy (maxOf cl_HourlyCostUSD clusters) (maxOf cl_CarbonIntensityGCO2 clusters)) clusters"

definition rawWeight :: "f64 \<Rightarrow> f64 \<Rightarrow> f64 \<Rightarrow> ClusterScore \<Rightarrow> f64" where
  "rawWeight equalShare maxShift totalScore sc =
    (let proportional = (sc_Total sc / totalScore) * lit 100;
         delta = proportional - equalShare;
         clamped = (if maxShift < delta then maxShift else if delta < - maxShift then - maxShift else delta) in
     equalShare + clamped)"

definition roundWeight :: "f64 \<Rightarrow> int" where
  "roundWeight w = (let r = to_int32 (fround w) in if r < 1 then 1 else r)"

definition sumTotals :: "ClusterScore list \<Rightarrow> f64" where
  "sumTotals scores = foldl (\<lambda>t sc. t + sc_Total sc) 0 scores"

definition bestScore :: "ClusterScore list \<Rightarrow> string" where
  "bestScore scores = fst (foldl (\<lambda>(best, b) sc. if b < sc_Total sc then (sc_Name sc, sc_Total sc) else (best, b))
     (sc_Name (hd scores), sc_Total (hd scores)) (tl scores))"

text \<open>\<open>order\<close> iterates over the map of raw weights.\<close>

definition scoresToWeights :: "string list \<Rightarrow> ClusterScore list \<Rightarrow> int \<Rightarrow> string \<rightharpoonup> int" where
  "scoresToWeights order scores maxShiftPercent =
    (let n = int (length scores);
         totalScore = sumTotals scores in
     if n = 0 then Map.empty
     else if feq totalScore 0 then foldl (\<lambda>m sc. m(sc_Name sc \<mapsto> 100 sdiv n)) Map.empty scores
     else
      let equalShare = lit 100 / of_int64 n;
          m = of_int64 maxShiftPercent;
          maxShift = (if m \<le> 0 then lit 25 else m);
          rawWeights = foldl (\<lambda>r sc. r(sc_Name sc \<mapsto> rawWeight equalShare maxShift totalScore sc)) Map.empty scores;
          (out, total) = foldl (\<lambda>(out, total) name. case rawWeights name of
              None \<Rightarrow> (out, total)
            | Some w \<Rightarrow> (out(name \<mapsto> roundWeight w), wrap32 (total + roundWeight w))) (Map.empty, 0) order in
      if total \<noteq> 100 then
        (let best = bestScore scores in
         out(best \<mapsto> wrap32 ((case out best of Some w \<Rightarrow> w | None \<Rightarrow> 0) + wrap32 (100 - total))))
      else out)"

definition solveTrafficWeights ::
  "('w \<Rightarrow> string \<times> 'w) \<Rightarrow> string list \<Rightarrow> ClusterSnapshot list \<Rightarrow> TrafficShiftingSpec \<Rightarrow> 'w \<Rightarrow> Directive list \<times> 'w"
where
  "solveTrafficWeights uuid order clusters ts w =
    (let strategy = (if tss_Strategy ts = [] then StrategyBalance else tss_Strategy ts);
         eligible = eligibleForTraffic clusters (tss_MinDestinationSLOPercent ts) in
     if length eligible < 2 then ([], w)
     else
      let scores = scoreClusters eligible strategy;
          weights = scoresToWeights order scores (tss_MaxShiftPerCyclePercent ts) in
      if list_all (\<lambda>sc. weights (sc_Name sc) = None) scores then ([], w)
      else
       let (i, w') = uuid w in
       ([\<lparr>dr_ID = i, dr_Type = DirectiveTrafficShift, dr_ClusterName = [], dr_TrafficWeights = weights,
          dr_MigrationHints = [], dr_LifecycleAction = [],
          dr_Reason = ''strategy='' @ strategy @ '' across '' @ fmt_d (int (length eligible)) @ '' clusters''\<rparr>], w'))"

section \<open>Lifecycle\<close>

definition hibernateDirective :: "string \<Rightarrow> ClusterSnapshot \<Rightarrow> f64 \<Rightarrow> int \<Rightarrow> int \<Rightarrow> Directive" where
  "hibernateDirective i c idleThreshold active minActive =
    \<lparr>dr_ID = i, dr_Type = DirectiveHibernate, dr_ClusterName = cl_Name c, dr_TrafficWeights = Map.empty,
     dr_MigrationHints = [], dr_LifecycleAction = ''hibernate'',
     dr_Reason = ''utilization '' @ fmt_f 1 (UtilizationPercent c) @ ''% < threshold '' @ fmt_f 0 idleThreshold @
       ''%, active clusters '' @ fmt_d active @ '' > min '' @ fmt_d minActive\<rparr>"

definition wakeUpDirective :: "string \<Rightarrow> ClusterSnapshot \<Rightarrow> Directive" where
  "wakeUpDirective i c =
    \<lparr>dr_ID = i, dr_Type = DirectiveWakeUp, dr_ClusterName = cl_Name c, dr_TrafficWeights = Map.empty,
     dr_MigrationHints = [], dr_LifecycleAction = ''wake_up'', dr_Reason = ''all active clusters above 80% utilization''\<rparr>"

definition canHibernate :: "string list \<Rightarrow> f64 \<Rightarrow> ClusterSnapshot \<Rightarrow> bool" where
  "canHibernate excluded idleThreshold c = (\<not> (cl_Name c \<in> set excluded \<or> cl_Excluded c) \<and>
     cl_Health c \<noteq> ClusterHibernating \<and> cl_Health c \<noteq> ClusterUnreachable \<and>
     UtilizationPercent c < idleThreshold)"

text \<open>The loop over the sorted clusters; it stops as soon as no more cluster may go.\<close>

fun hibernateLoop ::
  "('w \<Rightarrow> string \<times> 'w) \<Rightarrow> string list \<Rightarrow> f64 \<Rightarrow> int \<Rightarrow> ClusterSnapshot list \<Rightarrow> int \<Rightarrow> 'w \<Rightarrow> Directive list \<times> 'w"
where
  "hibernateLoop uuid excluded idleThreshold minActive [] active w = ([], w)"
| "hibernateLoop uuid excluded idleThreshold minActive (c # cs) active w =
    (if active \<le> minActive then ([], w)
     else if canHibernate excluded idleThreshold c then
       (let (i, w1) = uuid w;
            (ds, w2) = hibernateLoop uuid excluded idleThreshold minActive cs (active - 1) w1 in
        (hibernateDirective i c idleThreshold active minActive # ds, w2))
     else hibernateLoop uuid excluded idleThreshold minActive cs active w)"

definition activeCount :: "ClusterSnapshot list \<Rightarrow> int" where
  "activeCount clusters = int (length (filter (\<lambda>c. cl_Health c \<noteq> ClusterHibernating) clusters))"

definition allHeavy :: "ClusterSnapshot list \<Rightarrow> bool" where
  "allHeavy clusters = list_all (\<lambda>c. cl_Health c = ClusterHibernating \<or> \<not> UtilizationPercent c < lit 80) clusters"

definition idleThresholdOf :: "ClusterLifecycleSpec \<Rightarrow> f64" where
  "idleThresholdOf lc = (let t = of_int64 (lc_IdleThresholdPercent lc) in if t \<le> 0 then lit 10 else t)"

definition minActiveOf :: "ClusterLifecycleSpec \<Rightarrow> int" where
  "minActiveOf lc = (if lc_MinActiveClusters lc \<le> 0 then 1 else lc_MinActiveClusters lc)"

definition wakeTarget :: "ClusterSnapshot list \<Rightarrow> ClusterSnapshot option" where
  "wakeTarget clusters = List.find (\<lambda>c. cl_Health c = ClusterHibernating) clusters"

type_synonym cluster_sort = "(ClusterSnapshot \<Rightarrow> ClusterSnapshot \<Rightarrow> bool) \<Rightarrow> ClusterSnapshot list \<Rightarrow> ClusterSnapshot list"

definition solveLifecycle ::
  "('w \<Rightarrow> string \<times> 'w) \<Rightarrow> cluster_sort \<Rightarrow> ClusterSnapshot list \<Rightarrow> ClusterLifecycleSpec \<Rightarrow> 'w \<Rightarrow> Directive list \<times> 'w"
where
  "solveLifecycle uuid srt clusters lc w =
    (if \<not> lc_HibernationEnabled lc then ([], w)
     else
      let sorted = srt (\<lambda>a b. UtilizationPercent a < UtilizationPercent b) clusters;
          (ds, w1) = hibernateLoop uuid (lc_ExcludedClusters lc) (idleThresholdOf lc) (minActiveOf lc) sorted (activeCount clusters) w in
      if allHeavy clusters then
        (case wakeTarget clusters of
           None \<Rightarrow> (ds, w1)
         | Some c \<Rightarrow> let (i, w2) = uuid w1 in (ds @ [wakeUpDirective i c], w2))
      else (ds, w1))"

section \<open>The solver\<close>

definition countType :: "DirectiveType \<Rightarrow> Directive list \<Rightarrow> nat" where
  "countType ty ds = length (filter (\<lambda>d. dr_Type d = ty) ds)"

definition GlobalSolve ::
  "('w \<Rightarrow> string \<times> 'w) \<Rightarrow> ('w \<Rightarrow> gotime \<times> 'w) \<Rightarrow> cluster_sort \<Rightarrow> string list \<Rightarrow> GlobalInput option \<Rightarrow> 'w \<Rightarrow> GlobalResult \<times> 'w"
where
  "GlobalSolve uuid now srt order input w =
    (let (t, w0) = now w in
     case input of
       None \<Rightarrow> (\<lparr>gr_Directives = [], gr_Summary = ''no clusters'', gr_Timestamp = t\<rparr>, w0)
     | Some i \<Rightarrow>
        if gi_Clusters i = [] then (\<lparr>gr_Directives = [], gr_Summary = ''no clusters'', gr_Timestamp = t\<rparr>, w0)
        else case gi_Policy i of
          None \<Rightarrow> (\<lparr>gr_Directives = [], gr_Summary = ''no policy'', gr_Timestamp = t\<rparr>, w0)
        | Some p \<Rightarrow>
           let (ds1, w1) = (case gp_TrafficShifting p of
                 None \<Rightarrow> ([], w0) | Some ts \<Rightarrow> solveTrafficWeights uuid order (gi_Clusters i) ts w0);
               (ds2, w2) = (case gp_ClusterLifecycle p of
                 None \<Rightarrow> ([], w1)
               | Some lc \<Rightarrow> if lc_HibernationEnabled lc then solveLifecycle uuid srt (gi_Clusters i) lc w1 else ([], w1));
               ds = ds1 @ ds2 in
           (\<lparr>gr_Directives = ds,
             gr_Summary = ''directives: '' @ fmt_d (int (length ds)) @ '' total ('' @
               fmt_d (int (countType DirectiveTrafficShift ds)) @ '' traffic, '' @
               fmt_d (int (countType DirectiveHibernate ds)) @ '' hibernate, '' @
               fmt_d (int (countType DirectiveWakeUp ds)) @ '' wakeup)'',
             gr_Timestamp = t\<rparr>, w2))"

definition SnapshotFromProfile :: "ClusterProfile \<Rightarrow> ClusterSnapshot" where
  "SnapshotFromProfile cp =
    (let snap = \<lparr>cl_Name = cp_Name cp, cl_Provider = cp_Provider cp, cl_Region = cp_Region cp, cl_Health = cp_Health cp,
           cl_TotalCores = 0, cl_UsedCores = 0, cl_TotalMemoryGiB = 0, cl_UsedMemoryGiB = 0, cl_NodeCount = 0,
           cl_SLOCompliancePercent = cp_SLOCompliancePercent cp, cl_HourlyCostUSD = cp_HourlyCostUSD cp,
           cl_CarbonIntensityGCO2 = cp_CarbonIntensityGCO2PerKWh cp, cl_Labels = cp_Labels cp, cl_Excluded = False\<rparr> in
     case cp_Capacity cp of
       None \<Rightarrow> snap
     | Some cap \<Rightarrow> snap\<lparr>cl_TotalCores := cap_TotalCores cap, cl_UsedCores := cap_UsedCores cap,
         cl_TotalMemoryGiB := cap_TotalMemoryGiB cap, cl_UsedMemoryGiB := cap_UsedMemoryGiB cap,
         cl_NodeCount := cap_NodeCount cap\<rparr>)"

section \<open>Library: hibernation\<close>

lemma distinct_subseq: "subseq xs ys \<Longrightarrow> distinct ys \<Longrightarrow> distinct xs"
  by (induction rule: list_emb.induct) (auto dest: list_emb_set)

lemma hibernateLoop_count:
  "hibernateLoop uuid ex t m cs active w = (ds, w') \<Longrightarrow> length ds = 0 \<or> int (length ds) \<le> active - m"
  by (induction uuid ex t m cs active w arbitrary: ds w' rule: hibernateLoop.induct)
    (auto split: if_splits prod.splits, fastforce+)

lemma hibernateLoop_sound:
  "hibernateLoop uuid ex t m cs active w = (ds, w') \<Longrightarrow> d \<in> set ds \<Longrightarrow>
   dr_Type d = DirectiveHibernate \<and> (\<exists>c \<in> set cs. canHibernate ex t c \<and> dr_ClusterName d = cl_Name c)"
  by (induction uuid ex t m cs active w arbitrary: ds w' rule: hibernateLoop.induct)
    (fastforce simp: hibernateDirective_def split: if_splits prod.splits)+

lemma hibernateLoop_names:
  "hibernateLoop uuid ex t m cs active w = (ds, w') \<Longrightarrow>
   subseq (map dr_ClusterName ds) (map cl_Name cs)"
  by (induction uuid ex t m cs active w arbitrary: ds w' rule: hibernateLoop.induct)
    (auto simp: hibernateDirective_def split: if_splits prod.splits)

lemma wakeUpDirective_sel [simp]:
  "dr_Type (wakeUpDirective i c) = DirectiveWakeUp" "dr_ClusterName (wakeUpDirective i c) = cl_Name c"
  by (simp_all add: wakeUpDirective_def)

lemma activeCount_less: "activeCount clusters < int (length clusters) \<longleftrightarrow> wakeTarget clusters \<noteq> None"
proof -
  let ?h = "filter (\<lambda>c. cl_Health c = ClusterHibernating) clusters"
  have "length ?h + length (filter (\<lambda>c. cl_Health c \<noteq> ClusterHibernating) clusters) = length clusters"
    by (rule sum_length_filter_compl)
  then have "activeCount clusters < int (length clusters) \<longleftrightarrow> 0 < length ?h"
    unfolding activeCount_def of_nat_less_iff by linarith
  moreover have "wakeTarget clusters = None \<longleftrightarrow> ?h = []"
    unfolding wakeTarget_def find_None_iff filter_empty_conv by blast
  ultimately show ?thesis by simp
qed

lemma wakeTarget_Some: "wakeTarget clusters = Some c \<Longrightarrow> c \<in> set clusters \<and> cl_Health c = ClusterHibernating"
  unfolding wakeTarget_def find_Some_iff by auto

definition hibernations :: "Directive list \<Rightarrow> Directive list" where
  "hibernations ds = filter (\<lambda>d. dr_Type d = DirectiveHibernate) ds"

definition wakeUps :: "Directive list \<Rightarrow> Directive list" where
  "wakeUps ds = filter (\<lambda>d. dr_Type d = DirectiveWakeUp) ds"

lemma hibernations_loop:
  "hibernateLoop uuid ex t m cs active w = (ds, w') \<Longrightarrow> hibernations ds = ds \<and> wakeUps ds = []"
  using hibernateLoop_sound [of uuid ex t m cs active w ds w']
  by (auto simp: hibernations_def wakeUps_def filter_empty_conv filter_id_conv)

lemma solveLifecycle_parts:
  assumes "solveLifecycle uuid srt clusters lc w = (ds, w')" "lc_HibernationEnabled lc"
  obtains hs w1 where
    "hibernateLoop uuid (lc_ExcludedClusters lc) (idleThresholdOf lc) (minActiveOf lc)
       (srt (\<lambda>a b. UtilizationPercent a < UtilizationPercent b) clusters) (activeCount clusters) w = (hs, w1)"
    "hibernations ds = hs"
    "wakeUps ds = (if allHeavy clusters then (case wakeTarget clusters of
        None \<Rightarrow> [] | Some c \<Rightarrow> [wakeUpDirective (fst (uuid w1)) c]) else [])"
proof -
  obtain hs w1 where h: "hibernateLoop uuid (lc_ExcludedClusters lc) (idleThresholdOf lc) (minActiveOf lc)
       (srt (\<lambda>a b. UtilizationPercent a < UtilizationPercent b) clusters) (activeCount clusters) w = (hs, w1)" by fastforce
  note hh = hibernations_loop [OF h]
  have ds: "ds = hs @ (if allHeavy clusters then (case wakeTarget clusters of
        None \<Rightarrow> [] | Some c \<Rightarrow> [wakeUpDirective (fst (uuid w1)) c]) else [])"
    using assms h by (auto simp: solveLifecycle_def Let_def split: if_splits option.splits prod.splits)
  have "hibernations ds = hibernations hs" "wakeUps ds = wakeUps hs @ (if allHeavy clusters then (case wakeTarget clusters of
        None \<Rightarrow> [] | Some c \<Rightarrow> [wakeUpDirective (fst (uuid w1)) c]) else [])"
    by (cases "wakeTarget clusters"; cases "allHeavy clusters"; simp add: ds hibernations_def wakeUps_def)+
  then show ?thesis using that [OF h] hh by simp
qed

section \<open>Library: weights\<close>

definition cluster_ok :: "ClusterSnapshot \<Rightarrow> bool" where
  "cluster_ok c = (nonneg64 (cl_TotalCores c) \<and> nonneg64 (cl_UsedCores c) \<and> cl_UsedCores c \<le> cl_TotalCores c \<and>
     inrange 0 100 (cl_SLOCompliancePercent c) \<and> nonneg64 (cl_HourlyCostUSD c) \<and> nonneg64 (cl_CarbonIntensityGCO2 c))"

lemma maxOf_ge:
  "(\<And>c. c \<in> set cs \<Longrightarrow> nonneg64 (f c)) \<Longrightarrow> nonneg64 (maxOf f cs) \<and> (\<forall>c \<in> set cs. f c \<le> maxOf f cs)"
proof (induction cs rule: rev_induct)
  case Nil
  show ?case by (simp add: maxOf_def zero_Fin)
next
  case (snoc x xs)
  let ?m = "maxOf f xs"
  have m: "maxOf f (xs @ [x]) = (if ?m < f x then f x else ?m)" by (simp add: maxOf_def)
  have ih: "nonneg64 ?m" "\<And>c. c \<in> set xs \<Longrightarrow> f c \<le> ?m" and fx: "nonneg64 (f x)" using snoc by auto
  have "f x \<le> maxOf f (xs @ [x])" "?m \<le> maxOf f (xs @ [x])"
    using ih(1) fx by (auto simp: m f64_not_less)
  moreover have "nonneg64 (maxOf f (xs @ [x]))" using ih(1) fx by (simp add: m)
  ultimately show ?case using ih(2) f64_le_trans by auto
qed

lemma inverted_unit:
  assumes "nonneg64 x" "x \<le> m" "nonneg64 m"
  shows "unit64 (if 0 < m then 1 - x / m else 1)"
  using assms by (auto simp: zero_Fin intro!: unit64_one_minus unit64_div inrange_1)

lemma latency_unit:
  assumes "nonneg64 t" "nonneg64 u" "u \<le> t"
  shows "unit64 (if 0 < t then (t - u) / t else 0)"
proof (cases "0 < t")
  case True
  obtain r where r: "t = Fin r" "rep r" "0 < r" using assms(1) True by (auto simp: zero_Fin)
  have "inrange 0 r (t - u)" using assms r by (intro inrange_diff_le) auto
  then show ?thesis using r True by (auto simp: zero_Fin dest!: inrange_less_eq intro!: unit64_div)
qed (simp add: inrange_0)

lemma slo_unit:
  assumes "inrange 0 100 x"
  shows "unit64 (if 1 < x / lit 100 then 1 else x / lit 100)"
proof -
  have "inrange 0 100 (x / lit 100)" using assms by (intro inrange_div_ge1 [where d = 100]) (auto simp: rnd_exact)
  then show ?thesis by (auto simp: inrange_iff one_Fin)
qed

lemma strategyWeights_unit:
  "strategyWeights s = (a, b, c, d) \<Longrightarrow> unit64 a \<and> unit64 b \<and> unit64 c \<and> unit64 d"
  by (auto simp: strategyWeights_def split: if_splits intro!: inrange_rnd)

lemma sum4_range:
  assumes "unit64 a" "unit64 b" "unit64 c" "unit64 d"
  shows "inrange 0 4 (a + b + c + d)"
proof -
  have "inrange (0 + 0) (1 + 1) (a + b)" using assms by (intro inrange_add) simp_all
  then have "inrange (0 + 0) (2 + 1) (a + b + c)" using assms by (intro inrange_add) simp_all
  then have "inrange (0 + 0) (3 + 1) (a + b + c + d)" using assms by (intro inrange_add) simp_all
  then show ?thesis by simp
qed

lemma scoreCluster_range:
  assumes "cluster_ok c" "cl_HourlyCostUSD c \<le> mc" "cl_CarbonIntensityGCO2 c \<le> mk" "nonneg64 mc" "nonneg64 mk"
  shows "inrange 0 4 (sc_Total (scoreCluster s mc mk c))"
proof -
  obtain wl wc wk ws where w: "strategyWeights s = (wl, wc, wk, ws)" by (metis prod_cases4)
  note u = strategyWeights_unit [OF w]
  have "sc_Total (scoreCluster s mc mk c) =
      wl * (if 0 < cl_TotalCores c then (cl_TotalCores c - cl_UsedCores c) / cl_TotalCores c else 0) +
      wc * (if 0 < mc then 1 - cl_HourlyCostUSD c / mc else 1) +
      wk * (if 0 < mk then 1 - cl_CarbonIntensityGCO2 c / mk else 1) +
      ws * (if 1 < cl_SLOCompliancePercent c / lit 100 then 1 else cl_SLOCompliancePercent c / lit 100)"
    by (simp add: scoreCluster_def w Let_def FreeCores_def)
  also have "inrange 0 4 \<dots>"
    using assms u
    by (intro sum4_range unit64_mult inverted_unit latency_unit slo_unit) (simp_all add: cluster_ok_def)
  finally show ?thesis .
qed

lemma scoreClusters_range:
  assumes "\<And>c. c \<in> set cs \<Longrightarrow> cluster_ok c" "sc \<in> set (scoreClusters cs s)"
  shows "inrange 0 4 (sc_Total sc)"
proof -
  obtain c where c: "c \<in> set cs" "sc = scoreCluster s (maxOf cl_HourlyCostUSD cs) (maxOf cl_CarbonIntensityGCO2 cs) c"
    using assms(2) by (auto simp: scoreClusters_def)
  have "nonneg64 (maxOf cl_HourlyCostUSD cs) \<and> (\<forall>c \<in> set cs. cl_HourlyCostUSD c \<le> maxOf cl_HourlyCostUSD cs)"
    using assms(1) by (intro maxOf_ge) (auto simp: cluster_ok_def)
  moreover have "nonneg64 (maxOf cl_CarbonIntensityGCO2 cs) \<and>
      (\<forall>c \<in> set cs. cl_CarbonIntensityGCO2 c \<le> maxOf cl_CarbonIntensityGCO2 cs)"
    using assms(1) by (intro maxOf_ge) (auto simp: cluster_ok_def)
  ultimately show ?thesis unfolding c(2) using assms(1) c(1) by (intro scoreCluster_range) blast+
qed

lemma scoreClusters_names: "map sc_Name (scoreClusters cs s) = map cl_Name cs"
  by (simp add: scoreClusters_def scoreCluster_def Let_def split: prod.split)

text \<open>No summand exceeds the sum, and the proportional weights stay in bounds.\<close>

lemma sumTotals_ge:
  assumes "\<And>sc. sc \<in> set scores \<Longrightarrow> inrange 0 4 (sc_Total sc)" "length scores \<le> 2 ^ 20"
  shows "inrange 0 (2 ^ 22) (sumTotals scores) \<and> (\<forall>sc \<in> set scores. sc_Total sc \<le> sumTotals scores)"
  using assms
proof (induction scores rule: rev_induct)
  case Nil
  show ?case by (simp add: sumTotals_def zero_Fin)
next
  case (snoc x xs)
  have s: "sumTotals (xs @ [x]) = sumTotals xs + sc_Total x" by (simp add: sumTotals_def)
  have r: "inrange 0 (2 ^ 22) (sumTotals (xs @ [x]))"
    using sum_nonneg_ge [of "xs @ [x]" 2 sc_Total] snoc.prems unfolding sumTotals_def by simp
  have x: "inrange 0 4 (sc_Total x)" using snoc.prems by simp
  have ih: "inrange 0 (2 ^ 22) (sumTotals xs)" "\<And>sc. sc \<in> set xs \<Longrightarrow> sc_Total sc \<le> sumTotals xs"
    using snoc by auto
  have "sumTotals xs \<le> sumTotals xs + sc_Total x" "sc_Total x \<le> sumTotals xs + sc_Total x"
    using ih(1) x fadd_ge_left by (auto simp: inrange_iff add.commute) (metis add.commute)+
  then show ?case using r ih(2) unfolding s by (auto intro: f64_le_trans)
qed

lemma rawWeight_range:
  assumes "inrange 0 100 e" "Fin 0 < m" "inrange 0 4 (sc_Total sc)" "sc_Total sc \<le> t" "inrange 0 (2 ^ 22) t" "\<not> feq t 0"
    "inrange 0 (2 ^ 31) m"
  shows "inrange (- 100) 200 (rawWeight e m t sc)"
proof -
  define p where "p = (sc_Total sc / t) * lit 100"
  have "unit64 (sc_Total sc / t)"
    using assms(3-6) by (intro unit64_div) (auto simp: inrange_iff feq_iff zero_Fin)
  then have "inrange 0 (1 * 100) p" unfolding p_def by (intro inrange_mult) (simp_all add: rnd_exact)
  then have d: "inrange (0 - 100) (100 - 0) (p - e)" using assms(1) by (intro inrange_diff) simp_all
  define c where "c = (if m < p - e then m else if p - e < - m then - m else p - e)"
  have "inrange (- 100) 100 c" using d assms(2,7) unfolding c_def by (auto simp: inrange_iff)
  then have "inrange (0 + - 100) (100 + 100) (e + c)" using assms(1) by (intro inrange_add) simp_all
  moreover have "rawWeight e m t sc = e + c" unfolding rawWeight_def Let_def c_def p_def ..
  ultimately show ?thesis by simp
qed

lemma roundWeight_range: "inrange (- 100) 200 w \<Longrightarrow> 1 \<le> roundWeight w \<and> roundWeight w \<le> 200"
  using round_rat_bounds [of "- 100" _ 200]
  by (auto simp: inrange_iff roundWeight_def Let_def in32_def)

lemma wrap32_add_left: "wrap32 (wrap32 t + x) = wrap32 (t + x)"
  by (simp add: wrap32_def mod_simps add_ac)

lemma round_loop:
  assumes "distinct ks" "set ks \<subseteq> dom raw"
  shows "foldl (\<lambda>(out, total) name. case raw name of None \<Rightarrow> (out, total)
      | Some w \<Rightarrow> (out(name \<mapsto> f w), wrap32 (total + f w))) (out, wrap32 t) ks =
    (\<lambda>n. if n \<in> set ks then map_option f (raw n) else out n, wrap32 (t + (\<Sum>n \<in> set ks. f (the (raw n)))))"
  using assms
proof (induction ks arbitrary: out t)
  case (Cons k ks)
  obtain w where w: "raw k = Some w" using Cons.prems by auto
  have "foldl (\<lambda>(out, total) name. case raw name of None \<Rightarrow> (out, total)
      | Some w \<Rightarrow> (out(name \<mapsto> f w), wrap32 (total + f w))) (out, wrap32 t) (k # ks) =
    (\<lambda>n. if n \<in> set ks then map_option f (raw n) else (out(k \<mapsto> f w)) n, wrap32 (t + f w + (\<Sum>n \<in> set ks. f (the (raw n)))))"
    using Cons w by (simp add: wrap32_add_left)
  moreover have "(\<Sum>n \<in> set (k # ks). f (the (raw n))) = f w + (\<Sum>n \<in> set ks. f (the (raw n)))"
    using Cons.prems(1) w by simp
  ultimately show ?case using w by (auto simp: fun_eq_iff add.assoc)
qed simp

lemma foldl_upd_dom: "dom (foldl (\<lambda>r x. r(g x \<mapsto> h x)) r0 xs) = g ` set xs \<union> dom r0"
  by (induction xs rule: rev_induct) (simp_all add: insert_commute del: fun_upd_apply)

lemma foldl_upd_val:
  "distinct (map g xs) \<Longrightarrow> x \<in> set xs \<Longrightarrow> foldl (\<lambda>r x. r(g x \<mapsto> h x)) r0 xs (g x) = Some (h x)"
  by (induction xs rule: rev_induct) (auto simp: image_iff)

lemma bestScore_in: "scores \<noteq> [] \<Longrightarrow> bestScore scores \<in> sc_Name ` set scores"
proof -
  assume ne: "scores \<noteq> []"
  have "fst (foldl (\<lambda>(best, b) sc. if b < sc_Total sc then (sc_Name sc, sc_Total sc) else (best, b)) (n, t) xs)
      \<in> insert n (sc_Name ` set xs)" for n t xs
    by (induction xs arbitrary: n t) auto
  from this [of "sc_Name (hd scores)" "sc_Total (hd scores)" "tl scores"]
  show ?thesis using ne by (cases scores) (auto simp: bestScore_def)
qed

text \<open>Adjusting one entry of a finite map by what is missing.\<close>

lemma sum_adjust:
  assumes "finite A" "b \<in> A"
  shows "(\<Sum>n \<in> A. if n = b then f n + d else (f n :: int)) = (\<Sum>n \<in> A. f n) + d"
proof -
  have "(\<Sum>n \<in> A - {b}. if n = b then f n + d else f n) = (\<Sum>n \<in> A - {b}. f n)" by (intro sum.cong) auto
  then show ?thesis
    unfolding sum.remove [OF assms, of "\<lambda>n. if n = b then f n + d else f n"] sum.remove [OF assms, of f] by simp
qed

definition weights_ok :: "ClusterScore list \<Rightarrow> (string \<rightharpoonup> int) \<Rightarrow> bool" where
  "weights_ok scores weights = (dom weights = sc_Name ` set scores \<and>
     (if feq (sumTotals scores) 0 then (\<Sum>n \<in> dom weights. the (weights n)) = int (length scores) * (100 div int (length scores))
      else (\<Sum>n \<in> dom weights. the (weights n)) = 100 \<and>
        (\<forall>n \<in> dom weights. n = bestScore scores \<or> 1 \<le> the (weights n))))"

lemma scoresToWeights_zero:
  assumes "feq (sumTotals scores) 0" "scores \<noteq> []" "distinct (map sc_Name scores)"
  shows "weights_ok scores (scoresToWeights order scores m)"
proof -
  let ?w = "foldl (\<lambda>m sc. m(sc_Name sc \<mapsto> 100 sdiv int (length scores))) Map.empty scores"
  have w: "scoresToWeights order scores m = ?w" using assms by (simp add: scoresToWeights_def Let_def)
  have d: "dom ?w = sc_Name ` set scores" by (simp add: foldl_upd_dom)
  have "the (?w n) = 100 div int (length scores)" if "n \<in> dom ?w" for n
    using that foldl_upd_val [OF assms(3), of _ "\<lambda>_. 100 sdiv int (length scores)" Map.empty] assms(2)
    unfolding d by (auto simp del: fun_upd_apply)
  then have "(\<Sum>n \<in> dom ?w. the (?w n)) = (\<Sum>n \<in> dom ?w. 100 div int (length scores))" by (intro sum.cong) auto
  also have "card (dom ?w) = length scores" unfolding d using assms(3) by (metis distinct_card length_map set_map)
  then have "(\<Sum>n \<in> dom ?w. 100 div int (length scores)) = int (length scores) * (100 div int (length scores))" by simp
  finally show ?thesis using assms(1) d unfolding w weights_ok_def by simp
qed

lemma equalShare_range:
  assumes "scores \<noteq> []" "length scores \<le> 2 ^ 20"
  shows "inrange 0 100 (lit 100 / of_int64 (int (length scores)))"
proof (rule inrange_div_ge1)
  show "inrange 1 (2 ^ 20) (of_int64 (int (length scores)))"
    using assms rep_of_int [of "int (length scores)"] by (cases scores) (simp_all add: of_int64_exact)
qed (simp_all add: rnd_exact)

lemma scoresToWeights_pos:
  assumes "\<not> feq (sumTotals scores) 0" "scores \<noteq> []" "distinct (map sc_Name scores)" "length scores \<le> 2 ^ 20"
    "\<And>sc. sc \<in> set scores \<Longrightarrow> inrange 0 4 (sc_Total sc)"
    "distinct order" "set order = sc_Name ` set scores" "in32 m"
  shows "weights_ok scores (scoresToWeights order scores m)"
proof -
  define e where "e = lit 100 / of_int64 (int (length scores))"
  define ms where "ms = (if of_int64 m \<le> 0 then lit 25 else of_int64 m)"
  define raw where "raw = foldl (\<lambda>r sc. r(sc_Name sc \<mapsto> rawWeight e ms (sumTotals scores) sc)) Map.empty scores"
  define A where "A = sc_Name ` set scores"
  define g where "g n = roundWeight (the (raw n))" for n
  define total where "total = (\<Sum>n \<in> A. g n)"
  have fin: "finite A" and best: "bestScore scores \<in> A" using bestScore_in assms(2) by (simp_all add: A_def)
  have m: "of_int64 m = Fin (of_int m)" "rep (of_int m)"
    using assms(8) rep_of_int [of m] by (auto simp: in32_def of_int64_exact)
  have ms: "Fin 0 < ms" "inrange 0 (2 ^ 31) ms"
    using assms(8) m by (auto simp: ms_def zero_Fin rnd_exact in32_def)
  have domraw: "dom raw = A" by (simp add: raw_def A_def foldl_upd_dom)
  have sums: "inrange 0 (2 ^ 22) (sumTotals scores)" "\<And>sc. sc \<in> set scores \<Longrightarrow> sc_Total sc \<le> sumTotals scores"
    using sumTotals_ge [OF assms(5,4)] by auto
  have g: "1 \<le> g n \<and> g n \<le> 200" if n: "n \<in> A" for n
  proof -
    obtain sc where sc: "sc \<in> set scores" "n = sc_Name sc" using n by (auto simp: A_def)
    have "raw n = Some (rawWeight e ms (sumTotals scores) sc)"
      unfolding raw_def sc(2) by (rule foldl_upd_val [OF assms(3) sc(1)])
    moreover have "inrange (- 100) 200 (rawWeight e ms (sumTotals scores) sc)"
      using equalShare_range [OF assms(2,4)] ms sums assms(1,5) sc(1) by (intro rawWeight_range) (auto simp: e_def)
    ultimately show ?thesis using roundWeight_range by (simp add: g_def)
  qed
  have "total \<le> (\<Sum>n \<in> A. 200)" unfolding total_def by (intro sum_mono) (use g in auto)
  moreover have "card A \<le> 2 ^ 20" using assms(4) card_image_le [of "set scores" sc_Name] card_length [of scores]
    by (simp add: A_def)
  moreover have "0 \<le> total" unfolding total_def by (intro sum_nonneg) (use g in force)
  ultimately have total: "in32 total" "0 \<le> total" "total \<le> 209715200" by (auto simp: in32_def)
  let ?out = "\<lambda>n. if n \<in> set order then map_option roundWeight (raw n) else Map.empty n"
  have out: "?out n = (if n \<in> A then Some (g n) else None)" for n
  proof -
    have "n \<in> A \<Longrightarrow> \<exists>z. raw n = Some z" using domraw by auto
    then show ?thesis using assms(7) by (auto simp: g_def simp flip: A_def)
  qed
  have loop: "foldl (\<lambda>(out, total) name. case raw name of None \<Rightarrow> (out, total)
      | Some w \<Rightarrow> (out(name \<mapsto> roundWeight w), wrap32 (total + roundWeight w))) (Map.empty, 0) order = (?out, total)"
    using round_loop [OF assms(6), of raw roundWeight Map.empty 0] total(1) domraw assms(7)
    by (simp add: A_def total_def g_def wrap_simps in32_def [of 0])
  have best_in32: "wrap32 (g (bestScore scores) + wrap32 (100 - total)) = g (bestScore scores) + (100 - total)"
    using g [OF best] total by (simp add: wrap_simps in32_def)
  have w: "scoresToWeights order scores m = (\<lambda>n. if n \<in> A then Some (if n = bestScore scores then g n + (100 - total) else g n) else None)"
  proof -
    have "scoresToWeights order scores m = (if total \<noteq> 100 then ?out(bestScore scores \<mapsto>
        wrap32 ((case ?out (bestScore scores) of Some w \<Rightarrow> w | None \<Rightarrow> 0) + wrap32 (100 - total))) else ?out)"
      using assms(1,2) loop by (simp add: scoresToWeights_def Let_def e_def ms_def raw_def)
    then show ?thesis using best best_in32 unfolding out by (auto simp: fun_eq_iff)
  qed
  have "dom (scoresToWeights order scores m) = A" unfolding w by (auto simp: dom_def)
  moreover have "(\<Sum>n \<in> A. the (scoresToWeights order scores m n)) = (\<Sum>n \<in> A. if n = bestScore scores then g n + (100 - total) else g n)"
    unfolding w by (intro sum.cong) auto
  moreover have "\<dots> = 100" using sum_adjust [OF fin best, of g "100 - total"] by (simp add: total_def)
  moreover have "n = bestScore scores \<or> 1 \<le> the (scoresToWeights order scores m n)" if "n \<in> A" for n
    using that g unfolding w by auto
  ultimately show ?thesis using assms(1) unfolding weights_ok_def A_def by simp
qed

section \<open>Properties\<close>


definition demo_cluster :: ClusterSnapshot where
  "demo_cluster = \<lparr>cl_Name = ''edge'', cl_Provider = ''aws'', cl_Region = ''eu'', cl_Health = ''healthy'',
     cl_TotalCores = lit 64, cl_UsedCores = lit 2, cl_TotalMemoryGiB = lit 256, cl_UsedMemoryGiB = lit 8,
     cl_NodeCount = 4, cl_SLOCompliancePercent = lit 99, cl_HourlyCostUSD = lit 3, cl_CarbonIntensityGCO2 = lit 200,
     cl_Labels = Map.empty, cl_Excluded = False\<rparr>"

definition lost_cluster :: ClusterSnapshot where
  "lost_cluster = demo_cluster\<lparr>cl_Name := ''lost'', cl_Health := ClusterUnreachable, cl_UsedCores := lit 50\<rparr>"

definition demo_lifecycle :: ClusterLifecycleSpec where
  "demo_lifecycle = \<lparr>lc_HibernationEnabled = True, lc_MinActiveClusters = 1, lc_IdleThresholdPercent = 10,
     lc_IdleWindowMinutes = 30, lc_WakeupLeadMinutes = 15, lc_ExcludedClusters = []\<rparr>"


text \<open>The minimum counts every cluster that is not hibernating, unreachable ones included: with one cluster
  lost and one idle, and a minimum of one, the pass hibernates the only cluster that still answers.\<close>
theorem solveLifecycle_last_reachable:
  "map dr_ClusterName (fst (solveLifecycle (\<lambda>w. (''id'', w)) isort [demo_cluster, lost_cluster] demo_lifecycle ()))
   = [''edge'']"
  by code_simp

text \<open>The traffic directive: for clusters with plausible figures and any map iteration order, it goes exactly
  to the clusters that are neither hibernating nor unreachable and meet the SLO minimum, of which there are at
  least two; the weights add up to 100 and every cluster but the best-scored one gets at least 1. Only when all
  scores are zero are the weights equal shares rounded down.\<close>
theorem solveTrafficWeights_ok:
  assumes "list_all cluster_ok clusters" "distinct (map cl_Name clusters)" "length clusters \<le> 2 ^ 20"
    "in32 (tss_MaxShiftPerCyclePercent ts)"
    "distinct order" "set order = cl_Name ` set (eligibleForTraffic clusters (tss_MinDestinationSLOPercent ts))"
    "solveTrafficWeights uuid order clusters ts w = (ds, w')" "d \<in> set ds"
  shows "weights_ok (scoreClusters (eligibleForTraffic clusters (tss_MinDestinationSLOPercent ts))
      (if tss_Strategy ts = [] then StrategyBalance else tss_Strategy ts)) (dr_TrafficWeights d) \<and>
    dr_Type d = DirectiveTrafficShift \<and> 2 \<le> length (eligibleForTraffic clusters (tss_MinDestinationSLOPercent ts)) \<and>
    dom (dr_TrafficWeights d) = cl_Name ` {c \<in> set clusters. cl_Health c \<noteq> ClusterHibernating \<and> cl_Health c \<noteq> ClusterUnreachable \<and>
      \<not> (0 < tss_MinDestinationSLOPercent ts \<and> cl_SLOCompliancePercent c < tss_MinDestinationSLOPercent ts)}"
proof -
  define el where "el = eligibleForTraffic clusters (tss_MinDestinationSLOPercent ts)"
  define st where "st = (if tss_Strategy ts = [] then StrategyBalance else tss_Strategy ts)"
  let ?sc = "scoreClusters el st"
  have d: "dr_TrafficWeights d = scoresToWeights order ?sc (tss_MaxShiftPerCyclePercent ts)"
    "dr_Type d = DirectiveTrafficShift" "2 \<le> length el"
    using assms(7,8) unfolding solveTrafficWeights_def Let_def el_def [symmetric] st_def [symmetric]
    by (auto split: if_splits prod.splits)
  have names: "map sc_Name ?sc = map cl_Name el" by (rule scoreClusters_names)
  have sel: "set el \<subseteq> set clusters" by (auto simp: el_def eligibleForTraffic_def)
  have "distinct (map cl_Name el)" using assms(2) by (auto simp: el_def eligibleForTraffic_def distinct_map_filter)
  then have dist: "distinct (map sc_Name ?sc)" using names by simp
  have len: "length ?sc \<le> 2 ^ 20" "?sc \<noteq> []"
    using assms(3) d(3) order_trans [OF length_filter_le] by (auto simp: scoreClusters_def el_def eligibleForTraffic_def)
  have rng: "inrange 0 4 (sc_Total sc)" if "sc \<in> set ?sc" for sc
    using that assms(1) sel by (intro scoreClusters_range) (auto simp: list_all_iff)
  have "set order = sc_Name ` set ?sc" using assms(6) names unfolding el_def [symmetric] by (metis set_map)
  then have ok: "weights_ok ?sc (dr_TrafficWeights d)"
    unfolding d(1) using scoresToWeights_zero scoresToWeights_pos dist len rng assms(4,5) by blast
  have "dom (dr_TrafficWeights d) = cl_Name ` set el"
    using ok names unfolding weights_ok_def by (metis set_map)
  moreover have "set el = {c \<in> set clusters. cl_Health c \<noteq> ClusterHibernating \<and> cl_Health c \<noteq> ClusterUnreachable \<and>
      \<not> (0 < tss_MinDestinationSLOPercent ts \<and> cl_SLOCompliancePercent c < tss_MinDestinationSLOPercent ts)}"
    by (auto simp: el_def eligibleForTraffic_def)
  ultimately show ?thesis using ok d(2,3) unfolding el_def [symmetric] st_def [symmetric] by blast
qed

definition demo_traffic :: TrafficShiftingSpec where
  "demo_traffic = \<lparr>tss_Strategy = StrategyCost, tss_MaxShiftPerCyclePercent = 20, tss_MinDestinationSLOPercent = lit 95,
     tss_RollbackWindowSeconds = 300\<rparr>"

definition core_cluster :: ClusterSnapshot where
  "core_cluster = demo_cluster\<lparr>cl_Name := ''core'', cl_UsedCores := lit 40, cl_HourlyCostUSD := lit 9\<rparr>"

lemma solveTrafficWeights_ok_witness:
  "case solveTrafficWeights (\<lambda>w. (''id'', w)) [''core'', ''edge''] [demo_cluster, core_cluster] demo_traffic () of
     (ds, w') \<Rightarrow> ds \<noteq> [] \<and> dom (dr_TrafficWeights (hd ds)) = {''edge'', ''core''}"
proof -
  obtain ds w' where r: "solveTrafficWeights (\<lambda>w. (''id'', w)) [''core'', ''edge''] [demo_cluster, core_cluster] demo_traffic () = (ds, w')"
    by (metis surj_pair)
  have el: "eligibleForTraffic [demo_cluster, core_cluster] (lit 95) = [demo_cluster, core_cluster]"
    by (simp add: eligibleForTraffic_def demo_cluster_def core_cluster_def health_defs rnd_exact)
  have ne: "ds \<noteq> []"
  proof -
    have "length (fst (solveTrafficWeights (\<lambda>w. (''id'', w)) [''core'', ''edge''] [demo_cluster, core_cluster] demo_traffic ())) = 1"
      by code_simp
    then show ?thesis using r by auto
  qed
  have ok: "list_all cluster_ok [demo_cluster, core_cluster]"
    by (simp add: cluster_ok_def demo_cluster_def core_cluster_def rnd_exact)
  have d: "distinct (map cl_Name [demo_cluster, core_cluster])" by (simp add: demo_cluster_def core_cluster_def)
  have "weights_ok (scoreClusters [demo_cluster, core_cluster] StrategyCost) (dr_TrafficWeights (hd ds))"
    using solveTrafficWeights_ok [OF ok d _ _ _ _ r hd_in_set [OF ne]] el
    by (auto simp: demo_traffic_def demo_cluster_def core_cluster_def in32_def StrategyCost_def)
  then have "dom (dr_TrafficWeights (hd ds)) = {''edge'', ''core''}"
    by (auto simp: weights_ok_def scoreClusters_def scoreCluster_def Let_def demo_cluster_def core_cluster_def split: prod.splits)
  then show ?thesis using r ne by simp
qed

end
