(* ===== verification/Lifecycle.thy ===== *)
theory Lifecycle
  imports Global_Solver
begin

text \<open>
  Hibernation and wake-up of clusters, \<open>internal/global/lifecycle.go\<close>. The node-pool scaler, the drainer,
  the demand forecaster and the tenant locator are interfaces that the deployment implements: functions on
  a world \<open>'w\<close> that may fail. \<open>executeHibernate\<close> and \<open>executeWakeUp\<close> hold the lock only around their
  updates of the state map, so their critical sections are definitions of their own, from which both the
  whole operation and the interleaved steps are composed.
\<close>

section \<open>Data\<close>

datatype LifecycleState = StateActive | StateDraining | StateHibernating | StateWaking

record idleRecord =
  ir_idleSince :: gotime
  ir_idle :: bool

record LifecycleManager =
  lm_states :: "string \<rightharpoonup> LifecycleState"
  lm_idleTracker :: "string \<rightharpoonup> idleRecord"
  lm_mgmtCluster :: string
  lm_idleWindowDur :: duration
  lm_wakeupLeadTime :: duration

record 'w LifecycleDeps =
  ScaleToZero :: "string \<Rightarrow> 'w \<Rightarrow> string option \<times> 'w"
  ScaleUp :: "string \<Rightarrow> 'w \<Rightarrow> string option \<times> 'w"
  Drain :: "(string \<Rightarrow> 'w \<Rightarrow> string option \<times> 'w) option"
  ForecastDemand :: "(string \<Rightarrow> duration \<Rightarrow> 'w \<Rightarrow> (string + bool) \<times> 'w) option"
  IsSoleLocationForAnyTenant :: "(string \<Rightarrow> 'w \<Rightarrow> (string + bool) \<times> 'w) option"

datatype lifecycle_error =
    ErrUnsupportedDirective DirectiveType
  | ErrManagementCluster string
  | ErrTenantCheck string string
  | ErrSoleLocation string
  | ErrDrain string string
  | ErrScaleToZero string string
  | ErrScaleUp string string

definition NewLifecycleManager :: LifecycleManager where
  "NewLifecycleManager = \<lparr>lm_states = Map.empty, lm_idleTracker = Map.empty, lm_mgmtCluster = [],
     lm_idleWindowDur = 30 * minute, lm_wakeupLeadTime = 15 * minute\<rparr>"

definition WithManagementCluster :: "string \<Rightarrow> LifecycleManager \<Rightarrow> LifecycleManager" where
  "WithManagementCluster name m = m\<lparr>lm_mgmtCluster := name\<rparr>"

definition WithIdleWindow :: "duration \<Rightarrow> LifecycleManager \<Rightarrow> LifecycleManager" where
  "WithIdleWindow d m = m\<lparr>lm_idleWindowDur := d\<rparr>"

definition WithWakeupLead :: "duration \<Rightarrow> LifecycleManager \<Rightarrow> LifecycleManager" where
  "WithWakeupLead d m = m\<lparr>lm_wakeupLeadTime := d\<rparr>"

definition LifecycleClusterState :: "LifecycleManager \<Rightarrow> string \<Rightarrow> LifecycleState" where
  "LifecycleClusterState m name = (case lm_states m name of Some s \<Rightarrow> s | None \<Rightarrow> StateActive)"

section \<open>Directives\<close>

definition setState :: "string \<Rightarrow> LifecycleState \<Rightarrow> LifecycleManager \<Rightarrow> LifecycleManager" where
  "setState name s m = m\<lparr>lm_states := (lm_states m)(name \<mapsto> s)\<rparr>"

text \<open>The guarded section at the start of each operation; \<open>None\<close> when there is nothing to do.\<close>

definition beginHibernate :: "string \<Rightarrow> LifecycleManager \<Rightarrow> LifecycleManager option" where
  "beginHibernate name m =
    (if lm_states m name = Some StateHibernating \<or> lm_states m name = Some StateDraining then None
     else Some (setState name StateDraining m))"

definition beginWakeUp :: "string \<Rightarrow> LifecycleManager \<Rightarrow> LifecycleManager option" where
  "beginWakeUp name m =
    (if lm_states m name = Some StateActive \<or> lm_states m name = Some StateWaking \<or> lm_states m name = None then None
     else Some (setState name StateWaking m))"

definition clearIdle :: "string \<Rightarrow> LifecycleManager \<Rightarrow> LifecycleManager" where
  "clearIdle name m = m\<lparr>lm_idleTracker := (lm_idleTracker m)(name := None)\<rparr>"

text \<open>The calls between the sections, in their order, up to the first that refuses.\<close>

definition tenantCheck :: "'w LifecycleDeps \<Rightarrow> string \<Rightarrow> 'w \<Rightarrow> lifecycle_error option \<times> 'w" where
  "tenantCheck deps name w = (case IsSoleLocationForAnyTenant deps of
     None \<Rightarrow> (None, w)
   | Some sole \<Rightarrow> (case sole name w of
       (Inl e, w') \<Rightarrow> (Some (ErrTenantCheck name e), w')
     | (Inr b, w') \<Rightarrow> (if b then Some (ErrSoleLocation name) else None, w')))"

definition drainCluster :: "'w LifecycleDeps \<Rightarrow> string \<Rightarrow> 'w \<Rightarrow> lifecycle_error option \<times> 'w" where
  "drainCluster deps name w = (case Drain deps of
     None \<Rightarrow> (None, w)
   | Some drain \<Rightarrow> (case drain name w of (e, w') \<Rightarrow> (map_option (ErrDrain name) e, w')))"

definition hibernateCalls :: "'w LifecycleDeps \<Rightarrow> string \<Rightarrow> 'w \<Rightarrow> lifecycle_error option \<times> 'w" where
  "hibernateCalls deps name w =
    (case tenantCheck deps name w of
       (Some e, w1) \<Rightarrow> (Some e, w1)
     | (None, w1) \<Rightarrow> (case drainCluster deps name w1 of
         (Some e, w2) \<Rightarrow> (Some e, w2)
       | (None, w2) \<Rightarrow> (case ScaleToZero deps name w2 of (e, w3) \<Rightarrow> (map_option (ErrScaleToZero name) e, w3))))"

definition executeHibernate ::
  "'w LifecycleDeps \<Rightarrow> string \<Rightarrow> LifecycleManager \<Rightarrow> 'w \<Rightarrow> LifecycleManager \<times> lifecycle_error option \<times> 'w"
where
  "executeHibernate deps name m w =
    (if name = lm_mgmtCluster m then (m, Some (ErrManagementCluster name), w)
     else case beginHibernate name m of
       None \<Rightarrow> (m, None, w)
     | Some m1 \<Rightarrow> (case hibernateCalls deps name w of
         (Some e, w') \<Rightarrow> (setState name StateActive m1, Some e, w')
       | (None, w') \<Rightarrow> (setState name StateHibernating m1, None, w')))"

definition executeWakeUp ::
  "'w LifecycleDeps \<Rightarrow> string \<Rightarrow> LifecycleManager \<Rightarrow> 'w \<Rightarrow> LifecycleManager \<times> lifecycle_error option \<times> 'w"
where
  "executeWakeUp deps name m w =
    (case beginWakeUp name m of
       None \<Rightarrow> (m, None, w)
     | Some m1 \<Rightarrow> (case ScaleUp deps name w of
         (Some e, w') \<Rightarrow> (setState name StateHibernating m1, Some (ErrScaleUp name e), w')
       | (None, w') \<Rightarrow> (clearIdle name (setState name StateActive m1), None, w')))"

definition ExecuteDirective ::
  "'w LifecycleDeps \<Rightarrow> Directive \<Rightarrow> LifecycleManager \<Rightarrow> 'w \<Rightarrow> LifecycleManager \<times> lifecycle_error option \<times> 'w"
where
  "ExecuteDirective deps d m w = (case dr_Type d of
     DirectiveHibernate \<Rightarrow> executeHibernate deps (dr_ClusterName d) m w
   | DirectiveWakeUp \<Rightarrow> executeWakeUp deps (dr_ClusterName d) m w
   | ty \<Rightarrow> (m, Some (ErrUnsupportedDirective ty), w))"

section \<open>Idle tracking and predictive wake-up\<close>

definition idleWindowOf :: "LifecycleManager \<Rightarrow> ClusterLifecycleSpec \<Rightarrow> duration" where
  "idleWindowOf m policy =
    (if 0 < lc_IdleWindowMinutes policy then wrap64 (lc_IdleWindowMinutes policy * minute) else lm_idleWindowDur m)"

definition UpdateIdleStatus ::
  "gotime \<Rightarrow> string \<Rightarrow> f64 \<Rightarrow> ClusterLifecycleSpec \<Rightarrow> LifecycleManager \<Rightarrow> bool \<times> LifecycleManager"
where
  "UpdateIdleStatus now name utilizationPct policy m =
    (let rec = (case lm_idleTracker m name of Some r \<Rightarrow> r | None \<Rightarrow> \<lparr>ir_idleSince = 0, ir_idle = False\<rparr>) in
     if utilizationPct < idleThresholdOf policy then
       (let r = (if ir_idle rec then rec else \<lparr>ir_idleSince = now, ir_idle = True\<rparr>) in
        (idleWindowOf m policy \<le> time_sub now (ir_idleSince r),
         m\<lparr>lm_idleTracker := (lm_idleTracker m)(name \<mapsto> r)\<rparr>))
     else (False, m\<lparr>lm_idleTracker := (lm_idleTracker m)(name \<mapsto> \<lparr>ir_idleSince = 0, ir_idle = False\<rparr>)\<rparr>))"

fun predictLoop ::
  "(string \<Rightarrow> duration \<Rightarrow> 'w \<Rightarrow> (string + bool) \<times> 'w) \<Rightarrow> duration \<Rightarrow> (string \<times> string) list \<Rightarrow> 'w \<Rightarrow> Directive list \<times> 'w"
where
  "predictLoop forecast lead [] w = ([], w)"
| "predictLoop forecast lead ((name, region) # cands) w =
    (case forecast region lead w of
       (Inl e, w') \<Rightarrow> predictLoop forecast lead cands w'
     | (Inr needed, w') \<Rightarrow>
         (case predictLoop forecast lead cands w' of (ds, w'') \<Rightarrow>
           (if needed then
              \<lparr>dr_ID = [], dr_Type = DirectiveWakeUp, dr_ClusterName = name, dr_TrafficWeights = Map.empty,
               dr_MigrationHints = [], dr_LifecycleAction = ''wake_up'',
               dr_Reason = ''demand forecast predicts need in region '' @ region @ '' within '' @ duration_string lead\<rparr> # ds
            else ds, w'')))"

definition CheckPredictiveWakeUp ::
  "'w LifecycleDeps \<Rightarrow> LifecycleManager \<Rightarrow> ClusterSnapshot list \<Rightarrow> 'w \<Rightarrow> Directive list \<times> 'w"
where
  "CheckPredictiveWakeUp deps m clusters w = (case ForecastDemand deps of
     None \<Rightarrow> ([], w)
   | Some forecast \<Rightarrow> predictLoop forecast (lm_wakeupLeadTime m)
       (map (\<lambda>c. (cl_Name c, cl_Region c)) (filter (\<lambda>c. lm_states m (cl_Name c) = Some StateHibernating) clusters)) w)"

definition HibernatingClusters :: "string list \<Rightarrow> LifecycleManager \<Rightarrow> string list" where
  "HibernatingClusters order m = filter (\<lambda>n. lm_states m n = Some StateHibernating) order"

definition ActiveClusters :: "string list \<Rightarrow> LifecycleManager \<Rightarrow> string list" where
  "ActiveClusters order m = filter (\<lambda>n. lm_states m n = Some StateActive) order"

section \<open>Interleaved operations\<close>

text \<open>Operations of several goroutines, at the grain of the critical sections and of the calls to the
  scaler. \<open>sy_up\<close> is whether the cluster's node pools run. A call that fails is taken to leave them as
  they are. With \<open>serial\<close> an operation on a cluster starts only when none is under way for it.\<close>

datatype lc_job = HibPending string | HibScaled string | WakePending string | WakeScaled string | WakeMarked string

fun job_name :: "lc_job \<Rightarrow> string" where
  "job_name (HibPending n) = n"
| "job_name (HibScaled n) = n"
| "job_name (WakePending n) = n"
| "job_name (WakeScaled n) = n"
| "job_name (WakeMarked n) = n"

record lc_sys =
  sy_mgr :: LifecycleManager
  sy_up :: "string \<Rightarrow> bool"
  sy_jobs :: "lc_job multiset"

definition idle_for :: "string \<Rightarrow> lc_sys \<Rightarrow> bool" where
  "idle_for n s = (\<forall>j \<in># sy_jobs s. job_name j \<noteq> n)"

inductive lc_step :: "bool \<Rightarrow> lc_sys \<Rightarrow> lc_sys \<Rightarrow> bool" for serial where
  hib_begin: "n \<noteq> lm_mgmtCluster (sy_mgr s) \<Longrightarrow> beginHibernate n (sy_mgr s) = Some m \<Longrightarrow> serial \<longrightarrow> idle_for n s \<Longrightarrow>
    lc_step serial s (s\<lparr>sy_mgr := m, sy_jobs := add_mset (HibPending n) (sy_jobs s)\<rparr>)"
| hib_abort: "sy_jobs s = add_mset (HibPending n) J \<Longrightarrow>
    lc_step serial s (s\<lparr>sy_mgr := setState n StateActive (sy_mgr s), sy_jobs := J\<rparr>)"
| hib_scaled: "sy_jobs s = add_mset (HibPending n) J \<Longrightarrow>
    lc_step serial s (s\<lparr>sy_up := (sy_up s)(n := False), sy_jobs := add_mset (HibScaled n) J\<rparr>)"
| hib_done: "sy_jobs s = add_mset (HibScaled n) J \<Longrightarrow>
    lc_step serial s (s\<lparr>sy_mgr := setState n StateHibernating (sy_mgr s), sy_jobs := J\<rparr>)"
| wake_begin: "beginWakeUp n (sy_mgr s) = Some m \<Longrightarrow> serial \<longrightarrow> idle_for n s \<Longrightarrow>
    lc_step serial s (s\<lparr>sy_mgr := m, sy_jobs := add_mset (WakePending n) (sy_jobs s)\<rparr>)"
| wake_fail: "sy_jobs s = add_mset (WakePending n) J \<Longrightarrow>
    lc_step serial s (s\<lparr>sy_mgr := setState n StateHibernating (sy_mgr s), sy_jobs := J\<rparr>)"
| wake_scaled: "sy_jobs s = add_mset (WakePending n) J \<Longrightarrow>
    lc_step serial s (s\<lparr>sy_up := (sy_up s)(n := True), sy_jobs := add_mset (WakeScaled n) J\<rparr>)"
| wake_done: "sy_jobs s = add_mset (WakeScaled n) J \<Longrightarrow>
    lc_step serial s (s\<lparr>sy_mgr := setState n StateActive (sy_mgr s), sy_jobs := add_mset (WakeMarked n) J\<rparr>)"
| wake_clear: "sy_jobs s = add_mset (WakeMarked n) J \<Longrightarrow>
    lc_step serial s (s\<lparr>sy_mgr := clearIdle n (sy_mgr s), sy_jobs := J\<rparr>)"
| idle_status: "lc_step serial s (s\<lparr>sy_mgr := snd (UpdateIdleStatus now n u policy (sy_mgr s))\<rparr>)"

inductive_cases lc_stepE: "lc_step serial s s'"

definition lc_init :: "string \<Rightarrow> lc_sys" where
  "lc_init mgmt = \<lparr>sy_mgr = WithManagementCluster mgmt NewLifecycleManager, sy_up = (\<lambda>n. True), sy_jobs = {#}\<rparr>"

lemma setState_sel [simp]:
  "lm_states (setState n x m) = (lm_states m)(n \<mapsto> x)" "lm_mgmtCluster (setState n x m) = lm_mgmtCluster m"
  by (simp_all add: setState_def)

lemma clearIdle_sel [simp]: "lm_states (clearIdle n m) = lm_states m" "lm_mgmtCluster (clearIdle n m) = lm_mgmtCluster m"
  by (simp_all add: clearIdle_def)

lemma UpdateIdleStatus_sel [simp]:
  "lm_states (snd (UpdateIdleStatus now n u policy m)) = lm_states m"
  "lm_mgmtCluster (snd (UpdateIdleStatus now n u policy m)) = lm_mgmtCluster m"
  by (simp_all add: UpdateIdleStatus_def Let_def)

lemmas begin_defs = beginHibernate_def beginWakeUp_def

subsection \<open>The management cluster\<close>

definition mgmt_ok :: "string \<Rightarrow> lc_sys \<Rightarrow> bool" where
  "mgmt_ok g s = (lm_mgmtCluster (sy_mgr s) = g \<and> lm_states (sy_mgr s) g = None \<and> sy_up s g \<and> idle_for g s)"

lemma mgmt_ok_step: "lc_step serial s s' \<Longrightarrow> mgmt_ok g s \<Longrightarrow> mgmt_ok g s'"
  by (erule lc_step.cases) (auto simp: mgmt_ok_def idle_for_def begin_defs split: if_splits)

lemma mgmt_ok_steps: "(lc_step serial)\<^sup>*\<^sup>* (lc_init g) s \<Longrightarrow> mgmt_ok g s"
proof (induction rule: rtranclp_induct)
  case base
  show ?case by (simp add: mgmt_ok_def lc_init_def idle_for_def WithManagementCluster_def NewLifecycleManager_def)
qed (rule mgmt_ok_step)

subsection \<open>Serial operations\<close>

text \<open>What the state map and the nodes of a cluster look like for the job under way for it.\<close>

definition job_ok :: "lc_sys \<Rightarrow> lc_job \<Rightarrow> bool" where
  "job_ok s j = (case j of
     HibPending n \<Rightarrow> lm_states (sy_mgr s) n = Some StateDraining \<and> sy_up s n
   | HibScaled n \<Rightarrow> lm_states (sy_mgr s) n = Some StateDraining \<and> \<not> sy_up s n
   | WakePending n \<Rightarrow> lm_states (sy_mgr s) n = Some StateWaking \<and> \<not> sy_up s n
   | WakeScaled n \<Rightarrow> lm_states (sy_mgr s) n = Some StateWaking \<and> sy_up s n
   | WakeMarked n \<Rightarrow> lm_states (sy_mgr s) n = Some StateActive \<and> sy_up s n)"

definition rest_ok :: "lc_sys \<Rightarrow> string \<Rightarrow> bool" where
  "rest_ok s n = (case lm_states (sy_mgr s) n of
     None \<Rightarrow> sy_up s n | Some StateActive \<Rightarrow> sy_up s n | Some StateHibernating \<Rightarrow> \<not> sy_up s n | Some _ \<Rightarrow> False)"

text \<open>At most one job per cluster, and every cluster in step with it.\<close>

definition jobs_of :: "string \<Rightarrow> lc_sys \<Rightarrow> lc_job multiset" where
  "jobs_of n s = filter_mset (\<lambda>j. job_name j = n) (sy_jobs s)"

definition serial_ok :: "lc_sys \<Rightarrow> bool" where
  "serial_ok s = (\<forall>n. (jobs_of n s = {#} \<and> rest_ok s n) \<or> (\<exists>j. jobs_of n s = {#j#} \<and> job_ok s j))"

abbreviation in_step :: "lc_sys \<Rightarrow> string \<Rightarrow> bool" where
  "in_step s n \<equiv> (jobs_of n s = {#} \<and> rest_ok s n) \<or> (\<exists>j. jobs_of n s = {#j#} \<and> job_ok s j)"

lemma in_step_frame:
  assumes "in_step s n" "jobs_of n s' = jobs_of n s" "lm_states (sy_mgr s') n = lm_states (sy_mgr s) n" "sy_up s' n = sy_up s n"
  shows "in_step s' n"
proof -
  have "rest_ok s' n = rest_ok s n" using assms(3,4) by (simp add: rest_ok_def split: option.split LifecycleState.split)
  moreover have "job_ok s' j = job_ok s j" if "jobs_of n s = {#j#}" for j
  proof -
    have "j \<in># jobs_of n s" using that by simp
    then have "job_name j = n" by (simp add: jobs_of_def)
    then show ?thesis using assms(3,4) by (cases j) (auto simp: job_ok_def)
  qed
  ultimately show ?thesis using assms(1,2) by auto
qed

lemma serial_ok_start:
  assumes "serial_ok s" "idle_for n s" "job_name j = n" "rest_ok s n \<Longrightarrow> job_ok s' j"
    "sy_jobs s' = add_mset j (sy_jobs s)"
    "\<And>k. k \<noteq> n \<Longrightarrow> lm_states (sy_mgr s') k = lm_states (sy_mgr s) k \<and> sy_up s' k = sy_up s k"
  shows "serial_ok s'"
proof -
  have "jobs_of n s = {#}" using assms(2) by (auto simp: jobs_of_def idle_for_def)
  moreover from this have "rest_ok s n" using assms(1) by (auto simp: serial_ok_def dest: spec [of _ n])
  ultimately have "in_step s' n" using assms(3-5) by (simp add: jobs_of_def)
  moreover have "in_step s' k" if k: "k \<noteq> n" for k
    using in_step_frame [where s = s and s' = s' and n = k] assms(1,3,5,6) k by (simp add: serial_ok_def jobs_of_def)
  ultimately show ?thesis unfolding serial_ok_def by metis
qed

lemma serial_ok_change:
  assumes "serial_ok s" "sy_jobs s = add_mset j J" "job_name j = n"
    "job_ok s j \<Longrightarrow> (sy_jobs s' = J \<and> rest_ok s' n) \<or> (\<exists>i. sy_jobs s' = add_mset i J \<and> job_name i = n \<and> job_ok s' i)"
    "\<And>k. k \<noteq> n \<Longrightarrow> lm_states (sy_mgr s') k = lm_states (sy_mgr s) k \<and> sy_up s' k = sy_up s k"
  shows "serial_ok s'"
proof -
  have "jobs_of n s = add_mset j (filter_mset (\<lambda>j. job_name j = n) J)" using assms(2,3) by (simp add: jobs_of_def)
  moreover have "in_step s n" using assms(1) by (simp add: serial_ok_def)
  ultimately have "filter_mset (\<lambda>j. job_name j = n) J = {#}" "job_ok s j" by auto
  then have "in_step s' n" "sy_jobs s' = J \<or> (\<exists>i. sy_jobs s' = add_mset i J \<and> job_name i = n)"
    using assms(4) by (auto simp: jobs_of_def)
  moreover have "in_step s' k" if k: "k \<noteq> n" for k
  proof (rule in_step_frame)
    show "in_step s k" using assms(1) unfolding serial_ok_def by blast
    show "jobs_of k s' = jobs_of k s" using calculation(2) assms(2,3) k by (auto simp: jobs_of_def)
  qed (use assms(5) k in auto)
  ultimately show ?thesis unfolding serial_ok_def by metis
qed

lemma serial_ok_same:
  "serial_ok s \<Longrightarrow> sy_jobs s' = sy_jobs s \<Longrightarrow> lm_states (sy_mgr s') = lm_states (sy_mgr s) \<Longrightarrow> sy_up s' = sy_up s \<Longrightarrow> serial_ok s'"
  using in_step_frame [where s = s and s' = s'] by (simp add: serial_ok_def jobs_of_def)

lemma serial_ok_step:
  assumes "lc_step True s s'" "serial_ok s"
  shows "serial_ok s'"
  using assms(1)
proof cases
  case (hib_begin n m)
  then show ?thesis
    by (intro serial_ok_start [OF assms(2), of n "HibPending n"])
      (auto simp: job_ok_def rest_ok_def begin_defs split: if_splits option.splits LifecycleState.splits)
next
  case (wake_begin n m)
  then show ?thesis
    by (intro serial_ok_start [OF assms(2), of n "WakePending n"])
      (auto simp: job_ok_def rest_ok_def begin_defs split: if_splits option.splits LifecycleState.splits)
next
  case (idle_status now n u policy)
  then show ?thesis using serial_ok_same [OF assms(2)] by simp
qed (rule serial_ok_change [OF assms(2)], assumption, auto simp: job_ok_def rest_ok_def)+

lemma serial_ok_steps: "(lc_step True)\<^sup>*\<^sup>* (lc_init g) s \<Longrightarrow> serial_ok s"
proof (induction rule: rtranclp_induct)
  case base
  show ?case
    by (simp add: serial_ok_def lc_init_def jobs_of_def rest_ok_def WithManagementCluster_def NewLifecycleManager_def)
qed (rule serial_ok_step)

section \<open>Calls in order\<close>

text \<open>The calls an operation makes, recorded beside the world.\<close>

datatype lc_call =
    CallSole string "string + bool"
  | CallDrain string "string option"
  | CallScaleToZero string "string option"
  | CallScaleUp string "string option"

definition recorded :: "('r \<Rightarrow> lc_call) \<Rightarrow> ('w \<Rightarrow> 'r \<times> 'w) \<Rightarrow> 'w \<times> lc_call list \<Rightarrow> 'r \<times> 'w \<times> lc_call list" where
  "recorded c f wl = (case f (fst wl) of (r, w') \<Rightarrow> (r, w', snd wl @ [c r]))"

definition logged :: "'w LifecycleDeps \<Rightarrow> ('w \<times> lc_call list) LifecycleDeps" where
  "logged deps = \<lparr>
     ScaleToZero = (\<lambda>n. recorded (CallScaleToZero n) (ScaleToZero deps n)),
     ScaleUp = (\<lambda>n. recorded (CallScaleUp n) (ScaleUp deps n)),
     Drain = map_option (\<lambda>f n. recorded (CallDrain n) (f n)) (Drain deps),
     ForecastDemand = None,
     IsSoleLocationForAnyTenant = map_option (\<lambda>f n. recorded (CallSole n) (f n)) (IsSoleLocationForAnyTenant deps)\<rparr>"

definition sole_calls :: "'w LifecycleDeps \<Rightarrow> string \<Rightarrow> lc_call list" where
  "sole_calls deps n = (case IsSoleLocationForAnyTenant deps of None \<Rightarrow> [] | Some _ \<Rightarrow> [CallSole n (Inr False)])"

definition drain_calls :: "'w LifecycleDeps \<Rightarrow> string \<Rightarrow> lc_call list" where
  "drain_calls deps n = (case Drain deps of None \<Rightarrow> [] | Some _ \<Rightarrow> [CallDrain n None])"

lemma recorded_eq: "recorded c f (w, l) = (r, w', l') \<longleftrightarrow> f w = (r, w') \<and> l' = l @ [c r]"
  by (auto simp: recorded_def split: prod.splits)

lemma tenantCheck_logged:
  "tenantCheck (logged deps) n (w, l) = (e, w', l') \<Longrightarrow>
   (\<exists>c. l' = l @ c \<and> (\<forall>x. CallScaleToZero n x \<notin> set c)) \<and> (e = None \<longrightarrow> l' = l @ sole_calls deps n)"
  by (auto simp: tenantCheck_def logged_def sole_calls_def recorded_eq
      split: option.splits prod.splits sum.splits if_splits)

lemma drainCluster_logged:
  "drainCluster (logged deps) n (w, l) = (e, w', l') \<Longrightarrow>
   (\<exists>c. l' = l @ c \<and> (\<forall>x. CallScaleToZero n x \<notin> set c)) \<and> (e = None \<longrightarrow> l' = l @ drain_calls deps n)"
  by (auto simp: drainCluster_def logged_def drain_calls_def recorded_eq split: option.splits prod.splits)

lemma hibernateCalls_logged:
  assumes "hibernateCalls (logged deps) n (w, []) = (e, w', l)"
  shows "(\<forall>x. CallScaleToZero n x \<notin> set l) \<and> e \<noteq> None \<or>
    (\<exists>x. l = sole_calls deps n @ drain_calls deps n @ [CallScaleToZero n x] \<and> (e = None \<longleftrightarrow> x = None))"
proof -
  obtain e1 w1 l1 where 1: "tenantCheck (logged deps) n (w, []) = (e1, w1, l1)" by (metis prod_cases3)
  obtain e2 w2 l2 where 2: "drainCluster (logged deps) n (w1, l1) = (e2, w2, l2)" by (metis prod_cases3)
  note t = tenantCheck_logged [OF 1] drainCluster_logged [OF 2]
  show ?thesis
  proof (cases "e1 = None \<and> e2 = None")
    case True
    then show ?thesis using assms 1 2 t
      by (auto simp: hibernateCalls_def logged_def [of deps] recorded_eq split: prod.splits)
  next
    case False
    then show ?thesis using assms 1 2 t by (auto simp: hibernateCalls_def split: option.splits)
  qed
qed

section \<open>Properties\<close>


lemma hibernate_run: "(lc_step True)\<^sup>*\<^sup>* (lc_init ''hub'')
    \<lparr>sy_mgr = setState ''edge'' StateHibernating (setState ''edge'' StateDraining (sy_mgr (lc_init ''hub''))),
     sy_up = (\<lambda>n. True)(''edge'' := False), sy_jobs = {#}\<rparr>"
proof -
  let ?s = "\<lparr>sy_mgr = setState ''edge'' StateHibernating (setState ''edge'' StateDraining (sy_mgr (lc_init ''hub''))),
     sy_up = (\<lambda>n. True)(''edge'' := False), sy_jobs = {#}\<rparr>"
  let ?m = "setState ''edge'' StateDraining (sy_mgr (lc_init ''hub''))"
  let ?s1 = "\<lparr>sy_mgr = ?m, sy_up = \<lambda>n. True, sy_jobs = {#HibPending ''edge''#}\<rparr>"
  let ?s2 = "\<lparr>sy_mgr = ?m, sy_up = (\<lambda>n. True)(''edge'' := False), sy_jobs = {#HibScaled ''edge''#}\<rparr>"
  have "lc_step True (lc_init ''hub'') ?s1"
    using hib_begin [of "''edge''" "lc_init ''hub''" ?m True]
    by (simp add: lc_init_def idle_for_def beginHibernate_def WithManagementCluster_def NewLifecycleManager_def)
  moreover have "lc_step True ?s1 ?s2" using hib_scaled [of ?s1 "''edge''" "{#}" True] by simp
  moreover have "lc_step True ?s2 ?s" using hib_done [of ?s2 "''edge''" "{#}" True] by simp
  ultimately show ?thesis by (meson rtranclp.rtrancl_into_rtrancl rtranclp.rtrancl_refl)
qed


text \<open>Overlapping operations can lose a cluster: a wake-up is accepted while the cluster is draining, and if the
  drain then completes, the cluster ends up marked active with its nodes scaled to zero and nothing under way.\<close>
theorem lifecycle_race:
  "\<exists>s. (lc_step False)\<^sup>*\<^sup>* (lc_init ''hub'') s \<and> sy_jobs s = {#} \<and>
     LifecycleClusterState (sy_mgr s) ''edge'' = StateActive \<and> \<not> sy_up s ''edge''"
proof -
  let ?m0 = "sy_mgr (lc_init ''hub'')" and ?up = "\<lambda>n :: string. True" and ?down = "(\<lambda>n. True)(''edge'' := False)"
  let ?m1 = "setState ''edge'' StateDraining ?m0"
  let ?m2 = "setState ''edge'' StateWaking ?m1"
  let ?m3 = "setState ''edge'' StateHibernating ?m2"
  let ?m4 = "setState ''edge'' StateActive ?m3"
  let ?s1 = "\<lparr>sy_mgr = ?m1, sy_up = ?up, sy_jobs = {#HibPending ''edge''#}\<rparr>"
  let ?s2 = "\<lparr>sy_mgr = ?m2, sy_up = ?up, sy_jobs = {#WakePending ''edge'', HibPending ''edge''#}\<rparr>"
  let ?s3 = "\<lparr>sy_mgr = ?m2, sy_up = ?up, sy_jobs = {#WakeScaled ''edge'', HibPending ''edge''#}\<rparr>"
  let ?s4 = "\<lparr>sy_mgr = ?m2, sy_up = ?down, sy_jobs = {#HibScaled ''edge'', WakeScaled ''edge''#}\<rparr>"
  let ?s5 = "\<lparr>sy_mgr = ?m3, sy_up = ?down, sy_jobs = {#WakeScaled ''edge''#}\<rparr>"
  let ?s6 = "\<lparr>sy_mgr = ?m4, sy_up = ?down, sy_jobs = {#WakeMarked ''edge''#}\<rparr>"
  let ?s7 = "\<lparr>sy_mgr = clearIdle ''edge'' ?m4, sy_up = ?down, sy_jobs = {#}\<rparr>"
  have "lc_step False (lc_init ''hub'') ?s1"
    using hib_begin [of "''edge''" "lc_init ''hub''" ?m1 False]
    by (simp add: lc_init_def beginHibernate_def WithManagementCluster_def NewLifecycleManager_def)
  moreover have "lc_step False ?s1 ?s2"
    using wake_begin [of "''edge''" ?s1 ?m2 False] by (simp add: beginWakeUp_def)
  moreover have "lc_step False ?s2 ?s3"
    using wake_scaled [of ?s2 "''edge''" "{#HibPending ''edge''#}" False] by (simp add: fun_upd_idem)
  moreover have "lc_step False ?s3 ?s4"
    using hib_scaled [of ?s3 "''edge''" "{#WakeScaled ''edge''#}" False] by (simp add: add_mset_commute)
  moreover have "lc_step False ?s4 ?s5" using hib_done [of ?s4 "''edge''" "{#WakeScaled ''edge''#}" False] by simp
  moreover have "lc_step False ?s5 ?s6" using wake_done [of ?s5 "''edge''" "{#}" False] by simp
  moreover have "lc_step False ?s6 ?s7" using wake_clear [of ?s6 "''edge''" "{#}" False] by simp
  ultimately have "(lc_step False)\<^sup>*\<^sup>* (lc_init ''hub'') ?s7"
    by (meson rtranclp.rtrancl_into_rtrancl rtranclp.rtrancl_refl)
  moreover have "sy_jobs ?s7 = {#} \<and> LifecycleClusterState (sy_mgr ?s7) ''edge'' = StateActive \<and> \<not> sy_up ?s7 ''edge''"
    by (simp add: LifecycleClusterState_def)
  ultimately show ?thesis by blast
qed

text \<open>A hibernation scales a cluster to zero only after the tenant locator has answered that no tenant lives
  there alone and the drain has succeeded, in this order (a dependency that is not configured is skipped); it
  reports success and marks the cluster hibernating exactly when the scaling succeeded, and after any error the
  cluster is active again and no other cluster has changed.\<close>
theorem executeHibernate_order:
  assumes "executeHibernate (logged deps) n m (w, []) = (m', e, w', l)"
    "n \<noteq> lm_mgmtCluster m" "lm_states m n \<noteq> Some StateDraining" "lm_states m n \<noteq> Some StateHibernating"
  shows "lm_states m' = (lm_states m)(n \<mapsto> if e = None then StateHibernating else StateActive) \<and>
    ((\<forall>x. CallScaleToZero n x \<notin> set l) \<and> e \<noteq> None \<or>
     (\<exists>x. l = sole_calls deps n @ drain_calls deps n @ [CallScaleToZero n x] \<and> (e = None \<longleftrightarrow> x = None)))"
proof -
  obtain e1 w1 l1 where c: "hibernateCalls (logged deps) n (w, []) = (e1, w1, l1)" by (metis prod_cases3)
  have "e = e1" "l = l1" "lm_states m' = (lm_states m)(n \<mapsto> if e1 = None then StateHibernating else StateActive)"
    using assms c by (auto simp: executeHibernate_def beginHibernate_def split: option.splits)
  then show ?thesis using hibernateCalls_logged [OF c] by simp
qed

definition demo_deps :: "unit LifecycleDeps" where
  "demo_deps = \<lparr>ScaleToZero = (\<lambda>n w. (None, w)), ScaleUp = (\<lambda>n w. (None, w)), Drain = Some (\<lambda>n w. (Some ''stuck'', w)),
     ForecastDemand = None, IsSoleLocationForAnyTenant = Some (\<lambda>n w. (Inr False, w))\<rparr>"

lemma executeHibernate_order_witness:
  "case executeHibernate (logged demo_deps) ''edge'' NewLifecycleManager ((), []) of
     (m', e, w', l) \<Rightarrow> e \<noteq> None \<and> lm_states m' ''edge'' = Some StateActive"
proof -
  obtain m' e w' l where r: "executeHibernate (logged demo_deps) ''edge'' NewLifecycleManager ((), []) = (m', e, w', l)"
    by (metis prod_cases4)
  have "e \<noteq> None"
    using r by (auto simp: executeHibernate_def beginHibernate_def hibernateCalls_def tenantCheck_def drainCluster_def
        logged_def demo_deps_def recorded_def NewLifecycleManager_def)
  then show ?thesis using r executeHibernate_order [OF r] by (simp add: NewLifecycleManager_def)
qed

end
