(* ===== verification/Routing.thy ===== *)
theory Routing
  imports Go_ParseFloat
begin

text \<open>
  Traffic weights in routing resources, the second half of \<open>internal/global/traffic.go\<close>: HTTPRoutes of the
  Gateway API, Istio VirtualServices and ExternalDNS DNSEndpoints, read and patched as untyped objects. The
  Kubernetes client and the accessors of its \<open>unstructured\<close> package are third-party code: the records
  \<open>unstructured_api\<close> and \<open>kube_client\<close>. A panic is an error value.
\<close>

section \<open>Data\<close>

text \<open>Go's \<open>interface{}\<close> as it holds decoded JSON; a \<open>map[string]interface{}\<close> may also be nil.\<close>

datatype json = JNull | JBool bool | JInt int | JFloat f64 | JNumber string | JString string | JList "json list" | JMap "string \<rightharpoonup> json"

type_synonym obj = "string \<rightharpoonup> json"
type_synonym weights = "string \<rightharpoonup> int"

definition asMap :: "json \<Rightarrow> obj option" where
  "asMap v = (case v of JMap m \<Rightarrow> Some m | _ \<Rightarrow> None)"

text \<open>An accessor gives an error, that the field is missing, or its value.\<close>

record unstructured_api =
  NestedSlice :: "obj option \<Rightarrow> string list \<Rightarrow> string + json list option"
  NestedString :: "obj option \<Rightarrow> string list \<Rightarrow> string + string option"
  NestedInt64 :: "obj option \<Rightarrow> string list \<Rightarrow> string + int option"
  NestedStringSlice :: "obj option \<Rightarrow> string list \<Rightarrow> string + string list option"
  NestedMap :: "obj option \<Rightarrow> string list \<Rightarrow> string + obj option"
  SetNestedSlice :: "obj option \<Rightarrow> json list \<Rightarrow> string list \<Rightarrow> string + obj"

definition got :: "string + 'a option \<Rightarrow> 'a option" where
  "got r = (case r of Inl e \<Rightarrow> None | Inr v \<Rightarrow> v)"

datatype TrafficBackend = BackendGatewayAPI | BackendIstio | BackendExternalDNS | BackendOther string

fun backendName :: "TrafficBackend \<Rightarrow> string" where
  "backendName BackendGatewayAPI = ''gateway-api''"
| "backendName BackendIstio = ''istio''"
| "backendName BackendExternalDNS = ''external-dns''"
| "backendName (BackendOther s) = s"

record TrafficShiftPlan =
  pl_Backend :: TrafficBackend
  pl_Namespace :: string
  pl_Name :: string
  pl_Weights :: weights

record gvk =
  gvk_Group :: string
  gvk_Version :: string
  gvk_Kind :: string

definition gvkHTTPRoute :: gvk where
  "gvkHTTPRoute = \<lparr>gvk_Group = ''gateway.networking.k8s.io'', gvk_Version = ''v1'', gvk_Kind = ''HTTPRoute''\<rparr>"

definition gvkVirtualService :: gvk where
  "gvkVirtualService = \<lparr>gvk_Group = ''networking.istio.io'', gvk_Version = ''v1beta1'', gvk_Kind = ''VirtualService''\<rparr>"

definition gvkDNSEndpoint :: gvk where
  "gvkDNSEndpoint = \<lparr>gvk_Group = ''externaldns.k8s.io'', gvk_Version = ''v1alpha1'', gvk_Kind = ''DNSEndpoint''\<rparr>"

record 'w kube_client =
  ku_Get :: "gvk \<Rightarrow> string \<Rightarrow> string \<Rightarrow> 'w \<Rightarrow> (string + obj) \<times> 'w"
  ku_Update :: "gvk \<Rightarrow> string \<Rightarrow> string \<Rightarrow> obj \<Rightarrow> 'w \<Rightarrow> string option \<times> 'w"

section \<open>Weights as text\<close>

text \<open>\<open>fmt.Sscanf(val, "%d", &w)\<close> into an \<open>int32\<close>: leading blanks, a sign, then digits, the rest unread; \<open>w\<close>
  stays 0 on any error, overflow included. A line break among the blanks is an error.\<close>

fun skipSpace :: "string \<Rightarrow> string option" where
  "skipSpace [] = Some []"
| "skipSpace (c # cs) =
    (if c = CHR 0x0A then None
     else if c \<in> {CHR 0x09, CHR 0x0B, CHR 0x0C, CHR 0x0D, CHR 0x20} then skipSpace cs
     else Some (c # cs))"

definition signedDigits :: "string \<Rightarrow> string \<Rightarrow> int" where
  "signedDigits t ds = (if t \<noteq> [] \<and> hd t = CHR ''-'' then - int (undigits ds) else int (undigits ds))"

definition Sscanf_int32 :: "string \<Rightarrow> int" where
  "Sscanf_int32 s = (case skipSpace s of
     None \<Rightarrow> 0
   | Some t \<Rightarrow> (let ds = takeWhile is_digit (drop_sign t) in
       if ds = [] \<or> \<not> in32 (signedDigits t ds) then 0 else signedDigits t ds))"

text \<open>The value that \<open>strconv.ParseInt(s, 10, 64)\<close> returns, with or without an error: 0 for bad syntax, the
  nearest integer when out of range.\<close>

definition ParseInt_value :: "string \<Rightarrow> int" where
  "ParseInt_value s = (let ds = drop_sign s in
     if ds = [] \<or> \<not> list_all is_digit ds then 0
     else max (- 9223372036854775808) (min 9223372036854775807 (signedDigits s ds)))"

definition parseWeight :: "json \<Rightarrow> int" where
  "parseWeight v = (case v of
     JString s \<Rightarrow> Sscanf_int32 s
   | JFloat x \<Rightarrow> to_int32 (fround x)
   | JInt i \<Rightarrow> wrap32 i
   | JNumber s \<Rightarrow> wrap32 (ParseInt_value s)
   | _ \<Rightarrow> 0)"

section \<open>HTTPRoutes and VirtualServices\<close>

text \<open>Both keep their weights in a list of references inside the first element of a list of rules: \<open>outer\<close> is
  the path to the rules, \<open>inner\<close> the field with the references, \<open>key\<close> the path to the name of a backend.\<close>

definition refName :: "unstructured_api \<Rightarrow> string list \<Rightarrow> obj option \<Rightarrow> string" where
  "refName us key r = (case got (NestedString us r key) of Some n \<Rightarrow> n | None \<Rightarrow> [])"

definition refWeight :: "unstructured_api \<Rightarrow> obj option \<Rightarrow> int" where
  "refWeight us r = wrap32 (case got (NestedInt64 us r [''weight'']) of Some w \<Rightarrow> w | None \<Rightarrow> 0)"

definition addRef :: "unstructured_api \<Rightarrow> string list \<Rightarrow> weights \<Rightarrow> json \<Rightarrow> weights" where
  "addRef us key ws ref = ws(refName us key (asMap ref) \<mapsto> refWeight us (asMap ref))"

definition refWeights :: "unstructured_api \<Rightarrow> string list \<Rightarrow> json list \<Rightarrow> weights" where
  "refWeights us key refs = foldl (addRef us key) Map.empty refs"

definition readRefs ::
  "unstructured_api \<Rightarrow> string list \<Rightarrow> string \<Rightarrow> string list \<Rightarrow> string \<times> string \<times> string \<Rightarrow> obj \<Rightarrow> string + weights"
where
  "readRefs us outer inner key errs object = (case errs of (noRules, badRule, noRefs) \<Rightarrow>
     (case got (NestedSlice us (Some object) outer) of
        None \<Rightarrow> Inl noRules
      | Some [] \<Rightarrow> Inl noRules
      | Some (rule0 # rules) \<Rightarrow>
          (case asMap rule0 of
             None \<Rightarrow> Inl badRule
           | Some rule \<Rightarrow>
               (case got (NestedSlice us (Some rule) [inner]) of
                  None \<Rightarrow> Inl noRefs
                | Some refs \<Rightarrow> Inr (refWeights us key refs)))))"

text \<open>Writing into a nil map panics.\<close>

definition nilMapPanic :: string where
  "nilMapPanic = ''panic: assignment to entry in nil map''"

fun setRefs :: "unstructured_api \<Rightarrow> string list \<Rightarrow> weights \<Rightarrow> json list \<Rightarrow> string + json list" where
  "setRefs us key ws [] = Inr []"
| "setRefs us key ws (ref # refs) =
    (let r = asMap ref in
     case ws (refName us key r) of
       None \<Rightarrow> map_sum id ((#) ref) (setRefs us key ws refs)
     | Some w \<Rightarrow> (case r of
         None \<Rightarrow> Inl nilMapPanic
       | Some m \<Rightarrow> map_sum id ((#) (JMap (m(''weight'' \<mapsto> JInt w)))) (setRefs us key ws refs)))"

definition patchRefs ::
  "unstructured_api \<Rightarrow> string list \<Rightarrow> string \<Rightarrow> string list \<Rightarrow> string \<Rightarrow> weights \<Rightarrow> obj \<Rightarrow> string + obj"
where
  "patchRefs us outer inner key noRules ws object =
    (case got (NestedSlice us (Some object) outer) of
       None \<Rightarrow> Inl noRules
     | Some [] \<Rightarrow> Inl noRules
     | Some (rule0 # rules) \<Rightarrow>
         (let rule = asMap rule0;
              refs = (case got (NestedSlice us rule [inner]) of None \<Rightarrow> [] | Some xs \<Rightarrow> xs) in
          case setRefs us key ws refs of
            Inl e \<Rightarrow> Inl e
          | Inr refs' \<Rightarrow>
              (case SetNestedSlice us rule refs' [inner] of
                 Inl e \<Rightarrow> Inl e
               | Inr rule' \<Rightarrow> SetNestedSlice us (Some object) (JMap rule' # rules) outer)))"

definition httpRouteWeights :: "unstructured_api \<Rightarrow> string \<Rightarrow> string \<Rightarrow> obj \<Rightarrow> string + weights" where
  "httpRouteWeights us ns name = readRefs us [''spec'', ''rules''] ''backendRefs'' [''name'']
     (''no rules found in HTTPRoute '' @ ns @ ''/'' @ name, ''invalid rule format'', ''no backendRefs in first rule'')"

definition virtualServiceWeights :: "unstructured_api \<Rightarrow> string \<Rightarrow> string \<Rightarrow> obj \<Rightarrow> string + weights" where
  "virtualServiceWeights us ns name = readRefs us [''spec'', ''http''] ''route'' [''destination'', ''host'']
     (''no http routes in VirtualService '' @ ns @ ''/'' @ name, ''invalid http route format'', ''no route entries'')"

section \<open>DNSEndpoints\<close>

definition firstTarget :: "unstructured_api \<Rightarrow> obj option \<Rightarrow> string option" where
  "firstTarget us e = (case got (NestedStringSlice us e [''targets'']) of Some (t # ts) \<Rightarrow> Some t | _ \<Rightarrow> None)"

definition addEndpoint :: "unstructured_api \<Rightarrow> weights \<Rightarrow> json \<Rightarrow> weights" where
  "addEndpoint us ws ep =
    (let e = asMap ep in
     case firstTarget us e of
       None \<Rightarrow> ws
     | Some t \<Rightarrow>
         (let ws' = (case got (NestedMap us e [''providerSpecific'']) of
                None \<Rightarrow> ws
              | Some prov \<Rightarrow> (case prov ''weight'' of None \<Rightarrow> ws | Some v \<Rightarrow> ws(t \<mapsto> parseWeight v))) in
          if ws' t = None then ws'(t \<mapsto> 0) else ws'))"

definition dnsEndpointWeights :: "unstructured_api \<Rightarrow> string \<Rightarrow> string \<Rightarrow> obj \<Rightarrow> string + weights" where
  "dnsEndpointWeights us ns name object =
    (case got (NestedSlice us (Some object) [''spec'', ''endpoints'']) of
       None \<Rightarrow> Inl (''no endpoints in DNSEndpoint '' @ ns @ ''/'' @ name)
     | Some endpoints \<Rightarrow> Inr (foldl (addEndpoint us) Map.empty endpoints))"

fun setEndpoints :: "unstructured_api \<Rightarrow> weights \<Rightarrow> json list \<Rightarrow> string + json list" where
  "setEndpoints us ws [] = Inr []"
| "setEndpoints us ws (ep # eps) =
    (let e = asMap ep in
     case firstTarget us e of
       None \<Rightarrow> map_sum id ((#) ep) (setEndpoints us ws eps)
     | Some t \<Rightarrow> (case ws t of
         None \<Rightarrow> map_sum id ((#) ep) (setEndpoints us ws eps)
       | Some w \<Rightarrow> (case e of
           None \<Rightarrow> Inl nilMapPanic
         | Some m \<Rightarrow> map_sum id ((#) (JMap (m(''providerSpecific'' \<mapsto> JMap [''weight'' \<mapsto> JString (fmt_d w)]))))
             (setEndpoints us ws eps))))"

definition patchEndpoints :: "unstructured_api \<Rightarrow> weights \<Rightarrow> obj \<Rightarrow> string + obj" where
  "patchEndpoints us ws object =
    (case got (NestedSlice us (Some object) [''spec'', ''endpoints'']) of
       None \<Rightarrow> Inl ''no endpoints in DNSEndpoint''
     | Some endpoints \<Rightarrow>
         (case setEndpoints us ws endpoints of
            Inl e \<Rightarrow> Inl e
          | Inr eps \<Rightarrow> SetNestedSlice us (Some object) eps [''spec'', ''endpoints'']))"

section \<open>Reading and patching through the client\<close>

definition readWith ::
  "'w kube_client \<Rightarrow> gvk \<Rightarrow> string \<Rightarrow> string \<Rightarrow> (obj \<Rightarrow> string + weights) \<Rightarrow> 'w \<Rightarrow> (string + weights) \<times> 'w"
where
  "readWith kube kind ns name f w = (case ku_Get kube kind ns name w of
     (Inl e, w') \<Rightarrow> (Inl e, w')
   | (Inr object, w') \<Rightarrow> (f object, w'))"

definition patchWith ::
  "'w kube_client \<Rightarrow> gvk \<Rightarrow> string \<Rightarrow> string \<Rightarrow> (obj \<Rightarrow> string + obj) \<Rightarrow> 'w \<Rightarrow> string option \<times> 'w"
where
  "patchWith kube kind ns name f w = (case ku_Get kube kind ns name w of
     (Inl e, w') \<Rightarrow> (Some e, w')
   | (Inr object, w') \<Rightarrow> (case f object of
       Inl e \<Rightarrow> (Some e, w')
     | Inr object' \<Rightarrow> ku_Update kube kind ns name object' w'))"

definition readHTTPRouteWeights where
  "readHTTPRouteWeights us kube ns name = readWith kube gvkHTTPRoute ns name (httpRouteWeights us ns name)"

definition readVirtualServiceWeights where
  "readVirtualServiceWeights us kube ns name = readWith kube gvkVirtualService ns name (virtualServiceWeights us ns name)"

definition readDNSEndpointWeights where
  "readDNSEndpointWeights us kube ns name = readWith kube gvkDNSEndpoint ns name (dnsEndpointWeights us ns name)"

definition patchHTTPRoute where
  "patchHTTPRoute us kube ns name ws = patchWith kube gvkHTTPRoute ns name
     (patchRefs us [''spec'', ''rules''] ''backendRefs'' [''name''] ''no rules in HTTPRoute'' ws)"

definition patchVirtualService where
  "patchVirtualService us kube ns name ws = patchWith kube gvkVirtualService ns name
     (patchRefs us [''spec'', ''http''] ''route'' [''destination'', ''host''] ''no http routes in VirtualService'' ws)"

definition patchDNSEndpoint where
  "patchDNSEndpoint us kube ns name ws = patchWith kube gvkDNSEndpoint ns name (patchEndpoints us ws)"

definition readCurrentWeights ::
  "unstructured_api \<Rightarrow> 'w kube_client \<Rightarrow> TrafficShiftPlan \<Rightarrow> 'w \<Rightarrow> (string + weights) \<times> 'w"
where
  "readCurrentWeights us kube plan w = (case pl_Backend plan of
     BackendGatewayAPI \<Rightarrow> readHTTPRouteWeights us kube (pl_Namespace plan) (pl_Name plan) w
   | BackendIstio \<Rightarrow> readVirtualServiceWeights us kube (pl_Namespace plan) (pl_Name plan) w
   | BackendExternalDNS \<Rightarrow> readDNSEndpointWeights us kube (pl_Namespace plan) (pl_Name plan) w
   | BackendOther b \<Rightarrow> (Inl (''unsupported backend: '' @ b), w))"

definition patchWeights ::
  "unstructured_api \<Rightarrow> 'w kube_client \<Rightarrow> TrafficShiftPlan \<Rightarrow> weights \<Rightarrow> 'w \<Rightarrow> string option \<times> 'w"
where
  "patchWeights us kube plan ws w = (case pl_Backend plan of
     BackendGatewayAPI \<Rightarrow> patchHTTPRoute us kube (pl_Namespace plan) (pl_Name plan) ws w
   | BackendIstio \<Rightarrow> patchVirtualService us kube (pl_Namespace plan) (pl_Name plan) ws w
   | BackendExternalDNS \<Rightarrow> patchDNSEndpoint us kube (pl_Namespace plan) (pl_Name plan) ws w
   | BackendOther b \<Rightarrow> (Some (''unsupported backend: '' @ b), w))"

section \<open>The third-party code\<close>

text \<open>The documented behaviour the program relies on. Accessors: a field is looked up under its path, so what
  they give depends on the first step of the path only, and a nil map has no fields; a field of the right type is returned; what was set is
  read back. API server: reading changes nothing, an accepted update stores the given \<open>spec\<close> (metadata may
  differ), a refused one stores nothing.\<close>

definition unstructured_ok :: "unstructured_api \<Rightarrow> bool" where
  "unstructured_ok us =
    ((\<forall>m m' k ks. m k = m' k \<longrightarrow>
        NestedSlice us (Some m) (k # ks) = NestedSlice us (Some m') (k # ks) \<and>
        NestedString us (Some m) (k # ks) = NestedString us (Some m') (k # ks) \<and>
        NestedStringSlice us (Some m) (k # ks) = NestedStringSlice us (Some m') (k # ks)) \<and>
     (\<forall>k ks. NestedSlice us None (k # ks) = Inr None) \<and>
     (\<forall>m k i. m k = Some (JInt i) \<longrightarrow> NestedInt64 us (Some m) [k] = Inr (Some i)) \<and>
     (\<forall>m k v. m k = Some (JMap v) \<longrightarrow> NestedMap us (Some m) [k] = Inr (Some v)) \<and>
     (\<forall>r xs p m. SetNestedSlice us r xs p = Inr m \<longrightarrow> NestedSlice us (Some m) p = Inr (Some xs)))"

type_synonym 'w object_store = "gvk \<Rightarrow> string \<Rightarrow> string \<Rightarrow> 'w \<Rightarrow> obj option"

definition kube_ok :: "'w kube_client \<Rightarrow> 'w object_store \<Rightarrow> bool" where
  "kube_ok kube stored =
    ((\<forall>g ns n w r w'. ku_Get kube g ns n w = (r, w') \<longrightarrow>
        (\<forall>g ns n. stored g ns n w' = stored g ns n w) \<and> (\<forall>m. r = Inr m \<longrightarrow> stored g ns n w = Some m)) \<and>
     (\<forall>g ns n m w e w'. ku_Update kube g ns n m w = (e, w') \<longrightarrow>
        (if e = None then \<exists>m'. stored g ns n w' = Some m' \<and> m' ''spec'' = m ''spec''
         else stored g ns n w' = stored g ns n w)))"

section \<open>Library\<close>

definition override :: "weights \<Rightarrow> weights \<Rightarrow> weights" where
  "override v ws = (\<lambda>n. case v n of None \<Rightarrow> None | Some x \<Rightarrow> Some (case ws n of Some y \<Rightarrow> y | None \<Rightarrow> x))"

definition weights32 :: "weights \<Rightarrow> bool" where
  "weights32 ws = (\<forall>w \<in> ran ws. in32 w)"

text \<open>Overriding with the weights that were there restores them.\<close>

lemma override_undo: "override (override v ws) v = v"
  by (auto simp: override_def fun_eq_iff split: option.split)

lemma override_empty [simp]: "override Map.empty ws = Map.empty"
  by (simp add: override_def)

lemma weights32_upd [simp]: "weights32 ws \<Longrightarrow> in32 w \<Longrightarrow> weights32 (ws(n \<mapsto> w))"
  by (auto simp: weights32_def ran_def)

lemma weights32_empty [simp]: "weights32 Map.empty"
  by (simp add: weights32_def)

lemma in32_zero [simp]: "in32 0"
  by (simp add: in32_def)

lemma weights32_D: "weights32 ws \<Longrightarrow> ws n = Some w \<Longrightarrow> wrap32 w = w"
  by (auto simp: weights32_def wrap32_id ranI)

lemma foldl_keep: "P a \<Longrightarrow> (\<And>a x. P a \<Longrightarrow> P (f a x)) \<Longrightarrow> P (foldl f a xs)"
  by (induction xs arbitrary: a) auto

subsection \<open>Weights as text\<close>

lemma is_digit_digits: "list_all is_digit (digits n)"
  using digits_range [of _ n] by (auto simp: list_all_iff is_digit_def char_in_def)

lemma takeWhile_all: "list_all P xs \<Longrightarrow> takeWhile P xs = xs"
  by (auto simp: list_all_iff)

lemma Sscanf_fmt_d: "in32 w \<Longrightarrow> Sscanf_int32 (fmt_d w) = w"
proof -
  assume w: "in32 w"
  obtain c cs where d: "digits (nat \<bar>w\<bar>) = c # cs" by (meson digits_nonempty list.exhaust)
  then have hd: "hd (digits (nat \<bar>w\<bar>)) = c" by simp
  have "is_digit c" using is_digit_digits [of "nat \<bar>w\<bar>"] by (simp add: d)
  then have c: "c \<noteq> CHR ''-''" "c \<noteq> CHR ''+''" "c \<notin> {CHR 0x09, CHR 0x0A, CHR 0x0B, CHR 0x0C, CHR 0x0D, CHR 0x20}"
    by (auto simp: is_digit_def char_in_def)
  have "skipSpace (fmt_d w) = Some (fmt_d w)" using c by (simp add: fmt_d_def d)
  moreover have "drop_sign (fmt_d w) = digits (nat \<bar>w\<bar>)" using c by (auto simp: fmt_d_def drop_sign_def d)
  moreover have "signedDigits (fmt_d w) (digits (nat \<bar>w\<bar>)) = w"
    using c(1) hd by (cases "w < 0") (auto simp: signedDigits_def fmt_d_def)
  ultimately show ?thesis using w by (simp add: Sscanf_int32_def takeWhile_all [OF is_digit_digits])
qed

lemma in32_parseWeight: "in32 (parseWeight v)"
  by (simp add: parseWeight_def Sscanf_int32_def Let_def split: json.split option.split)

subsection \<open>References\<close>

lemma unstructured_lookup:
  assumes "unstructured_ok us" "m k = m' k"
  shows "NestedSlice us (Some m) (k # ks) = NestedSlice us (Some m') (k # ks)"
    "NestedString us (Some m) (k # ks) = NestedString us (Some m') (k # ks)"
    "NestedStringSlice us (Some m) (k # ks) = NestedStringSlice us (Some m') (k # ks)"
  using assms(1) [unfolded unstructured_ok_def, THEN conjunct1, rule_format, of m k m', OF assms(2)] by simp_all

lemma unstructured_field:
  assumes "unstructured_ok us"
  shows "NestedSlice us None (k # ks) = Inr None" "m k = Some (JInt i) \<Longrightarrow> NestedInt64 us (Some m) [k] = Inr (Some i)"
    "m k = Some (JMap v) \<Longrightarrow> NestedMap us (Some m) [k] = Inr (Some v)"
    "SetNestedSlice us r xs p = Inr m \<Longrightarrow> NestedSlice us (Some m) p = Inr (Some xs)"
  using assms [unfolded unstructured_ok_def, THEN conjunct2] by simp_all

lemma asMap_JMap [simp]: "asMap (JMap m) = Some m"
  by (simp add: asMap_def)

lemma got_simps [simp]: "got (Inl e) = None" "got (Inr v) = v"
  by (simp_all add: got_def)

lemma map_sum_Inr: "map_sum id f r = Inr y \<longleftrightarrow> (\<exists>x. r = Inr x \<and> y = f x)"
  by (cases r) auto

lemma setRefs_weights:
  assumes "unstructured_ok us" "weights32 ws" "k \<noteq> ''weight''" "setRefs us (k # ks) ws refs = Inr refs'"
  shows "foldl (addRef us (k # ks)) (override v ws) refs' = override (foldl (addRef us (k # ks)) v refs) ws"
  using assms(4)
proof (induction refs arbitrary: refs' v)
  case (Cons ref refs)
  let ?n = "refName us (k # ks) (asMap ref)"
  show ?case
  proof (cases "ws ?n")
    case None
    then have "addRef us (k # ks) (override v ws) ref = override (addRef us (k # ks) v ref) ws"
      by (auto simp: override_def addRef_def)
    then show ?thesis using Cons None by (auto simp: Let_def map_sum_Inr)
  next
    case (Some w)
    then obtain m rs where m: "asMap ref = Some m" "refs' = JMap (m(''weight'' \<mapsto> JInt w)) # rs" "setRefs us (k # ks) ws refs = Inr rs"
      using Cons.prems by (auto simp: Let_def map_sum_Inr split: option.splits)
    let ?m = "m(''weight'' \<mapsto> JInt w)"
    have "refName us (k # ks) (Some ?m) = refName us (k # ks) (Some m)"
      using unstructured_lookup(2) [OF assms(1), of ?m k m] assms(3) by (simp add: refName_def)
    moreover have "refWeight us (Some ?m) = w"
      using unstructured_field(2) [OF assms(1), of ?m "''weight''" w] weights32_D [OF assms(2) Some] by (simp add: refWeight_def)
    ultimately have "addRef us (k # ks) (override v ws) (JMap ?m) = override (addRef us (k # ks) v ref) ws"
      using Some m(1) by (auto simp: override_def addRef_def)
    then show ?thesis using Cons.IH [OF m(3)] m(2) by simp
  qed
qed simp

definition weights_or_none :: "string + weights \<Rightarrow> weights" where
  "weights_or_none r = (case r of Inl e \<Rightarrow> Map.empty | Inr ws \<Rightarrow> ws)"

lemma weights_or_none_simps [simp]: "weights_or_none (Inl e) = Map.empty" "weights_or_none (Inr ws) = ws"
  by (simp_all add: weights_or_none_def)

lemma readRefs_eq:
  "weights_or_none (readRefs us outer inner key errs m) =
    (case got (NestedSlice us (Some m) outer) of
       Some (rule0 # rules) \<Rightarrow> (case asMap rule0 of
         Some rule \<Rightarrow> (case got (NestedSlice us (Some rule) [inner]) of Some refs \<Rightarrow> refWeights us key refs | None \<Rightarrow> Map.empty)
       | None \<Rightarrow> Map.empty)
     | _ \<Rightarrow> Map.empty)"
  by (simp add: readRefs_def split: option.split list.split prod.split)

lemma readRefs_spec:
  "unstructured_ok us \<Longrightarrow> m ''spec'' = m' ''spec'' \<Longrightarrow>
   readRefs us (''spec'' # outer) inner key errs m = readRefs us (''spec'' # outer) inner key errs m'"
  using unstructured_lookup(1) [of us m "''spec''" m' outer] by (simp add: readRefs_def)

lemma patchRefs_weights:
  assumes us: "unstructured_ok us" and ws: "weights32 ws" and k: "k \<noteq> ''weight''"
    and p: "patchRefs us outer inner (k # ks) e ws m = Inr m'"
  shows "weights_or_none (readRefs us outer inner (k # ks) errs m') =
    override (weights_or_none (readRefs us outer inner (k # ks) errs m)) ws"
proof -
  obtain rule0 rules where r: "got (NestedSlice us (Some m) outer) = Some (rule0 # rules)"
    using p by (auto simp: patchRefs_def split: option.splits list.splits)
  define refs where "refs = (case got (NestedSlice us (asMap rule0) [inner]) of None \<Rightarrow> [] | Some xs \<Rightarrow> xs)"
  obtain refs' rule' where s: "setRefs us (k # ks) ws refs = Inr refs'" "SetNestedSlice us (asMap rule0) refs' [inner] = Inr rule'"
      "SetNestedSlice us (Some m) (JMap rule' # rules) outer = Inr m'"
    using p r by (auto simp: patchRefs_def refs_def Let_def split: sum.splits)
  have "weights_or_none (readRefs us outer inner (k # ks) errs m') = refWeights us (k # ks) refs'"
    using unstructured_field(4) [OF us s(2)] unstructured_field(4) [OF us s(3)] by (simp add: readRefs_eq)
  also have "\<dots> = override (refWeights us (k # ks) refs) ws"
    using setRefs_weights [OF us ws k s(1), of Map.empty] by (simp add: refWeights_def)
  also have "override (refWeights us (k # ks) refs) ws = override (weights_or_none (readRefs us outer inner (k # ks) errs m)) ws"
  proof (cases "asMap rule0")
    case None
    then show ?thesis using r unstructured_field(1) [OF us] by (simp add: readRefs_eq refs_def refWeights_def)
  next
    case (Some rule)
    then show ?thesis using r by (simp add: readRefs_eq refs_def refWeights_def split: option.split)
  qed
  finally show ?thesis .
qed

lemma refWeights32: "weights32 (refWeights us key refs)"
  unfolding refWeights_def by (rule foldl_keep [where P = weights32]) (simp_all add: addRef_def refWeight_def)

lemma readRefs32: "weights32 (weights_or_none (readRefs us outer inner key errs m))"
  by (simp add: readRefs_eq refWeights32 split: option.split list.split)

subsection \<open>Endpoints\<close>

lemma setEndpoints_weights:
  assumes "unstructured_ok us" "weights32 ws" "setEndpoints us ws eps = Inr eps'"
  shows "foldl (addEndpoint us) (override v ws) eps' = override (foldl (addEndpoint us) v eps) ws"
  using assms(3)
proof (induction eps arbitrary: eps' v)
  case (Cons ep eps)
  show ?case
  proof (cases "\<exists>t w. firstTarget us (asMap ep) = Some t \<and> ws t = Some w")
    case False
    then obtain eps2 where e: "eps' = ep # eps2" "setEndpoints us ws eps = Inr eps2"
      using Cons.prems by (auto simp: Let_def map_sum_Inr split: option.splits)
    have "addEndpoint us (override v ws) ep = override (addEndpoint us v ep) ws"
      using False by (auto simp: addEndpoint_def Let_def override_def fun_eq_iff split: option.splits)
    then show ?thesis using Cons.IH [OF e(2)] e(1) by simp
  next
    case True
    then obtain t w where t: "firstTarget us (asMap ep) = Some t" "ws t = Some w" by auto
    then obtain m eps2 where m: "asMap ep = Some m" "setEndpoints us ws eps = Inr eps2"
        "eps' = JMap (m(''providerSpecific'' \<mapsto> JMap [''weight'' \<mapsto> JString (fmt_d w)])) # eps2"
      using Cons.prems by (auto simp: Let_def map_sum_Inr split: option.splits)
    let ?m = "m(''providerSpecific'' \<mapsto> JMap [''weight'' \<mapsto> JString (fmt_d w)])"
    have "firstTarget us (Some ?m) = Some t"
      using unstructured_lookup(3) [OF assms(1), of ?m "''targets''" m "[]"] t(1) m(1) by (simp add: firstTarget_def)
    moreover have "NestedMap us (Some ?m) [''providerSpecific''] = Inr (Some [''weight'' \<mapsto> JString (fmt_d w)])"
      by (rule unstructured_field(3) [OF assms(1)]) simp
    moreover have "parseWeight (JString (fmt_d w)) = w"
      using assms(2) t(2) by (simp add: parseWeight_def Sscanf_fmt_d weights32_def ranI)
    ultimately have "addEndpoint us (override v ws) (JMap ?m) = (override v ws)(t \<mapsto> w)"
      by (simp add: addEndpoint_def)
    also have "\<dots> = override (addEndpoint us v ep) ws"
      using t by (auto simp: addEndpoint_def Let_def override_def fun_eq_iff split: option.splits)
    finally show ?thesis using Cons.IH [OF m(2)] m(3) by simp
  qed
qed simp

lemma patchEndpoints_weights:
  assumes "unstructured_ok us" "weights32 ws" "patchEndpoints us ws m = Inr m'"
  shows "weights_or_none (dnsEndpointWeights us ns n m') = override (weights_or_none (dnsEndpointWeights us ns n m)) ws"
proof -
  obtain eps eps' where e: "got (NestedSlice us (Some m) [''spec'', ''endpoints'']) = Some eps" "setEndpoints us ws eps = Inr eps'"
      "SetNestedSlice us (Some m) eps' [''spec'', ''endpoints''] = Inr m'"
    using assms(3) by (auto simp: patchEndpoints_def split: option.splits sum.splits)
  show ?thesis
    using e(1) unstructured_field(4) [OF assms(1) e(3)] setEndpoints_weights [OF assms(1,2) e(2), of Map.empty]
    by (simp add: dnsEndpointWeights_def)
qed

lemma dnsEndpointWeights32: "weights32 (weights_or_none (dnsEndpointWeights us ns n m))"
proof -
  have "weights32 (foldl (addEndpoint us) Map.empty eps)" for eps
  proof (rule foldl_keep [where P = weights32])
    show "weights32 (addEndpoint us ws ep)" if "weights32 ws" for ws ep
      using that by (auto simp: addEndpoint_def Let_def in32_parseWeight split: option.split)
  qed simp
  then show ?thesis by (simp add: dnsEndpointWeights_def split: option.split)
qed

lemma dnsEndpointWeights_spec:
  "unstructured_ok us \<Longrightarrow> m ''spec'' = m' ''spec'' \<Longrightarrow> dnsEndpointWeights us ns n m = dnsEndpointWeights us ns n m'"
  using unstructured_lookup(1) [of us m "''spec''" m' "[''endpoints'']"] by (simp add: dnsEndpointWeights_def)

subsection \<open>The weights of a routing resource\<close>

definition resourceKind :: "TrafficBackend \<Rightarrow> gvk option" where
  "resourceKind b = (case b of BackendGatewayAPI \<Rightarrow> Some gvkHTTPRoute | BackendIstio \<Rightarrow> Some gvkVirtualService
     | BackendExternalDNS \<Rightarrow> Some gvkDNSEndpoint | BackendOther s \<Rightarrow> None)"

definition objectWeights :: "unstructured_api \<Rightarrow> TrafficBackend \<Rightarrow> string \<Rightarrow> string \<Rightarrow> obj \<Rightarrow> string + weights" where
  "objectWeights us b ns n m = (case b of BackendGatewayAPI \<Rightarrow> httpRouteWeights us ns n m | BackendIstio \<Rightarrow> virtualServiceWeights us ns n m
     | BackendExternalDNS \<Rightarrow> dnsEndpointWeights us ns n m | BackendOther s \<Rightarrow> Inl [])"

text \<open>The weights a routing resource carries: those the program reads from the stored object, none when there
  is no such object or it has no weights.\<close>

definition storedWeights :: "unstructured_api \<Rightarrow> 'w object_store \<Rightarrow> TrafficShiftPlan \<Rightarrow> 'w \<Rightarrow> weights" where
  "storedWeights us stored plan w =
    (case resourceKind (pl_Backend plan) of
       None \<Rightarrow> Map.empty
     | Some g \<Rightarrow> (case stored g (pl_Namespace plan) (pl_Name plan) w of
         None \<Rightarrow> Map.empty
       | Some m \<Rightarrow> weights_or_none (objectWeights us (pl_Backend plan) (pl_Namespace plan) (pl_Name plan) m)))"

lemma storedWeights32: "weights32 (storedWeights us stored plan w)"
  by (auto simp: storedWeights_def objectWeights_def httpRouteWeights_def virtualServiceWeights_def
      readRefs32 dnsEndpointWeights32 split: option.split TrafficBackend.split)

lemma storedWeights_cong:
  "(\<And>g ns n. stored g ns n w' = stored g ns n w) \<Longrightarrow> storedWeights us stored plan w' = storedWeights us stored plan w"
  by (simp add: storedWeights_def split: option.split)

lemma readWith_ok:
  assumes "kube_ok kube stored" "readWith kube g ns n f w = (r, w')"
  shows "(\<forall>g ns n. stored g ns n w' = stored g ns n w) \<and> (isl r \<or> (\<exists>m. stored g ns n w = Some m \<and> r = f m))"
proof -
  obtain x w1 where g: "ku_Get kube g ns n w = (x, w1)" by fastforce
  have "(\<forall>g ns n. stored g ns n w1 = stored g ns n w) \<and> (\<forall>m. x = Inr m \<longrightarrow> stored g ns n w = Some m)"
    using assms(1) [unfolded kube_ok_def, THEN conjunct1, rule_format, OF g] by simp
  then show ?thesis using assms(2) g by (cases x) (auto simp: readWith_def)
qed

lemma patchWith_ok:
  assumes "kube_ok kube stored" "patchWith kube g ns n f w = (e, w')"
  shows "if e = None then \<exists>m m1 m2. stored g ns n w = Some m \<and> f m = Inr m1 \<and> stored g ns n w' = Some m2 \<and> m2 ''spec'' = m1 ''spec''
    else stored g ns n w' = stored g ns n w"
proof -
  obtain x w1 where g: "ku_Get kube g ns n w = (x, w1)" by fastforce
  have w1: "(\<forall>g ns n. stored g ns n w1 = stored g ns n w) \<and> (\<forall>m. x = Inr m \<longrightarrow> stored g ns n w = Some m)"
    using assms(1) [unfolded kube_ok_def, THEN conjunct1, rule_format, OF g] by simp
  have up: "ku_Update kube g ns n m1 w1 = (e, w') \<Longrightarrow>
      (if e = None then \<exists>m'. stored g ns n w' = Some m' \<and> m' ''spec'' = m1 ''spec'' else stored g ns n w' = stored g ns n w1)" for m1
    using assms(1) [unfolded kube_ok_def, THEN conjunct2, rule_format, of g ns n m1 w1 e w'] by simp
  show ?thesis using assms(2) g w1 up by (auto simp: patchWith_def split: sum.splits)
qed

text \<open>The three kinds of resource in one form.\<close>

definition objectPatch :: "unstructured_api \<Rightarrow> TrafficBackend \<Rightarrow> weights \<Rightarrow> obj \<Rightarrow> string + obj" where
  "objectPatch us b ws = (case b of
     BackendGatewayAPI \<Rightarrow> patchRefs us [''spec'', ''rules''] ''backendRefs'' [''name''] ''no rules in HTTPRoute'' ws
   | BackendIstio \<Rightarrow> patchRefs us [''spec'', ''http''] ''route'' [''destination'', ''host''] ''no http routes in VirtualService'' ws
   | BackendExternalDNS \<Rightarrow> patchEndpoints us ws
   | BackendOther s \<Rightarrow> (\<lambda>m. Inl []))"

lemma readCurrentWeights_eq:
  "readCurrentWeights us kube plan w = (case resourceKind (pl_Backend plan) of
     None \<Rightarrow> (Inl (''unsupported backend: '' @ backendName (pl_Backend plan)), w)
   | Some g \<Rightarrow> readWith kube g (pl_Namespace plan) (pl_Name plan)
       (objectWeights us (pl_Backend plan) (pl_Namespace plan) (pl_Name plan)) w)"
  by (cases "pl_Backend plan")
    (simp_all add: readCurrentWeights_def resourceKind_def objectWeights_def [abs_def] readHTTPRouteWeights_def
      readVirtualServiceWeights_def readDNSEndpointWeights_def)

lemma patchWeights_eq:
  "patchWeights us kube plan ws w = (case resourceKind (pl_Backend plan) of
     None \<Rightarrow> (Some (''unsupported backend: '' @ backendName (pl_Backend plan)), w)
   | Some g \<Rightarrow> patchWith kube g (pl_Namespace plan) (pl_Name plan) (objectPatch us (pl_Backend plan) ws) w)"
  by (cases "pl_Backend plan")
    (simp_all add: patchWeights_def resourceKind_def objectPatch_def patchHTTPRoute_def patchVirtualService_def patchDNSEndpoint_def)

lemma objectPatch_weights:
  assumes "unstructured_ok us" "weights32 ws" "objectPatch us b ws m = Inr m'"
  shows "weights_or_none (objectWeights us b ns n m') = override (weights_or_none (objectWeights us b ns n m)) ws"
  using assms(3) patchRefs_weights [OF assms(1,2)] patchEndpoints_weights [OF assms(1,2)]
  by (cases b) (auto simp: objectPatch_def objectWeights_def httpRouteWeights_def virtualServiceWeights_def)

lemma objectWeights_spec:
  "unstructured_ok us \<Longrightarrow> m ''spec'' = m' ''spec'' \<Longrightarrow> objectWeights us b ns n m = objectWeights us b ns n m'"
  using readRefs_spec [of us m m'] dnsEndpointWeights_spec [of us m m']
  by (simp add: objectWeights_def httpRouteWeights_def virtualServiceWeights_def split: TrafficBackend.split)

lemma readCurrentWeights_ok:
  assumes "kube_ok kube stored" "readCurrentWeights us kube plan w = (r, w')"
  shows "storedWeights us stored q w' = storedWeights us stored q w \<and> (r = Inr (storedWeights us stored plan w) \<or> isl r)"
proof (cases "resourceKind (pl_Backend plan)")
  case None
  then show ?thesis using assms(2) by (auto simp: readCurrentWeights_eq)
next
  case (Some g)
  then have "readWith kube g (pl_Namespace plan) (pl_Name plan)
      (objectWeights us (pl_Backend plan) (pl_Namespace plan) (pl_Name plan)) w = (r, w')"
    using assms(2) by (simp add: readCurrentWeights_eq)
  note r = readWith_ok [OF assms(1) this]
  have "r = Inr (storedWeights us stored plan w)" if "\<not> isl r"
    using r that Some by (cases r) (auto simp: storedWeights_def dest: sym)
  then show ?thesis using r storedWeights_cong [of stored w' w us q] by blast
qed

lemma patchWeights_ok:
  assumes "kube_ok kube stored" "unstructured_ok us" "weights32 ws" "patchWeights us kube plan ws w = (e, w')"
  shows "storedWeights us stored plan w' = (if e = None then override (storedWeights us stored plan w) ws else storedWeights us stored plan w)"
proof (cases "resourceKind (pl_Backend plan)")
  case None
  then show ?thesis using assms(4) by (simp add: patchWeights_eq storedWeights_def)
next
  case (Some g)
  then have "patchWith kube g (pl_Namespace plan) (pl_Name plan) (objectPatch us (pl_Backend plan) ws) w = (e, w')"
    using assms(4) by (simp add: patchWeights_eq)
  note p = patchWith_ok [OF assms(1) this]
  show ?thesis
  proof (cases "e = None")
    case True
    then obtain m m1 m2 where m: "stored g (pl_Namespace plan) (pl_Name plan) w = Some m"
        "objectPatch us (pl_Backend plan) ws m = Inr m1"
        "stored g (pl_Namespace plan) (pl_Name plan) w' = Some m2" "m2 ''spec'' = m1 ''spec''"
      using p by auto
    then show ?thesis
      using True Some objectPatch_weights [OF assms(2,3) m(2)] objectWeights_spec [OF assms(2), of m2 m1] m(4)
      by (simp add: storedWeights_def)
  next
    case False
    then show ?thesis using p Some by (auto simp: storedWeights_def)
  qed
qed

section \<open>An instance\<close>

text \<open>Accessors and a server with a single object that behave as required.\<close>

fun nested :: "obj \<Rightarrow> string list \<Rightarrow> string + json option" where
  "nested m [] = Inr (Some (JMap m))"
| "nested m (k # ks) = (case m k of
     None \<Rightarrow> Inr None
   | Some v \<Rightarrow> if ks = [] then Inr (Some v) else (case v of JMap m' \<Rightarrow> nested m' ks | _ \<Rightarrow> Inl ''accessor error''))"

fun setNested :: "obj \<Rightarrow> string list \<Rightarrow> json \<Rightarrow> string + obj" where
  "setNested m [] v = Inl ''no field''"
| "setNested m (k # ks) v = (if ks = [] then Inr (m(k \<mapsto> v)) else
     case m k of
       None \<Rightarrow> map_sum id (\<lambda>m'. m(k \<mapsto> JMap m')) (setNested Map.empty ks v)
     | Some (JMap m') \<Rightarrow> map_sum id (\<lambda>m'. m(k \<mapsto> JMap m')) (setNested m' ks v)
     | Some _ \<Rightarrow> Inl ''accessor error'')"

definition nestedAs :: "(json \<Rightarrow> 'a option) \<Rightarrow> obj option \<Rightarrow> string list \<Rightarrow> string + 'a option" where
  "nestedAs f r p = (case r of None \<Rightarrow> Inr None | Some m \<Rightarrow> (case nested m p of
     Inl e \<Rightarrow> Inl e
   | Inr None \<Rightarrow> Inr None
   | Inr (Some v) \<Rightarrow> (case f v of None \<Rightarrow> Inl ''accessor error'' | Some x \<Rightarrow> Inr (Some x))))"

definition asString :: "json \<Rightarrow> string option" where
  "asString v = (case v of JString s \<Rightarrow> Some s | _ \<Rightarrow> None)"

definition jsonAccess :: unstructured_api where
  "jsonAccess = \<lparr>
     NestedSlice = nestedAs (\<lambda>v. case v of JList xs \<Rightarrow> Some xs | _ \<Rightarrow> None),
     NestedString = nestedAs asString,
     NestedInt64 = nestedAs (\<lambda>v. case v of JInt i \<Rightarrow> Some i | _ \<Rightarrow> None),
     NestedStringSlice = nestedAs (\<lambda>v. case v of JList xs \<Rightarrow> those (map asString xs) | _ \<Rightarrow> None),
     NestedMap = nestedAs asMap,
     SetNestedSlice = (\<lambda>r xs p. case r of None \<Rightarrow> Inl nilMapPanic | Some m \<Rightarrow> setNested m p (JList xs))\<rparr>"

lemma nested_setNested: "setNested m p v = Inr m' \<Longrightarrow> nested m' p = Inr (Some v)"
  by (induction m p v arbitrary: m' rule: setNested.induct)
    (auto simp: map_sum_Inr split: if_splits option.splits json.splits)

lemma jsonAccess_ok: "unstructured_ok jsonAccess"
  by (auto simp: unstructured_ok_def jsonAccess_def nestedAs_def nested_setNested asMap_def split: option.splits)

definition singleObject :: "obj kube_client" where
  "singleObject = \<lparr>ku_Get = (\<lambda>g ns n w. (Inr w, w)), ku_Update = (\<lambda>g ns n m w. (None, m))\<rparr>"

lemma singleObject_ok: "kube_ok singleObject (\<lambda>g ns n w. Some w)"
  by (simp add: kube_ok_def singleObject_def)

end
