(* ===== verification/Traffic.thy ===== *)
theory Traffic
  imports Global_Solver Routing
begin

text \<open>
  Gradual traffic shifting, the first half of \<open>internal/global/traffic.go\<close>. \<open>TrafficDeps\<close> is what \<open>Apply\<close> and
  \<open>MonitorAndRollback\<close> call: reading and patching the routing resource, which \<open>routingDeps\<close> fills in with the
  operations of \<open>Routing\<close>, the SLO checker (an interface the deployment implements), the clock, the sleep and
  the context. Loops over maps take the iteration order.
\<close>

section \<open>Data\<close>

datatype shift_error =
    ErrReadWeights string
  | ErrSLOCheck string string
  | ErrSLOLow string f64
  | ErrPatchWeights string
  | ErrNoAppliedShift string
  | ErrSLOCheckAfter string string
  | ErrSLODegraded string f64
  | ErrRollbackPatch string

record TrafficShiftResult =
  tr_Applied :: bool
  tr_RolledBack :: bool
  tr_OldWeights :: weights
  tr_NewWeights :: weights
  tr_Err :: "shift_error option"
  tr_RollbackErr :: "shift_error option"

definition emptyShiftResult :: TrafficShiftResult where
  "emptyShiftResult = \<lparr>tr_Applied = False, tr_RolledBack = False, tr_OldWeights = Map.empty,
     tr_NewWeights = Map.empty, tr_Err = None, tr_RollbackErr = None\<rparr>"

record appliedShift =
  as_plan :: TrafficShiftPlan
  as_oldW :: weights
  as_appliedAt :: gotime

record TrafficShifter =
  tsh_maxShift :: int
  tsh_rollbackW :: duration
  tsh_lastApplied :: "string \<rightharpoonup> appliedShift"

record 'w TrafficDeps =
  td_read :: "TrafficShiftPlan \<Rightarrow> 'w \<Rightarrow> (string + weights) \<times> 'w"
  td_patch :: "TrafficShiftPlan \<Rightarrow> weights \<Rightarrow> 'w \<Rightarrow> string option \<times> 'w"
  td_CheckSLO :: "string \<Rightarrow> 'w \<Rightarrow> (string + f64) \<times> 'w"
  td_now :: "'w \<Rightarrow> gotime \<times> 'w"
  td_sleep :: "duration \<Rightarrow> 'w \<Rightarrow> 'w"
  td_cancelled :: "'w \<Rightarrow> bool"

definition routingDeps ::
  "unstructured_api \<Rightarrow> 'w kube_client \<Rightarrow> (string \<Rightarrow> 'w \<Rightarrow> (string + f64) \<times> 'w) \<Rightarrow> ('w \<Rightarrow> gotime \<times> 'w) \<Rightarrow> (duration \<Rightarrow> 'w \<Rightarrow> 'w) \<Rightarrow>
   ('w \<Rightarrow> bool) \<Rightarrow> 'w TrafficDeps"
where
  "routingDeps us kube checkSLO now sleep cancelled = \<lparr>td_read = readCurrentWeights us kube, td_patch = patchWeights us kube,
     td_CheckSLO = checkSLO, td_now = now, td_sleep = sleep, td_cancelled = cancelled\<rparr>"

definition NewTrafficShifter :: TrafficShifter where
  "NewTrafficShifter = \<lparr>tsh_maxShift = 25, tsh_rollbackW = 5 * minute, tsh_lastApplied = Map.empty\<rparr>"

definition WithMaxShiftPercent :: "int \<Rightarrow> TrafficShifter \<Rightarrow> TrafficShifter" where
  "WithMaxShiftPercent pct ts = ts\<lparr>tsh_maxShift := pct\<rparr>"

definition WithRollbackWindow :: "duration \<Rightarrow> TrafficShifter \<Rightarrow> TrafficShifter" where
  "WithRollbackWindow d ts = ts\<lparr>tsh_rollbackW := d\<rparr>"

definition shiftKey :: "TrafficShiftPlan \<Rightarrow> string" where
  "shiftKey plan = backendName (pl_Backend plan) @ ''/'' @ pl_Namespace plan @ ''/'' @ pl_Name plan"

section \<open>Clamping\<close>

definition weightOf :: "weights \<Rightarrow> string \<Rightarrow> int" where
  "weightOf m n = (case m n of Some w \<Rightarrow> w | None \<Rightarrow> 0)"

definition clampOne :: "int \<Rightarrow> int \<Rightarrow> int \<Rightarrow> int" where
  "clampOne maxShift oldW newW =
    (let d = wrap32 (newW - oldW);
         delta = (if maxShift < d then maxShift else if d < wrap32 (- maxShift) then wrap32 (- maxShift) else d);
         w = wrap32 (oldW + delta) in
     if w < 0 then 0 else w)"

definition clampEach :: "int \<Rightarrow> weights \<Rightarrow> weights \<Rightarrow> string list \<Rightarrow> weights" where
  "clampEach maxShift current desired order =
     foldl (\<lambda>c n. case desired n of None \<Rightarrow> c | Some newW \<Rightarrow> c(n \<mapsto> clampOne maxShift (weightOf current n) newW)) Map.empty order"

definition largest :: "weights \<Rightarrow> string list \<Rightarrow> string" where
  "largest w order = fst (foldl (\<lambda>(best, b) n. if b < weightOf w n then (n, weightOf w n) else (best, b)) ([], 0) order)"

text \<open>\<open>order\<close> iterates over the desired weights, \<open>order'\<close> over the clamped ones.\<close>

definition clampWeights :: "string list \<Rightarrow> string list \<Rightarrow> int \<Rightarrow> weights \<Rightarrow> weights \<Rightarrow> weights" where
  "clampWeights order order' maxShift current desired =
    (let clamped = clampEach maxShift current desired order;
         total = foldl (\<lambda>t n. wrap32 (t + weightOf clamped n)) 0 order' in
     if total \<noteq> 100 \<and> 0 < total then
       (let best = largest clamped order' in
        clamped(best \<mapsto> wrap32 (weightOf clamped best + wrap32 (100 - total))))
     else clamped)"

section \<open>Shifting\<close>

text \<open>The SLO check before the shift: the first destination with more traffic that fails it.\<close>

fun preCheck :: "'w TrafficDeps \<Rightarrow> weights \<Rightarrow> weights \<Rightarrow> string list \<Rightarrow> 'w \<Rightarrow> shift_error option \<times> 'w" where
  "preCheck deps oldW newW [] w = (None, w)"
| "preCheck deps oldW newW (n # ns) w =
    (if weightOf oldW n < weightOf newW n then
       (case td_CheckSLO deps n w of
          (Inl e, w') \<Rightarrow> (Some (ErrSLOCheck n e), w')
        | (Inr slo, w') \<Rightarrow> if slo < lit 90 then (Some (ErrSLOLow n slo), w') else preCheck deps oldW newW ns w')
     else preCheck deps oldW newW ns w)"

definition ApplyShift ::
  "'w TrafficDeps \<Rightarrow> string list \<Rightarrow> string list \<Rightarrow> TrafficShiftPlan \<Rightarrow> TrafficShifter \<Rightarrow> 'w \<Rightarrow> TrafficShiftResult \<times> TrafficShifter \<times> 'w"
where
  "ApplyShift deps order order' plan ts w =
    (case td_read deps plan w of
       (Inl e, w1) \<Rightarrow> (emptyShiftResult\<lparr>tr_Err := Some (ErrReadWeights e)\<rparr>, ts, w1)
     | (Inr oldW, w1) \<Rightarrow>
         (let clamped = clampWeights order order' (tsh_maxShift ts) oldW (pl_Weights plan);
              result = emptyShiftResult\<lparr>tr_OldWeights := oldW, tr_NewWeights := clamped\<rparr> in
          case preCheck deps oldW clamped order' w1 of
            (Some e, w2) \<Rightarrow> (result\<lparr>tr_Err := Some e\<rparr>, ts, w2)
          | (None, w2) \<Rightarrow>
              (case td_patch deps plan clamped w2 of
                 (Some e, w3) \<Rightarrow> (result\<lparr>tr_Err := Some (ErrPatchWeights e)\<rparr>, ts, w3)
               | (None, w3) \<Rightarrow>
                   (case td_now deps w3 of (t, w4) \<Rightarrow>
                     (result\<lparr>tr_Applied := True\<rparr>,
                      ts\<lparr>tsh_lastApplied := (tsh_lastApplied ts)(shiftKey plan \<mapsto>
                        \<lparr>as_plan = plan, as_oldW = oldW, as_appliedAt = t\<rparr>)\<rparr>, w4)))))"

fun postCheck :: "'w TrafficDeps \<Rightarrow> f64 \<Rightarrow> string list \<Rightarrow> 'w \<Rightarrow> shift_error option \<times> 'w" where
  "postCheck deps minSLO [] w = (None, w)"
| "postCheck deps minSLO (n # ns) w = (case td_CheckSLO deps n w of
     (Inl e, w') \<Rightarrow> (Some (ErrSLOCheckAfter n e), w')
   | (Inr slo, w') \<Rightarrow> if slo < minSLO then (Some (ErrSLODegraded n slo), w') else postCheck deps minSLO ns w')"

definition MonitorAndRollback ::
  "'w TrafficDeps \<Rightarrow> string list \<Rightarrow> TrafficShiftPlan \<Rightarrow> f64 \<Rightarrow> TrafficShifter \<Rightarrow> 'w \<Rightarrow> TrafficShiftResult \<times> 'w"
where
  "MonitorAndRollback deps order plan minSLO ts w =
    (case tsh_lastApplied ts (shiftKey plan) of
       None \<Rightarrow> (emptyShiftResult\<lparr>tr_Err := Some (ErrNoAppliedShift (shiftKey plan))\<rparr>, w)
     | Some applied \<Rightarrow>
         (let w1 = td_sleep deps (tsh_rollbackW ts) w in
          if td_cancelled deps w1 then (emptyShiftResult, w1)
          else case postCheck deps minSLO order w1 of
            (None, w2) \<Rightarrow> (emptyShiftResult, w2)
          | (Some e, w2) \<Rightarrow>
              (case td_patch deps (as_plan applied) (as_oldW applied) w2 of
                 (Some e', w3) \<Rightarrow> (emptyShiftResult\<lparr>tr_RolledBack := True, tr_Err := Some e,
                     tr_RollbackErr := Some (ErrRollbackPatch e')\<rparr>, w3)
               | (None, w3) \<Rightarrow> (emptyShiftResult\<lparr>tr_RolledBack := True, tr_Err := Some e,
                     tr_OldWeights := as_oldW applied\<rparr>, w3))))"

section \<open>Library: clamping\<close>

definition weights_sane :: "weights \<Rightarrow> bool" where
  "weights_sane m = (\<forall>w \<in> ran m. 0 \<le> w \<and> w \<le> 100)"

lemma weightOf_sane: "weights_sane m \<Longrightarrow> 0 \<le> weightOf m n \<and> weightOf m n \<le> 100"
  by (auto simp: weights_sane_def weightOf_def ran_def split: option.split)

text \<open>Within the int32 range clamping is the obvious function.\<close>

lemma clampOne_eq:
  assumes "0 \<le> s" "s \<le> 100" "0 \<le> oldW" "oldW \<le> 100" "0 \<le> newW" "newW \<le> 100"
  shows "clampOne s oldW newW = (if s < newW - oldW then oldW + s else if newW - oldW < - s then oldW - s else newW)"
  using assms by (auto simp: clampOne_def Let_def wrap_simps in32_def)

lemma clampOne_bounds:
  assumes "0 \<le> s" "s \<le> 100" "0 \<le> oldW" "oldW \<le> 100" "0 \<le> newW" "newW \<le> 100"
  shows "0 \<le> clampOne s oldW newW \<and> clampOne s oldW newW \<le> 100 \<and> \<bar>clampOne s oldW newW - oldW\<bar> \<le> s \<and>
    min oldW newW \<le> clampOne s oldW newW \<and> clampOne s oldW newW \<le> max oldW newW"
  using assms by (auto simp: clampOne_eq)

lemma clampEach_eq:
  assumes "key_order desired order"
  shows "clampEach s current desired order = (\<lambda>n. map_option (clampOne s (weightOf current n)) (desired n))"
proof -
  have "foldl (\<lambda>c n. case desired n of None \<Rightarrow> c | Some x \<Rightarrow> c(n \<mapsto> clampOne s (weightOf current n) x)) c ns n =
      (if n \<in> set ns \<and> desired n \<noteq> None then map_option (clampOne s (weightOf current n)) (desired n) else c n)" for c ns n
    by (induction ns arbitrary: c) (auto split: option.splits)
  then show ?thesis using assms by (auto simp: clampEach_def key_order_def fun_eq_iff)
qed

lemma wrap_sum:
  assumes "distinct ns"
  shows "foldl (\<lambda>t n. wrap32 (t + f n)) (wrap32 t) ns = wrap32 (t + (\<Sum>n \<in> set ns. f n))"
  using assms
proof (induction ns arbitrary: t)
  case (Cons n ns)
  have "foldl (\<lambda>t n. wrap32 (t + f n)) (wrap32 (t + f n)) ns = wrap32 (t + f n + (\<Sum>n \<in> set ns. f n))"
    using Cons by simp
  then show ?case using Cons.prems by (simp add: wrap32_add_left add.assoc)
qed simp

lemma largest_loop:
  "r = foldl (\<lambda>(best, b) n. if b < weightOf w n then (n, weightOf w n) else (best, b)) (x, b) ns \<Longrightarrow>
   fst r \<in> set ns \<or> fst r = x \<and> (\<forall>n \<in> set ns. weightOf w n \<le> b)"
proof (induction ns arbitrary: x b)
  case (Cons n ns)
  show ?case
  proof (cases "b < weightOf w n")
    case True
    then show ?thesis using Cons.IH [of n "weightOf w n"] Cons.prems by auto
  next
    case False
    then show ?thesis using Cons.IH [of x b] Cons.prems by auto
  qed
qed simp

lemma largest_in: "n \<in> set ns \<Longrightarrow> 0 < weightOf w n \<Longrightarrow> largest w ns \<in> set ns"
  using largest_loop [OF refl, of w "[]" 0 ns] by (auto simp: largest_def)

lemma clampWeights_eq:
  assumes "key_order desired order" "key_order desired order'" "weights_sane current" "weights_sane desired"
    "0 \<le> s" "s \<le> 100" "card (dom desired) \<le> 2 ^ 20"
  defines "c \<equiv> clampEach s current desired order"
  defines "tot \<equiv> \<Sum>n \<in> dom desired. weightOf c n"
  shows "clampWeights order order' s current desired =
      (if tot \<noteq> 100 \<and> 0 < tot then c(largest c order' \<mapsto> weightOf c (largest c order') + (100 - tot)) else c)"
    and "dom c = dom desired" "\<And>n. n \<in> dom desired \<Longrightarrow> 0 \<le> weightOf c n \<and> weightOf c n \<le> 100 \<and> \<bar>weightOf c n - weightOf current n\<bar> \<le> s \<and>
      min (weightOf current n) (weightOf desired n) \<le> weightOf c n \<and> weightOf c n \<le> max (weightOf current n) (weightOf desired n)"
    and "0 < tot \<Longrightarrow> largest c order' \<in> dom desired" "0 \<le> tot" "tot = 0 \<Longrightarrow> n \<in> dom desired \<Longrightarrow> weightOf c n = 0"
proof -
  have c: "c = (\<lambda>n. map_option (clampOne s (weightOf current n)) (desired n))" unfolding c_def by (rule clampEach_eq [OF assms(1)])
  show d: "dom c = dom desired" unfolding c by (auto simp: dom_def)
  have fin: "finite (dom desired)" "set order' = dom desired" "distinct order'" using assms(2) by (auto simp: key_order_def) (metis List.finite_set)
  show b: "0 \<le> weightOf c n \<and> weightOf c n \<le> 100 \<and> \<bar>weightOf c n - weightOf current n\<bar> \<le> s \<and>
      min (weightOf current n) (weightOf desired n) \<le> weightOf c n \<and> weightOf c n \<le> max (weightOf current n) (weightOf desired n)"
    if n: "n \<in> dom desired" for n
  proof -
    obtain x where x: "desired n = Some x" using n by auto
    then have "weightOf desired n = x" "weightOf c n = clampOne s (weightOf current n) x" by (simp_all add: weightOf_def c)
    then show ?thesis using clampOne_bounds [OF assms(5,6)] weightOf_sane [OF assms(3), of n] weightOf_sane [OF assms(4), of n] by metis
  qed
  show t0: "0 \<le> tot" unfolding tot_def by (intro sum_nonneg) (use b in auto)
  have "tot \<le> (\<Sum>n \<in> dom desired. 100)" unfolding tot_def by (intro sum_mono) (use b in auto)
  then have t1: "tot \<le> 104857600" using assms(7) by simp
  have "foldl (\<lambda>t n. wrap32 (t + weightOf c n)) 0 order' = wrap32 tot"
    using wrap_sum [OF fin(3), of "weightOf c" 0] fin(2) by (simp add: tot_def wrap_simps in32_def)
  then have sm: "foldl (\<lambda>t n. wrap32 (t + weightOf c n)) 0 order' = tot" using t0 t1 by (simp add: wrap_simps in32_def)
  show lin: "largest c order' \<in> dom desired" if pos: "0 < tot"
  proof -
    obtain n where "n \<in> dom desired" "0 < weightOf c n"
      using pos unfolding tot_def by (metis sum_nonpos not_less)
    then show ?thesis using largest_in [of n order' c] fin(2) by simp
  qed
  show "weightOf c n = 0" if "tot = 0" "n \<in> dom desired"
    using that sum_nonneg_eq_0_iff [OF fin(1), of "weightOf c"] b unfolding tot_def by auto
  have "wrap32 (weightOf c (largest c order') + wrap32 (100 - tot)) = weightOf c (largest c order') + (100 - tot)"
    if "0 < tot"
    using b [OF lin [OF that]] t0 t1 by (simp add: wrap_simps in32_def)
  then show "clampWeights order order' s current desired =
      (if tot \<noteq> 100 \<and> 0 < tot then c(largest c order' \<mapsto> weightOf c (largest c order') + (100 - tot)) else c)"
    unfolding clampWeights_def c_def [symmetric] Let_def sm by simp
qed

section \<open>Library: routing\<close>

text \<open>What shifting needs of the resource: a patch that succeeds sets the weights of the backends the
  resource has, one that fails changes nothing, and the other calls do not change weights.\<close>

definition routing_ok :: "'w TrafficDeps \<Rightarrow> (TrafficShiftPlan \<Rightarrow> 'w \<Rightarrow> weights) \<Rightarrow> bool" where
  "routing_ok deps view =
    ((\<forall>p w r w'. td_read deps p w = (r, w') \<longrightarrow> (\<forall>q. view q w' = view q w) \<and> (r = Inr (view p w) \<or> isl r)) \<and>
     (\<forall>p ws w e w'. weights32 ws \<longrightarrow> td_patch deps p ws w = (e, w') \<longrightarrow>
        view p w' = (if e = None then override (view p w) ws else view p w)) \<and>
     (\<forall>p w. weights32 (view p w)) \<and>
     (\<forall>p n w. view p (snd (td_CheckSLO deps n w)) = view p w) \<and>
     (\<forall>p w. view p (snd (td_now deps w)) = view p w) \<and>
     (\<forall>p d w. view p (td_sleep deps d w) = view p w))"

text \<open>The checker, the clock and the sleep do not touch stored objects.\<close>

definition calls_keep ::
  "'w object_store \<Rightarrow> (string \<Rightarrow> 'w \<Rightarrow> (string + f64) \<times> 'w) \<Rightarrow> ('w \<Rightarrow> gotime \<times> 'w) \<Rightarrow> (duration \<Rightarrow> 'w \<Rightarrow> 'w) \<Rightarrow> bool"
where
  "calls_keep stored checkSLO now sleep = (\<forall>g ns n w.
     (\<forall>c. stored g ns n (snd (checkSLO c w)) = stored g ns n w) \<and> stored g ns n (snd (now w)) = stored g ns n w \<and>
     (\<forall>d. stored g ns n (sleep d w) = stored g ns n w))"

lemma routingDeps_ok:
  assumes "kube_ok kube stored" "unstructured_ok us" "calls_keep stored checkSLO now sleep"
  shows "routing_ok (routingDeps us kube checkSLO now sleep cancelled) (storedWeights us stored)"
  using assms(3) readCurrentWeights_ok [OF assms(1)] patchWeights_ok [OF assms(1,2)]
  by (auto simp: routing_ok_def routingDeps_def storedWeights32 calls_keep_def intro!: storedWeights_cong)

lemma routingDeps_sel [simp]:
  "td_read (routingDeps us kube c now sleep x) = readCurrentWeights us kube" "td_patch (routingDeps us kube c now sleep x) = patchWeights us kube"
  "td_CheckSLO (routingDeps us kube c now sleep x) = c" "td_now (routingDeps us kube c now sleep x) = now"
  "td_sleep (routingDeps us kube c now sleep x) = sleep" "td_cancelled (routingDeps us kube c now sleep x) = x"
  by (simp_all add: routingDeps_def)

lemma routing_read: "routing_ok deps view \<Longrightarrow> td_read deps p w = (r, w') \<Longrightarrow> view q w' = view q w \<and> (r = Inr (view p w) \<or> isl r)"
  unfolding routing_ok_def by blast

lemma routing_patch:
  "routing_ok deps view \<Longrightarrow> weights32 ws \<Longrightarrow> td_patch deps p ws w = (e, w') \<Longrightarrow> view p w' = (if e = None then override (view p w) ws else view p w)"
  unfolding routing_ok_def by blast

lemma routing_32: "routing_ok deps view \<Longrightarrow> weights32 (view p w)"
  unfolding routing_ok_def by blast

lemma routing_keep:
  assumes "routing_ok deps view"
  shows "td_CheckSLO deps n w = (r, w') \<Longrightarrow> view p w' = view p w" "td_now deps w = (t, w') \<Longrightarrow> view p w' = view p w"
    "view p (td_sleep deps d w) = view p w"
  using assms unfolding routing_ok_def by (metis snd_conv)+

lemma preCheck_view:
  "routing_ok deps view \<Longrightarrow> preCheck deps oldW newW ns w = (e, w') \<Longrightarrow> view p w' = view p w"
proof (induction ns arbitrary: w)
  case (Cons n ns)
  obtain r w1 where c: "td_CheckSLO deps n w = (r, w1)" by fastforce
  then show ?case using Cons routing_keep(1) [OF Cons.prems(1) c, of p] by (auto split: sum.splits if_splits)
qed simp

lemma postCheck_view:
  "routing_ok deps view \<Longrightarrow> postCheck deps m ns w = (e, w') \<Longrightarrow> view p w' = view p w"
proof (induction ns arbitrary: w)
  case (Cons n ns)
  obtain r w1 where c: "td_CheckSLO deps n w = (r, w1)" by fastforce
  then show ?case using Cons routing_keep(1) [OF Cons.prems(1) c, of p] by (auto split: sum.splits if_splits)
qed simp

lemma preCheck_ok:
  "preCheck deps oldW newW ns w = (None, w') \<Longrightarrow> td_CheckSLO deps = (\<lambda>n w. (f n, w)) \<Longrightarrow>
   n \<in> set ns \<Longrightarrow> weightOf oldW n < weightOf newW n \<Longrightarrow> \<exists>s. f n = Inr s \<and> \<not> s < lit 90"
  by (induction ns arbitrary: w) (auto split: sum.splits if_splits)

lemma clampEach32: "weights32 (clampEach s current desired order)"
  unfolding clampEach_def
  by (rule foldl_keep [where P = weights32]) (auto simp: clampOne_def Let_def split: option.split)

lemma clampWeights32: "weights32 (clampWeights order order' s current desired)"
  using clampEach32 [of s current desired order] by (simp add: clampWeights_def Let_def)

lemma ApplyShift_cases:
  assumes "routing_ok deps view" "ApplyShift deps order order' plan ts w = (r, ts', w')"
  shows "if tr_Applied r then
       tr_OldWeights r = view plan w \<and> tr_NewWeights r = clampWeights order order' (tsh_maxShift ts) (view plan w) (pl_Weights plan) \<and>
       view plan w' = override (view plan w) (tr_NewWeights r) \<and> tr_Err r = None \<and>
       (\<exists>w1 w2 t. preCheck deps (tr_OldWeights r) (tr_NewWeights r) order' w1 = (None, w2) \<and>
         tsh_lastApplied ts' (shiftKey plan) = Some \<lparr>as_plan = plan, as_oldW = view plan w, as_appliedAt = t\<rparr>)
     else view plan w' = view plan w \<and> ts' = ts \<and> tr_Err r \<noteq> None"
proof -
  obtain x w1 where rd: "td_read deps plan w = (x, w1)" by fastforce
  note v1 = routing_read [OF assms(1) rd]
  show ?thesis
  proof (cases x)
    case (Inl e)
    then show ?thesis using assms(2) rd v1 by (auto simp: ApplyShift_def emptyShiftResult_def)
  next
    case (Inr old)
    then have old: "old = view plan w" using v1 by auto
    define c where "c = clampWeights order order' (tsh_maxShift ts) old (pl_Weights plan)"
    obtain e2 w2 where pc: "preCheck deps old c order' w1 = (e2, w2)" by fastforce
    obtain e3 w3 where pt: "td_patch deps plan c w2 = (e3, w3)" by fastforce
    obtain t w4 where nw: "td_now deps w3 = (t, w4)" by fastforce
    have v2: "view plan w2 = view plan w" using preCheck_view [OF assms(1) pc] v1 by simp
    have v3: "view plan w3 = (if e3 = None then override (view plan w) c else view plan w)"
      using routing_patch [OF assms(1) _ pt] clampWeights32 v2 unfolding c_def by simp
    have v4: "view plan w4 = view plan w3" using routing_keep(2) [OF assms(1) nw] .
    show ?thesis
      using assms(2) rd Inr pc pt nw v2 v3 v4 old
      by (auto simp: ApplyShift_def emptyShiftResult_def Let_def c_def split: option.splits) blast
  qed
qed

section \<open>Properties\<close>

text \<open>C18. Clamping, for weights between 0 and 100 and any map iteration orders: the clamped weights are for exactly
  the desired backends and add up to 100, or are all zero; every backend other than the one with the largest
  clamped weight moves towards its desired weight and by at most the maximal shift.\<close>
theorem clampWeights_ok:
  assumes "key_order desired order" "key_order desired order'" "weights_sane current" "weights_sane desired"
    "0 \<le> s" "s \<le> 100" "card (dom desired) \<le> 2 ^ 20"
  defines "r \<equiv> clampWeights order order' s current desired"
  shows "dom r = dom desired \<and>
    ((\<forall>n \<in> dom desired. weightOf r n = 0) \<or> (\<Sum>n \<in> dom desired. weightOf r n) = 100) \<and>
    (\<forall>n \<in> dom desired. n = largest (clampEach s current desired order) order' \<or>
       (\<bar>weightOf r n - weightOf current n\<bar> \<le> s \<and>
        min (weightOf current n) (weightOf desired n) \<le> weightOf r n \<and> weightOf r n \<le> max (weightOf current n) (weightOf desired n)))"
proof -
  let ?c = "clampEach s current desired order" and ?A = "dom desired"
  let ?b = "largest ?c order'" and ?t = "\<Sum>n \<in> dom desired. weightOf (clampEach s current desired order) n"
  note c = clampWeights_eq [OF assms(1-7)]
  have fin: "finite ?A" using assms(2) by (auto simp: key_order_def) (metis List.finite_set)
  show ?thesis
  proof (cases "?t \<noteq> 100 \<and> 0 < ?t")
    case True
    then have r: "r = ?c(?b \<mapsto> weightOf ?c ?b + (100 - ?t))" using c(1) unfolding r_def by simp
    have b: "?b \<in> ?A" using c(4) True by simp
    have w: "weightOf r n = (if n = ?b then weightOf ?c n + (100 - ?t) else weightOf ?c n)" for n
      by (simp add: r weightOf_def)
    have "(\<Sum>n \<in> ?A. weightOf r n) = 100" unfolding w using sum_adjust [OF fin b, of "weightOf ?c" "100 - ?t"] by simp
    then show ?thesis using c(2,3) b w by (auto simp: r)
  next
    case False
    have r: "r = ?c" unfolding r_def using c(1) unfolding if_not_P [OF False] .
    then have "(\<forall>n \<in> ?A. weightOf r n = 0) \<or> (\<Sum>n \<in> ?A. weightOf r n) = 100"
      using False c(5,6) by (cases "?t = 0") auto
    then show ?thesis using r c(2,3) by blast
  qed
qed

definition demo_current :: weights where
  "demo_current = [''x'' \<mapsto> 100, ''y'' \<mapsto> 0, ''z'' \<mapsto> 0]"

definition demo_desired :: weights where
  "demo_desired = [''x'' \<mapsto> 0, ''y'' \<mapsto> 50, ''z'' \<mapsto> 50]"

lemma clampWeights_ok_witness:
  "dom (clampWeights [''x'', ''y'', ''z''] [''z'', ''y'', ''x''] 25 demo_current demo_desired) = {''x'', ''y'', ''z''}"
proof -
  have d: "dom demo_desired = {''x'', ''y'', ''z''}" by (auto simp: demo_desired_def)
  have o: "key_order demo_desired [''x'', ''y'', ''z'']" "key_order demo_desired [''z'', ''y'', ''x'']"
    by (auto simp: key_order_def d)
  have s: "weights_sane demo_current" "weights_sane demo_desired"
    by (auto simp: weights_sane_def demo_current_def demo_desired_def ran_def split: if_splits)
  show ?thesis using clampWeights_ok [OF o s, of 25] d by simp
qed

text \<open>The limit per cycle does not hold for the backend that absorbs the normalisation: shifting 100 percent of
  the traffic of one backend to two others with a limit of 25 moves the first by 50 at once.\<close>
theorem clampWeights_exceeds:
  "map (clampWeights [''x'', ''y'', ''z''] [''x'', ''y'', ''z''] 25 demo_current demo_desired) [''x'', ''y'', ''z'']
   = [Some 50, Some 25, Some 25]"
  by code_simp

text \<open>C19. A shift is applied only if every backend that gets more traffic has an SLO check that succeeded at 90
  percent or more; then the resource carries the clamped weights. Otherwise an error is reported, the routing
  resource is as before and nothing is recorded for a rollback.\<close>
theorem ApplyShift_safe:
  assumes "kube_ok kube stored" "unstructured_ok us" "calls_keep stored (\<lambda>n w. (f n, w)) now sleep"
    "ApplyShift (routingDeps us kube (\<lambda>n w. (f n, w)) now sleep cancelled) order order' plan ts w = (r, ts', w')"
  defines "view \<equiv> storedWeights us stored"
  shows "if tr_Applied r then view plan w' = override (view plan w) (tr_NewWeights r) \<and> tr_Err r = None \<and>
       tr_NewWeights r = clampWeights order order' (tsh_maxShift ts) (view plan w) (pl_Weights plan) \<and>
       (\<forall>n \<in> set order'. weightOf (tr_NewWeights r) n \<le> weightOf (view plan w) n \<or> (\<exists>s. f n = Inr s \<and> \<not> s < lit 90))
     else view plan w' = view plan w \<and> ts' = ts \<and> tr_Err r \<noteq> None"
proof (cases "tr_Applied r")
  let ?d = "routingDeps us kube (\<lambda>n w. (f n, w)) now sleep cancelled"
  note c = ApplyShift_cases [OF routingDeps_ok [OF assms(1-3)] assms(4)]
  case True
  then obtain w1 w2 where "preCheck ?d (tr_OldWeights r) (tr_NewWeights r) order' w1 = (None, w2)" "tr_OldWeights r = view plan w"
    using c by (auto simp: view_def)
  then have "\<exists>s. f n = Inr s \<and> \<not> s < lit 90" if "n \<in> set order'" "weightOf (view plan w) n < weightOf (tr_NewWeights r) n" for n
    using preCheck_ok [OF _ _ that(1), of ?d] that(2) by (metis routingDeps_sel(3))
  then show ?thesis using c True by (auto simp: not_le [symmetric] view_def)
next
  case False
  then show ?thesis using ApplyShift_cases [OF routingDeps_ok [OF assms(1-3)] assms(4)] by (simp add: view_def)
qed

definition demo_route :: "string \<Rightarrow> int \<Rightarrow> json" where
  "demo_route h w = JMap [''destination'' \<mapsto> JMap [''host'' \<mapsto> JString h], ''weight'' \<mapsto> JInt w]"

definition demo_object :: obj where
  "demo_object = [''spec'' \<mapsto> JMap [''http'' \<mapsto> JList [JMap [''route'' \<mapsto> JList
     [demo_route ''x'' 100, demo_route ''y'' 0, demo_route ''z'' 0]]]]]"

definition demo_plan_shift :: TrafficShiftPlan where
  "demo_plan_shift = \<lparr>pl_Backend = BackendIstio, pl_Namespace = ''shop'', pl_Name = ''web'', pl_Weights = demo_desired\<rparr>"

definition demo_routing :: "f64 \<Rightarrow> obj TrafficDeps" where
  "demo_routing x = routingDeps jsonAccess singleObject (\<lambda>n w. (Inr x, w)) (Pair 0) (\<lambda>d w. w) (\<lambda>w. False)"

abbreviation demo_weights :: "obj \<Rightarrow> weights" where
  "demo_weights \<equiv> storedWeights jsonAccess (\<lambda>g ns n w. Some w) demo_plan_shift"

lemma demo_calls: "calls_keep (\<lambda>g ns n w. Some w) (\<lambda>n w. (Inr x, w)) (Pair 0) (\<lambda>d w. w)"
  by (simp add: calls_keep_def)

lemma demo_before: "demo_weights demo_object = demo_current"
  by (simp add: storedWeights_def resourceKind_def objectWeights_def virtualServiceWeights_def readRefs_eq demo_object_def
      jsonAccess_def nestedAs_def demo_route_def refWeights_def addRef_def refName_def refWeight_def asString_def demo_plan_shift_def
      demo_current_def wrap32_def)

lemma ApplyShift_safe_witness:
  "case ApplyShift (demo_routing (lit 50)) [''x'', ''y'', ''z''] [''x'', ''y'', ''z''] demo_plan_shift NewTrafficShifter demo_object of
     (r, ts', w') \<Rightarrow> \<not> tr_Applied r \<and> demo_weights w' = demo_current"
proof -
  let ?o = "[''x'', ''y'', ''z'']"
  obtain r ts' w' where a: "ApplyShift (demo_routing (lit 50)) ?o ?o demo_plan_shift NewTrafficShifter demo_object = (r, ts', w')"
    by (metis prod_cases3)
  note s = ApplyShift_safe [OF singleObject_ok jsonAccess_ok demo_calls a [unfolded demo_routing_def], unfolded demo_before]
  have c: "weightOf (clampWeights ?o ?o 25 demo_current demo_desired) ''y'' = 25" by code_simp
  have "\<not> tr_Applied r"
  proof
    assume ap: "tr_Applied r"
    then have "weightOf (clampWeights ?o ?o 25 demo_current demo_desired) ''y'' \<le> weightOf demo_current ''y''"
      using s by (auto simp: NewTrafficShifter_def demo_plan_shift_def rnd_exact)
    then show False unfolding c by (simp add: demo_current_def weightOf_def)
  qed
  then show ?thesis using a s by simp
qed

text \<open>C20. Rolling back restores the weights from before the shift: after an applied shift, if the monitor decides to
  roll back and its patch succeeds, the routing resource carries exactly its former weights; if it does not
  roll back, the resource keeps the shifted ones.\<close>
theorem rollback_restores:
  fixes cancelled :: "'w \<Rightarrow> bool"
  assumes "kube_ok kube stored" "unstructured_ok us" "calls_keep stored checkSLO now sleep"
  defines "deps \<equiv> routingDeps us kube checkSLO now sleep cancelled" and "view \<equiv> storedWeights us stored"
  assumes "ApplyShift deps order order' plan ts w = (r, ts', w1)" "tr_Applied r"
    "MonitorAndRollback deps order2 plan minSLO ts' w1 = (r2, w2)" "tr_RollbackErr r2 = None"
  shows "view plan w2 = (if tr_RolledBack r2 then view plan w else override (view plan w) (tr_NewWeights r))"
proof -
  have ok: "routing_ok deps view" using routingDeps_ok [OF assms(1-3)] by (simp add: deps_def view_def)
  obtain t where v1: "view plan w1 = override (view plan w) (tr_NewWeights r)"
    and la: "tsh_lastApplied ts' (shiftKey plan) = Some \<lparr>as_plan = plan, as_oldW = view plan w, as_appliedAt = t\<rparr>"
    using ApplyShift_cases [OF ok assms(6)] assms(7) by auto
  let ?w = "td_sleep deps (tsh_rollbackW ts') w1"
  obtain e w3 where pc: "postCheck deps minSLO order2 ?w = (e, w3)" by fastforce
  obtain e' w4 where pt: "td_patch deps plan (view plan w) w3 = (e', w4)" by fastforce
  have v: "view plan ?w = view plan w1" "view plan w3 = view plan w1"
    using routing_keep(3) [OF ok] postCheck_view [OF ok pc] by simp_all
  moreover have "view plan w4 = (if e' = None then view plan w else view plan w1)"
    using routing_patch [OF ok routing_32 [OF ok] pt] v v1 override_undo by simp
  ultimately show ?thesis
    using assms(8,9) la pc pt v1
    by (auto simp: MonitorAndRollback_def Let_def emptyShiftResult_def split: if_splits option.splits)
qed

lemma demo_rolls_back:
  "case ApplyShift (demo_routing (lit 95)) [''x'', ''y'', ''z''] [''x'', ''y'', ''z''] demo_plan_shift NewTrafficShifter demo_object of
     (r, ts', w1) \<Rightarrow> tr_Applied r \<and> (case MonitorAndRollback (demo_routing (lit 95)) [''x'', ''y'', ''z''] demo_plan_shift (lit 99) ts' w1 of
       (r2, w2) \<Rightarrow> tr_RolledBack r2 \<and> tr_RollbackErr r2 = None)"
  by code_simp

lemma rollback_restores_witness:
  "case ApplyShift (demo_routing (lit 95)) [''x'', ''y'', ''z''] [''x'', ''y'', ''z''] demo_plan_shift NewTrafficShifter demo_object of
     (r, ts', w1) \<Rightarrow> (case MonitorAndRollback (demo_routing (lit 95)) [''x'', ''y'', ''z''] demo_plan_shift (lit 99) ts' w1 of
       (r2, w2) \<Rightarrow> tr_RolledBack r2 \<and> demo_weights w2 = demo_current)"
proof -
  let ?d = "demo_routing (lit 95)" and ?o = "[''x'', ''y'', ''z'']"
  obtain r ts' w1 where a: "ApplyShift ?d ?o ?o demo_plan_shift NewTrafficShifter demo_object = (r, ts', w1)" by (metis prod_cases3)
  obtain r2 w2 where m: "MonitorAndRollback ?d ?o demo_plan_shift (lit 99) ts' w1 = (r2, w2)" by fastforce
  have "tr_Applied r" "tr_RolledBack r2" "tr_RollbackErr r2 = None" using demo_rolls_back a m by simp_all
  then show ?thesis
    using rollback_restores [OF singleObject_ok jsonAccess_ok demo_calls a [unfolded demo_routing_def] _ m [unfolded demo_routing_def]]
      a m by (simp add: demo_before)
qed

end
