(* ===== verification/Go_FormatFloat.thy ===== *)
theory Go_FormatFloat
  imports Go_ParseFloat
begin

text \<open>
  \<open>strconv.FormatFloat(x, 'f', -1, 64)\<close>: the decimal notation, without exponent, of the shortest decimal that
  rounds to \<open>x\<close>, and of two such of the same length the closer one. The search tries one significant digit
  after the other; 17 digits identify every float64, so the bound on the search is never reached.
\<close>

definition scale10 :: "rat \<Rightarrow> int \<Rightarrow> rat" where
  "scale10 q k = (if 0 \<le> k then q * 10 ^ nat k else q / 10 ^ nat (- k))"

text \<open>The least \<open>j\<close> with \<open>1 \<le> q * 10 ^ j\<close>; float64 needs at most 324.\<close>

fun leadingZeros :: "nat \<Rightarrow> rat \<Rightarrow> nat" where
  "leadingZeros 0 q = 0"
| "leadingZeros (Suc n) q = (if 1 \<le> q then 0 else Suc (leadingZeros n (q * 10)))"

definition firstDecimal :: "rat \<Rightarrow> int" where
  "firstDecimal q = (if 1 \<le> q then 1 - int (length (digits (nat \<lfloor>q\<rfloor>))) else int (leadingZeros 330 q))"

fun shortest :: "nat \<Rightarrow> int \<Rightarrow> rat \<Rightarrow> int \<times> int" where
  "shortest 0 k q = (rne (scale10 q k), k)"
| "shortest (Suc n) k q =
    (let lo = \<lfloor>scale10 q k\<rfloor>;
         down = (rnd (scale10 (of_int lo) (- k)) = Fin q);
         up = (rnd (scale10 (of_int (lo + 1)) (- k)) = Fin q) in
     if down \<and> up then (rne (scale10 q k), k)
     else if down then (lo, k)
     else if up then (lo + 1, k)
     else shortest n (k + 1) q)"

text \<open>The number \<open>m * 10 ^ (- k)\<close> in plain notation.\<close>

definition plain :: "nat \<Rightarrow> int \<Rightarrow> string" where
  "plain m k =
    (if k \<le> 0 then digits m @ replicate (nat (- k)) (CHR ''0'')
     else
       let s = pad_left (nat k + 1) (digits m); i = length s - nat k;
           frac = rev (dropWhile (\<lambda>c. c = CHR ''0'') (rev (drop i s))) in
       take i s @ (if frac = [] then [] else ''.'' @ frac))"

fun FormatFloat :: "f64 \<Rightarrow> string" where
  "FormatFloat NaN = ''NaN''"
| "FormatFloat PInf = ''+Inf''"
| "FormatFloat NInf = ''-Inf''"
| "FormatFloat (Fin q) =
    (if q = 0 then ''0''
     else (if q < 0 then ''-'' else []) @
       (case shortest 16 (firstDecimal \<bar>q\<bar>) \<bar>q\<bar> of (m, k) \<Rightarrow> plain (nat m) k))"

end
