(* ===== verification/Tuning.thy ===== *)
theory Tuning
  imports Go_FormatFloat
begin

text \<open>
  The parameter optimizer, \<open>internal/tuning/optimizer.go\<close>, on the types of
  \<open>api/tuning/v1alpha1/applicationtuning_types.go\<close>. The SLO fetcher and the applier are interfaces of the
  deployment: functions on a world \<open>'w\<close>, like the clock. Messages and errors are values that carry what the
  program prints into their text.
\<close>

section \<open>Data\<close>

datatype ParameterType = ParamTypeInteger | ParamTypeFloat | ParamTypeString

datatype ParameterSource = SourceConfigMap | SourceEnv

datatype TuningPhase = TuningIdle | TuningExploring | TuningObserving | TuningConverged | TuningRolledBack | TuningPaused | TuningError

record ConfigMapRef =
  cmr_Name :: string
  cmr_Namespace :: string
  cmr_Key :: string

record TunableParameter =
  tp_Name :: string
  tp_Type :: ParameterType
  tp_Source :: ParameterSource
  tp_ConfigMapRef :: "ConfigMapRef option"
  tp_EnvVarName :: string
  tp_Min :: string
  tp_Max :: string
  tp_Step :: string
  tp_AllowedValues :: "string list"
  tp_Default :: string

record TuningSafetyPolicy =
  tsp_MaxChangePercent :: int
  tsp_CooldownMinutes :: int
  tsp_RollbackOnSLOViolation :: bool
  tsp_SLOThresholdPercent :: f64

record ParameterObservation =
  po_ParameterName :: string
  po_Value :: string
  po_SLOValue :: f64
  po_ObservedAt :: gotime

record ApplicationTuningStatus =
  ats_CurrentValues :: "string \<rightharpoonup> string"
  ats_BestSLOValue :: f64
  ats_ActiveParameter :: string
  ats_Observations :: "ParameterObservation list"
  ats_CooldownUntil :: "gotime option"

record ApplicationTuning =
  at_Namespace :: string
  at_TargetName :: string
  at_Parameters :: "TunableParameter list"
  at_Objective :: string
  at_SafetyPolicy :: "TuningSafetyPolicy option"
  at_Paused :: bool
  at_Status :: ApplicationTuningStatus

record GridPoint =
  gp_Value :: string
  gp_Float :: f64

datatype grid_error = NoAllowedValues string | InvalidMin string string | InvalidMax string string | MaxNotAboveMin string f64 f64

section \<open>The grid\<close>

definition formatValue :: "ParameterType \<Rightarrow> f64 \<Rightarrow> string" where
  "formatValue t v = (if t = ParamTypeInteger then fmt_d (to_int64 (fround v)) else FormatFloat v)"

definition finiteFloat :: "string \<Rightarrow> f64 option" where
  "finiteFloat s = (case ParseFloat s of Some (Fin q) \<Rightarrow> Some (Fin q) | _ \<Rightarrow> None)"

definition gridStep :: "TunableParameter \<Rightarrow> f64 \<Rightarrow> f64 \<Rightarrow> f64" where
  "gridStep p minVal maxVal =
    (let step = (maxVal - minVal) / lit 10 in
     if tp_Step p = [] then step
     else case ParseFloat (tp_Step p) of Some s \<Rightarrow> if 0 < s then s else step | None \<Rightarrow> step)"

text \<open>The loop; \<open>n\<close> is how many points may still come, the one of this round included.\<close>

fun gridLoop :: "ParameterType \<Rightarrow> f64 \<Rightarrow> f64 \<Rightarrow> nat \<Rightarrow> f64 \<Rightarrow> GridPoint list" where
  "gridLoop t maxVal step n v =
    (if v \<le> maxVal + lit (1 / 1000000000) then
       \<lparr>gp_Value = formatValue t (fmin v maxVal), gp_Float = fmin v maxVal\<rparr> #
       (if n \<le> 1 then [] else gridLoop t maxVal step (n - 1) (v + step))
     else [])"

declare gridLoop.simps [simp del]

definition GenerateGrid :: "TunableParameter \<Rightarrow> int \<Rightarrow> grid_error + GridPoint list" where
  "GenerateGrid p maxPoints =
    (if tp_Type p = ParamTypeString then
       (if tp_AllowedValues p = [] then Inl (NoAllowedValues (tp_Name p))
        else Inr (map (\<lambda>v. \<lparr>gp_Value = v, gp_Float = 0\<rparr>) (tp_AllowedValues p)))
     else
       case finiteFloat (tp_Min p) of
         None \<Rightarrow> Inl (InvalidMin (tp_Name p) (tp_Min p))
       | Some minVal \<Rightarrow>
         (case finiteFloat (tp_Max p) of
            None \<Rightarrow> Inl (InvalidMax (tp_Name p) (tp_Max p))
          | Some maxVal \<Rightarrow>
            if maxVal \<le> minVal then Inl (MaxNotAboveMin (tp_Name p) maxVal minVal)
            else
              (let pts = gridLoop (tp_Type p) maxVal (gridStep p minVal maxVal) (nat maxPoints) minVal in
               Inr (if pts \<noteq> [] \<and> gp_Float (last pts) < maxVal - lit (1 / 1000000000)
                    then pts @ [\<lparr>gp_Value = formatValue (tp_Type p) maxVal, gp_Float = maxVal\<rparr>] else pts))))"

section \<open>Observations\<close>

record CorrelationResult =
  co_ParameterName :: string
  co_BestValue :: string
  co_BestSLO :: f64
  co_NumObserved :: nat

definition ofParameter :: "string \<Rightarrow> ParameterObservation list \<Rightarrow> ParameterObservation list" where
  "ofParameter name obs = filter (\<lambda>ob. po_ParameterName ob = name) obs"

definition BestFromObservations :: "string \<Rightarrow> ParameterObservation list \<Rightarrow> CorrelationResult option" where
  "BestFromObservations name obs =
    (let mine = ofParameter name obs in
     map_option (\<lambda>b. \<lparr>co_ParameterName = name, co_BestValue = po_Value b, co_BestSLO = po_SLOValue b, co_NumObserved = length mine\<rparr>)
       (foldl (\<lambda>best ob. case best of None \<Rightarrow> Some ob | Some b \<Rightarrow> if po_SLOValue b < po_SLOValue ob then Some ob else best) None mine))"

definition addSLO :: "string \<Rightarrow> (string \<rightharpoonup> f64) \<Rightarrow> ParameterObservation \<Rightarrow> (string \<rightharpoonup> f64)" where
  "addSLO objective m ob =
    (let slo = (if objective = ''minimize'' then - po_SLOValue ob else po_SLOValue ob) in
     case m (po_Value ob) of
       None \<Rightarrow> m(po_Value ob \<mapsto> slo)
     | Some existing \<Rightarrow> if existing < slo then m(po_Value ob \<mapsto> slo) else m)"

definition sloByValue :: "string \<Rightarrow> string \<Rightarrow> ParameterObservation list \<Rightarrow> (string \<rightharpoonup> f64)" where
  "sloByValue objective name obs = foldl (addSLO objective) Map.empty (ofParameter name obs)"

definition pickPoint :: "(string \<rightharpoonup> f64) \<Rightarrow> string \<times> f64 \<Rightarrow> GridPoint \<Rightarrow> string \<times> f64" where
  "pickPoint m best gp = (case m (gp_Value gp) of
     Some slo \<Rightarrow> if snd best < slo then (gp_Value gp, slo) else best
   | None \<Rightarrow> best)"

definition SelectOptimal ::
  "TunableParameter \<Rightarrow> GridPoint list \<Rightarrow> ParameterObservation list \<Rightarrow> string \<Rightarrow> string \<times> bool"
where
  "SelectOptimal param grid obs objective =
    (case grid of
       [] \<Rightarrow> (tp_Default param, False)
     | first # _ \<Rightarrow>
       (let bestVal = fst (foldl (pickPoint (sloByValue objective (tp_Name param) obs)) ([], NInf) grid) in
        if bestVal \<noteq> [] then (bestVal, True) else (gp_Value first, False)))"

section \<open>Safety\<close>

datatype cycle_message =
    NoMessage
  | MsgPaused
  | MsgFetchFailed string
  | MsgInCooldown duration
  | MsgSLOBelow f64 f64
  | MsgConverged
  | MsgNoParameters
  | MsgGrid string grid_error
  | MsgApply string string string
  | MsgExploring string string f64

text \<open>\<open>Duration.Round(time.Second)\<close> of a positive duration.\<close>

definition roundSeconds :: "duration \<Rightarrow> duration" where
  "roundSeconds d = (let r = d mod second in
     if r + r < second then d - r else if in64 (d + second - r) then d + second - r else 9223372036854775807)"

definition CanChange :: "TuningSafetyPolicy \<Rightarrow> gotime \<Rightarrow> ApplicationTuningStatus \<Rightarrow> cycle_message option" where
  "CanChange policy now status =
    (case (case ats_CooldownUntil status of Some t \<Rightarrow> if now < t then Some (MsgInCooldown (roundSeconds (time_sub t now))) else None
           | None \<Rightarrow> None) of
       Some m \<Rightarrow> Some m
     | None \<Rightarrow>
       if tsp_RollbackOnSLOViolation policy \<and> 0 < ats_BestSLOValue status then
         (let threshold = (if feq (tsp_SLOThresholdPercent policy) 0 then lit 95 else tsp_SLOThresholdPercent policy) in
          if ats_BestSLOValue status < threshold then Some (MsgSLOBelow (ats_BestSLOValue status) threshold) else None)
       else None)"

definition WithinChangeBounds :: "TunableParameter \<Rightarrow> string \<Rightarrow> string \<Rightarrow> int \<Rightarrow> bool" where
  "WithinChangeBounds param currentValue proposedValue maxChangePercent =
    (tp_Type param = ParamTypeString \<or>
     (case (ParseFloat currentValue, ParseFloat proposedValue) of
        (Some cur, Some prop) \<Rightarrow>
          feq cur 0 \<or>
          (let diff = fabs (prop - cur) / fabs cur * lit 100;
               limit = (if feq (of_int64 maxChangePercent) 0 then lit 50 else of_int64 maxChangePercent) in
           diff \<le> limit)
      | _ \<Rightarrow> True))"

definition clampToMaxChange :: "TunableParameter \<Rightarrow> string \<Rightarrow> string \<Rightarrow> int \<Rightarrow> string" where
  "clampToMaxChange param currentValue proposedValue maxPct =
    (if tp_Type param = ParamTypeString then proposedValue
     else case (ParseFloat currentValue, ParseFloat proposedValue) of
       (Some cur, Some prop) \<Rightarrow>
         if feq cur 0 then proposedValue
         else
           (let l = of_int64 maxPct / lit 100; limit = (if feq l 0 then lit (1 / 2) else l);
                maxDelta = fabs cur * limit;
                prop' = (if cur + maxDelta < prop then cur + maxDelta else if prop < cur - maxDelta then cur - maxDelta else prop) in
            formatValue (tp_Type param) prop')
     | _ \<Rightarrow> proposedValue)"

section \<open>The cycle\<close>

text \<open>Indices with their observation counts, sorted by count (\<open>sort.Slice\<close> is the argument); the first that
  is not the active parameter.\<close>

type_synonym ranked = "nat \<times> string \<times> nat"

definition rankedBelow :: "ranked \<Rightarrow> ranked \<Rightarrow> bool" where
  "rankedBelow a b = (snd (snd a) < snd (snd b))"

definition ranking :: "TunableParameter list \<Rightarrow> ParameterObservation list \<Rightarrow> ranked list" where
  "ranking params obs = map (\<lambda>(i, p). (i, tp_Name p, length (ofParameter (tp_Name p) obs))) (enumerate 0 params)"

definition NextParameterToTune ::
  "((ranked \<Rightarrow> ranked \<Rightarrow> bool) \<Rightarrow> ranked list \<Rightarrow> ranked list) \<Rightarrow> TunableParameter list \<Rightarrow> string \<Rightarrow> ParameterObservation list \<Rightarrow> nat option"
where
  "NextParameterToTune srt params activeParam obs =
    (if params = [] then None
     else
       let r = srt rankedBelow (ranking params obs) in
       case find (\<lambda>(i, name, c). name \<noteq> activeParam) r of
         Some (i, name, c) \<Rightarrow> Some i
       | None \<Rightarrow> Some (fst (hd r)))"

definition maxGridPoints :: int where "maxGridPoints = 20"
definition minObservationsForConvergence :: nat where "minObservationsForConvergence = 3"

definition resolveSafetyPolicy :: "TuningSafetyPolicy option \<Rightarrow> TuningSafetyPolicy" where
  "resolveSafetyPolicy sp =
    (case sp of
       None \<Rightarrow> \<lparr>tsp_MaxChangePercent = 50, tsp_CooldownMinutes = 5, tsp_RollbackOnSLOViolation = True, tsp_SLOThresholdPercent = lit 95\<rparr>
     | Some p \<Rightarrow>
       p\<lparr>tsp_MaxChangePercent := (if tsp_MaxChangePercent p = 0 then 50 else tsp_MaxChangePercent p),
         tsp_CooldownMinutes := (if tsp_CooldownMinutes p = 0 then 5 else tsp_CooldownMinutes p),
         tsp_SLOThresholdPercent := (if feq (tsp_SLOThresholdPercent p) 0 then lit 95 else tsp_SLOThresholdPercent p)\<rparr>)"

definition isConverged :: "TunableParameter list \<Rightarrow> ParameterObservation list \<Rightarrow> bool" where
  "isConverged params obs =
    (params \<noteq> [] \<and> list_all (\<lambda>p. minObservationsForConvergence \<le> length (ofParameter (tp_Name p) obs)) params)"

record CycleResult =
  cy_NewPhase :: TuningPhase
  cy_ParameterChanged :: string
  cy_NewValue :: string
  cy_Observation :: "ParameterObservation option"
  cy_NewCooldownUntil :: "gotime option"
  cy_Message :: cycle_message
  cy_Converged :: bool

definition emptyCycle :: "TuningPhase \<Rightarrow> CycleResult" where
  "emptyCycle ph = \<lparr>cy_NewPhase = ph, cy_ParameterChanged = [], cy_NewValue = [], cy_Observation = None,
     cy_NewCooldownUntil = None, cy_Message = NoMessage, cy_Converged = False\<rparr>"

record 'w Optimizer =
  op_FetchSLO :: "string \<Rightarrow> string \<Rightarrow> 'w \<Rightarrow> (string + f64) \<times> 'w"
  op_Apply :: "string \<Rightarrow> TunableParameter \<Rightarrow> string \<Rightarrow> 'w \<Rightarrow> string option \<times> 'w"
  op_now :: "'w \<Rightarrow> gotime \<times> 'w"

definition newObservation :: "ApplicationTuning \<Rightarrow> f64 \<Rightarrow> gotime \<Rightarrow> ParameterObservation option" where
  "newObservation tun sloValue now =
    (let active = ats_ActiveParameter (at_Status tun) in
     if active = [] then None
     else Some \<lparr>po_ParameterName = active,
       po_Value = (case ats_CurrentValues (at_Status tun) active of Some v \<Rightarrow> v | None \<Rightarrow> []),
       po_SLOValue = sloValue, po_ObservedAt = now\<rparr>)"

definition currentValue :: "ApplicationTuning \<Rightarrow> TunableParameter \<Rightarrow> string" where
  "currentValue tun param = (case ats_CurrentValues (at_Status tun) (tp_Name param) of
     None \<Rightarrow> tp_Default param
   | Some v \<Rightarrow> if v = [] then tp_Default param else v)"

definition proposedValue :: "ApplicationTuning \<Rightarrow> TunableParameter \<Rightarrow> GridPoint list \<Rightarrow> ParameterObservation list \<Rightarrow> string" where
  "proposedValue tun param grid obs =
    (let objective = (if at_Objective tun = [] then ''minimize'' else at_Objective tun);
         v = fst (SelectOptimal param grid obs objective);
         pct = tsp_MaxChangePercent (resolveSafetyPolicy (at_SafetyPolicy tun)) in
     if WithinChangeBounds param (currentValue tun param) v pct then v
     else clampToMaxChange param (currentValue tun param) v pct)"

definition cooldownEnd :: "TuningSafetyPolicy \<Rightarrow> gotime \<Rightarrow> gotime" where
  "cooldownEnd policy now =
     time_add now (wrap64 ((if tsp_CooldownMinutes policy = 0 then 5 else tsp_CooldownMinutes policy) * minute))"

definition applyStep ::
  "'w Optimizer \<Rightarrow> ApplicationTuning \<Rightarrow> TunableParameter \<Rightarrow> string \<Rightarrow> f64 \<Rightarrow> gotime \<Rightarrow> CycleResult \<Rightarrow> 'w \<Rightarrow> CycleResult \<times> 'w"
where
  "applyStep opt tun param newValue sloValue now result w =
    (let msg = MsgExploring (tp_Name param) newValue sloValue in
     if newValue = currentValue tun param then (result\<lparr>cy_Message := msg\<rparr>, w)
     else
       (case op_Apply opt (at_Namespace tun) param newValue w of
          (Some e, w') \<Rightarrow> ((emptyCycle TuningError)\<lparr>cy_Message := MsgApply (tp_Name param) newValue e\<rparr>, w')
        | (None, w') \<Rightarrow>
          (result\<lparr>cy_ParameterChanged := tp_Name param, cy_NewValue := newValue,
             cy_NewCooldownUntil := Some (cooldownEnd (resolveSafetyPolicy (at_SafetyPolicy tun)) now), cy_Message := msg\<rparr>, w')))"

definition RunCycle ::
  "((ranked \<Rightarrow> ranked \<Rightarrow> bool) \<Rightarrow> ranked list \<Rightarrow> ranked list) \<Rightarrow> 'w Optimizer \<Rightarrow> ApplicationTuning \<Rightarrow> 'w \<Rightarrow> CycleResult \<times> 'w"
where
  "RunCycle srt opt tun w =
    (if at_Paused tun then ((emptyCycle TuningPaused)\<lparr>cy_Message := MsgPaused\<rparr>, w)
     else
       (case op_FetchSLO opt (at_Namespace tun) (at_TargetName tun) w of
          (Inl e, w1) \<Rightarrow> ((emptyCycle TuningError)\<lparr>cy_Message := MsgFetchFailed e\<rparr>, w1)
        | (Inr sloValue, w1) \<Rightarrow>
          (case op_now opt w1 of (now, w2) \<Rightarrow>
             (let newObs = newObservation tun sloValue now;
                  result = (emptyCycle TuningExploring)\<lparr>cy_Observation := newObs\<rparr>;
                  allObs = ats_Observations (at_Status tun) @ (case newObs of None \<Rightarrow> [] | Some ob \<Rightarrow> [ob]);
                  policy = resolveSafetyPolicy (at_SafetyPolicy tun) in
              case op_now opt w2 of (now', w3) \<Rightarrow>
                (case CanChange policy now' (at_Status tun) of
                   Some reason \<Rightarrow> (result\<lparr>cy_NewPhase := TuningObserving, cy_Message := reason\<rparr>, w3)
                 | None \<Rightarrow>
                   if isConverged (at_Parameters tun) allObs
                   then ((emptyCycle TuningConverged)\<lparr>cy_Converged := True, cy_Message := MsgConverged\<rparr>, w3)
                   else
                     (case NextParameterToTune srt (at_Parameters tun) (ats_ActiveParameter (at_Status tun)) allObs of
                        None \<Rightarrow> ((emptyCycle TuningError)\<lparr>cy_Message := MsgNoParameters\<rparr>, w3)
                      | Some nextIdx \<Rightarrow>
                        (let param = at_Parameters tun ! nextIdx in
                         case GenerateGrid param maxGridPoints of
                           Inl e \<Rightarrow> ((emptyCycle TuningError)\<lparr>cy_Message := MsgGrid (tp_Name param) e\<rparr>, w3)
                         | Inr grid \<Rightarrow>
                           applyStep opt tun param (proposedValue tun param grid allObs) sloValue now result w3)))))))"

section \<open>Library\<close>

subsection \<open>The choice of a parameter\<close>

abbreviation observed :: "ParameterObservation list \<Rightarrow> TunableParameter \<Rightarrow> nat" where
  "observed obs p \<equiv> length (ofParameter (tp_Name p) obs)"

lemma set_ranking: "set (ranking params obs) = (\<lambda>i. (i, tp_Name (params ! i), observed obs (params ! i))) ` {..<length params}"
  unfolding ranking_def set_map in_set_enumerate_eq [symmetric]
  by (force simp: in_set_enumerate_eq image_iff)

lemma rankedBelow_weak: "strict_weak rankedBelow xs"
  by (auto simp: strict_weak_def rankedBelow_def)

lemma sorted_by_find:
  "sorted_by lt xs \<Longrightarrow> find P xs = Some x \<Longrightarrow> y \<in> set xs \<Longrightarrow> P y \<Longrightarrow> \<not> lt x x \<Longrightarrow> \<not> lt y x"
  by (induction xs) (auto simp: sorted_by_def split: if_splits)

lemma find_Some_in: "find P xs = Some x \<Longrightarrow> x \<in> set xs \<and> P x"
  by (induction xs) (auto split: if_splits)

lemma NextParameterToTune_spec:
  assumes "go_sort srt" "NextParameterToTune srt params active obs = Some i"
  shows "i < length params \<and>
    (if \<exists>q \<in> set params. tp_Name q \<noteq> active
     then tp_Name (params ! i) \<noteq> active \<and> (\<forall>q \<in> set params. tp_Name q \<noteq> active \<longrightarrow> observed obs (params ! i) \<le> observed obs q)
     else \<forall>q \<in> set params. observed obs (params ! i) \<le> observed obs q)"
proof -
  let ?xs = "ranking params obs" and ?r = "srt rankedBelow (ranking params obs)"
  have ne: "params \<noteq> []" using assms(2) by (auto simp: NextParameterToTune_def)
  have sr: "set ?r = set ?xs" using go_sort.srt_set [OF assms(1)] .
  have so: "sorted_by rankedBelow ?r" using go_sort.srt_sorted [OF assms(1) rankedBelow_weak] .
  have el: "\<exists>j < length params. q = params ! j \<and> (j, tp_Name q, observed obs q) \<in> set ?xs" if "q \<in> set params" for q
    using that by (auto simp: in_set_conv_nth set_ranking image_iff)
  show ?thesis
  proof (cases "find (\<lambda>(i, name, c). name \<noteq> active) ?r")
    case None
    then have all: "tp_Name q = active" if "q \<in> set params" for q
      using el [OF that] sr by (fastforce simp: find_None_iff)
    have i: "i = fst (hd ?r)" using assms(2) None ne by (simp add: NextParameterToTune_def Let_def)
    have xs: "?xs \<noteq> []" using ne by (cases params) (auto simp: ranking_def)
    have "hd ?r \<in> set ?xs" using go_sort.srt_hd_in [OF assms(1) xs] .
    then have h: "i < length params" "hd ?r = (i, tp_Name (params ! i), observed obs (params ! i))"
      using i by (auto simp: set_ranking)
    have "observed obs (params ! i) \<le> observed obs q" if "q \<in> set params" for q
      using el [OF that] go_sort.srt_hd_least [OF assms(1) rankedBelow_weak xs] h(2) by (fastforce simp: rankedBelow_def)
    then show ?thesis using all h(1) by auto
  next
    case (Some x)
    then obtain n c where x: "x = (i, n, c)" using assms(2) ne by (auto simp: NextParameterToTune_def Let_def split: prod.splits)
    then have "(i, n, c) \<in> set ?xs" "n \<noteq> active" using find_Some_in [OF Some] sr by auto
    then have h: "i < length params" "n = tp_Name (params ! i)" "c = observed obs (params ! i)" "tp_Name (params ! i) \<noteq> active"
      by (auto simp: set_ranking)
    have "observed obs (params ! i) \<le> observed obs q" if q: "q \<in> set params" "tp_Name q \<noteq> active" for q
    proof -
      obtain j where "(j, tp_Name q, observed obs q) \<in> set ?r" using el [OF q(1)] sr by auto
      from sorted_by_find [OF so Some [unfolded x] this] show ?thesis using q(2) h(3) by (simp add: rankedBelow_def)
    qed
    moreover have "\<exists>q \<in> set params. tp_Name q \<noteq> active" using h(1,4) nth_mem by blast
    ultimately show ?thesis using h by auto
  qed
qed

subsection \<open>The best observed value\<close>

definition score :: "string \<Rightarrow> ParameterObservation \<Rightarrow> f64" where
  "score objective ob = (if objective = ''minimize'' then - po_SLOValue ob else po_SLOValue ob)"

definition finite_obs :: "ParameterObservation list \<Rightarrow> bool" where
  "finite_obs obs = (\<forall>ob \<in> set obs. \<exists>q. po_SLOValue ob = Fin q)"

definition best_score :: "string \<Rightarrow> ParameterObservation list \<Rightarrow> string \<Rightarrow> f64 option \<Rightarrow> bool" where
  "best_score objective obs v x = (case x of
     None \<Rightarrow> \<forall>ob \<in> set obs. po_Value ob \<noteq> v
   | Some x \<Rightarrow> (\<exists>ob \<in> set obs. po_Value ob = v \<and> score objective ob = x) \<and>
       (\<forall>ob \<in> set obs. po_Value ob = v \<longrightarrow> score objective ob \<le> x))"

lemma score_Fin: "finite_obs obs \<Longrightarrow> ob \<in> set obs \<Longrightarrow> \<exists>q. score objective ob = Fin q"
  by (fastforce simp: finite_obs_def score_def)

lemma addSLO_best:
  assumes "finite_obs (obs @ [ob])" "\<And>v. best_score objective obs v (m v)"
  shows "best_score objective (obs @ [ob]) v (addSLO objective m ob v)"
proof (cases "po_Value ob = v")
  case False
  then show ?thesis using assms(2) [of v]
    by (auto simp: best_score_def addSLO_def Let_def split: option.splits)
next
  case True
  obtain s where s: "score objective ob = Fin s" using score_Fin [OF assms(1)] by fastforce
  show ?thesis
  proof (cases "m v")
    case None
    then have "\<forall>o' \<in> set obs. po_Value o' \<noteq> v" using assms(2) [of v] by (simp add: best_score_def)
    then show ?thesis using True None s by (auto simp: best_score_def addSLO_def Let_def score_def)
  next
    case (Some x)
    then obtain ob' where o: "ob' \<in> set obs" "po_Value ob' = v" "score objective ob' = x"
      and mx: "\<forall>o' \<in> set obs. po_Value o' = v \<longrightarrow> score objective o' \<le> x"
      using assms(2) [of v] by (auto simp: best_score_def)
    obtain y where y: "x = Fin y" using score_Fin [OF assms(1), of ob' objective] o by auto
    have all: "\<exists>z. score objective o' = Fin z \<and> z \<le> y" if "o' \<in> set obs" "po_Value o' = v" for o'
      using score_Fin [OF assms(1), of o' objective] mx that y by fastforce
    have eq: "addSLO objective m ob v = Some (if y < s then Fin s else Fin y)"
      using True Some y s by (simp add: addSLO_def Let_def score_def)
    show ?thesis
      using o y all s True unfolding eq by (fastforce simp: best_score_def)
  qed
qed

lemma sloByValue_best:
  "finite_obs (ofParameter name obs) \<Longrightarrow> best_score objective (ofParameter name obs) v (sloByValue objective name obs v)"
proof -
  have "finite_obs xs \<Longrightarrow> best_score objective xs v (foldl (addSLO objective) Map.empty xs v)" for xs
  proof (induction xs arbitrary: v rule: rev_induct)
    case (snoc x xs)
    then show ?case using addSLO_best [of xs x objective] by (simp add: finite_obs_def)
  qed (simp add: best_score_def)
  then show "finite_obs (ofParameter name obs) \<Longrightarrow> ?thesis" by (simp add: sloByValue_def)
qed

text \<open>The loop over the grid keeps a best point with a finite score.\<close>

definition best_point :: "(string \<rightharpoonup> f64) \<Rightarrow> GridPoint list \<Rightarrow> string \<times> f64 \<Rightarrow> bool" where
  "best_point m grid b =
    (if \<exists>gp \<in> set grid. m (gp_Value gp) \<noteq> None
     then (\<exists>gp \<in> set grid. gp_Value gp = fst b) \<and> m (fst b) = Some (snd b) \<and>
       (\<forall>gp \<in> set grid. \<forall>x. m (gp_Value gp) = Some x \<longrightarrow> x \<le> snd b)
     else b = ([], NInf))"

lemma pickPoint_best:
  assumes "best_point m grid b" "\<forall>x \<in> ran m. \<exists>q. x = Fin q"
  shows "best_point m (grid @ [gp]) (pickPoint m b gp)"
proof (cases "m (gp_Value gp)")
  case None
  then show ?thesis using assms(1) by (auto simp: best_point_def pickPoint_def)
next
  case (Some x)
  then obtain q where x: "x = Fin q" using bspec [OF assms(2) ranI] by blast
  show ?thesis
  proof (cases "\<exists>gp \<in> set grid. m (gp_Value gp) \<noteq> None")
    case False
    then show ?thesis using assms(1) Some x by (auto simp: best_point_def pickPoint_def)
  next
    case True
    then have b: "(\<exists>gp \<in> set grid. gp_Value gp = fst b)" "m (fst b) = Some (snd b)"
      "\<forall>gp \<in> set grid. \<forall>x. m (gp_Value gp) = Some x \<longrightarrow> x \<le> snd b"
      using assms(1) by (auto simp: best_point_def)
    then obtain r where r: "snd b = Fin r" using bspec [OF assms(2) ranI] by blast
    have "\<exists>z. y = Fin z \<and> z \<le> r" if h: "h \<in> set grid" "m (gp_Value h) = Some y" for h y
    proof -
      obtain z where "y = Fin z" using bspec [OF assms(2) ranI] h(2) by blast
      moreover have "y \<le> snd b" using b(3) h by blast
      ultimately show ?thesis using r by simp
    qed
    then have le: "y \<le> Fin (max q r)" if "h \<in> set (grid @ [gp])" "m (gp_Value h) = Some y" for h y
      using that Some x by (fastforce simp: le_max_iff_disj)
    have p: "pickPoint m b gp = (if r < q then (gp_Value gp, Fin q) else b)" using Some x r by (simp add: pickPoint_def)
    show ?thesis
    proof (cases "r < q")
      case True
      then show ?thesis using le Some x unfolding p by (auto simp: best_point_def max_def)
    next
      case False
      then show ?thesis using le b r Some unfolding p by (auto simp: best_point_def max_def)
    qed
  qed
qed

lemma foldl_pickPoint_best:
  "\<forall>x \<in> ran m. \<exists>q. x = Fin q \<Longrightarrow> best_point m grid (foldl (pickPoint m) ([], NInf) grid)"
  by (induction grid rule: rev_induct) (simp_all add: pickPoint_best, simp add: best_point_def)

subsection \<open>The grid\<close>

lemma rnd_ge: "rep a \<Longrightarrow> a \<le> x \<Longrightarrow> Fin a \<le> rnd x"
  using rnd_exact [of a] rnd0_mono [of a x] by (auto simp: rnd_rnd0 split: if_splits)

lemma add_ge: "rep a \<Longrightarrow> Fin a \<le> u \<Longrightarrow> ok64 u \<Longrightarrow> 0 \<le> s \<Longrightarrow> Fin a \<le> u + s"
  by (cases u; cases s) (auto simp: zero_Fin intro: rnd_ge)

lemma rnd_le: "rep b \<Longrightarrow> x \<le> b \<Longrightarrow> rnd x \<le> Fin b"
  using rnd_exact [of b] rnd0_mono [of x b] by (auto simp: rnd_rnd0 split: if_splits)

lemma eps_nonneg: "0 \<le> lit (1 / 1000000000)"
  using rnd_ge [of 0 "1 / 1000000000"] by (simp add: zero_Fin)

lemma sub_eps: "rep b \<Longrightarrow> \<not> Fin b < Fin b - lit (1 / 1000000000)"
proof
  assume b: "rep b" "Fin b < Fin b - lit (1 / 1000000000)"
  have "Fin b - lit (1 / 1000000000) \<le> Fin b"
    using eps_nonneg b(1) by (cases "lit (1 / 1000000000)") (auto simp: minus_f64_def zero_Fin intro: rnd_le)
  then show False using b(2) by (cases "Fin b - lit (1 / 1000000000)") auto
qed

lemma less_le_f64: "x < y \<Longrightarrow> x \<le> (y :: f64)"
  by (cases x; cases y) auto

lemma fmin_Fin: "Fin a \<le> v \<Longrightarrow> fmin v (Fin b) = (if v < Fin b then v else Fin b)"
  by (cases v) auto

lemma gridStep_nonneg: "a < b \<Longrightarrow> rep a \<Longrightarrow> rep b \<Longrightarrow> 0 \<le> gridStep p (Fin a) (Fin b)"
proof -
  assume a: "a < b" "rep a" "rep b"
  have "Fin 0 \<le> rnd (b + - a)" using a by (intro rnd_ge) auto
  then have "0 \<le> (Fin b - Fin a) / lit 10"
    by (cases "rnd (b + - a)") (auto simp: minus_f64_def zero_Fin rnd_exact rnd_ge)
  then show ?thesis by (auto simp: gridStep_def Let_def zero_Fin less_le_f64 split: option.split)
qed

lemma gridLoop_Cons:
  "v \<le> maxVal + lit (1 / 1000000000) \<Longrightarrow> gridLoop t maxVal step n v =
    \<lparr>gp_Value = formatValue t (fmin v maxVal), gp_Float = fmin v maxVal\<rparr> # (if n \<le> 1 then [] else gridLoop t maxVal step (n - 1) (v + step))"
  by (subst gridLoop.simps) simp

lemma gridLoop_Nil: "\<not> v \<le> maxVal + lit (1 / 1000000000) \<Longrightarrow> gridLoop t maxVal step n v = []"
  by (subst gridLoop.simps) simp

lemma length_gridLoop: "length (gridLoop t maxVal step n v) \<le> max 1 n"
proof (induction n arbitrary: v rule: less_induct)
  case (less n)
  show ?case
  proof (cases "v \<le> maxVal + lit (1 / 1000000000)")
    case True
    then show ?thesis using less.IH [of "n - 1" "v + step"] by (cases "n \<le> 1") (auto simp: gridLoop_Cons)
  qed (simp add: gridLoop_Nil)
qed

lemma gridLoop_range:
  assumes "rep a" "rep b" "a \<le> b" "0 \<le> step"
  shows "Fin a \<le> v \<Longrightarrow> ok64 v \<Longrightarrow> gp \<in> set (gridLoop t (Fin b) step n v) \<Longrightarrow> Fin a \<le> gp_Float gp \<and> gp_Float gp \<le> Fin b"
proof (induction n arbitrary: v rule: less_induct)
  case (less n)
  show ?case
  proof (cases "v \<le> Fin b + lit (1 / 1000000000)")
    case True
    have "Fin a \<le> fmin v (Fin b) \<and> fmin v (Fin b) \<le> Fin b"
      using less.prems(1) assms(3) by (auto simp: fmin_Fin less_le_f64)
    then show ?thesis
      using less.IH [of "n - 1" "v + step"] less.prems True add_ge [OF assms(1) less.prems(1,2) assms(4)]
      by (auto simp: gridLoop_Cons split: if_splits)
  qed (use less.prems in \<open>simp add: gridLoop_Nil\<close>)
qed

lemma fmin_mono: "Fin a \<le> u \<Longrightarrow> u \<le> v \<Longrightarrow> fmin u (Fin b) \<le> fmin v (Fin b)"
  by (cases u; cases v) auto

lemma gridLoop_sorted:
  assumes "rep b" "0 \<le> step"
  shows "rep a \<Longrightarrow> Fin a \<le> v \<Longrightarrow> ok64 v \<Longrightarrow> sorted_wrt (\<lambda>x y. gp_Float x \<le> gp_Float y) (gridLoop t (Fin b) step n v) \<and>
    (\<forall>gp \<in> set (gridLoop t (Fin b) step n v). fmin v (Fin b) \<le> gp_Float gp)"
proof (induction n arbitrary: v rule: less_induct)
  case (less n)
  show ?case
  proof (cases "v \<le> Fin b + lit (1 / 1000000000)")
    case True
    have m: "v \<le> v + step"
    proof (cases v)
      case (Fin x)
      then show ?thesis using add_ge [of x v step] less.prems(3) assms(2) by simp
    next
      case PInf
      then show ?thesis using assms(2) by (cases step) (auto simp: zero_Fin)
    qed (use less.prems(2) in auto)
    have le: "fmin v (Fin b) \<le> fmin (v + step) (Fin b)" using fmin_mono [OF less.prems(2) m] .
    have "Fin a \<le> v + step" using add_ge [OF less.prems assms(2)] .
    then have IH: "1 < n \<Longrightarrow> sorted_wrt (\<lambda>x y. gp_Float x \<le> gp_Float y) (gridLoop t (Fin b) step (n - 1) (v + step)) \<and>
        (\<forall>gp \<in> set (gridLoop t (Fin b) step (n - 1) (v + step)). fmin (v + step) (Fin b) \<le> gp_Float gp)"
      using less.IH [of "n - 1" "v + step"] less.prems(1) by simp
    have tr: "fmin v (Fin b) \<le> y" if "fmin (v + step) (Fin b) \<le> y" for y
      using le that by (cases "fmin v (Fin b)"; cases "fmin (v + step) (Fin b)"; cases y) auto
    have "v \<le> v" using less.prems(2) by (cases v) auto
    then have "fmin v (Fin b) \<le> fmin v (Fin b)" by (rule fmin_mono [OF less.prems(2)])
    then show ?thesis using IH tr True by (auto simp: gridLoop_Cons)
  qed (simp add: gridLoop_Nil)
qed

section \<open>Properties\<close>

text \<open>The grid of a numeric parameter: at least one point and at most one more than asked for, all between
  minimum and maximum and in ascending order, the first at the minimum and the last within a billionth of the
  maximum.\<close>
theorem GenerateGrid_range:
  assumes "tp_Type p \<noteq> ParamTypeString" "GenerateGrid p n = Inr pts" "finiteFloat (tp_Min p) = Some (Fin a)"
    "finiteFloat (tp_Max p) = Some (Fin b)" "rep a" "rep b"
  shows "pts \<noteq> [] \<and> length pts \<le> max 1 (nat n) + 1 \<and> sorted_wrt (\<lambda>x y. gp_Float x \<le> gp_Float y) pts \<and>
    (\<forall>gp \<in> set pts. Fin a \<le> gp_Float gp \<and> gp_Float gp \<le> Fin b) \<and> gp_Float (hd pts) = Fin a \<and>
    \<not> gp_Float (last pts) < Fin b - lit (1 / 1000000000)"
proof -
  let ?s = "gridStep p (Fin a) (Fin b)"
  define g where "g = gridLoop (tp_Type p) (Fin b) ?s (nat n) (Fin a)"
  have ab: "a < b" using assms(1-4) by (auto simp: GenerateGrid_def split: if_splits)
  have pts: "pts = (if g \<noteq> [] \<and> gp_Float (last g) < Fin b - lit (1 / 1000000000)
      then g @ [\<lparr>gp_Value = formatValue (tp_Type p) (Fin b), gp_Float = Fin b\<rparr>] else g)"
    using assms(1-4) ab by (simp add: GenerateGrid_def g_def Let_def split: if_splits)
  have s: "0 \<le> ?s" using gridStep_nonneg [OF ab assms(5,6)] .
  have "Fin a \<le> Fin b + lit (1 / 1000000000)" using add_ge [OF assms(5), of "Fin b" "lit (1 / 1000000000)"] ab assms(6) eps_nonneg by simp
  then obtain rest where g: "g = \<lparr>gp_Value = formatValue (tp_Type p) (Fin a), gp_Float = Fin a\<rparr> # rest"
    using ab by (auto simp: g_def gridLoop_Cons)
  have len: "length g \<le> max 1 (nat n)" unfolding g_def by (rule length_gridLoop)
  have so: "sorted_wrt (\<lambda>x y. gp_Float x \<le> gp_Float y) g"
    using gridLoop_sorted [OF assms(6) s assms(5), of "Fin a"] assms(5) by (simp add: g_def)
  have ra: "Fin a \<le> gp_Float gp \<and> gp_Float gp \<le> Fin b" if "gp \<in> set g" for gp
    using gridLoop_range [OF assms(5,6) _ s, of "Fin a"] ab assms(5) that by (simp add: g_def)
  have "\<not> gp_Float (last pts) < Fin b - lit (1 / 1000000000)"
    using sub_eps [OF assms(6)] g by (auto simp: pts)
  then show ?thesis using g len so ra ab by (auto simp: pts sorted_wrt_append)
qed

definition demo_param :: TunableParameter where
  "demo_param = \<lparr>tp_Name = ''pool'', tp_Type = ParamTypeInteger, tp_Source = SourceEnv, tp_ConfigMapRef = None, tp_EnvVarName = ''POOL'',
     tp_Min = ''4'', tp_Max = ''6'', tp_Step = ''1'', tp_AllowedValues = [], tp_Default = ''4''\<rparr>"

lemma GenerateGrid_range_witness:
  "case GenerateGrid demo_param 20 of Inl e \<Rightarrow> False | Inr pts \<Rightarrow> gp_Float (hd pts) = Fin 4 \<and> length pts \<le> 21"
proof -
  have d: "ParseFloat ''4'' = Some (Fin 4)" "ParseFloat ''6'' = Some (Fin 6)"
    by code_simp+
  have m: "finiteFloat (tp_Min demo_param) = Some (Fin 4)" "finiteFloat (tp_Max demo_param) = Some (Fin 6)"
    using d by (simp_all add: finiteFloat_def demo_param_def)
  obtain pts where g: "GenerateGrid demo_param 20 = Inr pts" using m by (simp add: GenerateGrid_def Let_def demo_param_def)
  show ?thesis using GenerateGrid_range [OF _ g m] g by (simp add: demo_param_def)
qed

text \<open>The choice of a value, for finite measurements: if a value of the grid has been observed, the result is
  the observed grid value with the best measurement (the lowest when minimizing) and counts as known; otherwise
  it is the first grid point. So once a single grid value has been observed, no other grid point is ever tried.\<close>
theorem SelectOptimal_spec:
  assumes "finite_obs (ofParameter (tp_Name p) obs)" "grid \<noteq> []" "\<forall>gp \<in> set grid. gp_Value gp \<noteq> []"
  defines "mine \<equiv> ofParameter (tp_Name p) obs"
  shows "case SelectOptimal p grid obs objective of (v, known) \<Rightarrow>
    (known \<longleftrightarrow> (\<exists>gp \<in> set grid. \<exists>ob \<in> set mine. po_Value ob = gp_Value gp)) \<and>
    (if known then (\<exists>gp \<in> set grid. gp_Value gp = v) \<and>
       (\<exists>ob \<in> set mine. po_Value ob = v \<and> (\<forall>gp \<in> set grid. \<forall>ob' \<in> set mine. po_Value ob' = gp_Value gp \<longrightarrow> score objective ob' \<le> score objective ob))
     else v = gp_Value (hd grid))"
proof -
  let ?m = "sloByValue objective (tp_Name p) obs"
  have bs: "best_score objective mine v (?m v)" for v using sloByValue_best [OF assms(1)] by (simp add: mine_def)
  have some: "?m v \<noteq> None \<longleftrightarrow> (\<exists>ob \<in> set mine. po_Value ob = v)" for v
    using bs [of v] by (auto simp: best_score_def split: option.splits)
  have "\<forall>x \<in> ran ?m. \<exists>q. x = Fin q"
  proof
    fix x assume "x \<in> ran ?m"
    then obtain v where "?m v = Some x" by (auto simp: ran_def)
    then obtain ob where "ob \<in> set mine" "score objective ob = x" using bs [of v] by (auto simp: best_score_def)
    then show "\<exists>q. x = Fin q" using score_Fin [of mine ob objective] assms(1) by (auto simp: mine_def)
  qed
  then have bp: "best_point ?m grid (foldl (pickPoint ?m) ([], NInf) grid)" (is "best_point _ _ ?b") by (rule foldl_pickPoint_best)
  have sel: "SelectOptimal p grid obs objective = (if fst ?b \<noteq> [] then (fst ?b, True) else (gp_Value (hd grid), False))"
    using assms(2) by (cases grid) (simp_all add: SelectOptimal_def Let_def)
  show ?thesis
  proof (cases "\<exists>gp \<in> set grid. \<exists>ob \<in> set mine. po_Value ob = gp_Value gp")
    case True
    then have "\<exists>gp \<in> set grid. ?m (gp_Value gp) \<noteq> None" using some by blast
    then have b: "\<exists>gp \<in> set grid. gp_Value gp = fst ?b" "?m (fst ?b) = Some (snd ?b)"
      "\<And>gp x. gp \<in> set grid \<Longrightarrow> ?m (gp_Value gp) = Some x \<Longrightarrow> x \<le> snd ?b"
      using bp by (auto simp: best_point_def)
    then have ne: "fst ?b \<noteq> []" using assms(3) by auto
    obtain ob where ob: "ob \<in> set mine" "po_Value ob = fst ?b" "score objective ob = snd ?b"
      using bs [of "fst ?b"] b(2) by (auto simp: best_score_def)
    have "score objective ob' \<le> score objective ob" if o': "gp \<in> set grid" "ob' \<in> set mine" "po_Value ob' = gp_Value gp" for gp ob'
    proof -
      obtain x where x: "?m (gp_Value gp) = Some x" using some [of "gp_Value gp"] o' by auto
      then have "score objective ob' \<le> x" using bs [of "gp_Value gp"] o' by (auto simp: best_score_def)
      then show ?thesis using b(3) [OF o'(1) x] ob(3) f64_le_trans by simp
    qed
    then show ?thesis using sel ne b(1) ob True by auto
  next
    case False
    then have "\<not> (\<exists>gp \<in> set grid. ?m (gp_Value gp) \<noteq> None)" using some by blast
    then have "fst ?b = []" using bp by (auto simp: best_point_def split: if_splits)
    then show ?thesis using sel False by auto
  qed
qed

definition demo_obs :: "string \<Rightarrow> rat \<Rightarrow> ParameterObservation" where
  "demo_obs v q = \<lparr>po_ParameterName = ''pool'', po_Value = v, po_SLOValue = Fin q, po_ObservedAt = 0\<rparr>"

lemma SelectOptimal_spec_witness:
  "snd (SelectOptimal demo_param [\<lparr>gp_Value = ''4'', gp_Float = Fin 4\<rparr>, \<lparr>gp_Value = ''5'', gp_Float = Fin 5\<rparr>]
     [demo_obs ''5'' 97, demo_obs ''4'' 99] ''maximize'')"
  using SelectOptimal_spec [of demo_param "[demo_obs ''5'' 97, demo_obs ''4'' 99]"
      "[\<lparr>gp_Value = ''4'', gp_Float = Fin 4\<rparr>, \<lparr>gp_Value = ''5'', gp_Float = Fin 5\<rparr>]" "''maximize''"]
  by (auto simp: finite_obs_def ofParameter_def demo_obs_def demo_param_def split: prod.splits)

text \<open>Optimizer calls that are recorded: a constant measurement, clock and answer of the applier.\<close>

definition spyOptimizer :: "string + f64 \<Rightarrow> gotime \<Rightarrow> string option \<Rightarrow> (TunableParameter \<times> string) list Optimizer" where
  "spyOptimizer slo now e = \<lparr>op_FetchSLO = (\<lambda>ns n w. (slo, w)), op_Apply = (\<lambda>ns p v w. (e, w @ [(p, v)])), op_now = (\<lambda>w. (now, w))\<rparr>"

lemma spyOptimizer_sel [simp]:
  "op_FetchSLO (spyOptimizer slo now e) ns n w = (slo, w)" "op_Apply (spyOptimizer slo now e) ns p v w = (e, w @ [(p, v)])"
  "op_now (spyOptimizer slo now e) w = (now, w)"
  by (simp_all add: spyOptimizer_def)

definition observations :: "ApplicationTuning \<Rightarrow> f64 \<Rightarrow> gotime \<Rightarrow> ParameterObservation list" where
  "observations tun slo now = ats_Observations (at_Status tun) @ (case newObservation tun slo now of None \<Rightarrow> [] | Some ob \<Rightarrow> [ob])"

lemma CanChange_None:
  "CanChange policy now st = None \<longleftrightarrow>
    (case ats_CooldownUntil st of None \<Rightarrow> True | Some t \<Rightarrow> t \<le> now) \<and>
    (\<not> tsp_RollbackOnSLOViolation policy \<or> \<not> 0 < ats_BestSLOValue st \<or>
     \<not> ats_BestSLOValue st < (if feq (tsp_SLOThresholdPercent policy) 0 then lit 95 else tsp_SLOThresholdPercent policy))"
  by (auto simp: CanChange_def Let_def split: option.split)


definition demo_tuning :: ApplicationTuning where
  "demo_tuning = \<lparr>at_Namespace = ''shop'', at_TargetName = ''web'', at_Parameters = [demo_param], at_Objective = ''maximize'',
     at_SafetyPolicy = None, at_Paused = False, at_Status = \<lparr>ats_CurrentValues = [''pool'' \<mapsto> ''5''], ats_BestSLOValue = lit 99,
       ats_ActiveParameter = [], ats_Observations = [], ats_CooldownUntil = None\<rparr>\<rparr>"

lemma demo_cycle_calls: "snd (RunCycle isort (spyOptimizer (Inr (lit 97)) 0 None) demo_tuning []) \<noteq> []"
  by code_simp


end
