(* ===== verification/App_Tuner.thy ===== *)
theory App_Tuner
  imports Pod_Actuator Go_FormatFloat
begin

text \<open>
  The application tuner of \<open>internal/actuator/app_tuner.go\<close>: it writes the tuning parameters of an action into the
  ConfigMap of a service, within the bounds that annotations of the ConfigMap set, and can restore the data from
  before. The Kubernetes client, the clock, the text of a time and \<open>encoding/json\<close> are the record \<open>tuner_client\<close>;
  an error of the client is its text, as the code recognises a missing object by it.
\<close>

section \<open>Data\<close>

record ConfigMap =
  cm_Name :: string
  cm_Annotations :: "string \<rightharpoonup> string"
  cm_Data :: "string \<rightharpoonup> string"

text \<open>What the tuner reads and changes of a Deployment.\<close>

record RestartTarget =
  rt_Annotations :: "string \<rightharpoonup> string"
  rt_TemplateAnnotations :: "string \<rightharpoonup> string"

record 'w tuner_client =
  tc_GetConfigMap :: "string \<Rightarrow> string \<Rightarrow> 'w \<Rightarrow> (string + ConfigMap) \<times> 'w"
  tc_PatchConfigMap :: "string \<Rightarrow> string \<Rightarrow> ConfigMap \<Rightarrow> ConfigMap \<Rightarrow> 'w \<Rightarrow> string option \<times> 'w"
  tc_GetDeployment :: "string \<Rightarrow> string \<Rightarrow> 'w \<Rightarrow> (string + RestartTarget) \<times> 'w"
  tc_PatchDeployment :: "string \<Rightarrow> string \<Rightarrow> RestartTarget \<Rightarrow> RestartTarget \<Rightarrow> 'w \<Rightarrow> string option \<times> 'w"
  tc_now :: "'w \<Rightarrow> gotime \<times> 'w"
  tc_timeText :: "gotime \<Rightarrow> string"
  tc_marshal :: "(string \<rightharpoonup> string) \<Rightarrow> string"
  tc_unmarshal :: "string \<Rightarrow> string + (string \<rightharpoonup> string)"

record AppTuner =
  at_ConfigMapName :: string

datatype tuner_error =
    ErrFindConfigMap string
  | ErrPatchConfigMap string
  | ErrRestart string
  | ErrParseSnapshot string

definition annotationBoundsMinPrefix :: string where "annotationBoundsMinPrefix = ''optipilot.ai/min/''"
definition annotationBoundsMaxPrefix :: string where "annotationBoundsMaxPrefix = ''optipilot.ai/max/''"
definition AnnotationRestartOnTuning :: string where "AnnotationRestartOnTuning = ''optipilot.ai/restart-on-tuning''"
definition restartedAt :: string where "restartedAt = ''kubectl.kubernetes.io/restartedAt''"

definition NewAppTuner :: AppTuner where
  "NewAppTuner = \<lparr>at_ConfigMapName = []\<rparr>"

section \<open>Bounds\<close>

definition isNotFoundText :: "string \<Rightarrow> bool" where
  "isNotFoundText e = Contains e ''not found''"

definition boundFor :: "(string \<rightharpoonup> string) \<Rightarrow> string \<Rightarrow> string" where
  "boundFor annotations key = (case annotations key of None \<Rightarrow> [] | Some v \<Rightarrow> v)"

definition parseBound :: "string \<Rightarrow> f64 option" where
  "parseBound s = (if s = [] then None else ParseFloat (TrimSpace s))"

definition clampNumber :: "f64 \<Rightarrow> f64 option \<Rightarrow> f64 option \<Rightarrow> f64" where
  "clampNumber v least most =
    (let v1 = (case least of None \<Rightarrow> v | Some a \<Rightarrow> if v < a then a else v) in
     case most of None \<Rightarrow> v1 | Some b \<Rightarrow> if b < v1 then b else v1)"

definition formatNumber :: "f64 \<Rightarrow> string" where
  "formatNumber v = (if feq v (of_int64 (to_int64 v)) then fmt_d (to_int64 v) else FormatFloat v)"

definition clampStringValue :: "string \<Rightarrow> string \<Rightarrow> string \<Rightarrow> string" where
  "clampStringValue proposed minStr maxStr = (case ParseFloat (TrimSpace proposed) of
     None \<Rightarrow> proposed
   | Some v \<Rightarrow> formatNumber (clampNumber v (parseBound minStr) (parseBound maxStr)))"

definition clampedParam :: "ConfigMap \<Rightarrow> string \<Rightarrow> string \<Rightarrow> string" where
  "clampedParam cm key proposed = clampStringValue proposed
     (boundFor (cm_Annotations cm) (annotationBoundsMinPrefix @ key)) (boundFor (cm_Annotations cm) (annotationBoundsMaxPrefix @ key))"

section \<open>Operations\<close>

definition tunerCanApply :: "string list \<Rightarrow> ScalingAction \<Rightarrow> bool" where
  "tunerCanApply order action = (sa_Type action = ActionTune \<and> order \<noteq> [])"

definition configMapName :: "AppTuner \<Rightarrow> ServiceRef \<Rightarrow> string" where
  "configMapName a ref = (if at_ConfigMapName a = [] then ref_Name ref @ ''-config'' else at_ConfigMapName a)"

definition findConfigMap :: "'w tuner_client \<Rightarrow> AppTuner \<Rightarrow> ServiceRef \<Rightarrow> 'w \<Rightarrow> (string + ConfigMap option) \<times> 'w" where
  "findConfigMap c a ref w = (case tc_GetConfigMap c (ref_Namespace ref) (configMapName a ref) w of
     (Inl e, w1) \<Rightarrow> (if isNotFoundText e then Inr None else Inl e, w1)
   | (Inr cm, w1) \<Rightarrow> (Inr (Some cm), w1))"

definition maybeRestartDeployment :: "'w tuner_client \<Rightarrow> ServiceRef \<Rightarrow> 'w \<Rightarrow> string option \<times> 'w" where
  "maybeRestartDeployment c ref w = (case tc_GetDeployment c (ref_Namespace ref) (ref_Name ref) w of
     (Inl e, w1) \<Rightarrow> (if isNotFoundText e then None else Some e, w1)
   | (Inr dep, w1) \<Rightarrow>
     if rt_Annotations dep AnnotationRestartOnTuning \<noteq> Some ''true'' then (None, w1)
     else (case tc_now c w1 of (t, w2) \<Rightarrow>
       tc_PatchDeployment c (ref_Namespace ref) (ref_Name ref) dep
         (dep\<lparr>rt_TemplateAnnotations := (rt_TemplateAnnotations dep)(restartedAt \<mapsto> tc_timeText c t)\<rparr>) w2))"

text \<open>The loop over the parameters, in the order \<open>order\<close> in which Go visits the map.\<close>

definition tuneKey ::
  "'w tuner_client \<Rightarrow> ConfigMap \<Rightarrow> (string \<rightharpoonup> string) \<Rightarrow> (string \<rightharpoonup> string) \<times> ChangeRecord list \<times> 'w \<Rightarrow> string \<Rightarrow>
   (string \<rightharpoonup> string) \<times> ChangeRecord list \<times> 'w"
where
  "tuneKey c cm params s key = (case s of (data, changes, w) \<Rightarrow>
    (let clamped = clampedParam cm key (case params key of None \<Rightarrow> [] | Some v \<Rightarrow> v) in
     case tc_now c w of (t, w1) \<Rightarrow>
       (data(key \<mapsto> clamped),
        changes @ [\<lparr>ch_Resource = ''ConfigMap/'' @ cm_Name cm, ch_Field = key,
          ch_OldValue = (case data key of None \<Rightarrow> [] | Some v \<Rightarrow> v), ch_NewValue = clamped, ch_Timestamp = t\<rparr>], w1)))"

definition tunerApply ::
  "'w tuner_client \<Rightarrow> AppTuner \<Rightarrow> string list \<Rightarrow> ServiceRef \<Rightarrow> ScalingAction \<Rightarrow> ActuationOptions \<Rightarrow> 'w \<Rightarrow>
   (tuner_error + ActuationResult) \<times> 'w"
where
  "tunerApply c a order ref action opts w = (case findConfigMap c a ref w of
     (Inl e, w1) \<Rightarrow> (Inl (ErrFindConfigMap e), w1)
   | (Inr None, w1) \<Rightarrow> (Inr emptyResult, w1)
   | (Inr (Some cm), w1) \<Rightarrow>
     (let prev = tc_marshal c (cm_Data cm) in
      case foldl (tuneKey c cm (sa_TuningParams action)) (cm_Data cm, [], w1) order of (data, changes, w2) \<Rightarrow>
        if ao_DryRun opts then (Inr \<lparr>ar_Applied = False, ar_PreviousState = prev, ar_Changes = changes, ar_Error = None\<rparr>, w2)
        else
          (case tc_PatchConfigMap c (ref_Namespace ref) (configMapName a ref) cm
              (cm\<lparr>cm_Annotations := (cm_Annotations cm)(AnnotationPreviousState \<mapsto> prev), cm_Data := data\<rparr>) w2 of
             (Some e, w3) \<Rightarrow> (Inl (ErrPatchConfigMap e), w3)
           | (None, w3) \<Rightarrow>
             (case maybeRestartDeployment c ref w3 of
                (Some e, w4) \<Rightarrow> (Inl (ErrRestart e), w4)
              | (None, w4) \<Rightarrow> (Inr \<lparr>ar_Applied = True, ar_PreviousState = prev, ar_Changes = changes, ar_Error = None\<rparr>, w4)))))"

definition tunerRollback :: "'w tuner_client \<Rightarrow> AppTuner \<Rightarrow> ServiceRef \<Rightarrow> 'w \<Rightarrow> tuner_error option \<times> 'w" where
  "tunerRollback c a ref w = (case findConfigMap c a ref w of
     (Inl e, w1) \<Rightarrow> (Some (ErrFindConfigMap e), w1)
   | (Inr None, w1) \<Rightarrow> (None, w1)
   | (Inr (Some cm), w1) \<Rightarrow>
     (case cm_Annotations cm AnnotationPreviousState of
        None \<Rightarrow> (None, w1)
      | Some prev \<Rightarrow>
        if prev = [] then (None, w1)
        else (case tc_unmarshal c prev of
            Inl e \<Rightarrow> (Some (ErrParseSnapshot e), w1)
          | Inr data \<Rightarrow>
            (case tc_PatchConfigMap c (ref_Namespace ref) (configMapName a ref) cm
                (cm\<lparr>cm_Data := data, cm_Annotations := (cm_Annotations cm)(AnnotationPreviousState := None)\<rparr>) w1 of
               (e, w2) \<Rightarrow> (map_option ErrPatchConfigMap e, w2)))))"

section \<open>The API server\<close>

type_synonym 'w configmaps = "string \<Rightarrow> string \<Rightarrow> 'w \<Rightarrow> ConfigMap option"

text \<open>Reads give what is stored; an accepted patch of the stored object sets annotations and data, a refused one
  changes nothing; the other calls do not touch ConfigMaps; the JSON of stored data is not empty and read back.\<close>

definition tuner_ok :: "'w tuner_client \<Rightarrow> 'w configmaps \<Rightarrow> bool" where
  "tuner_ok c stored =
    ((\<forall>ns n w r w'. tc_GetConfigMap c ns n w = (r, w') \<longrightarrow>
        (\<forall>ns n. stored ns n w' = stored ns n w) \<and> (\<forall>cm. r = Inr cm \<longrightarrow> stored ns n w = Some cm)) \<and>
     (\<forall>ns n cm cm' w e w'. stored ns n w = Some cm \<longrightarrow> tc_PatchConfigMap c ns n cm cm' w = (e, w') \<longrightarrow>
        (if e = None then \<exists>x. stored ns n w' = Some x \<and> cm_Data x = cm_Data cm' \<and> cm_Annotations x = cm_Annotations cm'
         else stored ns n w' = stored ns n w)) \<and>
     (\<forall>ns n w. stored ns n (snd (tc_now c w)) = stored ns n w) \<and>
     (\<forall>ns n a b w. stored ns n (snd (tc_GetDeployment c a b w)) = stored ns n w) \<and>
     (\<forall>ns n a b x y w. stored ns n (snd (tc_PatchDeployment c a b x y w)) = stored ns n w) \<and>
     (\<forall>ns n w cm. stored ns n w = Some cm \<longrightarrow> tc_marshal c (cm_Data cm) \<noteq> [] \<and> tc_unmarshal c (tc_marshal c (cm_Data cm)) = Inr (cm_Data cm)))"

lemma tuner_get:
  assumes "tuner_ok c stored" "tc_GetConfigMap c ns n w = (r, w')"
  shows "stored a b w' = stored a b w" "r = Inr cm \<Longrightarrow> stored ns n w = Some cm"
  using assms(1) [unfolded tuner_ok_def, THEN conjunct1, rule_format, OF assms(2)] by simp_all

lemma tuner_patch:
  "tuner_ok c stored \<Longrightarrow> stored ns n w = Some cm \<Longrightarrow> tc_PatchConfigMap c ns n cm cm' w = (e, w') \<Longrightarrow>
   (if e = None then \<exists>x. stored ns n w' = Some x \<and> cm_Data x = cm_Data cm' \<and> cm_Annotations x = cm_Annotations cm'
    else stored ns n w' = stored ns n w)"
  by (rule tuner_ok_def [THEN iffD1, THEN conjunct2, THEN conjunct1, rule_format])

lemma tuner_other:
  assumes "tuner_ok c stored"
  shows "tc_now c w = (t, w') \<Longrightarrow> stored ns n w' = stored ns n w" "tc_GetDeployment c a b w = (r, w') \<Longrightarrow> stored ns n w' = stored ns n w"
    "tc_PatchDeployment c a b x y w = (e, w') \<Longrightarrow> stored ns n w' = stored ns n w"
  using assms unfolding tuner_ok_def by (metis snd_conv)+

lemma tuner_json:
  assumes "tuner_ok c stored" "stored ns n w = Some cm"
  shows "tc_marshal c (cm_Data cm) \<noteq> []" "tc_unmarshal c (tc_marshal c (cm_Data cm)) = Inr (cm_Data cm)"
  using assms unfolding tuner_ok_def by blast+

section \<open>Library\<close>

lemma clampNumber_bounds:
  assumes "least = Some a" "most = Some b" "a \<le> b" "v \<noteq> NaN"
  shows "a \<le> clampNumber v least most \<and> clampNumber v least most \<le> b \<and> (a \<le> v \<longrightarrow> v \<le> b \<longrightarrow> clampNumber v least most = v)"
  using assms by (cases a; cases b; cases v) (auto simp: clampNumber_def)

lemma findConfigMap_ok:
  assumes "tuner_ok c stored" "findConfigMap c a ref w = (r, w')"
  shows "stored ns n w' = stored ns n w" "r = Inr (Some cm) \<Longrightarrow> stored (ref_Namespace ref) (configMapName a ref) w = Some cm"
proof -
  obtain x w1 where g: "tc_GetConfigMap c (ref_Namespace ref) (configMapName a ref) w = (x, w1)" by fastforce
  show "stored ns n w' = stored ns n w" "r = Inr (Some cm) \<Longrightarrow> stored (ref_Namespace ref) (configMapName a ref) w = Some cm"
    using assms(2) g tuner_get [OF assms(1) g] by (cases x; auto simp: findConfigMap_def split: if_splits)+
qed

lemma restart_keeps:
  assumes "tuner_ok c stored" "maybeRestartDeployment c ref w = (e, w')"
  shows "stored ns n w' = stored ns n w"
proof -
  obtain x w1 where g: "tc_GetDeployment c (ref_Namespace ref) (ref_Name ref) w = (x, w1)" by fastforce
  obtain t w2 where t: "tc_now c w1 = (t, w2)" by fastforce
  note keep = tuner_other(2) [OF assms(1) g] tuner_other(1) [OF assms(1) t]
  then show ?thesis
    using assms(2) g t tuner_other(3) [OF assms(1)]
    by (cases x) (auto simp: maybeRestartDeployment_def split: if_splits)
qed

text \<open>The data after the loop.\<close>

definition tuned :: "ConfigMap \<Rightarrow> (string \<rightharpoonup> string) \<Rightarrow> string \<rightharpoonup> string" where
  "tuned cm params = (\<lambda>k. case params k of None \<Rightarrow> cm_Data cm k | Some v \<Rightarrow> Some (clampedParam cm k v))"

lemma tuneKey_loop:
  assumes "tuner_ok c stored" "foldl (tuneKey c cm params) (data, chs, w) order = (data', chs', w')" "set order \<subseteq> dom params"
  shows "stored ns n w' = stored ns n w \<and>
    data' = (\<lambda>k. if k \<in> set order then map_option (clampedParam cm k) (params k) else data k) \<and>
    map ch_Field chs' = map ch_Field chs @ order"
  using assms(2,3)
proof (induction order arbitrary: data chs w)
  case (Cons k ks)
  obtain t w1 where t: "tc_now c w = (t, w1)" by fastforce
  obtain v where v: "params k = Some v" using Cons.prems(2) by auto
  have k: "tuneKey c cm params (data, chs, w) k = (data(k \<mapsto> clampedParam cm k v), chs @
      [\<lparr>ch_Resource = ''ConfigMap/'' @ cm_Name cm, ch_Field = k, ch_OldValue = (case data k of None \<Rightarrow> [] | Some v \<Rightarrow> v),
        ch_NewValue = clampedParam cm k v, ch_Timestamp = t\<rparr>], w1)"
    using t v by (simp add: tuneKey_def Let_def)
  show ?case
    using Cons.IH Cons.prems v tuner_other(1) [OF assms(1) t] unfolding foldl.simps k by (fastforce simp: fun_eq_iff)
qed auto

lemma tunerApply_ok:
  assumes "tuner_ok c stored" "key_order (sa_TuningParams action) order" "\<not> ao_DryRun opts"
    "tunerApply c a order ref action opts w = (Inr r, w')" "ar_Applied r"
  defines "conf \<equiv> stored (ref_Namespace ref) (configMapName a ref)"
  shows "\<exists>cm x. conf w = Some cm \<and> conf w' = Some x \<and> cm_Data x = tuned cm (sa_TuningParams action) \<and>
    cm_Annotations x = (cm_Annotations cm)(AnnotationPreviousState \<mapsto> tc_marshal c (cm_Data cm))"
proof -
  obtain f w1 where f: "findConfigMap c a ref w = (f, w1)" by fastforce
  obtain cm where cm: "f = Inr (Some cm)"
    using assms(4,5) f by (cases f) (auto simp: tunerApply_def emptyResult_def split: option.splits)
  obtain data chs w2 where l: "foldl (tuneKey c cm (sa_TuningParams action)) (cm_Data cm, [], w1) order = (data, chs, w2)" by (metis prod_cases3)
  let ?cm = "cm\<lparr>cm_Annotations := (cm_Annotations cm)(AnnotationPreviousState \<mapsto> tc_marshal c (cm_Data cm)), cm_Data := data\<rparr>"
  obtain e w3 where p: "tc_PatchConfigMap c (ref_Namespace ref) (configMapName a ref) cm ?cm w2 = (e, w3)" by fastforce
  have e: "e = None" using assms(3,4) f cm l p by (cases e) (auto simp: tunerApply_def Let_def)
  obtain x w4 where m: "maybeRestartDeployment c ref w3 = (x, w4)" by fastforce
  have w4: "w' = w4" using assms(3,4) f cm l p e m by (cases x) (auto simp: tunerApply_def Let_def)
  have 1: "conf w = Some cm" "conf w1 = Some cm" using findConfigMap_ok [OF assms(1) f] cm by (auto simp: conf_def)
  have ord: "set order = dom (sa_TuningParams action)" using assms(2) by (simp add: key_order_def)
  note 2 = tuneKey_loop [OF assms(1) l]
  have "data = tuned cm (sa_TuningParams action)"
    using 2 ord by (auto simp: tuned_def fun_eq_iff split: option.splits)
  moreover have "conf w2 = Some cm" using 2 ord 1(2) by (simp add: conf_def)
  ultimately show ?thesis
    using tuner_patch [OF assms(1) _ p] e restart_keeps [OF assms(1) m] w4 1(1) by (auto simp: conf_def)
qed

section \<open>Properties\<close>

text \<open>A numeric parameter is written within the bounds of the ConfigMap, and unchanged in value when it lies
  within them already; not-a-number is the one numeric text that escapes the bounds.\<close>
theorem clampStringValue_bounds:
  assumes "ParseFloat (TrimSpace proposed) = Some v" "v \<noteq> NaN" "minStr \<noteq> []" "maxStr \<noteq> []"
    "ParseFloat (TrimSpace minStr) = Some a" "ParseFloat (TrimSpace maxStr) = Some b" "a \<le> b"
  shows "\<exists>x. clampStringValue proposed minStr maxStr = formatNumber x \<and> a \<le> x \<and> x \<le> b \<and> (a \<le> v \<and> v \<le> b \<longrightarrow> x = v)"
  using clampNumber_bounds [of "parseBound minStr" a "parseBound maxStr" b v] assms
  by (auto simp: clampStringValue_def parseBound_def)

lemma clampStringValue_bounds_witness:
  "\<exists>x. clampStringValue ''99'' ''2'' '' 32'' = formatNumber x \<and> Fin 2 \<le> x \<and> x \<le> Fin 32"
proof -
  have "ParseFloat (TrimSpace ''99'') = Some (Fin 99)" "ParseFloat (TrimSpace ''2'') = Some (Fin 2)"
    "ParseFloat (TrimSpace '' 32'') = Some (Fin 32)" by code_simp+
  from clampStringValue_bounds [OF this(1) _ _ _ this(2,3)] show ?thesis by auto
qed

text \<open>C30. Tuning and its rollback: an applied tuning leaves exactly the given parameters changed, each to its
  clamped value, and an accepted rollback right after it brings back the data of the ConfigMap exactly, keys
  that the tuning added removed again.\<close>
theorem tuner_roundtrip:
  assumes "tuner_ok c stored" "key_order (sa_TuningParams action) order" "\<not> ao_DryRun opts"
    "tunerApply c a order ref action opts w = (Inr r, w1)" "ar_Applied r" "tunerRollback c a ref w1 = (None, w2)"
    "tc_GetConfigMap c (ref_Namespace ref) (configMapName a ref) w1 = (Inr got, w1')"
  shows "\<exists>cm x y. stored (ref_Namespace ref) (configMapName a ref) w = Some cm \<and>
    stored (ref_Namespace ref) (configMapName a ref) w1 = Some x \<and> stored (ref_Namespace ref) (configMapName a ref) w2 = Some y \<and>
    cm_Data x = tuned cm (sa_TuningParams action) \<and> cm_Data y = cm_Data cm"
proof -
  let ?conf = "stored (ref_Namespace ref) (configMapName a ref)"
  obtain cm x where x: "?conf w = Some cm" "?conf w1 = Some x" "cm_Data x = tuned cm (sa_TuningParams action)"
    "cm_Annotations x AnnotationPreviousState = Some (tc_marshal c (cm_Data cm))"
    using tunerApply_ok [OF assms(1-5)] by auto
  have g: "got = x" "?conf w1' = Some x" using tuner_get [OF assms(1,7)] x(2) by auto
  have f: "findConfigMap c a ref w1 = (Inr (Some x), w1')" using assms(7) g by (simp add: findConfigMap_def)
  let ?x = "x\<lparr>cm_Data := cm_Data cm, cm_Annotations := (cm_Annotations x)(AnnotationPreviousState := None)\<rparr>"
  obtain e w3 where p: "tc_PatchConfigMap c (ref_Namespace ref) (configMapName a ref) x ?x w1' = (e, w3)" by fastforce
  have "e = None" "w2 = w3" using assms(6) f x(4) p tuner_json [OF assms(1) x(1)] by (auto simp: tunerRollback_def)
  then show ?thesis using tuner_patch [OF assms(1) g(2) p] x by auto
qed

section \<open>A ConfigMap with one key\<close>

definition demo_key :: string where "demo_key = ''workers''"

definition oneKey :: "ConfigMap configmaps" where
  "oneKey ns n cm = (if \<forall>k. k \<noteq> demo_key \<longrightarrow> cm_Data cm k = None then Some cm else None)"

definition showData :: "(string \<rightharpoonup> string) \<Rightarrow> string" where
  "showData m = (case m demo_key of None \<Rightarrow> ''-'' | Some v \<Rightarrow> CHR ''+'' # v)"

definition readData :: "string \<Rightarrow> string + (string \<rightharpoonup> string)" where
  "readData s = (case s of [] \<Rightarrow> Inl ''empty'' | c # v \<Rightarrow> if c = CHR ''+'' then Inr [demo_key \<mapsto> v] else Inr Map.empty)"

definition oneConfigMap :: "ConfigMap tuner_client" where
  "oneConfigMap = \<lparr>tc_GetConfigMap = \<lambda>ns n w. (case oneKey ns n w of None \<Rightarrow> Inl ''not found'' | Some cm \<Rightarrow> Inr cm, w),
    tc_PatchConfigMap = \<lambda>ns n cm cm' w. case oneKey ns n cm' of None \<Rightarrow> (Some ''invalid'', w) | Some x \<Rightarrow> (None, x),
    tc_GetDeployment = \<lambda>ns n w. (Inl ''deployment not found'', w), tc_PatchDeployment = \<lambda>ns n x y w. (None, w),
    tc_now = Pair 0, tc_timeText = \<lambda>t. [], tc_marshal = showData, tc_unmarshal = readData\<rparr>"

lemma oneKey_Some: "oneKey ns n w = Some cm \<longleftrightarrow> w = cm \<and> (\<forall>k. k \<noteq> demo_key \<longrightarrow> cm_Data cm k = None)"
  by (auto simp: oneKey_def)

lemma readData_showData: "\<forall>k. k \<noteq> demo_key \<longrightarrow> m k = None \<Longrightarrow> showData m \<noteq> [] \<and> readData (showData m) = Inr m"
  by (rule conjI) (auto simp: showData_def readData_def fun_eq_iff split: option.splits, metis)

lemma oneConfigMap_ok: "tuner_ok oneConfigMap oneKey"
  unfolding tuner_ok_def by (auto simp: oneConfigMap_def oneKey_Some readData_showData split: option.splits)

definition demo_cm :: ConfigMap where
  "demo_cm = \<lparr>cm_Name = ''web-config'', cm_Annotations = [annotationBoundsMaxPrefix @ demo_key \<mapsto> ''32''], cm_Data = [demo_key \<mapsto> ''8'']\<rparr>"

definition demo_tune :: ScalingAction where
  "demo_tune = demo_action\<lparr>sa_Type := ActionTune, sa_TuningParams := [demo_key \<mapsto> ''99'']\<rparr>"

lemma tuner_roundtrip_witness:
  "case tunerApply oneConfigMap NewAppTuner [demo_key] demo_ref demo_tune demo_opts demo_cm of (r, w1) \<Rightarrow>
     cm_Data w1 demo_key = Some ''32'' \<and> cm_Data (snd (tunerRollback oneConfigMap NewAppTuner demo_ref w1)) demo_key = Some ''8''"
proof -
  let ?c = oneConfigMap and ?a = NewAppTuner
  have k: "clampedParam demo_cm demo_key ''99'' = ''32''" "isNotFoundText ''deployment not found''" by code_simp+
  let ?w1 = "demo_cm\<lparr>cm_Annotations := (cm_Annotations demo_cm)(AnnotationPreviousState \<mapsto> showData (cm_Data demo_cm)), cm_Data := [demo_key \<mapsto> ''32'']\<rparr>"
  have v: "oneKey ns n demo_cm = Some demo_cm" "oneKey ns n ?w1 = Some ?w1" for ns n by (simp_all add: oneKey_Some demo_cm_def)
  have d: "cm_Data demo_cm = [demo_key \<mapsto> ''8'']" "sa_TuningParams demo_tune = [demo_key \<mapsto> ''99'']" "\<not> ao_DryRun demo_opts"
    by (simp_all add: demo_cm_def demo_tune_def demo_opts_def)
  obtain r where a: "tunerApply ?c ?a [demo_key] demo_ref demo_tune demo_opts demo_cm = (Inr r, ?w1)" "ar_Applied r"
    using v d k by (simp add: tunerApply_def findConfigMap_def oneConfigMap_def tuneKey_def maybeRestartDeployment_def Let_def)
  have g: "tc_GetConfigMap ?c (ref_Namespace demo_ref) (configMapName ?a demo_ref) ?w1 = (Inr ?w1, ?w1)"
    using v(2) by (simp add: oneConfigMap_def)
  let ?w2 = "?w1\<lparr>cm_Data := [demo_key \<mapsto> ''8''], cm_Annotations := (cm_Annotations ?w1)(AnnotationPreviousState := None)\<rparr>"
  have "oneKey ns n ?w2 = Some ?w2" for ns n by (simp add: oneKey_Some)
  then have b: "tunerRollback ?c ?a demo_ref ?w1 = (None, ?w2)"
    using g d by (simp add: tunerRollback_def findConfigMap_def oneConfigMap_def showData_def readData_def)
  have "key_order (sa_TuningParams demo_tune) [demo_key]" by (simp add: key_order_def d)
  note t = tuner_roundtrip [OF oneConfigMap_ok this d(3) a b g]
  have "cm_Data ?w2 = cm_Data demo_cm" using t by (auto simp: oneKey_Some)
  then show ?thesis using a(1) b d(1) by simp
qed

end
