(* ===== verification/Node_Actuator.thy ===== *)
theory Node_Actuator
  imports Pod_Actuator Routing
begin

text \<open>
  The node actuator of \<open>internal/actuator/node_actuator.go\<close>: it turns the spot ratio of an action into requirements
  of a Karpenter NodePool, or into a hint on the namespace where Karpenter is missing. The Kubernetes client with
  the clock is the record \<open>node_client\<close>; the accessors of its \<open>unstructured\<close> package, \<open>encoding/json\<close> and the text
  of a slice are the record \<open>node_api\<close>.
\<close>

section \<open>Data\<close>

definition karpenterNodePoolGVK :: gvk where
  "karpenterNodePoolGVK = \<lparr>gvk_Group = ''karpenter.sh'', gvk_Version = ''v1'', gvk_Kind = ''NodePool''\<rparr>"

definition AnnotationNodeHint :: string where "AnnotationNodeHint = ''optipilot.ai/node-hint''"

record NodeActuator =
  na_NodePoolName :: string

definition NewNodeActuator :: NodeActuator where
  "NewNodeActuator = \<lparr>na_NodePoolName = []\<rparr>"

record nodeHint =
  nh_SpotRatio :: f64
  nh_TargetOnDemandRatio :: f64
  nh_Timestamp :: string

text \<open>The errors of the client the code tells apart; \<open>UnknownKindError\<close> is its own type.\<close>

datatype kube_error = NotFoundError string | UnknownKindError string | OtherError string

datatype node_error =
    ErrFindNodePool kube_error
  | ErrSetRequirements string
  | ErrPatchNodePool string
  | ErrGetNamespace kube_error
  | ErrPatchNamespace string
  | ErrNodeSnapshot string

record node_api =
  un_NestedSlice :: "obj \<Rightarrow> string list \<Rightarrow> string + json list option"
  un_SetNestedSlice :: "obj \<Rightarrow> json list \<Rightarrow> string list \<Rightarrow> string + obj"
  un_SetNestedMap :: "obj \<Rightarrow> obj \<Rightarrow> string list \<Rightarrow> string + obj"
  un_GetName :: "obj \<Rightarrow> string"
  un_GetAnnotations :: "obj \<Rightarrow> string \<rightharpoonup> string"
  un_SetAnnotations :: "obj \<Rightarrow> (string \<rightharpoonup> string) \<Rightarrow> obj"
  js_marshalRequirements :: "json list \<Rightarrow> string"
  js_unmarshalRequirements :: "string \<Rightarrow> string + json list"
  js_marshalHint :: "nodeHint \<Rightarrow> string"
  fm_slice :: "json list \<Rightarrow> string"
  fm_time :: "gotime \<Rightarrow> string"

record 'w node_client =
  nc_List :: "gvk \<Rightarrow> 'w \<Rightarrow> (kube_error + obj list) \<times> 'w"
  nc_PatchNodePool :: "obj \<Rightarrow> obj \<Rightarrow> 'w \<Rightarrow> string option \<times> 'w"
  nc_GetNamespace :: "string \<Rightarrow> 'w \<Rightarrow> (kube_error + obj) \<times> 'w"
  nc_PatchNamespace :: "obj \<Rightarrow> obj \<Rightarrow> 'w \<Rightarrow> string option \<times> 'w"
  nc_now :: "'w \<Rightarrow> gotime \<times> 'w"

section \<open>Requirements\<close>

definition capacityTypeKey :: string where "capacityTypeKey = ''karpenter.sh/capacity-type''"
definition instanceTypeKey :: string where "instanceTypeKey = ''node.kubernetes.io/instance-type''"

definition requirementKey :: "obj \<Rightarrow> string" where
  "requirementKey req = (case req ''key'' of Some (JString s) \<Rightarrow> s | _ \<Rightarrow> [])"

definition preservedRequirement :: "json \<Rightarrow> bool" where
  "preservedRequirement r = (case asMap r of
     None \<Rightarrow> False
   | Some req \<Rightarrow> requirementKey req \<noteq> capacityTypeKey \<and> requirementKey req \<noteq> instanceTypeKey)"

definition capacityValues :: "f64 \<Rightarrow> json list" where
  "capacityValues spotRatio =
    (if 0 < spotRatio \<and> spotRatio < 1 then [JString ''spot'', JString ''on-demand'']
     else if 1 \<le> spotRatio then [JString ''spot'', JString ''on-demand'']
     else [JString ''on-demand''])"

definition capacityRequirement :: "f64 \<Rightarrow> obj" where
  "capacityRequirement spotRatio =
    [''key'' \<mapsto> JString capacityTypeKey, ''operator'' \<mapsto> JString ''In'', ''values'' \<mapsto> JList (capacityValues spotRatio)]"

definition buildRequirements :: "int \<Rightarrow> f64 \<Rightarrow> json list \<Rightarrow> json list" where
  "buildRequirements targetReplicas spotRatio existing =
    filter preservedRequirement existing @ [JMap (capacityRequirement spotRatio)]"

section \<open>Operations\<close>

definition nodeCanApply :: "ScalingAction \<Rightarrow> bool" where
  "nodeCanApply action = (sa_Type action = ActionScaleUp \<or> sa_Type action = ActionScaleDown \<or> sa_Type action = ActionTune)"

definition isNoKindMatch :: "kube_error \<Rightarrow> bool" where
  "isNoKindMatch e = (case e of UnknownKindError _ \<Rightarrow> True | _ \<Rightarrow> False)"

definition isNotFound :: "kube_error \<Rightarrow> bool" where
  "isNotFound e = (case e of NotFoundError _ \<Rightarrow> True | _ \<Rightarrow> False)"

definition findNodePool ::
  "node_api \<Rightarrow> 'w node_client \<Rightarrow> NodeActuator \<Rightarrow> string \<Rightarrow> 'w \<Rightarrow> (kube_error + obj option) \<times> 'w"
where
  "findNodePool us c n namespace w =
    (case nc_List c (karpenterNodePoolGVK\<lparr>gvk_Kind := gvk_Kind karpenterNodePoolGVK @ ''List''\<rparr>) w of
       (Inl e, w1) \<Rightarrow> (if isNotFound e \<or> isNoKindMatch e then Inr None else Inl e, w1)
     | (Inr items, w1) \<Rightarrow> (Inr (find (\<lambda>np. na_NodePoolName n = [] \<or> un_GetName us np = na_NodePoolName n) items), w1))"

definition requirementsPath :: "string list" where "requirementsPath = [''spec'', ''requirements'']"
definition disruptionPath :: "string list" where "disruptionPath = [''spec'', ''disruption'']"

definition requirementsOf :: "node_api \<Rightarrow> obj \<Rightarrow> json list" where
  "requirementsOf us np = (case got (un_NestedSlice us np requirementsPath) of None \<Rightarrow> [] | Some reqs \<Rightarrow> reqs)"

definition spotPercent :: "f64 \<Rightarrow> string" where
  "spotPercent ratio = fmt_f 0 (ratio * Fin 100) @ ''%''"

definition requirementsChange :: "node_api \<Rightarrow> obj \<Rightarrow> json list \<Rightarrow> f64 \<Rightarrow> gotime \<Rightarrow> ChangeRecord" where
  "requirementsChange us np prevReqs ratio t =
    \<lparr>ch_Resource = ''NodePool/'' @ un_GetName us np, ch_Field = ''spec.requirements'', ch_OldValue = fm_slice us prevReqs,
     ch_NewValue = ''spotRatio='' @ spotPercent ratio, ch_Timestamp = t\<rparr>"

definition disruptionBudget :: "f64 \<Rightarrow> obj" where
  "disruptionBudget ratio = [''budgets'' \<mapsto> JList [JMap [''nodes'' \<mapsto> JString (spotPercent ratio)]]]"

definition setDisruption :: "node_api \<Rightarrow> f64 \<Rightarrow> obj \<Rightarrow> obj" where
  "setDisruption us ratio np = (if 0 < ratio then
     (case un_SetNestedMap us np (disruptionBudget ratio) disruptionPath of Inl e \<Rightarrow> np | Inr np' \<Rightarrow> np') else np)"

definition applyNodePool ::
  "node_api \<Rightarrow> 'w node_client \<Rightarrow> obj \<Rightarrow> ServiceRef \<Rightarrow> ScalingAction \<Rightarrow> ActuationOptions \<Rightarrow> 'w \<Rightarrow>
   (node_error + ActuationResult) \<times> 'w"
where
  "applyNodePool us c np ref action opts w =
    (let prevReqs = requirementsOf us np;
         prevJSON = js_marshalRequirements us prevReqs;
         newReqs = buildRequirements (sa_TargetReplica action) (sa_SpotRatio action) prevReqs in
     if newReqs = [] then (Inr (emptyResult\<lparr>ar_PreviousState := prevJSON\<rparr>), w)
     else if ao_DryRun opts then
       (case nc_now c w of (t, w1) \<Rightarrow>
         (Inr \<lparr>ar_Applied = False, ar_PreviousState = prevJSON,
            ar_Changes = [requirementsChange us np prevReqs (sa_SpotRatio action) t], ar_Error = None\<rparr>, w1))
     else
       (let np1 = un_SetAnnotations us np ((un_GetAnnotations us np)(AnnotationPreviousState \<mapsto> prevJSON)) in
        case un_SetNestedSlice us np1 newReqs requirementsPath of
          Inl e \<Rightarrow> (Inl (ErrSetRequirements e), w)
        | Inr np2 \<Rightarrow>
          (case nc_PatchNodePool c np (setDisruption us (sa_SpotRatio action) np2) w of
             (Some e, w1) \<Rightarrow> (Inl (ErrPatchNodePool e), w1)
           | (None, w1) \<Rightarrow> (case nc_now c w1 of (t, w2) \<Rightarrow>
               (Inr \<lparr>ar_Applied = True, ar_PreviousState = prevJSON,
                  ar_Changes = [requirementsChange us np prevReqs (sa_SpotRatio action) t], ar_Error = None\<rparr>, w2)))))"

definition hintChange :: "ServiceRef \<Rightarrow> string \<Rightarrow> gotime \<Rightarrow> ChangeRecord" where
  "hintChange ref hint t =
    \<lparr>ch_Resource = ''Namespace/'' @ ref_Namespace ref, ch_Field = AnnotationNodeHint, ch_OldValue = [], ch_NewValue = hint, ch_Timestamp = t\<rparr>"

definition applyHint ::
  "node_api \<Rightarrow> 'w node_client \<Rightarrow> ServiceRef \<Rightarrow> ScalingAction \<Rightarrow> ActuationOptions \<Rightarrow> 'w \<Rightarrow> (node_error + ActuationResult) \<times> 'w"
where
  "applyHint us c ref action opts w = (case nc_now c w of (t, w1) \<Rightarrow>
    (let hint = js_marshalHint us \<lparr>nh_SpotRatio = sa_SpotRatio action, nh_TargetOnDemandRatio = 1 - sa_SpotRatio action, nh_Timestamp = fm_time us t\<rparr> in
     if ao_DryRun opts then
       (case nc_now c w1 of (t2, w2) \<Rightarrow> (Inr (emptyResult\<lparr>ar_Changes := [hintChange ref hint t2]\<rparr>), w2))
     else
       (case nc_GetNamespace c (ref_Namespace ref) w1 of
          (Inl e, w2) \<Rightarrow> (if isNotFound e then Inr emptyResult else Inl (ErrGetNamespace e), w2)
        | (Inr ns, w2) \<Rightarrow>
          (case nc_PatchNamespace c ns (un_SetAnnotations us ns ((un_GetAnnotations us ns)(AnnotationNodeHint \<mapsto> hint))) w2 of
             (Some e, w3) \<Rightarrow> (Inl (ErrPatchNamespace e), w3)
           | (None, w3) \<Rightarrow> (case nc_now c w3 of (t4, w4) \<Rightarrow>
               (Inr (emptyResult\<lparr>ar_Applied := True, ar_Changes := [hintChange ref hint t4]\<rparr>), w4))))))"

definition nodeApply ::
  "node_api \<Rightarrow> 'w node_client \<Rightarrow> NodeActuator \<Rightarrow> ServiceRef \<Rightarrow> ScalingAction \<Rightarrow> ActuationOptions \<Rightarrow> 'w \<Rightarrow>
   (node_error + ActuationResult) \<times> 'w"
where
  "nodeApply us c n ref action opts w = (case findNodePool us c n (ref_Namespace ref) w of
     (Inl e, w1) \<Rightarrow> (Inl (ErrFindNodePool e), w1)
   | (Inr None, w1) \<Rightarrow> applyHint us c ref action opts w1
   | (Inr (Some np), w1) \<Rightarrow> applyNodePool us c np ref action opts w1)"

definition nodeRollback :: "node_api \<Rightarrow> 'w node_client \<Rightarrow> NodeActuator \<Rightarrow> ServiceRef \<Rightarrow> 'w \<Rightarrow> node_error option \<times> 'w" where
  "nodeRollback us c n ref w = (case findNodePool us c n (ref_Namespace ref) w of
     (Inl e, w1) \<Rightarrow> (Some (ErrFindNodePool e), w1)
   | (Inr None, w1) \<Rightarrow> (None, w1)
   | (Inr (Some np), w1) \<Rightarrow>
     (case un_GetAnnotations us np AnnotationPreviousState of
        None \<Rightarrow> (None, w1)
      | Some prev \<Rightarrow>
        if prev = [] then (None, w1)
        else (case js_unmarshalRequirements us prev of
            Inl e \<Rightarrow> (Some (ErrNodeSnapshot e), w1)
          | Inr reqs \<Rightarrow>
            (case nc_PatchNodePool c np
                (case un_SetNestedSlice us np reqs requirementsPath of Inl e \<Rightarrow> np | Inr np' \<Rightarrow> np') w1 of
               (e, w2) \<Rightarrow> (map_option ErrPatchNodePool e, w2)))))"

section \<open>The API server\<close>

text \<open>Objects of the API have metadata. What is set is read back and nothing else changes; reading requirements
  depends on \<open>spec\<close> only, reading name and annotations on \<open>metadata\<close> only.\<close>

definition has_metadata :: "obj \<Rightarrow> bool" where
  "has_metadata m = (case m ''metadata'' of Some (JMap _) \<Rightarrow> True | _ \<Rightarrow> False)"

definition node_api_ok :: "node_api \<Rightarrow> bool" where
  "node_api_ok us =
    ((\<forall>m xs m'. un_SetNestedSlice us m xs requirementsPath = Inr m' \<longrightarrow>
        un_NestedSlice us m' requirementsPath = Inr (Some xs) \<and> m' ''metadata'' = m ''metadata'') \<and>
     (\<forall>m v m'. un_SetNestedMap us m v disruptionPath = Inr m' \<longrightarrow>
        un_NestedSlice us m' requirementsPath = un_NestedSlice us m requirementsPath \<and> m' ''metadata'' = m ''metadata'') \<and>
     (\<forall>m a. has_metadata m \<longrightarrow> un_GetAnnotations us (un_SetAnnotations us m a) = a \<and>
        un_GetName us (un_SetAnnotations us m a) = un_GetName us m \<and> has_metadata (un_SetAnnotations us m a)) \<and>
     (\<forall>m m'. m' ''spec'' = m ''spec'' \<longrightarrow> un_NestedSlice us m' requirementsPath = un_NestedSlice us m requirementsPath) \<and>
     (\<forall>m m'. m' ''metadata'' = m ''metadata'' \<longrightarrow> un_GetName us m' = un_GetName us m \<and> un_GetAnnotations us m' = un_GetAnnotations us m))"

text \<open>A list gives the stored NodePools; an accepted patch stores spec, name and annotations of the new object, a refused
  one changes nothing; the clock changes nothing.\<close>

definition node_client_ok :: "node_api \<Rightarrow> 'w node_client \<Rightarrow> ('w \<Rightarrow> obj list) \<Rightarrow> bool" where
  "node_client_ok us c pools =
    ((\<forall>g w r w'. nc_List c g w = (r, w') \<longrightarrow> pools w' = pools w \<and> (\<forall>ps. r = Inr ps \<longrightarrow> ps = pools w)) \<and>
     (\<forall>p p' w e w'. p \<in> set (pools w) \<longrightarrow> nc_PatchNodePool c p p' w = (e, w') \<longrightarrow>
        (if e = None
         then \<exists>x. pools w' = map (\<lambda>q. if un_GetName us q = un_GetName us p then x else q) (pools w) \<and> x ''spec'' = p' ''spec'' \<and>
           un_GetName us x = un_GetName us p' \<and> un_GetAnnotations us x = un_GetAnnotations us p' \<and> has_metadata x
         else pools w' = pools w)) \<and>
     (\<forall>w. pools (snd (nc_now c w)) = pools w))"

lemma node_api_requirements:
  assumes "node_api_ok us"
  shows "un_SetNestedSlice us m xs requirementsPath = Inr m' \<Longrightarrow> un_NestedSlice us m' requirementsPath = Inr (Some xs) \<and> m' ''metadata'' = m ''metadata''"
    "un_SetNestedMap us m v disruptionPath = Inr m' \<Longrightarrow>
       un_NestedSlice us m' requirementsPath = un_NestedSlice us m requirementsPath \<and> m' ''metadata'' = m ''metadata''"
    "m' ''spec'' = m ''spec'' \<Longrightarrow> un_NestedSlice us m' requirementsPath = un_NestedSlice us m requirementsPath"
  using assms unfolding node_api_ok_def by blast+

lemma node_api_metadata:
  assumes "node_api_ok us"
  shows "has_metadata m \<Longrightarrow> un_GetAnnotations us (un_SetAnnotations us m a) = a"
    "has_metadata m \<Longrightarrow> un_GetName us (un_SetAnnotations us m a) = un_GetName us m"
    "m' ''metadata'' = m ''metadata'' \<Longrightarrow> un_GetName us m' = un_GetName us m"
    "m' ''metadata'' = m ''metadata'' \<Longrightarrow> un_GetAnnotations us m' = un_GetAnnotations us m"
  using assms unfolding node_api_ok_def by blast+

lemma node_list:
  "node_client_ok us c pools \<Longrightarrow> nc_List c g w = (r, w') \<Longrightarrow> pools w' = pools w \<and> (\<forall>ps. r = Inr ps \<longrightarrow> ps = pools w)"
  unfolding node_client_ok_def by blast

lemma node_patch_law:
  "node_client_ok us c pools \<Longrightarrow> p \<in> set (pools w) \<Longrightarrow> nc_PatchNodePool c p p' w = (e, w') \<Longrightarrow>
   if e = None
   then \<exists>x. pools w' = map (\<lambda>q. if un_GetName us q = un_GetName us p then x else q) (pools w) \<and> x ''spec'' = p' ''spec'' \<and>
     un_GetName us x = un_GetName us p' \<and> un_GetAnnotations us x = un_GetAnnotations us p' \<and> has_metadata x
   else pools w' = pools w"
  by (rule node_client_ok_def [THEN iffD1, THEN conjunct2, THEN conjunct1, rule_format])

lemma node_patch:
  assumes "node_client_ok us c pools" "p \<in> set (pools w)" "nc_PatchNodePool c p p' w = (None, w')"
  obtains x where "pools w' = map (\<lambda>q. if un_GetName us q = un_GetName us p then x else q) (pools w)" "x ''spec'' = p' ''spec''"
    "un_GetName us x = un_GetName us p'" "un_GetAnnotations us x = un_GetAnnotations us p'" "has_metadata x"
  using node_patch_law [OF assms] by auto

lemma node_now: "node_client_ok us c pools \<Longrightarrow> nc_now c w = (t, w') \<Longrightarrow> pools w' = pools w"
  unfolding node_client_ok_def by (metis snd_conv)

section \<open>Library\<close>

text \<open>The pool the actuator manages.\<close>

definition managed :: "node_api \<Rightarrow> NodeActuator \<Rightarrow> obj list \<Rightarrow> obj option" where
  "managed us n ps = find (\<lambda>np. na_NodePoolName n = [] \<or> un_GetName us np = na_NodePoolName n) ps"

lemma findNodePool_managed:
  assumes "node_client_ok us c pools" "findNodePool us c n ns w = (Inr (Some np), w')"
  shows "managed us n (pools w) = Some np" "pools w' = pools w" "np \<in> set (pools w)"
proof -
  let ?g = "karpenterNodePoolGVK\<lparr>gvk_Kind := gvk_Kind karpenterNodePoolGVK @ ''List''\<rparr>"
  obtain r w1 where l: "nc_List c ?g w = (r, w1)" by fastforce
  show m: "managed us n (pools w) = Some np" and "pools w' = pools w"
    using assms(2) node_list [OF assms(1) l] l by (cases r; auto simp: findNodePool_def managed_def split: if_splits)+
  from m show "np \<in> set (pools w)" by (auto simp: managed_def find_Some_iff)
qed

text \<open>Replacing the managed pool under its name leaves the replacement the managed one.\<close>

lemma managed_replaced:
  assumes "managed us n ps = Some np" "un_GetName us x = un_GetName us np"
  shows "managed us n (map (\<lambda>q. if un_GetName us q = un_GetName us np then x else q) ps) = Some x"
  using assms by (induction ps) (auto simp: managed_def split: if_splits)

lemma preservedRequirement_capacity [simp]: "\<not> preservedRequirement (JMap (capacityRequirement ratio))"
  by (simp add: preservedRequirement_def capacityRequirement_def asMap_def requirementKey_def)

lemma capacityRequirement_fields:
  "requirementKey (capacityRequirement ratio) = capacityTypeKey" "capacityRequirement ratio ''values'' = Some (JList (capacityValues ratio))"
  by (simp_all add: capacityRequirement_def requirementKey_def)

lemma buildRequirements_again: "buildRequirements t r (buildRequirements t' r' reqs) = buildRequirements t r reqs"
  by (simp add: buildRequirements_def)

lemma setDisruption_keeps:
  assumes "node_api_ok us"
  shows "un_NestedSlice us (setDisruption us r np) requirementsPath = un_NestedSlice us np requirementsPath"
    "setDisruption us r np ''metadata'' = np ''metadata''"
  using node_api_requirements(2) [OF assms, of np "disruptionBudget r"] by (auto simp: setDisruption_def split: sum.split)

lemma nodeApply_ok:
  assumes us: "node_api_ok us" and c: "node_client_ok us c pools" and m: "managed us n (pools w) = Some np" "has_metadata np"
    and r: "nodeApply us c n ref action opts w = (Inr r, w')" "ar_Applied r" "ar_PreviousState r \<noteq> []"
  shows "\<exists>x. managed us n (pools w') = Some x \<and> has_metadata x \<and>
    requirementsOf us x = buildRequirements (sa_TargetReplica action) (sa_SpotRatio action) (requirementsOf us np) \<and>
    un_GetAnnotations us x = (un_GetAnnotations us np)(AnnotationPreviousState \<mapsto> js_marshalRequirements us (requirementsOf us np)) \<and>
    \<not> ao_DryRun opts \<and> ar_PreviousState r = js_marshalRequirements us (requirementsOf us np)"
proof -
  obtain f w1 where f: "findNodePool us c n (ref_Namespace ref) w = (f, w1)" by fastforce
  have "\<exists>p. f = Inr (Some p)"
  proof (rule ccontr)
    assume "\<nexists>p. f = Inr (Some p)"
    then have "f = Inr None" using r(1) f by (cases f) (auto simp: nodeApply_def split: option.splits)
    then show False using r f
      by (auto simp: nodeApply_def applyHint_def emptyResult_def Let_def split: prod.splits sum.splits if_splits option.splits)
  qed
  then have np: "f = Inr (Some np)" "pools w1 = pools w" "np \<in> set (pools w1)"
    using findNodePool_managed [OF c] f m by auto
  let ?new = "buildRequirements (sa_TargetReplica action) (sa_SpotRatio action) (requirementsOf us np)"
  let ?np1 = "un_SetAnnotations us np ((un_GetAnnotations us np)(AnnotationPreviousState \<mapsto> js_marshalRequirements us (requirementsOf us np)))"
  have a: "applyNodePool us c np ref action opts w1 = (Inr r, w')" using r(1) f np by (simp add: nodeApply_def)
  have dry: "\<not> ao_DryRun opts" "?new \<noteq> []" using a r(2) by (auto simp: applyNodePool_def buildRequirements_def Let_def split: prod.splits)
  then obtain np2 where np2: "un_SetNestedSlice us ?np1 ?new requirementsPath = Inr np2"
    using a by (cases "un_SetNestedSlice us ?np1 ?new requirementsPath") (auto simp: applyNodePool_def Let_def)
  let ?np3 = "setDisruption us (sa_SpotRatio action) np2"
  obtain e w2 where p: "nc_PatchNodePool c np ?np3 w1 = (e, w2)" by fastforce
  obtain t w3 where t: "nc_now c w2 = (t, w3)" by fastforce
  have e: "e = None" "w' = w3" "ar_PreviousState r = js_marshalRequirements us (requirementsOf us np)"
    using a dry np2 p t by (cases e; auto simp: applyNodePool_def Let_def)+
  note 2 = node_api_requirements(1) [OF us np2] and 3 = setDisruption_keeps [OF us, of "sa_SpotRatio action" np2]
  have req: "un_NestedSlice us ?np3 requirementsPath = Inr (Some ?new)" and md: "?np3 ''metadata'' = ?np1 ''metadata''" using 2 3 by auto
  obtain x where x: "pools w2 = map (\<lambda>q. if un_GetName us q = un_GetName us np then x else q) (pools w1)" "x ''spec'' = ?np3 ''spec''"
    "un_GetName us x = un_GetName us ?np3" "un_GetAnnotations us x = un_GetAnnotations us ?np3" "has_metadata x"
    by (rule node_patch [OF c np(3) p [unfolded e(1)]])
  have "un_GetName us x = un_GetName us np" 
    using x(3) node_api_metadata(3) [where m' = ?np3 and m = ?np1, OF us md] node_api_metadata(2) [OF us m(2)] by simp
  then have "managed us n (pools w') = Some x"
    using managed_replaced [OF m(1)] x(1) np(2) e(2) node_now [OF c t] by simp
  moreover have "requirementsOf us x = ?new"
    using node_api_requirements(3) [where m' = x and m = ?np3, OF us x(2)] req by (simp add: requirementsOf_def got_def)
  moreover have "un_GetAnnotations us x = (un_GetAnnotations us np)(AnnotationPreviousState \<mapsto> js_marshalRequirements us (requirementsOf us np))"
    using x(4) node_api_metadata(4) [where m' = ?np3 and m = ?np1, OF us md] node_api_metadata(1) [OF us m(2)] by simp
  ultimately show ?thesis using x(5) dry(1) e(3) by simp
qed

section \<open>Properties\<close>


text \<open>Rolling back an applied change of a NodePool brings back its requirements exactly, where the JSON text of the
  requirements is read back as written; a pool without requirements then has an empty list of them.\<close>
theorem node_roundtrip:
  assumes "node_api_ok us" "node_client_ok us c pools" "managed us n (pools w) = Some np" "has_metadata np"
    "nodeApply us c n ref action opts w = (Inr r, w1)" "ar_Applied r" "ar_PreviousState r \<noteq> []"
    "js_unmarshalRequirements us (js_marshalRequirements us (requirementsOf us np)) = Inr (requirementsOf us np)"
    "findNodePool us c n (ref_Namespace ref) w1 = (Inr (Some found), w1')"
    "un_SetNestedSlice us found (requirementsOf us np) requirementsPath = Inr m"
    "nodeRollback us c n ref w1 = (None, w2)"
  shows "\<exists>y. managed us n (pools w2) = Some y \<and> un_NestedSlice us y requirementsPath = Inr (Some (requirementsOf us np))"
proof -
  obtain x where x: "managed us n (pools w1) = Some x"
    "un_GetAnnotations us x AnnotationPreviousState = Some (js_marshalRequirements us (requirementsOf us np))"
    "js_marshalRequirements us (requirementsOf us np) \<noteq> []"
    using nodeApply_ok [OF assms(1-7)] assms(7) by auto
  note f = findNodePool_managed [OF assms(2,9)]
  have found: "found = x" using f(1) x(1) by simp
  obtain e w3 where p: "nc_PatchNodePool c found m w1' = (e, w3)" by fastforce
  have e: "e = None" "w2 = w3" using assms(8-11) x(2,3) found p by (simp_all add: nodeRollback_def)
  have "found \<in> set (pools w1')" using f by simp
  then obtain y where y: "pools w3 = map (\<lambda>q. if un_GetName us q = un_GetName us found then y else q) (pools w1')"
    "y ''spec'' = m ''spec''" "un_GetName us y = un_GetName us m"
    by (rule node_patch [OF assms(2) _ p [unfolded e(1)]])
  note m = node_api_requirements(1) [OF assms(1,10)]
  have "un_GetName us y = un_GetName us found" 
    using y(3) node_api_metadata(3) [where m' = m and m = found, OF assms(1)] m by simp
  then have "managed us n (pools w2) = Some y" using managed_replaced [OF f(1)] y(1) f(2) e(2) by simp
  then show ?thesis using node_api_requirements(3) [where m' = y and m = m, OF assms(1) y(2)] m by auto
qed

section \<open>A cluster with one NodePool\<close>

definition demo_reqs :: "json list" where
  "demo_reqs = [JMap [''key'' \<mapsto> JString ''kubernetes.io/arch'', ''values'' \<mapsto> JList [JString ''arm64'']],
     JMap [''key'' \<mapsto> JString instanceTypeKey, ''values'' \<mapsto> JList [JString ''m5.large'']]]"

definition stringAt :: "(string \<rightharpoonup> json) \<Rightarrow> string \<rightharpoonup> string" where
  "stringAt m k = (case m k of Some (JString s) \<Rightarrow> Some s | _ \<Rightarrow> None)"

definition metadataOf :: "obj \<Rightarrow> obj" where
  "metadataOf m = (case m ''metadata'' of Some (JMap md) \<Rightarrow> md | _ \<Rightarrow> Map.empty)"

definition annotationsOf :: "obj \<Rightarrow> string \<rightharpoonup> string" where
  "annotationsOf m = (case metadataOf m ''annotations'' of Some (JMap a) \<Rightarrow> stringAt a | _ \<Rightarrow> Map.empty)"

definition withAnnotations :: "obj \<Rightarrow> (string \<rightharpoonup> string) \<Rightarrow> obj" where
  "withAnnotations m a = m(''metadata'' \<mapsto> JMap ((metadataOf m)(''annotations'' \<mapsto> JMap (\<lambda>k. map_option JString (a k)))))"

definition nodeAccess :: node_api where
  "nodeAccess = \<lparr>un_NestedSlice = \<lambda>m. nestedAs (\<lambda>v. case v of JList xs \<Rightarrow> Some xs | _ \<Rightarrow> None) (Some m),
    un_SetNestedSlice = \<lambda>m xs p. setNested m p (JList xs), un_SetNestedMap = \<lambda>m v p. setNested m p (JMap v),
    un_GetName = \<lambda>m. case stringAt (metadataOf m) ''name'' of Some s \<Rightarrow> s | None \<Rightarrow> [], un_GetAnnotations = annotationsOf,
    un_SetAnnotations = withAnnotations, js_marshalRequirements = \<lambda>_. ''saved'', js_unmarshalRequirements = \<lambda>_. Inr demo_reqs,
    js_marshalHint = \<lambda>_. [], fm_slice = \<lambda>_. [], fm_time = \<lambda>_. []\<rparr>"

definition onePool :: "obj node_client" where
  "onePool = \<lparr>nc_List = \<lambda>g w. (Inr [w], w), nc_PatchNodePool = \<lambda>p p' w. if has_metadata p' then (None, p') else (Some ''invalid'', w),
    nc_GetNamespace = \<lambda>ns w. (Inl (NotFoundError ns), w), nc_PatchNamespace = \<lambda>x y w. (None, w), nc_now = Pair 0\<rparr>"

definition demo_pool :: obj where
  "demo_pool = [''metadata'' \<mapsto> JMap [''name'' \<mapsto> JString ''default''], ''spec'' \<mapsto> JMap [''requirements'' \<mapsto> JList demo_reqs]]"

definition demo_spot :: ScalingAction where
  "demo_spot = demo_action\<lparr>sa_SpotRatio := Fin (1/2)\<rparr>"

lemma withAnnotations_ok:
  "annotationsOf (withAnnotations m a) = a" "has_metadata (withAnnotations m a)" "withAnnotations m a ''spec'' = m ''spec''"
  "stringAt (metadataOf (withAnnotations m a)) ''name'' = stringAt (metadataOf m) ''name''"
  by (auto simp: annotationsOf_def withAnnotations_def metadataOf_def stringAt_def has_metadata_def fun_eq_iff split: option.split)

lemma setNested_pair:
  assumes "setNested m [a, b] v = Inr m'"
  obtains i where "m' = m(a \<mapsto> JMap (i(b \<mapsto> v)))" "m a = None \<and> i = Map.empty \<or> m a = Some (JMap i)"
  using assms by (auto split: option.splits json.splits)

lemma nodeAccess_slice:
  "un_NestedSlice nodeAccess m requirementsPath = (case m ''spec'' of None \<Rightarrow> Inr None | Some v \<Rightarrow>
     (case v of JMap i \<Rightarrow> (case i ''requirements'' of None \<Rightarrow> Inr None | Some x \<Rightarrow> (case x of JList xs \<Rightarrow> Inr (Some xs) | _ \<Rightarrow> Inl ''accessor error''))
      | _ \<Rightarrow> Inl ''accessor error''))"
  by (simp add: nodeAccess_def nestedAs_def requirementsPath_def split: option.split json.split)

lemma nodeAccess_set:
  "un_SetNestedSlice nodeAccess m xs requirementsPath = Inr m' \<Longrightarrow>
     un_NestedSlice nodeAccess m' requirementsPath = Inr (Some xs) \<and> m' ''metadata'' = m ''metadata''"
  "un_SetNestedMap nodeAccess m v disruptionPath = Inr m' \<Longrightarrow>
     un_NestedSlice nodeAccess m' requirementsPath = un_NestedSlice nodeAccess m requirementsPath \<and> m' ''metadata'' = m ''metadata''"
proof -
  have set: "un_SetNestedSlice nodeAccess m xs requirementsPath = setNested m [''spec'', ''requirements''] (JList xs)"
    "un_SetNestedMap nodeAccess m v disruptionPath = setNested m [''spec'', ''disruption''] (JMap v)"
    by (simp_all add: nodeAccess_def requirementsPath_def disruptionPath_def)
  show "un_SetNestedSlice nodeAccess m xs requirementsPath = Inr m' \<Longrightarrow>
     un_NestedSlice nodeAccess m' requirementsPath = Inr (Some xs) \<and> m' ''metadata'' = m ''metadata''"
    unfolding set by (erule setNested_pair) (simp add: nodeAccess_slice)
  show "un_SetNestedMap nodeAccess m v disruptionPath = Inr m' \<Longrightarrow>
     un_NestedSlice nodeAccess m' requirementsPath = un_NestedSlice nodeAccess m requirementsPath \<and> m' ''metadata'' = m ''metadata''"
    unfolding set by (erule setNested_pair) (auto simp: nodeAccess_slice)
qed

lemma nodeAccess_ok: "node_api_ok nodeAccess"
  unfolding node_api_ok_def
proof (intro conjI allI impI)
  fix m :: obj and a
  show "un_GetAnnotations nodeAccess (un_SetAnnotations nodeAccess m a) = a" "has_metadata (un_SetAnnotations nodeAccess m a)"
    "un_GetName nodeAccess (un_SetAnnotations nodeAccess m a) = un_GetName nodeAccess m"
    by (simp_all add: nodeAccess_def withAnnotations_ok)
next
  fix m m' :: obj
  show "m' ''metadata'' = m ''metadata'' \<Longrightarrow> un_GetName nodeAccess m' = un_GetName nodeAccess m"
    "m' ''metadata'' = m ''metadata'' \<Longrightarrow> un_GetAnnotations nodeAccess m' = un_GetAnnotations nodeAccess m"
    by (simp_all add: nodeAccess_def annotationsOf_def metadataOf_def)
qed (use nodeAccess_set in \<open>auto simp: nodeAccess_slice\<close>)

lemma onePool_ok: "node_client_ok nodeAccess onePool (\<lambda>w. [w])"
  by (auto simp: node_client_ok_def onePool_def)

lemma demo_pool_ok: "managed nodeAccess NewNodeActuator [demo_pool] = Some demo_pool" "has_metadata demo_pool"
  "requirementsOf nodeAccess demo_pool = demo_reqs"
  by (simp_all add: managed_def NewNodeActuator_def has_metadata_def demo_pool_def requirementsOf_def got_def nodeAccess_slice)

definition demo_patched :: obj where
  "demo_patched = (withAnnotations demo_pool [AnnotationPreviousState \<mapsto> ''saved''])
     (''spec'' \<mapsto> JMap [''requirements'' \<mapsto> JList (buildRequirements 12 (Fin (1/2)) demo_reqs), ''disruption'' \<mapsto> JMap (disruptionBudget (Fin (1/2)))])"

lemma demo_patched_ok: "has_metadata demo_patched" "un_GetAnnotations nodeAccess demo_patched AnnotationPreviousState = Some ''saved''"
  using withAnnotations_ok [of demo_pool "[AnnotationPreviousState \<mapsto> ''saved'']"]
  by (simp_all add: demo_patched_def nodeAccess_def annotationsOf_def metadataOf_def has_metadata_def)

lemma onePool_find: "findNodePool nodeAccess onePool NewNodeActuator ns w = (Inr (Some w), w)"
  by (simp add: findNodePool_def onePool_def NewNodeActuator_def)

lemma demo_pool_applied:
  obtains r where "nodeApply nodeAccess onePool NewNodeActuator demo_ref demo_spot demo_opts demo_pool = (Inr r, demo_patched)"
    "ar_Applied r" "ar_PreviousState r \<noteq> []"
proof -
  let ?np1 = "withAnnotations demo_pool [AnnotationPreviousState \<mapsto> ''saved'']" and ?new = "buildRequirements 12 (Fin (1/2)) demo_reqs"
  have np1: "un_SetAnnotations nodeAccess demo_pool ((un_GetAnnotations nodeAccess demo_pool)(AnnotationPreviousState \<mapsto> ''saved'')) = ?np1"
    by (simp add: nodeAccess_def annotationsOf_def metadataOf_def demo_pool_def)
  have "?np1 ''spec'' = Some (JMap [''requirements'' \<mapsto> JList demo_reqs])" by (simp add: withAnnotations_ok demo_pool_def)
  then have np2: "un_SetNestedSlice nodeAccess ?np1 ?new requirementsPath = Inr (?np1(''spec'' \<mapsto> JMap [''requirements'' \<mapsto> JList ?new]))"
    by (simp add: nodeAccess_def requirementsPath_def)
  have np3: "setDisruption nodeAccess (Fin (1/2)) (?np1(''spec'' \<mapsto> JMap [''requirements'' \<mapsto> JList ?new])) = demo_patched"
    by (simp add: setDisruption_def nodeAccess_def disruptionPath_def demo_patched_def zero_f64_def)
  have d: "sa_SpotRatio demo_spot = Fin (1/2)" "sa_TargetReplica demo_spot = 12" "\<not> ao_DryRun demo_opts"
    by (simp_all add: demo_spot_def demo_action_def demo_opts_def)
  have js: "js_marshalRequirements nodeAccess demo_reqs = ''saved''" by (simp add: nodeAccess_def)
  have c: "nc_PatchNodePool onePool demo_pool demo_patched demo_pool = (None, demo_patched)" "nc_now onePool demo_patched = (0, demo_patched)"
    by (simp_all add: onePool_def demo_patched_ok)
  have "?new \<noteq> []" by (simp add: buildRequirements_def)
  then have "nodeApply nodeAccess onePool NewNodeActuator demo_ref demo_spot demo_opts demo_pool =
    (Inr \<lparr>ar_Applied = True, ar_PreviousState = ''saved'', ar_Changes = [requirementsChange nodeAccess demo_pool demo_reqs (Fin (1/2)) 0], ar_Error = None\<rparr>, demo_patched)"
    by (simp add: nodeApply_def onePool_find applyNodePool_def demo_pool_ok(3) d js np1 np2 np3 Let_def c)
  then show ?thesis by (rule that) simp_all
qed


lemma node_roundtrip_witness:
  "case nodeApply nodeAccess onePool NewNodeActuator demo_ref demo_spot demo_opts demo_pool of (r, w1) \<Rightarrow>
     requirementsOf nodeAccess w1 \<noteq> demo_reqs \<and>
     un_NestedSlice nodeAccess (snd (nodeRollback nodeAccess onePool NewNodeActuator demo_ref w1)) requirementsPath = Inr (Some demo_reqs)"
proof -
  obtain r where r: "nodeApply nodeAccess onePool NewNodeActuator demo_ref demo_spot demo_opts demo_pool = (Inr r, demo_patched)"
    "ar_Applied r" "ar_PreviousState r \<noteq> []" by (rule demo_pool_applied)
  have js: "js_unmarshalRequirements nodeAccess x = Inr demo_reqs" for x by (simp add: nodeAccess_def)
  have new: "requirementsOf nodeAccess demo_patched = buildRequirements 12 (Fin (1/2)) demo_reqs"
    by (simp add: requirementsOf_def nodeAccess_slice demo_patched_def got_def)
  obtain m where m: "un_SetNestedSlice nodeAccess demo_patched demo_reqs requirementsPath = Inr m"
    by (simp add: nodeAccess_def requirementsPath_def demo_patched_def)
  have md: "has_metadata m" using demo_patched_ok(1) nodeAccess_set(1) [OF m] by (simp add: has_metadata_def)
  have b: "nodeRollback nodeAccess onePool NewNodeActuator demo_ref demo_patched = (None, m)"
    by (simp add: nodeRollback_def onePool_find demo_patched_ok js m) (simp add: onePool_def md)
  have "preservedRequirement (hd demo_reqs)" "\<not> preservedRequirement (last demo_reqs)" "length demo_reqs = 2"
    "requirementKey (the (asMap (last demo_reqs))) = instanceTypeKey"
    by (simp_all add: demo_reqs_def preservedRequirement_def asMap_def requirementKey_def instanceTypeKey_def capacityTypeKey_def)
  moreover have "last (buildRequirements 12 (Fin (1/2)) demo_reqs) = JMap (capacityRequirement (Fin (1/2)))" by (simp add: buildRequirements_def)
  ultimately have "buildRequirements 12 (Fin (1/2)) demo_reqs \<noteq> demo_reqs"
    using capacityRequirement_fields(1) by (auto simp: asMap_def instanceTypeKey_def capacityTypeKey_def)
  then show ?thesis
    using node_roundtrip [OF nodeAccess_ok onePool_ok demo_pool_ok(1,2) r _ onePool_find, unfolded demo_pool_ok(3), OF js m b] r(1) b new
    by (simp add: managed_def NewNodeActuator_def)
qed

end
