(* ===== verification/Policy_Webhook.thy ===== *)
theory Policy_Webhook
  imports Policy_Controller
begin

text \<open>
  The admission webhook of OptimizationPolicies, \<open>internal/webhook/optimizationpolicy_webhook.go\<close>. It has a policy
  engine of its own, which remembers what it compiled. The decoder of admission requests is the parameter
  \<open>decode\<close>, from the raw object to an error or a policy; \<open>field.Invalid\<close> is the error value.
\<close>

section \<open>Data\<close>

datatype AdmissionOperation = AdmissionCreate | AdmissionUpdate | AdmissionDelete | AdmissionOther string

record AdmissionRequest =
  adm_Operation :: AdmissionOperation
  adm_Object :: string
  adm_OldObject :: string

datatype webhook_error = InvalidConstraints "PolicyConstraint list" string

datatype AdmissionResponse =
    Errored nat string
  | Denied webhook_error
  | Allowed string "string list"

type_synonym 'ast OptimizationPolicyWebhook = "'ast PolicyEngine"

definition NewOptimizationPolicyWebhook :: "string + 'ast cel_env \<Rightarrow> string + 'ast OptimizationPolicyWebhook" where
  "NewOptimizationPolicyWebhook newEnv = (case NewPolicyEngine newEnv of
     Inl e \<Rightarrow> Inl (''creating policy engine for webhook: '' @ e)
   | Inr engine \<Rightarrow> Inr engine)"

section \<open>Validation\<close>

definition totalWeight :: "PolicyObjective list \<Rightarrow> f64" where
  "totalWeight objs = foldl (\<lambda>t obj. t + po_Weight obj) 0 objs"

definition weightWarning :: "OptimizationPolicySpec \<Rightarrow> string list" where
  "weightWarning spec = (if 1 < totalWeight (ops_Objectives spec)
     then [''objective weights sum to '' @ fmt_f 2 (totalWeight (ops_Objectives spec)) @
       '' (> 1.0); they will be normalised at solve time''] else [])"

definition scaleDownWarning :: "OptimizationPolicySpec \<Rightarrow> string list" where
  "scaleDownWarning spec = (case ops_ScalingBehavior spec of
     None \<Rightarrow> []
   | Some sb \<Rightarrow> (case sb_ScaleDown sb of
       None \<Rightarrow> []
     | Some sd \<Rightarrow> if 50 < sr_MaxPercent sd
         then [''scaleDown.maxPercent='' @ fmt_d (sr_MaxPercent sd) @ '' is aggressive (>50%); consider a lower value''] else []))"

definition ValidateCreate ::
  "'ast OptimizationPolicyWebhook \<Rightarrow> OptimizationPolicy \<Rightarrow> 'ast OptimizationPolicyWebhook \<times> (webhook_error + string list)"
where
  "ValidateCreate w policy = (case Compile w policy of
     (w', Some err) \<Rightarrow> (w', Inl (InvalidConstraints (ops_Constraints (op_Spec policy)) (''CEL compilation failed: '' @ cel_error_text err)))
   | (w', None) \<Rightarrow> (w', Inr (weightWarning (op_Spec policy) @ scaleDownWarning (op_Spec policy))))"

definition ValidateUpdate ::
  "'ast OptimizationPolicyWebhook \<Rightarrow> OptimizationPolicy \<Rightarrow> OptimizationPolicy \<Rightarrow> 'ast OptimizationPolicyWebhook \<times> (webhook_error + string list)"
where
  "ValidateUpdate w oldPolicy newPolicy = ValidateCreate w newPolicy"

definition ValidateDelete ::
  "'ast OptimizationPolicyWebhook \<Rightarrow> OptimizationPolicy \<Rightarrow> 'ast OptimizationPolicyWebhook \<times> (webhook_error + string list)"
where
  "ValidateDelete w policy = (w, Inr [])"

definition StatusBadRequest :: nat where "StatusBadRequest = 400"

definition respond :: "'ast OptimizationPolicyWebhook \<times> (webhook_error + string list) \<Rightarrow> 'ast OptimizationPolicyWebhook \<times> AdmissionResponse" where
  "respond r = (case r of (w, Inl e) \<Rightarrow> (w, Denied e) | (w, Inr warnings) \<Rightarrow> (w, Allowed ''validation passed'' warnings))"

definition HandleAdmission ::
  "(string \<Rightarrow> string + OptimizationPolicy) \<Rightarrow> 'ast OptimizationPolicyWebhook \<Rightarrow> AdmissionRequest \<Rightarrow>
   'ast OptimizationPolicyWebhook \<times> AdmissionResponse"
where
  "HandleAdmission decode w req = (case decode (adm_Object req) of
     Inl e \<Rightarrow> (w, Errored StatusBadRequest e)
   | Inr policy \<Rightarrow>
     (case adm_Operation req of
        AdmissionCreate \<Rightarrow> respond (ValidateCreate w policy)
      | AdmissionUpdate \<Rightarrow> (case decode (adm_OldObject req) of
          Inl e \<Rightarrow> (w, Errored StatusBadRequest e)
        | Inr oldPolicy \<Rightarrow> respond (ValidateUpdate w oldPolicy policy))
      | AdmissionDelete \<Rightarrow> respond (ValidateDelete w policy)
      | AdmissionOther _ \<Rightarrow> (w, Allowed ''validation passed'' [])))"

section \<open>Lemmas\<close>

lemma Compile_env: "Compile e p = (e', r) \<Longrightarrow> pe_env e' = pe_env e"
  by (auto simp: Compile_def split: sum.splits)

lemma Compile_succeeds_iff: "snd (Compile e p) = None \<longleftrightarrow> \<not> isl (compile_constraints (pe_env e) (ops_Constraints (op_Spec p)))"
  by (simp add: Compile_def split: sum.split)

text \<open>Whether a policy compiles depends on the environment only.\<close>

lemma Compile_same_env: "pe_env e = pe_env e' \<Longrightarrow> snd (Compile e p) = snd (Compile e' p)"
  by (simp add: Compile_def split: sum.split)

lemma HandleAdmission_allowed:
  assumes "HandleAdmission decode w req = (w', Allowed msg warnings)" "decode (adm_Object req) = Inr p"
    "adm_Operation req = AdmissionCreate \<or> adm_Operation req = AdmissionUpdate"
  shows "snd (Compile w p) = None \<and> warnings = weightWarning (op_Spec p) @ scaleDownWarning (op_Spec p)"
  using assms by (auto simp: HandleAdmission_def respond_def ValidateCreate_def ValidateUpdate_def split: sum.splits prod.splits option.splits)

text \<open>A deletion carries no object, so it is refused where empty objects do not decode.\<close>

lemma webhook_delete:
  "decode [] = Inl e \<Longrightarrow> adm_Object req = [] \<Longrightarrow> HandleAdmission decode hook req = (hook, Errored 400 e)"
  by (simp add: HandleAdmission_def StatusBadRequest_def)

section \<open>Properties\<close>

text \<open>A policy that the webhook admits on creation or update is one the controller compiles: reconciling it with an
  engine of the same CEL environment, whatever that engine has cached, sets its status to OK with the condition CELCompiled true,
  emits no warning, and leaves the compiled constraints, in number and order those of the policy, under the policy's key.\<close>
theorem admitted_compiles:
  assumes "HandleAdmission decode hook req = (hook', Allowed msg warnings)" "decode (adm_Object req) = Inr p"
    "adm_Operation req = AdmissionCreate \<or> adm_Operation req = AdmissionUpdate" "pe_env e = pe_env hook"
  shows "\<exists>e' compiled. compileStep d p (Some e) s w =
      (Some e', celCondition d p ConditionTrue ''CompilationSucceeded'' ''All constraints compiled successfully'' ''OK'' s, w) \<and>
    GetCompiled e' (PolicyKey p) = Some compiled \<and>
    map cc_Expr (cpo_Constraints compiled) = map pc_Expr (ops_Constraints (op_Spec p)) \<and>
    map cc_Hard (cpo_Constraints compiled) = map pc_Hard (ops_Constraints (op_Spec p))"
proof -
  have "snd (Compile e p) = None" using HandleAdmission_allowed [OF assms(1-3)] Compile_same_env [OF assms(4)] by simp
  then obtain e' where e': "Compile e p = (e', None)" by (metis surjective_pairing)
  then obtain cs where cs: "compile_constraints (pe_env e) (ops_Constraints (op_Spec p)) = Inr cs"
    "GetCompiled e' (PolicyKey p) = Some \<lparr>cpo_Constraints = cs, cpo_Objectives = ops_Objectives (op_Spec p),
       cpo_DryRun = ops_DryRun (op_Spec p), cpo_Priority = ops_Priority (op_Spec p)\<rparr>"
    using Compile_key by blast
  show ?thesis
    by (rule exI [of _ e'], rule exI, intro conjI, rule_tac [2] cs(2))
      (use e' compile_constraints_meta [OF cs(1)] in \<open>simp_all add: compileStep_def\<close>)
qed

definition demo_env :: "unit cel_env" where
  "demo_env = \<lparr>env_Compile = \<lambda>s. if s = ''true'' then Inr () else Inl ''syntax error'', env_OutputType = \<lambda>_. ''bool'',
    env_Program = \<lambda>_. Inr (\<lambda>_. Inr (CelBool True))\<rparr>"

definition demo_admitted :: OptimizationPolicy where
  "demo_admitted = (demo_pol ''p'' 0 None)\<lparr>op_Spec := (op_Spec (demo_pol ''p'' 0 None))
     \<lparr>ops_Constraints := [\<lparr>pc_Expr = ''true'', pc_Reason = ''always'', pc_Hard = True\<rparr>]\<rparr>\<rparr>"

lemma admitted_compiles_witness:
  "fst (snd (compileStep demo_policy_deps demo_admitted (Some \<lparr>pe_env = demo_env, pe_programs = Map.empty\<rparr>)
     \<lparr>ost_MatchedServices = 0, ost_CELCompilationStatus = [], ost_Conditions = [], ost_ObservedGeneration = 0\<rparr> ())) \<noteq>
   \<lparr>ost_MatchedServices = 0, ost_CELCompilationStatus = [], ost_Conditions = [], ost_ObservedGeneration = 0\<rparr>"
proof -
  let ?hook = "\<lparr>pe_env = demo_env, pe_programs = Map.empty\<rparr>" and ?decode = "\<lambda>s. if s = [] then Inl ''no content'' else Inr demo_admitted"
  let ?req = "\<lparr>adm_Operation = AdmissionCreate, adm_Object = ''{}'', adm_OldObject = []\<rparr>"
  have "snd (HandleAdmission ?decode ?hook ?req) = Allowed ''validation passed'' (weightWarning (op_Spec demo_admitted) @ scaleDownWarning (op_Spec demo_admitted))"
    by (simp add: HandleAdmission_def respond_def ValidateCreate_def Compile_def demo_admitted_def demo_env_def)
  then obtain h where h: "HandleAdmission ?decode ?hook ?req = (h, Allowed ''validation passed'' (weightWarning (op_Spec demo_admitted) @ scaleDownWarning (op_Spec demo_admitted)))"
    by (metis surjective_pairing)
  from admitted_compiles [OF h, of demo_admitted ?hook demo_policy_deps
      "\<lparr>ost_MatchedServices = 0, ost_CELCompilationStatus = [], ost_Conditions = [], ost_ObservedGeneration = 0\<rparr>" "()"]
  show ?thesis by (auto simp: celCondition_def)
qed

end
