(* ===== verification/Tenant_Manager.thy ===== *)
theory Tenant_Manager
  imports Go_ParseFloat
begin

text \<open>
  Tracking of tenants, \<open>internal/tenant/manager.go\<close>, with the tenant profiles of
  \<open>api/tenant/v1alpha1\<close> and the quota check of \<open>internal/tenant/quota.go\<close>. Loops over Go maps take the
  iteration order as an argument. Prometheus and the clock are functions on an outer world \<open>'w\<close>.
\<close>

section \<open>Data\<close>

record TenantBudgets =
  tb_MaxMonthlyCostUSD :: string
  tb_MaxCores :: int
  tb_MaxMemoryGiB :: int
  tb_MaxGPUs :: int

record FairSharePolicy =
  fsp_GuaranteedCoresPercent :: int
  fsp_Burstable :: bool
  fsp_MaxBurstPercent :: int

record TenantProfile =
  tp_Name :: string
  tp_Tier :: string
  tp_Weight :: int
  tp_Namespaces :: "string list"
  tp_Budgets :: "TenantBudgets option"
  tp_FairSharePolicy :: "FairSharePolicy option"

record TenantState =
  ts_Name :: string
  ts_Tier :: string
  ts_Weight :: int
  ts_Namespaces :: "string list"
  ts_CurrentCores :: f64
  ts_CurrentMemoryGiB :: f64
  ts_CurrentCostUSD :: f64
  ts_MaxCores :: int
  ts_MaxMemoryGiB :: int
  ts_MaxMonthlyCostUSD :: f64
  ts_GuaranteedCoresPercent :: int
  ts_Burstable :: bool
  ts_MaxBurstPercent :: int
  ts_FairnessScore :: f64
  ts_AllocationStatus :: string
  ts_LastRefreshed :: gotime

definition zeroTenantState :: TenantState where
  "zeroTenantState = \<lparr>ts_Name = [], ts_Tier = [], ts_Weight = 0, ts_Namespaces = [], ts_CurrentCores = 0,
     ts_CurrentMemoryGiB = 0, ts_CurrentCostUSD = 0, ts_MaxCores = 0, ts_MaxMemoryGiB = 0,
     ts_MaxMonthlyCostUSD = 0, ts_GuaranteedCoresPercent = 0, ts_Burstable = False, ts_MaxBurstPercent = 0,
     ts_FairnessScore = 0, ts_AllocationStatus = [], ts_LastRefreshed = 0\<rparr>"

record Manager =
  mg_tenants :: "string \<rightharpoonup> TenantState"
  mg_profiles :: "string \<rightharpoonup> TenantProfile"

definition NewManager :: Manager where
  "NewManager = \<lparr>mg_tenants = Map.empty, mg_profiles = Map.empty\<rparr>"

section \<open>Profiles\<close>

definition incomingProfiles :: "TenantProfile list \<Rightarrow> string \<rightharpoonup> TenantProfile" where
  "incomingProfiles profiles = foldl (\<lambda>m p. m(tp_Name p \<mapsto> p)) Map.empty profiles"

definition applyBudgets :: "TenantBudgets option \<Rightarrow> TenantState \<Rightarrow> TenantState" where
  "applyBudgets budgets s = (case budgets of
     Some b \<Rightarrow>
       (let s1 = s\<lparr>ts_MaxCores := tb_MaxCores b, ts_MaxMemoryGiB := tb_MaxMemoryGiB b\<rparr> in
        if tb_MaxMonthlyCostUSD b \<noteq> [] then
          (case ParseFloat (tb_MaxMonthlyCostUSD b) of
             Some v \<Rightarrow> s1\<lparr>ts_MaxMonthlyCostUSD := v\<rparr>
           | None \<Rightarrow> s1)
        else s1)
   | None \<Rightarrow> s\<lparr>ts_MaxCores := 0, ts_MaxMemoryGiB := 0, ts_MaxMonthlyCostUSD := 0\<rparr>)"

definition applyFairShare :: "FairSharePolicy option \<Rightarrow> TenantState \<Rightarrow> TenantState" where
  "applyFairShare policy s = (case policy of
     Some f \<Rightarrow> s\<lparr>ts_GuaranteedCoresPercent := fsp_GuaranteedCoresPercent f,
                 ts_Burstable := fsp_Burstable f, ts_MaxBurstPercent := fsp_MaxBurstPercent f\<rparr>
   | None \<Rightarrow> s\<lparr>ts_GuaranteedCoresPercent := 0, ts_Burstable := False, ts_MaxBurstPercent := 0\<rparr>)"

definition applyProfile :: "string \<Rightarrow> TenantProfile \<Rightarrow> TenantState \<Rightarrow> TenantState" where
  "applyProfile name p s =
     applyFairShare (tp_FairSharePolicy p) (applyBudgets (tp_Budgets p)
       (s\<lparr>ts_Name := name, ts_Tier := tp_Tier p, ts_Weight := tp_Weight p, ts_Namespaces := tp_Namespaces p\<rparr>))"

text \<open>\<open>removeOrder\<close> iterates over the tracked tenants, \<open>addOrder\<close> over the incoming profiles.\<close>

definition UpdateProfiles :: "string list \<Rightarrow> string list \<Rightarrow> TenantProfile list \<Rightarrow> Manager \<Rightarrow> Manager" where
  "UpdateProfiles removeOrder addOrder profiles m =
    (let incoming = incomingProfiles profiles;
         kept = foldl (\<lambda>t name. if incoming name = None then t(name := None) else t) (mg_tenants m) removeOrder;
         updated = foldl (\<lambda>t name. case incoming name of
             None \<Rightarrow> t
           | Some p \<Rightarrow> t(name \<mapsto> applyProfile name p (case t name of Some s \<Rightarrow> s | None \<Rightarrow> zeroTenantState)))
           kept addOrder in
     m\<lparr>mg_tenants := updated, mg_profiles := incoming\<rparr>)"

definition GetState :: "Manager \<Rightarrow> string \<Rightarrow> TenantState option" where
  "GetState m name = mg_tenants m name"

definition GetAllStates :: "string list \<Rightarrow> Manager \<Rightarrow> string \<rightharpoonup> TenantState" where
  "GetAllStates order m = foldl (\<lambda>out name. out(name := mg_tenants m name)) Map.empty order"

section \<open>Refresh\<close>

type_synonym 'w prom_query = "string \<Rightarrow> 'w \<Rightarrow> (string + f64) \<times> 'w"
type_synonym 'w clock = "'w \<Rightarrow> gotime \<times> 'w"

definition usageQuery :: "string \<Rightarrow> string list \<Rightarrow> string" where
  "usageQuery metric namespaces =
     ''sum('' @ metric @ ''{namespace=~'' @ [CHR 0x22] @ Join namespaces ''|'' @ [CHR 0x22] @ ''})''"

definition orZero :: "string + f64 \<Rightarrow> f64" where
  "orZero r = (case r of Inl _ \<Rightarrow> 0 | Inr v \<Rightarrow> v)"

definition queryErr :: "string \<Rightarrow> string \<Rightarrow> string + f64 \<Rightarrow> string list" where
  "queryErr what name r = (case r of Inl e \<Rightarrow> [what @ '' query for '' @ name @ '': '' @ e] | Inr _ \<Rightarrow> [])"

text \<open>The write at the end of an iteration, under the lock: a tenant that has gone in the meantime stays
  gone.\<close>

definition storeUsage :: "string \<Rightarrow> f64 \<Rightarrow> f64 \<Rightarrow> f64 \<Rightarrow> gotime \<Rightarrow> Manager \<Rightarrow> Manager" where
  "storeUsage name cores gib cost t m = (case mg_tenants m name of
     Some s \<Rightarrow> m\<lparr>mg_tenants := (mg_tenants m)(name \<mapsto> s\<lparr>ts_CurrentCores := cores, ts_CurrentMemoryGiB := gib,
                 ts_CurrentCostUSD := cost, ts_LastRefreshed := t\<rparr>)\<rparr>
   | None \<Rightarrow> m)"

definition refreshEntry ::
  "'w prom_query \<Rightarrow> 'w clock \<Rightarrow> string \<times> string list \<Rightarrow> Manager \<times> string list \<times> 'w \<Rightarrow> Manager \<times> string list \<times> 'w"
where
  "refreshEntry query now e acc = (case e of (name, namespaces) \<Rightarrow> case acc of (m, errs, w) \<Rightarrow>
     if namespaces = [] then (m, errs, w)
     else
      let (cpu, w1) = query (usageQuery ''namespace_cpu_usage_seconds_total'' namespaces) w;
          (mem, w2) = query (usageQuery ''namespace_memory_working_set_bytes'' namespaces) w1;
          (cost, w3) = query (usageQuery ''namespace_cost_per_hour'' namespaces) w2;
          (t, w4) = (if mg_tenants m name = None then (0, w3) else now w3) in
      (storeUsage name (orZero cpu) (orZero mem / lit 1073741824) (orZero cost) t m,
       errs @ queryErr ''cpu'' name cpu @ queryErr ''memory'' name mem @ queryErr ''cost'' name cost, w4))"

definition refreshEntries :: "string list \<Rightarrow> Manager \<Rightarrow> (string \<times> string list) list" where
  "refreshEntries order m =
     List.map_filter (\<lambda>name. map_option (\<lambda>s. (name, ts_Namespaces s)) (mg_tenants m name)) order"

definition Refresh :: "'w prom_query \<Rightarrow> 'w clock \<Rightarrow> string list \<Rightarrow> Manager \<Rightarrow> 'w \<Rightarrow> Manager \<times> string option \<times> 'w" where
  "Refresh query now order m w =
    (let (m', errs, w') = foldl (\<lambda>acc e. refreshEntry query now e acc) (m, [], w) (refreshEntries order m) in
     (m', if errs = [] then None else Some (''refresh errors: '' @ Join errs ''; ''), w'))"

section \<open>Quota\<close>

record ResourceDelta =
  rd_AdditionalCores :: f64
  rd_AdditionalMemoryGiB :: f64
  rd_AdditionalCostUSD :: f64

record QuotaResult =
  qr_Allowed :: bool
  qr_Reason :: string

definition denied :: "string \<Rightarrow> QuotaResult" where
  "denied reason = \<lparr>qr_Allowed = False, qr_Reason = reason\<rparr>"

definition CheckQuota :: "TenantState option \<Rightarrow> ResourceDelta \<Rightarrow> QuotaResult" where
  "CheckQuota state delta = (case state of
     None \<Rightarrow> denied ''tenant state is nil''
   | Some s \<Rightarrow>
      let cores = ts_CurrentCores s + rd_AdditionalCores delta;
          mem = ts_CurrentMemoryGiB s + rd_AdditionalMemoryGiB delta;
          cost = ts_CurrentCostUSD s + rd_AdditionalCostUSD delta in
      if 0 < ts_MaxCores s \<and> of_int64 (ts_MaxCores s) < cores then
        denied (''cores quota exceeded: projected '' @ fmt_f 1 cores @ '' > limit '' @ fmt_f 0 (of_int64 (ts_MaxCores s)) @
          '' (current '' @ fmt_f 1 (ts_CurrentCores s) @ '' + delta '' @ fmt_f 1 (rd_AdditionalCores delta) @ '')'')
      else if 0 < ts_MaxMemoryGiB s \<and> of_int64 (ts_MaxMemoryGiB s) < mem then
        denied (''memory quota exceeded: projected '' @ fmt_f 1 mem @ '' GiB > limit '' @
          fmt_f 0 (of_int64 (ts_MaxMemoryGiB s)) @ '' GiB (current '' @ fmt_f 1 (ts_CurrentMemoryGiB s) @
          '' + delta '' @ fmt_f 1 (rd_AdditionalMemoryGiB delta) @ '')'')
      else if 0 < ts_MaxMonthlyCostUSD s \<and> ts_MaxMonthlyCostUSD s < cost then
        denied (''cost quota exceeded: projected $'' @ fmt_f 2 cost @ '' > limit $'' @ fmt_f 2 (ts_MaxMonthlyCostUSD s) @
          '' (current $'' @ fmt_f 2 (ts_CurrentCostUSD s) @ '' + delta $'' @ fmt_f 2 (rd_AdditionalCostUSD delta) @ '')'')
      else \<lparr>qr_Allowed = True, qr_Reason = []\<rparr>)"

section \<open>Library\<close>

lemma tp_Name_incoming: "incomingProfiles ps n = Some p \<Longrightarrow> tp_Name p = n"
proof -
  have "\<forall>n p. incomingProfiles ps n = Some p \<longrightarrow> tp_Name p = n"
    unfolding incomingProfiles_def
    by (rule foldl_inv [where P = "\<lambda>m. \<forall>n p. m n = Some p \<longrightarrow> tp_Name p = n"]) simp_all
  then show "incomingProfiles ps n = Some p \<Longrightarrow> tp_Name p = n" by blast
qed

lemma dom_incoming: "dom (incomingProfiles ps) = tp_Name ` set ps"
proof -
  have "dom (foldl (\<lambda>m p. m(tp_Name p \<mapsto> p)) m ps) = tp_Name ` set ps \<union> dom m" for m :: "string \<rightharpoonup> TenantProfile"
    by (induction ps arbitrary: m) auto
  then show ?thesis unfolding incomingProfiles_def by simp
qed

lemma remove_loop:
  "foldl (\<lambda>t name. if inc name = None then t(name := None) else t) t ks n =
   (if n \<in> set ks \<and> inc n = None then None else t n)"
  by (induction ks arbitrary: t) auto

lemma add_loop:
  "distinct ks \<Longrightarrow> foldl (\<lambda>t name. case inc name of None \<Rightarrow> t | Some p \<Rightarrow> t(name \<mapsto> f name p (t name))) t ks n =
   (if n \<in> set ks then (case inc n of None \<Rightarrow> t n | Some p \<Rightarrow> Some (f n p (t n))) else t n)"
  by (induction ks arbitrary: t) (auto split: option.splits)

text \<open>Whatever the iteration orders, the tenants afterwards are those of the profiles.\<close>

lemma UpdateProfiles_tenants:
  assumes "key_order (mg_tenants m) r" "key_order (incomingProfiles ps) a"
  shows "mg_tenants (UpdateProfiles r a ps m) n =
    map_option (\<lambda>p. applyProfile n p (case mg_tenants m n of Some s \<Rightarrow> s | None \<Rightarrow> zeroTenantState))
      (incomingProfiles ps n)"
proof -
  have "(n \<in> set r) = (mg_tenants m n \<noteq> None)" "(n \<in> set a) = (incomingProfiles ps n \<noteq> None)" "distinct a"
    using assms by (auto simp: key_order_def)
  then show ?thesis
    by (simp add: UpdateProfiles_def Let_def remove_loop
        add_loop [where f = "\<lambda>n p q. applyProfile n p (case q of Some s \<Rightarrow> s | None \<Rightarrow> zeroTenantState)"] split: option.splits)
qed

lemma UpdateProfiles_profiles: "mg_profiles (UpdateProfiles r a ps m) = incomingProfiles ps"
  by (simp add: UpdateProfiles_def Let_def)

text \<open>A state carries the configuration of its profile.\<close>

definition configured :: "string \<Rightarrow> TenantProfile \<Rightarrow> TenantState \<Rightarrow> bool" where
  "configured n p s = (tp_Name p = n \<and> ts_Name s = n \<and> ts_Tier s = tp_Tier p \<and> ts_Weight s = tp_Weight p \<and>
     ts_Namespaces s = tp_Namespaces p \<and>
     (case tp_Budgets p of
        None \<Rightarrow> ts_MaxCores s = 0 \<and> ts_MaxMemoryGiB s = 0 \<and> ts_MaxMonthlyCostUSD s = 0
      | Some b \<Rightarrow> ts_MaxCores s = tb_MaxCores b \<and> ts_MaxMemoryGiB s = tb_MaxMemoryGiB b \<and>
          (case ParseFloat (tb_MaxMonthlyCostUSD b) of None \<Rightarrow> True
           | Some v \<Rightarrow> tb_MaxMonthlyCostUSD b = [] \<or> ts_MaxMonthlyCostUSD s = v)) \<and>
     (case tp_FairSharePolicy p of
        None \<Rightarrow> ts_GuaranteedCoresPercent s = 0 \<and> \<not> ts_Burstable s \<and> ts_MaxBurstPercent s = 0
      | Some f \<Rightarrow> ts_GuaranteedCoresPercent s = fsp_GuaranteedCoresPercent f \<and>
          ts_Burstable s = fsp_Burstable f \<and> ts_MaxBurstPercent s = fsp_MaxBurstPercent f))"

lemma configured_applyProfile: "tp_Name p = n \<Longrightarrow> configured n p (applyProfile n p s)"
  by (auto simp: configured_def applyProfile_def applyBudgets_def applyFairShare_def Let_def split: option.split)

text \<open>Usage fields are not part of the configuration.\<close>

lemma configured_usage [simp]:
  "configured n p (s\<lparr>ts_CurrentCores := c, ts_CurrentMemoryGiB := g, ts_CurrentCostUSD := k, ts_LastRefreshed := t\<rparr>)
   = configured n p s"
  by (simp add: configured_def split: option.split)

definition tracked :: "Manager \<Rightarrow> bool" where
  "tracked m = (\<forall>n. rel_option (configured n) (mg_profiles m n) (mg_tenants m n))"

lemma tracked_NewManager: "tracked NewManager"
  by (simp add: tracked_def NewManager_def)

lemma trackedD: "tracked m \<Longrightarrow> rel_option (configured n) (mg_profiles m n) (mg_tenants m n)"
  by (simp add: tracked_def)

lemma tracked_UpdateProfiles:
  assumes "key_order (mg_tenants m) r" "key_order (incomingProfiles ps) a"
  shows "tracked (UpdateProfiles r a ps m)"
proof -
  have "rel_option (configured n) (incomingProfiles ps n) (mg_tenants (UpdateProfiles r a ps m) n)" for n
    using tp_Name_incoming [of ps n] configured_applyProfile [of _ n]
    by (cases "incomingProfiles ps n") (simp_all add: UpdateProfiles_tenants [OF assms])
  then show ?thesis by (simp add: tracked_def UpdateProfiles_profiles)
qed

lemma tracked_storeUsage:
  assumes "tracked m"
  shows "tracked (storeUsage n c g k t m)"
proof -
  have "rel_option (configured n') (mg_profiles (storeUsage n c g k t m) n') (mg_tenants (storeUsage n c g k t m) n')" for n'
    using trackedD [OF assms, of n'] by (auto simp: storeUsage_def option_rel_Some2 split: option.split)
  then show ?thesis by (simp add: tracked_def)
qed

subsection \<open>Interleavings\<close>

text \<open>The reconciler replaces the profiles while the refresh loop, in another goroutine, is between two
  of its writes. Every write may come at any moment and for any name.\<close>

inductive manager_step :: "Manager \<Rightarrow> Manager \<Rightarrow> bool" where
  update: "key_order (mg_tenants m) r \<Longrightarrow> key_order (incomingProfiles ps) a \<Longrightarrow>
    manager_step m (UpdateProfiles r a ps m)"
| usage: "manager_step m (storeUsage n c g k t m)"

inductive_cases manager_stepE: "manager_step m m'"

lemma tracked_step: "manager_step m m' \<Longrightarrow> tracked m \<Longrightarrow> tracked m'"
  by (erule manager_stepE) (auto intro: tracked_UpdateProfiles tracked_storeUsage)

lemma tracked_steps: "manager_step\<^sup>*\<^sup>* m m' \<Longrightarrow> tracked m \<Longrightarrow> tracked m'"
  by (induction rule: rtranclp_induct) (auto intro: tracked_step)

lemma refreshEntry_steps: "refreshEntry q now e (m, errs, w) = (m', errs', w') \<Longrightarrow> manager_step\<^sup>*\<^sup>* m m'"
  by (auto simp: refreshEntry_def Let_def split: if_splits prod.splits intro!: r_into_rtranclp usage)

lemma refresh_loop_steps:
  "foldl (\<lambda>acc e. refreshEntry q now e acc) (m, errs, w) es = (m', errs', w') \<Longrightarrow> manager_step\<^sup>*\<^sup>* m m'"
proof (induction es arbitrary: m errs w)
  case (Cons e es)
  obtain m1 errs1 w1 where e: "refreshEntry q now e (m, errs, w) = (m1, errs1, w1)" by (metis prod_cases3)
  then have "manager_step\<^sup>*\<^sup>* m1 m'" using Cons by simp
  then show ?case using refreshEntry_steps [OF e] by (meson rtranclp_trans)
qed simp

lemma Refresh_steps: "Refresh q now order m w = (m', e, w') \<Longrightarrow> manager_step\<^sup>*\<^sup>* m m'"
  using refresh_loop_steps by (fastforce simp: Refresh_def split: prod.splits)

subsection \<open>One refresh, uninterrupted\<close>

abbreviation usage_of :: "(string \<Rightarrow> string + f64) \<Rightarrow> gotime \<Rightarrow> TenantState \<Rightarrow> TenantState" where
  "usage_of f t s \<equiv> s\<lparr>
     ts_CurrentCores := orZero (f (usageQuery ''namespace_cpu_usage_seconds_total'' (ts_Namespaces s))),
     ts_CurrentMemoryGiB := orZero (f (usageQuery ''namespace_memory_working_set_bytes'' (ts_Namespaces s))) / lit 1073741824,
     ts_CurrentCostUSD := orZero (f (usageQuery ''namespace_cost_per_hour'' (ts_Namespaces s))),
     ts_LastRefreshed := t\<rparr>"

definition queries_ok :: "(string \<Rightarrow> string + f64) \<Rightarrow> string list \<Rightarrow> bool" where
  "queries_ok f ns = (ns = [] \<or> list_all (\<lambda>metric. \<not> isl (f (usageQuery metric ns)))
     [''namespace_cpu_usage_seconds_total'', ''namespace_memory_working_set_bytes'', ''namespace_cost_per_hour''])"

lemma queryErr_Nil: "queryErr what name r = [] \<longleftrightarrow> \<not> isl r"
  by (simp add: queryErr_def isl_def split: sum.split)

lemma refreshEntry_ok:
  assumes "mg_tenants m n = Some s" "refreshEntry (\<lambda>x w. (f x, w)) now (n, ts_Namespaces s) (m, errs, w) = (m', errs', w')"
  shows "\<exists>t. mg_tenants m' = (mg_tenants m)(n \<mapsto> (if ts_Namespaces s = [] then s else usage_of f t s))"
    and "errs' = [] \<longleftrightarrow> errs = [] \<and> queries_ok f (ts_Namespaces s)"
  using assms
  by (auto simp: refreshEntry_def storeUsage_def queries_ok_def queryErr_Nil Let_def fun_upd_idem
      split: if_splits prod.splits)

lemma refresh_loop_ok:
  assumes "foldl (\<lambda>acc e. refreshEntry (\<lambda>x w. (f x, w)) now e acc) (m, errs, w) es = (m', errs', w')"
    "distinct (map fst es)" "\<And>n ns. (n, ns) \<in> set es \<Longrightarrow> \<exists>s. mg_tenants m n = Some s \<and> ts_Namespaces s = ns"
  shows "(\<forall>n. n \<notin> fst ` set es \<longrightarrow> mg_tenants m' n = mg_tenants m n) \<and>
    (\<forall>n s. n \<in> fst ` set es \<and> mg_tenants m n = Some s \<longrightarrow>
      (\<exists>t. mg_tenants m' n = Some (if ts_Namespaces s = [] then s else usage_of f t s))) \<and>
    (errs' = [] \<longleftrightarrow> errs = [] \<and> list_all (queries_ok f) (map snd es))"
  using assms
proof (induction es arbitrary: m errs w)
  case (Cons e es)
  obtain n ns where e: "e = (n, ns)" by fastforce
  obtain s where s: "mg_tenants m n = Some s" "ts_Namespaces s = ns" using Cons.prems(3) [of n ns] e by auto
  obtain m1 errs1 w1 where r: "refreshEntry (\<lambda>x w. (f x, w)) now e (m, errs, w) = (m1, errs1, w1)" by (metis prod_cases3)
  note one = refreshEntry_ok [OF s(1), of f now errs w m1 errs1 w1, simplified s(2), OF r [unfolded e]]
  then obtain t where t: "mg_tenants m1 = (mg_tenants m)(n \<mapsto> (if ns = [] then s else usage_of f t s))"
    unfolding s(2) by blast
  have fold: "foldl (\<lambda>acc e. refreshEntry (\<lambda>x w. (f x, w)) now e acc) (m1, errs1, w1) es = (m', errs', w')"
    using Cons.prems(1) r by simp
  have es: "\<exists>s. mg_tenants m1 n' = Some s \<and> ts_Namespaces s = ns'" if "(n', ns') \<in> set es" for n' ns'
  proof -
    have "n' \<noteq> n" using that Cons.prems(2) e by (auto simp: image_iff)
    then show ?thesis using Cons.prems(3) [of n' ns'] that t by simp
  qed
  have d: "distinct (map fst es)" "n \<notin> fst ` set es" using Cons.prems(2) e by auto
  note ih = Cons.IH [OF fold d(1) es]
  have n: "mg_tenants m' n = Some (if ns = [] then s else usage_of f t s)"
    using conjunct1 [OF ih] d(2) t by simp
  have "\<exists>t. mg_tenants m' n' = Some (if ts_Namespaces s' = [] then s' else usage_of f t s')"
    if a: "n' \<in> fst ` set (e # es)" "mg_tenants m n' = Some s'" for n' s'
  proof (cases "n' = n")
    case True
    then show ?thesis using n s a(2) by auto
  next
    case False
    then have "n' \<in> fst ` set es" "mg_tenants m1 n' = Some s'" using a e t by auto
    then show ?thesis using ih by blast
  qed
  moreover have "mg_tenants m' n' = mg_tenants m n'" if "n' \<notin> fst ` set (e # es)" for n'
    using that ih t e by auto
  moreover have "errs' = [] \<longleftrightarrow> errs = [] \<and> list_all (queries_ok f) (map snd (e # es))"
    using ih one(2) e by auto
  ultimately show ?case by blast
qed simp

lemma refreshEntries_set:
  "key_order (mg_tenants m) order \<Longrightarrow>
   set (refreshEntries order m) = {(n, ts_Namespaces s) | n s. mg_tenants m n = Some s}"
  by (auto simp: refreshEntries_def map_filter_def key_order_def image_iff domI) (metis domI option.sel option.simps(9))

lemma refreshEntries_fst: "key_order (mg_tenants m) order \<Longrightarrow> map fst (refreshEntries order m) = order"
proof -
  assume o: "key_order (mg_tenants m) order"
  have "map fst (List.map_filter (\<lambda>n. map_option (\<lambda>s. (n, ts_Namespaces s)) (t n)) ks) = ks"
    if "set ks \<subseteq> dom t" for ks and t :: "string \<rightharpoonup> TenantState"
    using that by (induction ks) (auto simp: map_filter_def)
  then show ?thesis using o by (auto simp: refreshEntries_def key_order_def)
qed

section \<open>Properties\<close>


definition demo_profile :: TenantProfile where
  "demo_profile = \<lparr>tp_Name = ''team-a'', tp_Tier = ''gold'', tp_Weight = 10, tp_Namespaces = [''a1'', ''a2''],
     tp_Budgets = Some \<lparr>tb_MaxMonthlyCostUSD = ''1500'', tb_MaxCores = 40, tb_MaxMemoryGiB = 0, tb_MaxGPUs = 0\<rparr>,
     tp_FairSharePolicy = None\<rparr>"

definition demo_manager :: Manager where
  "demo_manager = UpdateProfiles [] [''team-a''] [demo_profile] NewManager"

lemma demo_manager_step: "manager_step\<^sup>*\<^sup>* NewManager demo_manager"
  unfolding demo_manager_def
  by (intro r_into_rtranclp update)
    (auto simp: key_order_def NewManager_def incomingProfiles_def demo_profile_def)


text \<open>A refresh against a Prometheus that answers each query with a fixed result stores for every tracked
  tenant with namespaces the three answers (zero for a failed query, memory in GiB), leaves every other
  field and every tenant without namespaces alone, tracks no new tenant and loses none, and reports an error
  exactly when some query failed.\<close>
theorem Refresh_spec:
  assumes "key_order (mg_tenants m) order" "Refresh (\<lambda>x w. (f x, w)) now order m w = (m', err, w')"
  shows "(\<forall>n. case mg_tenants m n of
       None \<Rightarrow> mg_tenants m' n = None
     | Some s \<Rightarrow> \<exists>t. mg_tenants m' n = Some (if ts_Namespaces s = [] then s else usage_of f t s)) \<and>
    (err = None \<longleftrightarrow> (\<forall>s \<in> ran (mg_tenants m). queries_ok f (ts_Namespaces s)))"
proof -
  obtain errs where r: "foldl (\<lambda>acc e. refreshEntry (\<lambda>x w. (f x, w)) now e acc) (m, [], w) (refreshEntries order m) = (m', errs, w')"
    and err: "err = None \<longleftrightarrow> errs = []"
    using assms(2) by (auto simp: Refresh_def split: prod.splits if_splits)
  have fst: "distinct (map fst (refreshEntries order m))" "fst ` set (refreshEntries order m) = dom (mg_tenants m)"
    using assms(1) refreshEntries_fst [OF assms(1)] by (auto simp: key_order_def simp flip: set_map)
  have mem: "\<exists>s. mg_tenants m n = Some s \<and> ts_Namespaces s = ns" if "(n, ns) \<in> set (refreshEntries order m)" for n ns
    using that refreshEntries_set [OF assms(1)] by auto
  note l = refresh_loop_ok [OF r fst(1) mem]
  have "case mg_tenants m n of None \<Rightarrow> mg_tenants m' n = None
     | Some s \<Rightarrow> \<exists>t. mg_tenants m' n = Some (if ts_Namespaces s = [] then s else usage_of f t s)" for n
  proof (cases "mg_tenants m n")
    case None
    then have "n \<notin> fst ` set (refreshEntries order m)" unfolding fst(2) by auto
    then have "mg_tenants m' n = mg_tenants m n" using conjunct1 [OF l] by blast
    then show ?thesis using None by simp
  next
    case (Some s)
    then have "n \<in> fst ` set (refreshEntries order m)" unfolding fst(2) by auto
    then have "\<exists>t. mg_tenants m' n = Some (if ts_Namespaces s = [] then s else usage_of f t s)"
      using conjunct1 [OF conjunct2 [OF l]] Some by blast
    then show ?thesis unfolding Some option.case .
  qed
  moreover have "list_all (queries_ok f) (map snd (refreshEntries order m)) \<longleftrightarrow>
      (\<forall>s \<in> ran (mg_tenants m). queries_ok f (ts_Namespaces s))"
    using refreshEntries_set [OF assms(1)] by (auto simp: list_all_iff ran_def)
  ultimately show ?thesis using conjunct2 [OF conjunct2 [OF l]] err by blast
qed

definition demo_query :: "string \<Rightarrow> string + f64" where
  "demo_query q = (if take 18 q = ''sum(namespace_cost'' then Inl ''timeout'' else Inr (lit 3))"

lemma Refresh_spec_witness:
  "case Refresh (\<lambda>x w. (demo_query x, w)) (\<lambda>w. (5, w)) [''team-a''] demo_manager () of (m', err, w') \<Rightarrow>
     err \<noteq> None \<and> mg_tenants m' ''team-b'' = None"
proof -
  obtain m' err w' where r: "Refresh (\<lambda>x w. (demo_query x, w)) (\<lambda>w. (5, w)) [''team-a''] demo_manager () = (m', err, w')"
    by (metis prod_cases3)
  have o: "key_order (mg_tenants demo_manager) [''team-a'']"
    by (auto simp: key_order_def demo_manager_def UpdateProfiles_def NewManager_def incomingProfiles_def
        demo_profile_def Let_def split: if_splits)
  obtain s where s: "mg_tenants demo_manager ''team-a'' = Some s" "ts_Namespaces s = [''a1'', ''a2'']"
    by (simp add: demo_manager_def UpdateProfiles_def NewManager_def incomingProfiles_def demo_profile_def Let_def
        applyProfile_def applyBudgets_def applyFairShare_def split: option.split)
  have "\<not> queries_ok demo_query (ts_Namespaces s)"
    unfolding s(2) by (simp add: queries_ok_def demo_query_def usageQuery_def)
  moreover have "s \<in> ran (mg_tenants demo_manager)" using s(1) by (auto simp: ran_def)
  moreover have "mg_tenants demo_manager ''team-b'' = None"
    by (simp add: demo_manager_def UpdateProfiles_def NewManager_def incomingProfiles_def demo_profile_def Let_def)
  ultimately show ?thesis using Refresh_spec [OF o r] r by (auto dest!: spec [of _ "''team-b''"])
qed

text \<open>A scaling action is allowed exactly when the tenant is known and for each of cores, memory and monthly
  cost there is no limit (zero) or the projected value does not exceed it; a refusal always says why.\<close>
theorem CheckQuota_iff:
  "qr_Allowed (CheckQuota state d) = (case state of None \<Rightarrow> False | Some s \<Rightarrow>
     (ts_MaxCores s \<le> 0 \<or> \<not> of_int64 (ts_MaxCores s) < ts_CurrentCores s + rd_AdditionalCores d) \<and>
     (ts_MaxMemoryGiB s \<le> 0 \<or> \<not> of_int64 (ts_MaxMemoryGiB s) < ts_CurrentMemoryGiB s + rd_AdditionalMemoryGiB d) \<and>
     (\<not> 0 < ts_MaxMonthlyCostUSD s \<or> \<not> ts_MaxMonthlyCostUSD s < ts_CurrentCostUSD s + rd_AdditionalCostUSD d)) \<and>
   (qr_Allowed (CheckQuota state d) = (qr_Reason (CheckQuota state d) = []))"
  by (auto simp: CheckQuota_def denied_def Let_def split: option.split)

lemma CheckQuota_iff_witness:
  "qr_Allowed (CheckQuota (Some (zeroTenantState\<lparr>ts_MaxCores := 4, ts_CurrentCores := lit 3\<rparr>))
      \<lparr>rd_AdditionalCores = 1, rd_AdditionalMemoryGiB = 0, rd_AdditionalCostUSD = 0\<rparr>)"
  by (subst conjunct1 [OF CheckQuota_iff]) code_simp

end
