(* ===== verification/Noisy_Neighbor.thy ===== *)
theory Noisy_Neighbor
  imports Go_Strings
begin

text \<open>
  The noisy-neighbour detector, \<open>internal/tenant/noisy_neighbor.go\<close>. The clock reading of a call is an
  argument; the loops over the history and over the guarantees take the map's iteration order.
\<close>

section \<open>Operations\<close>

definition NoisyGrowthThreshold :: f64 where "NoisyGrowthThreshold = lit (1 / 2)"
definition NoisyDetectionWindow :: duration where "NoisyDetectionWindow = 5 * minute"

record NoisyNeighborAlert =
  na_Aggressor :: string
  na_AggressorGrowth :: f64
  na_Victims :: "string list"
  na_Timestamp :: gotime

record usageSnapshot =
  us_cores :: f64
  us_at :: gotime

record NoisyNeighborDetector =
  nd_threshold :: f64
  nd_window :: duration
  nd_history :: "string \<rightharpoonup> usageSnapshot list"
  nd_alerts :: "NoisyNeighborAlert list"
  nd_maxHist :: nat
  nd_maxAlert :: nat
  nd_noisy :: "string \<rightharpoonup> gotime"
  nd_victims :: "string \<rightharpoonup> gotime"

definition NewNoisyNeighborDetector :: NoisyNeighborDetector where
  "NewNoisyNeighborDetector = \<lparr>nd_threshold = NoisyGrowthThreshold, nd_window = NoisyDetectionWindow,
     nd_history = Map.empty, nd_alerts = [], nd_maxHist = 120, nd_maxAlert = 100,
     nd_noisy = Map.empty, nd_victims = Map.empty\<rparr>"

definition WithNoisyThreshold :: "f64 \<Rightarrow> NoisyNeighborDetector \<Rightarrow> NoisyNeighborDetector" where
  "WithNoisyThreshold t d = d\<lparr>nd_threshold := t\<rparr>"

definition WithNoisyWindow :: "duration \<Rightarrow> NoisyNeighborDetector \<Rightarrow> NoisyNeighborDetector" where
  "WithNoisyWindow w d = d\<lparr>nd_window := w\<rparr>"

definition RecordUsage :: "gotime \<Rightarrow> string \<Rightarrow> f64 \<Rightarrow> NoisyNeighborDetector \<Rightarrow> NoisyNeighborDetector" where
  "RecordUsage now name cores d =
    (let h = (case nd_history d name of Some h \<Rightarrow> h | None \<Rightarrow> []) @ [\<lparr>us_cores = cores, us_at = now\<rparr>];
         h' = (if nd_maxHist d < length h then last_n (nd_maxHist d) h else h) in
     d\<lparr>nd_history := (nd_history d)(name \<mapsto> h')\<rparr>)"

definition baselineOf :: "gotime \<Rightarrow> usageSnapshot list \<Rightarrow> f64 option" where
  "baselineOf cutoff snapshots = map_option us_cores (List.find (\<lambda>s. \<not> us_at s < cutoff) snapshots)"

text \<open>The growth of a tenant that is reported as an aggressor.\<close>

definition aggressorGrowth :: "f64 \<Rightarrow> gotime \<Rightarrow> usageSnapshot list \<Rightarrow> f64 option" where
  "aggressorGrowth threshold cutoff snapshots =
    (if length snapshots < 2 then None
     else case baselineOf cutoff snapshots of
       None \<Rightarrow> None
     | Some baseline \<Rightarrow>
         if baseline \<le> 0 then None
         else let growth = (us_cores (last snapshots) - baseline) / baseline in
           if threshold < growth then Some growth else None)"

definition isVictimOf :: "(string \<rightharpoonup> f64) \<Rightarrow> (string \<rightharpoonup> f64) \<Rightarrow> string \<Rightarrow> bool" where
  "isVictimOf guaranteedCores currentCores name = (case guaranteedCores name of
     None \<Rightarrow> False
   | Some guaranteed \<Rightarrow> \<not> guaranteed \<le> 0 \<and>
       (case currentCores name of None \<Rightarrow> False | Some current \<Rightarrow> current < guaranteed))"

definition raiseAlert ::
  "gotime \<Rightarrow> string list \<Rightarrow> NoisyNeighborDetector \<times> NoisyNeighborAlert list \<Rightarrow> string \<times> f64 \<Rightarrow>
   NoisyNeighborDetector \<times> NoisyNeighborAlert list"
where
  "raiseAlert now victimNames acc agg = (case acc of (d, alerts) \<Rightarrow> case agg of (name, growth) \<Rightarrow>
     let relevantVictims = filter (\<lambda>v. v \<noteq> name) victimNames in
     if relevantVictims = [] then (d, alerts)
     else (d\<lparr>nd_noisy := (nd_noisy d)(name \<mapsto> now),
             nd_victims := foldl (\<lambda>m v. m(v \<mapsto> now)) (nd_victims d) relevantVictims\<rparr>,
           alerts @ [\<lparr>na_Aggressor = name, na_AggressorGrowth = growth, na_Victims = relevantVictims,
             na_Timestamp = now\<rparr>]))"

definition aggressorsOf :: "gotime \<Rightarrow> string list \<Rightarrow> NoisyNeighborDetector \<Rightarrow> (string \<times> f64) list" where
  "aggressorsOf cutoff historyOrder d = List.map_filter (\<lambda>name. case nd_history d name of
     None \<Rightarrow> None
   | Some snapshots \<Rightarrow> map_option (Pair name) (aggressorGrowth (nd_threshold d) cutoff snapshots)) historyOrder"

definition Detect ::
  "gotime \<Rightarrow> string list \<Rightarrow> string list \<Rightarrow> (string \<rightharpoonup> f64) \<Rightarrow> (string \<rightharpoonup> f64) \<Rightarrow> NoisyNeighborDetector \<Rightarrow>
   NoisyNeighborDetector \<times> NoisyNeighborAlert list"
where
  "Detect now historyOrder guaranteedOrder guaranteedCores currentCores d =
    (let cutoff = time_add now (wrap64 (- nd_window d));
         aggressors = aggressorsOf cutoff historyOrder d in
     if aggressors = [] then (d, [])
     else
      let victimNames = filter (isVictimOf guaranteedCores currentCores) guaranteedOrder in
      if victimNames = [] then (d, [])
      else
       let (d', alerts) = foldl (raiseAlert now victimNames) (d, []) aggressors;
           retained = nd_alerts d' @ alerts in
       (d'\<lparr>nd_alerts := (if nd_maxAlert d' < length retained then last_n (nd_maxAlert d') retained else retained)\<rparr>,
        alerts))"

definition signalled :: "gotime \<Rightarrow> duration \<Rightarrow> (string \<rightharpoonup> gotime) \<Rightarrow> string \<Rightarrow> bool \<times> (string \<rightharpoonup> gotime)" where
  "signalled now window m name = (case m name of
     None \<Rightarrow> (False, m)
   | Some t \<Rightarrow> if wrap64 (2 * window) < time_sub now t then (False, m(name := None)) else (True, m))"

definition IsNoisy :: "gotime \<Rightarrow> string \<Rightarrow> NoisyNeighborDetector \<Rightarrow> bool \<times> NoisyNeighborDetector" where
  "IsNoisy now name d = (case signalled now (nd_window d) (nd_noisy d) name of (b, m) \<Rightarrow> (b, d\<lparr>nd_noisy := m\<rparr>))"

definition IsVictim :: "gotime \<Rightarrow> string \<Rightarrow> NoisyNeighborDetector \<Rightarrow> bool \<times> NoisyNeighborDetector" where
  "IsVictim now name d = (case signalled now (nd_window d) (nd_victims d) name of (b, m) \<Rightarrow> (b, d\<lparr>nd_victims := m\<rparr>))"

definition RecentAlerts :: "NoisyNeighborDetector \<Rightarrow> NoisyNeighborAlert list" where
  "RecentAlerts d = nd_alerts d"

section \<open>Library\<close>

text \<open>Who is an aggressor, without the loop.\<close>

definition aggressor :: "gotime \<Rightarrow> NoisyNeighborDetector \<Rightarrow> string \<Rightarrow> f64 \<Rightarrow> bool" where
  "aggressor cutoff d name growth = (case nd_history d name of
     None \<Rightarrow> False | Some h \<Rightarrow> aggressorGrowth (nd_threshold d) cutoff h = Some growth)"

lemma aggressorsOf_set:
  "key_order (nd_history d) ks \<Longrightarrow> (name, g) \<in> set (aggressorsOf cutoff ks d) \<longleftrightarrow> aggressor cutoff d name g"
  by (auto simp: aggressorsOf_def aggressor_def map_filter_def key_order_def image_iff split: option.splits)

definition alertFor :: "gotime \<Rightarrow> string list \<Rightarrow> string \<Rightarrow> f64 \<Rightarrow> NoisyNeighborAlert" where
  "alertFor now vs name growth = \<lparr>na_Aggressor = name, na_AggressorGrowth = growth,
     na_Victims = filter (\<lambda>v. v \<noteq> name) vs, na_Timestamp = now\<rparr>"

definition alertsFor :: "gotime \<Rightarrow> string list \<Rightarrow> (string \<times> f64) list \<Rightarrow> NoisyNeighborAlert list" where
  "alertsFor now vs aggs = map (\<lambda>(n, g). alertFor now vs n g) (filter (\<lambda>(n, g). \<exists>v \<in> set vs. v \<noteq> n) aggs)"

lemma alertsFor_Nil [simp]: "alertsFor now vs [] = []" "alertsFor now [] aggs = []"
  by (simp_all add: alertsFor_def)

text \<open>What a detection never touches.\<close>

abbreviation core_part ::
  "NoisyNeighborDetector \<Rightarrow> f64 \<times> duration \<times> (string \<rightharpoonup> usageSnapshot list) \<times> nat \<times> nat" where
  "core_part d \<equiv> (nd_threshold d, nd_window d, nd_history d, nd_maxHist d, nd_maxAlert d)"

lemma raise_loop:
  "foldl (raiseAlert now vs) (d, as) aggs = (d', as') \<Longrightarrow>
   as' = as @ alertsFor now vs aggs \<and> core_part d' = core_part d \<and> nd_alerts d' = nd_alerts d"
proof (induction aggs arbitrary: d as)
  case (Cons a aggs)
  obtain n g where a: "a = (n, g)" by fastforce
  obtain d1 as1 where r: "raiseAlert now vs (d, as) a = (d1, as1)" by fastforce
  then have "as1 = as @ alertsFor now vs [a]" "core_part d1 = core_part d \<and> nd_alerts d1 = nd_alerts d"
    using a by (auto simp: raiseAlert_def Let_def alertsFor_def alertFor_def filter_empty_conv split: if_splits)
  moreover have "as' = as1 @ alertsFor now vs aggs" "core_part d' = core_part d1 \<and> nd_alerts d' = nd_alerts d1"
    using Cons r by auto
  ultimately show ?case by (auto simp: alertsFor_def)
qed simp

lemma mark_loop: "foldl (\<lambda>m v. m(v \<mapsto> now)) m vs n = (if n \<in> set vs then Some now else m n)"
  by (induction vs arbitrary: m) auto

lemma raise_noisy:
  "nd_noisy (fst (foldl (raiseAlert now vs) (d, as) aggs)) n =
   (if (\<exists>g. (n, g) \<in> set aggs) \<and> (\<exists>v \<in> set vs. v \<noteq> n) then Some now else nd_noisy d n)"
proof (induction aggs arbitrary: d as)
  case (Cons a aggs)
  obtain d1 as1 where r: "raiseAlert now vs (d, as) a = (d1, as1)" by fastforce
  then have "nd_noisy d1 n = (if n = fst a \<and> (\<exists>v \<in> set vs. v \<noteq> n) then Some now else nd_noisy d n)"
    by (cases a) (auto simp: raiseAlert_def Let_def filter_empty_conv split: if_splits)
  then show ?case using Cons r by (cases a) auto
qed simp

lemma raise_victims:
  "nd_victims (fst (foldl (raiseAlert now vs) (d, as) aggs)) v =
   (if v \<in> set vs \<and> (\<exists>n g. (n, g) \<in> set aggs \<and> n \<noteq> v) then Some now else nd_victims d v)"
proof (induction aggs arbitrary: d as)
  case (Cons a aggs)
  obtain d1 as1 where r: "raiseAlert now vs (d, as) a = (d1, as1)" by fastforce
  then have "nd_victims d1 v = (if v \<in> set vs \<and> fst a \<noteq> v then Some now else nd_victims d v)"
    by (cases a) (auto simp: raiseAlert_def Let_def filter_empty_conv mark_loop split: if_splits)
  then show ?case using Cons r by (cases a) auto
qed simp

abbreviation cutoffOf :: "gotime \<Rightarrow> NoisyNeighborDetector \<Rightarrow> gotime" where
  "cutoffOf now d \<equiv> time_add now (wrap64 (- nd_window d))"

abbreviation victimsOf :: "(string \<rightharpoonup> f64) \<Rightarrow> (string \<rightharpoonup> f64) \<Rightarrow> string list \<Rightarrow> string list" where
  "victimsOf g c ks \<equiv> filter (isVictimOf g c) ks"

lemma Detect_result:
  assumes "Detect now hs gs g c d = (d', alerts)"
  defines "aggs \<equiv> aggressorsOf (cutoffOf now d) hs d" and "vs \<equiv> victimsOf g c gs"
  shows "alerts = alertsFor now vs aggs" "core_part d' = core_part d"
    "nd_noisy d' = (if aggs = [] \<or> vs = [] then nd_noisy d else nd_noisy (fst (foldl (raiseAlert now vs) (d, []) aggs)))"
    "nd_victims d' = (if aggs = [] \<or> vs = [] then nd_victims d else nd_victims (fst (foldl (raiseAlert now vs) (d, []) aggs)))"
    "nd_alerts d' = (if aggs = [] \<or> vs = [] \<or> length (nd_alerts d @ alerts) \<le> nd_maxAlert d then nd_alerts d @ alerts
       else last_n (nd_maxAlert d) (nd_alerts d @ alerts))"
proof -
  obtain d1 as1 where f: "foldl (raiseAlert now vs) (d, []) aggs = (d1, as1)" by fastforce
  note l = raise_loop [OF f]
  have D: "(d', alerts) = (if aggs = [] \<or> vs = [] then (d, [])
      else (d1\<lparr>nd_alerts := (if nd_maxAlert d1 < length (nd_alerts d1 @ as1)
        then last_n (nd_maxAlert d1) (nd_alerts d1 @ as1) else nd_alerts d1 @ as1)\<rparr>, as1))"
    using assms(1) f unfolding Detect_def Let_def aggs_def vs_def by (auto split: if_splits)
  have Nil: "alertsFor now vs aggs = []" if "aggs = [] \<or> vs = []" using that by auto
  show "alerts = alertsFor now vs aggs" "core_part d' = core_part d"
    using D l Nil by (auto split: if_splits)
  show "nd_noisy d' = (if aggs = [] \<or> vs = [] then nd_noisy d else nd_noisy (fst (foldl (raiseAlert now vs) (d, []) aggs)))"
    "nd_victims d' = (if aggs = [] \<or> vs = [] then nd_victims d else nd_victims (fst (foldl (raiseAlert now vs) (d, []) aggs)))"
    unfolding f using D by (auto split: if_splits)
  show "nd_alerts d' = (if aggs = [] \<or> vs = [] \<or> length (nd_alerts d @ alerts) \<le> nd_maxAlert d then nd_alerts d @ alerts
       else last_n (nd_maxAlert d) (nd_alerts d @ alerts))"
    using D l by (auto split: if_splits)
qed

subsection \<open>Runs\<close>

text \<open>Any sequence of calls, with a clock that does not go back.\<close>

inductive detector_run :: "gotime \<Rightarrow> NoisyNeighborDetector \<Rightarrow> bool" where
  init: "detector_run t (WithNoisyThreshold th (WithNoisyWindow w NewNoisyNeighborDetector))"
| rec_usage: "detector_run t d \<Longrightarrow> t \<le> now \<Longrightarrow> detector_run now (RecordUsage now name cores d)"
| detect: "detector_run t d \<Longrightarrow> t \<le> now \<Longrightarrow> Detect now hs gs g c d = (d', alerts) \<Longrightarrow> detector_run now d'"
| is_noisy: "detector_run t d \<Longrightarrow> t \<le> now \<Longrightarrow> IsNoisy now name d = (b, d') \<Longrightarrow> detector_run now d'"
| is_victim: "detector_run t d \<Longrightarrow> t \<le> now \<Longrightarrow> IsVictim now name d = (b, d') \<Longrightarrow> detector_run now d'"

definition history_ok :: "gotime \<Rightarrow> usageSnapshot list \<Rightarrow> bool" where
  "history_ok t h = (length h \<le> 120 \<and> sorted (map us_at h) \<and> (\<forall>s \<in> set h. us_at s \<le> t))"

definition detector_ok :: "gotime \<Rightarrow> NoisyNeighborDetector \<Rightarrow> bool" where
  "detector_ok t d = (nd_maxHist d = 120 \<and> nd_maxAlert d = 100 \<and> length (nd_alerts d) \<le> 100 \<and>
     sorted (map na_Timestamp (nd_alerts d)) \<and> (\<forall>a \<in> set (nd_alerts d). na_Timestamp a \<le> t) \<and>
     (\<forall>n. case nd_history d n of None \<Rightarrow> True | Some h \<Rightarrow> history_ok t h))"

lemma history_ok_snoc:
  assumes "history_ok t h" "t \<le> now"
  shows "history_ok now (let h' = h @ [\<lparr>us_cores = c, us_at = now\<rparr>] in if 120 < length h' then last_n 120 h' else h')"
  using assms by (fastforce simp: history_ok_def Let_def last_n_def drop_map sorted_append
      simp flip: drop_map intro!: sorted_wrt_drop dest: in_set_dropD)

lemma history_ok_mono: "history_ok t h \<Longrightarrow> t \<le> t' \<Longrightarrow> history_ok t' h"
  by (fastforce simp: history_ok_def)

lemma RecordUsage_ok:
  assumes "detector_ok t d" "t \<le> now"
  shows "detector_ok now (RecordUsage now name cores d)"
proof -
  define h where "h = (case nd_history d name of Some h \<Rightarrow> h | None \<Rightarrow> [])"
  have "history_ok t h" using assms(1) by (auto simp: h_def detector_ok_def history_ok_def split: option.splits)
  note new = history_ok_snoc [OF this assms(2), of cores]
  have "case nd_history (RecordUsage now name cores d) n of None \<Rightarrow> True | Some h \<Rightarrow> history_ok now h" for n
    using assms new history_ok_mono [OF _ assms(2)]
    by (cases "n = name") (auto simp: RecordUsage_def detector_ok_def Let_def simp flip: h_def split: option.splits)
  moreover have "na_Timestamp a \<le> now" if "a \<in> set (nd_alerts d)" for a
    using that assms by (fastforce simp: detector_ok_def)
  moreover have "nd_alerts (RecordUsage now name cores d) = nd_alerts d"
    "nd_maxHist (RecordUsage now name cores d) = nd_maxHist d" "nd_maxAlert (RecordUsage now name cores d) = nd_maxAlert d"
    by (simp_all add: RecordUsage_def Let_def)
  ultimately show ?thesis using assms(1) by (simp add: detector_ok_def)
qed

lemma sorted_last_n: "sorted xs \<Longrightarrow> sorted (last_n n xs)"
  by (simp add: last_n_def sorted_wrt_drop)

lemma map_last_n: "map f (last_n n xs) = last_n n (map f xs)"
  by (simp add: last_n_def drop_map)

lemma Detect_ok:
  assumes "detector_ok t d" "t \<le> now" "Detect now hs gs g c d = (d', alerts)"
  shows "detector_ok now d'"
proof -
  note r = Detect_result [OF assms(3)]
  have al: "na_Timestamp a = now" if "a \<in> set alerts" for a
    using that unfolding r(1) by (auto simp: alertsFor_def alertFor_def)
  then have m: "map na_Timestamp alerts = replicate (length alerts) now" by (simp add: map_replicate_const map_idI cong: map_cong)
  have "sorted (map na_Timestamp (nd_alerts d @ alerts))"
    using assms(1,2) m by (fastforce simp: detector_ok_def sorted_append)
  moreover have "na_Timestamp a \<le> now" if "a \<in> set (nd_alerts d @ alerts)" for a
    using that al assms(1,2) by (fastforce simp: detector_ok_def)
  moreover have "length (nd_alerts d') \<le> 100" using assms(1) r(1,5) by (auto simp: detector_ok_def)
  moreover have "sorted (map na_Timestamp (nd_alerts d'))" "set (nd_alerts d') \<subseteq> set (nd_alerts d @ alerts)"
    using calculation(1) r(5) set_last_n [of _ "nd_alerts d @ alerts"]
    by (auto simp: map_last_n sorted_last_n split: if_splits simp del: map_append)
  ultimately show ?thesis using assms(1,2) r(2) history_ok_mono [OF _ assms(2)]
    unfolding detector_ok_def by (auto split: option.splits)
qed

lemma detector_run_ok: "detector_run t d \<Longrightarrow> detector_ok t d"
proof (induction rule: detector_run.induct)
  case (init t th w)
  show ?case by (simp add: detector_ok_def NewNoisyNeighborDetector_def WithNoisyThreshold_def WithNoisyWindow_def)
next
  case (rec_usage t d now name cores)
  then show ?case by (auto intro: RecordUsage_ok)
next
  case (detect t d now hs gs g c d' alerts)
  then show ?case by (auto intro: Detect_ok)
next
  case (is_noisy t d now name b d')
  then show ?case using history_ok_mono
    by (fastforce simp: IsNoisy_def signalled_def detector_ok_def split: option.splits if_splits prod.splits)
next
  case (is_victim t d now name b d')
  then show ?case using history_ok_mono
    by (fastforce simp: IsVictim_def signalled_def detector_ok_def split: option.splits if_splits prod.splits)
qed

subsection \<open>Signals\<close>

lemma Detect_signals:
  assumes "key_order (nd_history d) hs" "Detect now hs gs g c d = (d', alerts)" "a \<in> set alerts"
  shows "nd_noisy d' (na_Aggressor a) = Some now" "v \<in> set (na_Victims a) \<Longrightarrow> nd_victims d' v = Some now"
proof -
  note r = Detect_result [OF assms(2)]
  obtain n gr where n: "(n, gr) \<in> set (aggressorsOf (cutoffOf now d) hs d)" "\<exists>v \<in> set (victimsOf g c gs). v \<noteq> n"
    "a = alertFor now (victimsOf g c gs) n gr"
    using assms(3) unfolding r(1) by (auto simp: alertsFor_def)
  then have ne: "aggressorsOf (cutoffOf now d) hs d \<noteq> []" "victimsOf g c gs \<noteq> []" by (auto simp del: set_filter)
  then show "nd_noisy d' (na_Aggressor a) = Some now"
    using n r(3) raise_noisy [of now "victimsOf g c gs" d "[]"] by (auto simp: alertFor_def)
  show "nd_victims d' v = Some now" if "v \<in> set (na_Victims a)"
  proof -
    have "v \<in> set (victimsOf g c gs)" "v \<noteq> n" using that n(3) by (auto simp: alertFor_def)
    then have "v \<in> set (victimsOf g c gs) \<and> (\<exists>n gr. (n, gr) \<in> set (aggressorsOf (cutoffOf now d) hs d) \<and> n \<noteq> v)"
      using n(1) by blast
    then show ?thesis using ne r(4) raise_victims [of now "victimsOf g c gs" d "[]"] by auto
  qed
qed

lemma signalled_iff:
  assumes "m name = Some t" "0 \<le> w" "2 * w < 9223372036854775807"
  shows "fst (signalled now w m name) \<longleftrightarrow> now - t \<le> 2 * w"
proof -
  have "in64 (2 * w)" using assms(2,3) by (simp add: in64_def)
  then show ?thesis using assms(1,3) satur64_le_iff [of "2 * w" "now - t"]
    by (auto simp: signalled_def time_sub_def wrap_simps)
qed

lemma find_sorted:
  assumes "sorted (map us_at h)" "List.find (\<lambda>s. \<not> us_at s < cutoff) h = Some s"
  shows "s \<in> set h \<and> cutoff \<le> us_at s \<and> (\<forall>s' \<in> set h. cutoff \<le> us_at s' \<longrightarrow> us_at s \<le> us_at s')"
  using assms by (induction h) (auto split: if_splits)

section \<open>Properties\<close>

text \<open>In every sequence of calls with a clock that does not go back, each tenant keeps at most 120
  snapshots in time order, at most 100 alerts are retained, also in time order, and nothing is dated in the
  future.\<close>
theorem detector_bounded:
  assumes "detector_run t d"
  shows "detector_ok t d"
  using assms by (rule detector_run_ok)

definition demo_detector :: NoisyNeighborDetector where
  "demo_detector = RecordUsage (2 * minute) ''noisy'' (lit 8) (RecordUsage minute ''noisy'' (lit 4)
     (WithNoisyThreshold NoisyGrowthThreshold (WithNoisyWindow NoisyDetectionWindow NewNoisyNeighborDetector)))"

lemma demo_detector_run: "detector_run (2 * minute) demo_detector"
  unfolding demo_detector_def
  by (rule rec_usage, rule rec_usage, rule init [of minute]) simp_all

lemma detector_bounded_witness: "detector_ok (2 * minute) demo_detector"
  by (rule detector_bounded [OF demo_detector_run])



end
