(* ===== verification/Tenant_Api.thy ===== *)
theory Tenant_Api
  imports Tenant_Manager Fairness Noisy_Neighbor
begin

text \<open>
  What the cluster and its users see of the tenants: the reconciler of TenantProfiles,
  \<open>internal/controller/tenantprofile_controller.go\<close>, which hands all profiles to the manager, and the REST handlers of
  \<open>internal/api/tenant_api.go\<close>. A handler gives the status and either the value it encodes or the error text;
  \<open>encoding/json\<close> refuses numbers that are not finite. The Kubernetes client, Prometheus, the clock and the text of
  a time are functions on a world \<open>'w\<close>; iteration orders of Go maps are arguments.
\<close>

section \<open>The reconciler\<close>

text \<open>Listing all profiles, and reading the one of the request, which fails with whether it was not found.\<close>

record 'w profile_client =
  pf_List :: "'w \<Rightarrow> (string + TenantProfile list) \<times> 'w"
  pf_Get :: "string \<Rightarrow> 'w \<Rightarrow> (bool \<times> string + TenantProfile) \<times> 'w"

definition ReconcileTenant ::
  "'w profile_client \<Rightarrow> string \<Rightarrow> string list \<Rightarrow> string list \<Rightarrow> Manager option \<Rightarrow> 'w \<Rightarrow> (string option \<times> Manager option) \<times> 'w"
where
  "ReconcileTenant c name removeOrder addOrder manager w = (case manager of
     Some m \<Rightarrow> (case pf_List c w of
         (Inl e, w1) \<Rightarrow> ((Some e, Some m), w1)
       | (Inr profiles, w1) \<Rightarrow> ((None, Some (UpdateProfiles removeOrder addOrder profiles m)), w1))
   | None \<Rightarrow> (case pf_Get c name w of
         (Inl (notFound, e), w1) \<Rightarrow> ((if notFound then None else Some e, None), w1)
       | (Inr tp, w1) \<Rightarrow> ((None, None), w1)))"

section \<open>Responses\<close>

datatype 'a http_response = HttpOK 'a | HttpError nat string

record tenantSummaryResponse =
  tr_Name :: string
  tr_Tier :: string
  tr_Weight :: int
  tr_CurrentCores :: f64
  tr_CurrentMemoryGiB :: f64
  tr_CurrentCostUSD :: f64
  tr_MaxCores :: int
  tr_MaxMemoryGiB :: int
  tr_AllocationStatus :: string
  tr_FairnessScore :: f64
  tr_IsNoisy :: bool
  tr_IsVictim :: bool

record tenantDetailResponse = tenantSummaryResponse +
  td_Namespaces :: "string list"
  td_GuaranteedCoresPercent :: int
  td_Burstable :: bool
  td_MaxBurstPercent :: int
  td_MaxMonthlyCostUSD :: f64
  td_LastRefreshed :: string

record usagePoint =
  up_Timestamp :: gotime
  up_Cores :: f64
  up_MemoryGiB :: f64

record usageResponse =
  ur_TenantName :: string
  ur_MaxCores :: int
  ur_History :: "usagePoint list"

record fairnessResponse =
  fr_Timestamp :: gotime
  fr_GlobalIndex :: f64
  fr_PerTenant :: "string \<rightharpoonup> f64"

record impactResponse =
  ir_Service :: string
  ir_TenantName :: string
  ir_DeltaCores :: f64
  ir_CurrentIndex :: f64
  ir_ProjectedIndex :: f64
  ir_IndexDelta :: f64
  ir_AffectedTenants :: "string list"
  ir_CurrentPerTenant :: "string \<rightharpoonup> f64"
  ir_ProjectedPerTenant :: "string \<rightharpoonup> f64"

definition StatusServiceUnavailable :: nat where "StatusServiceUnavailable = 503"
definition StatusNotFound :: nat where "StatusNotFound = 404"
definition StatusBadRequest :: nat where "StatusBadRequest = 400"
definition StatusInternalServerError :: nat where "StatusInternalServerError = 500"

definition finite_number :: "f64 \<Rightarrow> bool" where
  "finite_number x = (case x of Fin _ \<Rightarrow> True | _ \<Rightarrow> False)"

text \<open>\<open>writeJSON\<close> of a value with the numbers \<open>numbers\<close>.\<close>

definition writeJSON :: "f64 list \<Rightarrow> 'a \<Rightarrow> 'a http_response" where
  "writeJSON numbers v = (if list_all finite_number numbers then HttpOK v
     else HttpError StatusInternalServerError ''encoding error'')"

definition summaryNumbers :: "'a tenantSummaryResponse_scheme \<Rightarrow> f64 list" where
  "summaryNumbers s = [tr_CurrentCores s, tr_CurrentMemoryGiB s, tr_CurrentCostUSD s, tr_FairnessScore s]"

definition stateToSummary :: "TenantState \<Rightarrow> bool \<Rightarrow> bool \<Rightarrow> tenantSummaryResponse" where
  "stateToSummary s noisy victim = \<lparr>tr_Name = ts_Name s, tr_Tier = ts_Tier s, tr_Weight = ts_Weight s,
     tr_CurrentCores = ts_CurrentCores s, tr_CurrentMemoryGiB = ts_CurrentMemoryGiB s, tr_CurrentCostUSD = ts_CurrentCostUSD s,
     tr_MaxCores = ts_MaxCores s, tr_MaxMemoryGiB = ts_MaxMemoryGiB s, tr_AllocationStatus = ts_AllocationStatus s,
     tr_FairnessScore = ts_FairnessScore s, tr_IsNoisy = noisy, tr_IsVictim = victim\<rparr>"

section \<open>Handlers\<close>

record 'w TenantAPIHandler =
  ta_manager :: "Manager option"
  ta_prom :: "(string \<Rightarrow> gotime \<Rightarrow> gotime \<Rightarrow> duration \<Rightarrow> 'w \<Rightarrow> (string + (gotime \<times> f64) list) \<times> 'w) option"
  ta_detector :: "NoisyNeighborDetector option"

definition NewTenantAPIHandler where
  "NewTenantAPIHandler manager prom detector = \<lparr>ta_manager = manager, ta_prom = prom, ta_detector = detector\<rparr>"

definition isNoisy :: "'w clock \<Rightarrow> 'w TenantAPIHandler \<Rightarrow> string \<Rightarrow> 'w \<Rightarrow> bool \<times> 'w TenantAPIHandler \<times> 'w" where
  "isNoisy clock h name w = (case ta_detector h of
     None \<Rightarrow> (False, h, w)
   | Some d \<Rightarrow> (case clock w of (t, w1) \<Rightarrow> (case IsNoisy t name d of (b, d') \<Rightarrow> (b, h\<lparr>ta_detector := Some d'\<rparr>, w1))))"

definition isVictim :: "'w clock \<Rightarrow> 'w TenantAPIHandler \<Rightarrow> string \<Rightarrow> 'w \<Rightarrow> bool \<times> 'w TenantAPIHandler \<times> 'w" where
  "isVictim clock h name w = (case ta_detector h of
     None \<Rightarrow> (False, h, w)
   | Some d \<Rightarrow> (case clock w of (t, w1) \<Rightarrow> (case IsVictim t name d of (b, d') \<Rightarrow> (b, h\<lparr>ta_detector := Some d'\<rparr>, w1))))"

definition summarise :: "'w clock \<Rightarrow> TenantState \<Rightarrow> string \<Rightarrow> 'w TenantAPIHandler \<Rightarrow> 'w \<Rightarrow> tenantSummaryResponse \<times> 'w TenantAPIHandler \<times> 'w" where
  "summarise clock s name h w = (case isNoisy clock h name w of (noisy, h1, w1) \<Rightarrow>
     (case isVictim clock h1 name w1 of (victim, h2, w2) \<Rightarrow> (stateToSummary s noisy victim, h2, w2)))"

text \<open>\<open>order\<close> is the iteration over the manager's tenants, \<open>order'\<close> the one over the copy.\<close>

fun summariseAll where
  "summariseAll clock all [] h w = ([], h, w)"
| "summariseAll clock all (n # ns) h w = (case all n of
     None \<Rightarrow> summariseAll clock all ns h w
   | Some s \<Rightarrow> (case summarise clock s (ts_Name s) h w of (x, h1, w1) \<Rightarrow>
       (case summariseAll clock all ns h1 w1 of (xs, h2, w2) \<Rightarrow> (x # xs, h2, w2))))"

definition handleListTenants ::
  "'w clock \<Rightarrow> string list \<Rightarrow> string list \<Rightarrow> 'w TenantAPIHandler \<Rightarrow> 'w \<Rightarrow> tenantSummaryResponse list http_response \<times> 'w TenantAPIHandler \<times> 'w"
where
  "handleListTenants clock order order' h w = (case ta_manager h of
     None \<Rightarrow> (writeJSON [] [], h, w)
   | Some m \<Rightarrow> (case summariseAll clock (GetAllStates order m) order' h w of
       (result, h', w') \<Rightarrow> (writeJSON (concat (map summaryNumbers result)) result, h', w')))"

definition tenantDetail :: "(gotime \<Rightarrow> string) \<Rightarrow> TenantState \<Rightarrow> tenantSummaryResponse \<Rightarrow> tenantDetailResponse" where
  "tenantDetail timeText s summary = tenantSummaryResponse.extend summary
     \<lparr>td_Namespaces = ts_Namespaces s, td_GuaranteedCoresPercent = ts_GuaranteedCoresPercent s, td_Burstable = ts_Burstable s,
      td_MaxBurstPercent = ts_MaxBurstPercent s, td_MaxMonthlyCostUSD = ts_MaxMonthlyCostUSD s,
      td_LastRefreshed = (if ts_LastRefreshed s = 0 then [] else timeText (ts_LastRefreshed s))\<rparr>"

definition handleGetTenant ::
  "'w clock \<Rightarrow> (gotime \<Rightarrow> string) \<Rightarrow> string \<Rightarrow> 'w TenantAPIHandler \<Rightarrow> 'w \<Rightarrow> tenantDetailResponse http_response \<times> 'w TenantAPIHandler \<times> 'w"
where
  "handleGetTenant clock timeText name h w = (case ta_manager h of
     None \<Rightarrow> (HttpError StatusServiceUnavailable ''tenant manager not configured'', h, w)
   | Some m \<Rightarrow> (case GetState m name of
       None \<Rightarrow> (HttpError StatusNotFound ''tenant not found'', h, w)
     | Some s \<Rightarrow> (case summarise clock s name h w of (summary, h1, w1) \<Rightarrow>
         (let detail = tenantDetail timeText s summary in
          (writeJSON (summaryNumbers detail @ [td_MaxMonthlyCostUSD detail]) detail, h1, w1)))))"

definition usageHistory :: "(gotime \<times> f64) list \<Rightarrow> (gotime \<times> f64) list \<Rightarrow> usagePoint list" where
  "usageHistory cpuPoints memPoints =
    (let memByTime = foldl (\<lambda>m (t, v). m(t \<mapsto> v)) Map.empty memPoints in
     map (\<lambda>(t, v). \<lparr>up_Timestamp = t, up_Cores = v,
       up_MemoryGiB = (case memByTime t of Some x \<Rightarrow> x | None \<Rightarrow> 0) / Fin (1024 * 1024 * 1024)\<rparr>) cpuPoints)"

definition currentUsage :: "TenantState \<Rightarrow> usagePoint list" where
  "currentUsage s = [\<lparr>up_Timestamp = ts_LastRefreshed s, up_Cores = ts_CurrentCores s, up_MemoryGiB = ts_CurrentMemoryGiB s\<rparr>]"

definition queryUsage ::
  "'w clock \<Rightarrow> 'w TenantAPIHandler \<Rightarrow> TenantState \<Rightarrow> 'w \<Rightarrow> usagePoint list \<times> 'w"
where
  "queryUsage clock h s w = (case ta_prom h of
     None \<Rightarrow> (currentUsage s, w)
   | Some prom \<Rightarrow>
     if ts_Namespaces s = [] then (currentUsage s, w)
     else (case clock w of (finish, w1) \<Rightarrow>
       (let start = time_add finish (- (60 * minute)); step = 5 * minute in
        case prom (usageQuery ''namespace_cpu_usage_seconds_total'' (ts_Namespaces s)) start finish step w1 of (cpu, w2) \<Rightarrow>
        (case prom (usageQuery ''namespace_memory_working_set_bytes'' (ts_Namespaces s)) start finish step w2 of (mem, w3) \<Rightarrow>
          (case (cpu, mem) of
             (Inr cpuPoints, Inr memPoints) \<Rightarrow> (if cpuPoints \<noteq> [] then usageHistory cpuPoints memPoints else currentUsage s, w3)
           | _ \<Rightarrow> (currentUsage s, w3))))))"

definition handleTenantUsage ::
  "'w clock \<Rightarrow> string \<Rightarrow> 'w TenantAPIHandler \<Rightarrow> 'w \<Rightarrow> usageResponse http_response \<times> 'w"
where
  "handleTenantUsage clock name h w = (case ta_manager h of
     None \<Rightarrow> (HttpError StatusServiceUnavailable ''tenant manager not configured'', w)
   | Some m \<Rightarrow> (case GetState m name of
       None \<Rightarrow> (HttpError StatusNotFound ''tenant not found'', w)
     | Some s \<Rightarrow> (case queryUsage clock h s w of (history, w1) \<Rightarrow>
         (writeJSON (concat (map (\<lambda>p. [up_Cores p, up_MemoryGiB p]) history))
            \<lparr>ur_TenantName = name, ur_MaxCores = ts_MaxCores s, ur_History = history\<rparr>, w1))))"

definition fairnessInputs :: "(string \<rightharpoonup> TenantState) \<Rightarrow> string list \<Rightarrow> FairnessInput list" where
  "fairnessInputs all order = List.map_filter (\<lambda>n. map_option (\<lambda>s. \<lparr>fi_Name = ts_Name s, fi_CurrentCores = ts_CurrentCores s,
     fi_GuaranteedCores = of_int64 (ts_GuaranteedCoresPercent s)\<rparr>) (all n)) order"

text \<open>The index and scores of a result that may be nil.\<close>

definition indexOf :: "FairnessResult option \<Rightarrow> f64" where
  "indexOf r = (case r of None \<Rightarrow> 0 | Some x \<Rightarrow> fres_GlobalIndex x)"

definition scoresOf :: "FairnessResult option \<Rightarrow> string \<rightharpoonup> f64" where
  "scoresOf r = (case r of None \<Rightarrow> Map.empty | Some x \<Rightarrow> fres_PerTenant x)"

definition mapNumbers :: "string list \<Rightarrow> (string \<rightharpoonup> f64) \<Rightarrow> f64 list" where
  "mapNumbers names m = List.map_filter m names"

definition handleFairness ::
  "'w clock \<Rightarrow> string list \<Rightarrow> string list \<Rightarrow> 'w TenantAPIHandler \<Rightarrow> 'w \<Rightarrow> fairnessResponse http_response \<times> 'w"
where
  "handleFairness clock order order' h w = (case clock w of (t, w1) \<Rightarrow> (case ta_manager h of
     None \<Rightarrow> (writeJSON [0] \<lparr>fr_Timestamp = t, fr_GlobalIndex = 0, fr_PerTenant = Map.empty\<rparr>, w1)
   | Some m \<Rightarrow>
     (let inputs = fairnessInputs (GetAllStates order m) order'; result = ComputeFairness inputs in
      (writeJSON (indexOf result # mapNumbers (map fi_Name inputs) (scoresOf result))
         \<lparr>fr_Timestamp = t, fr_GlobalIndex = indexOf result, fr_PerTenant = scoresOf result\<rparr>, w1))))"

text \<open>The first input of the tenant gets the additional cores.\<close>

fun projectInputs :: "string \<Rightarrow> f64 \<Rightarrow> FairnessInput list \<Rightarrow> FairnessInput list" where
  "projectInputs name delta [] = []"
| "projectInputs name delta (i # is) = (if fi_Name i = name then i\<lparr>fi_CurrentCores := fi_CurrentCores i + delta\<rparr> # is
     else i # projectInputs name delta is)"

definition affectedTenants :: "string \<Rightarrow> (string \<rightharpoonup> f64) \<Rightarrow> (string \<rightharpoonup> f64) \<Rightarrow> string list \<Rightarrow> string list" where
  "affectedTenants tenantName current projected order = filter (\<lambda>n.
     (case projected n of None \<Rightarrow> False | Some ps \<Rightarrow> \<not> feq ps (case current n of None \<Rightarrow> 0 | Some cs \<Rightarrow> cs)) \<and> n \<noteq> tenantName) order"

text \<open>The query parameter \<open>delta_cores\<close>, none where it does not parse.\<close>

definition deltaCores :: "string \<Rightarrow> f64 option" where
  "deltaCores dc = (if dc = [] then Some 0 else ParseFloat dc)"

definition handleFairnessImpact ::
  "string list \<Rightarrow> string list \<Rightarrow> string list \<Rightarrow> string \<Rightarrow> string \<Rightarrow> string \<Rightarrow> 'w TenantAPIHandler \<Rightarrow> impactResponse http_response"
where
  "handleFairnessImpact order order' scoreOrder service tenantName dc h = (case ta_manager h of
     None \<Rightarrow> HttpError StatusServiceUnavailable ''tenant manager not configured''
   | Some m \<Rightarrow>
     if tenantName = [] then HttpError StatusBadRequest ''missing 'tenant' query parameter''
     else (case deltaCores dc of
         None \<Rightarrow> HttpError StatusBadRequest ''invalid 'delta_cores' value''
       | Some delta \<Rightarrow> (case GetState m tenantName of
           None \<Rightarrow> HttpError StatusNotFound ''tenant not found''
         | Some s \<Rightarrow>
           (let inputs = fairnessInputs (GetAllStates order m) order';
                current = ComputeFairness inputs;
                projected = ComputeFairness (projectInputs tenantName delta inputs);
                names = map fi_Name inputs;
                change = indexOf projected - indexOf current in
            writeJSON ([delta, indexOf current, indexOf projected, change] @ mapNumbers names (scoresOf current) @ mapNumbers names (scoresOf projected))
              \<lparr>ir_Service = service, ir_TenantName = tenantName, ir_DeltaCores = delta, ir_CurrentIndex = indexOf current,
               ir_ProjectedIndex = indexOf projected, ir_IndexDelta = change,
               ir_AffectedTenants = affectedTenants tenantName (scoresOf current) (scoresOf projected) scoreOrder,
               ir_CurrentPerTenant = scoresOf current, ir_ProjectedPerTenant = scoresOf projected\<rparr>))))"

section \<open>Lemmas\<close>

lemma writeJSON_OK: "writeJSON xs v = HttpOK r \<longleftrightarrow> r = v \<and> list_all finite_number xs"
  by (auto simp: writeJSON_def)

lemma inrange_finite: "inrange a b x \<Longrightarrow> finite_number x"
  by (auto simp: finite_number_def inrange_iff)

lemma finite_feq: "finite_number x \<Longrightarrow> feq x x"
  by (cases x) (auto simp: finite_number_def)

lemma foldl_updates: "foldl (\<lambda>m (k, v). m(k \<mapsto> v)) m xs = m ++ map_of (rev xs)"
proof (induction xs arbitrary: m)
  case (Cons x xs)
  obtain k v where "x = (k, v)" by fastforce
  then show ?case using Cons [of "m(k \<mapsto> v)"] by (auto simp: fun_eq_iff map_add_def split: option.split)
qed simp

lemma map_of_filter_key: "map_of xs n = map_of (filter (\<lambda>p. fst p = n) xs) n"
  by (induction xs) auto

lemma scoresOf_ComputeFairness:
  "scoresOf (ComputeFairness inputs) = (if feq (of_int64 (int (length (ratios inputs)))) 0 then Map.empty else map_of (rev (ratios inputs)))"
  by (simp add: scoresOf_def ComputeFairness_def Let_def foldl_updates)

lemma project_length: "length (ratios (projectInputs name delta is)) = length (ratios is)"
  by (induction "is") (auto simp: ratios_def)

lemma project_other: "n \<noteq> name \<Longrightarrow> filter (\<lambda>p. fst p = n) (ratios (projectInputs name delta is)) = filter (\<lambda>p. fst p = n) (ratios is)"
  by (induction "is") (auto simp: ratios_def)

lemma tenant_ok_cores: "tenant_ok i \<Longrightarrow> inrange 0 (2 ^ 40) c \<Longrightarrow> tenant_ok (i\<lparr>fi_CurrentCores := c\<rparr>)"
  unfolding tenant_ok_def by simp

lemma project_ok:
  "\<forall>i \<in> set is. tenant_ok i \<Longrightarrow> \<forall>i \<in> set is. fi_Name i = name \<longrightarrow> inrange 0 (2 ^ 40) (fi_CurrentCores i + delta) \<Longrightarrow>
   \<forall>i \<in> set (projectInputs name delta is). tenant_ok i"
  by (induction "is") (auto intro: tenant_ok_cores)

lemma incoming_in: "incomingProfiles ps n = Some p \<Longrightarrow> p \<in> set ps"
proof -
  have "\<forall>n p. incomingProfiles ps n = Some p \<longrightarrow> p \<in> set ps"
    unfolding incomingProfiles_def
    by (rule foldl_inv [where P = "\<lambda>m. \<forall>n p. m n = Some p \<longrightarrow> p \<in> set ps"]) simp_all
  then show "incomingProfiles ps n = Some p \<Longrightarrow> p \<in> set ps" by blast
qed

lemma project_names: "map fi_Name (projectInputs name delta is) = map fi_Name is"
  by (induction "is") auto

text \<open>The score of another tenant does not change.\<close>

lemma project_score:
  assumes "n \<noteq> name"
  shows "scoresOf (ComputeFairness (projectInputs name delta is)) n = scoresOf (ComputeFairness is) n"
  using map_of_filter_key [of "rev (ratios is)" n] map_of_filter_key [of "rev (ratios (projectInputs name delta is))" n]
  by (simp add: scoresOf_ComputeFairness project_length rev_filter [symmetric] project_other [OF assms])

lemma scores_names: "scoresOf (ComputeFairness is) n = Some x \<Longrightarrow> n \<in> set (map fi_Name is) \<and> (n, x) \<in> set (ratios is)"
  by (auto simp: scoresOf_ComputeFairness ratios_def split: if_splits dest!: map_of_SomeD)

lemma dom_scores:
  assumes "length is \<le> 2 ^ 20"
  shows "dom (scoresOf (ComputeFairness is)) = fi_Name ` {i \<in> set is. \<not> fi_GuaranteedCores i \<le> 0}"
proof -
  have "length (ratios is) \<le> 2 ^ 20" using assms le_trans [OF length_filter_le] by (simp add: ratios_def)
  then have "feq (of_int64 (int (length (ratios is)))) 0 \<longleftrightarrow> ratios is = []" by (simp add: of_int64_exact zero_Fin)
  then have "dom (scoresOf (ComputeFairness is)) = fst ` set (ratios is)"
    by (simp add: scoresOf_ComputeFairness dom_map_of_conv_image_fst)
  then show ?thesis by (auto simp: ratios_def image_image)
qed

lemma mapNumbers_in: "m n = Some x \<Longrightarrow> n \<in> set names \<Longrightarrow> x \<in> set (mapNumbers names m)"
  by (force simp: mapNumbers_def List.map_filter_def)

lemma affectedTenants_none:
  assumes "list_all finite_number (mapNumbers (map fi_Name is) (scoresOf (ComputeFairness (projectInputs name delta is))))"
  shows "affectedTenants name (scoresOf (ComputeFairness is)) (scoresOf (ComputeFairness (projectInputs name delta is))) order = []"
proof -
  have "feq x x" if "scoresOf (ComputeFairness is) n = Some x" "n \<noteq> name" for n x
  proof -
    have "x \<in> set (mapNumbers (map fi_Name is) (scoresOf (ComputeFairness (projectInputs name delta is))))"
      using that scores_names project_score by (intro mapNumbers_in) auto
    then show ?thesis using assms finite_feq by (auto simp: list_all_iff)
  qed
  then have "(case scoresOf (ComputeFairness (projectInputs name delta is)) n of None \<Rightarrow> False
      | Some ps \<Rightarrow> \<not> feq ps (case scoresOf (ComputeFairness is) n of None \<Rightarrow> 0 | Some cs \<Rightarrow> cs)) \<Longrightarrow> n = name" for n
    using project_score [of n name delta "is"] by (cases "n = name") (auto split: option.splits)
  then show ?thesis by (auto simp: affectedTenants_def filter_empty_conv)
qed

lemma GetAllStates_all: "key_order (mg_tenants m) order \<Longrightarrow> GetAllStates order m = mg_tenants m"
proof -
  have "foldl (\<lambda>out name. out(name := f name)) out xs n = (if n \<in> set xs then f n else out n)" for f :: "string \<Rightarrow> TenantState option" and out xs n
    by (induction xs arbitrary: out) auto
  then show "key_order (mg_tenants m) order \<Longrightarrow> ?thesis" by (fastforce simp: GetAllStates_def key_order_def)
qed

text \<open>Tenants whose usage and guarantee stay in the range in which the index is a number.\<close>

definition usage_ok :: "TenantState \<Rightarrow> bool" where
  "usage_ok s = (inrange 0 (2 ^ 40) (ts_CurrentCores s) \<and> 0 \<le> ts_GuaranteedCoresPercent s \<and> ts_GuaranteedCoresPercent s \<le> 100)"

lemma fairnessInputs_set:
  "set (fairnessInputs all order) = {\<lparr>fi_Name = ts_Name s, fi_CurrentCores = ts_CurrentCores s,
     fi_GuaranteedCores = of_int64 (ts_GuaranteedCoresPercent s)\<rparr> | s n. n \<in> set order \<and> all n = Some s}"
  by (force simp: fairnessInputs_def List.map_filter_def)

lemma guarantee_ok:
  assumes "usage_ok s"
  shows "of_int64 (ts_GuaranteedCoresPercent s) = Fin (of_int (ts_GuaranteedCoresPercent s))"
    "of_int64 (ts_GuaranteedCoresPercent s) \<le> 0 \<longleftrightarrow> ts_GuaranteedCoresPercent s = 0"
    "ts_GuaranteedCoresPercent s \<noteq> 0 \<Longrightarrow> inrange (1 / 2 ^ 40) (2 ^ 40) (of_int64 (ts_GuaranteedCoresPercent s))"
proof -
  show e: "of_int64 (ts_GuaranteedCoresPercent s) = Fin (of_int (ts_GuaranteedCoresPercent s))"
    using assms by (simp add: usage_ok_def of_int64_exact)
  show "of_int64 (ts_GuaranteedCoresPercent s) \<le> 0 \<longleftrightarrow> ts_GuaranteedCoresPercent s = 0"
    using assms by (auto simp: e usage_ok_def zero_Fin)
  assume "ts_GuaranteedCoresPercent s \<noteq> 0"
  then have g: "1 \<le> ts_GuaranteedCoresPercent s" "ts_GuaranteedCoresPercent s \<le> 100" using assms by (auto simp: usage_ok_def)
  have "(1 :: rat) \<le> of_int (ts_GuaranteedCoresPercent s)" "of_int (ts_GuaranteedCoresPercent s) \<le> (100 :: rat)"
    using g by (simp_all add: of_int_le_iff [of 1, simplified] del: of_int_le_1_iff)
  moreover have "rep (of_int (ts_GuaranteedCoresPercent s))" using g by (intro rep_of_int) simp
  ultimately show "inrange (1 / 2 ^ 40) (2 ^ 40) (of_int64 (ts_GuaranteedCoresPercent s))" by (simp add: e)
qed

lemma fairness_finite:
  assumes "\<forall>i \<in> set is. tenant_ok i" "length is \<le> 2 ^ 20"
  shows "unit64 (indexOf (ComputeFairness is))" "list_all finite_number (mapNumbers names (scoresOf (ComputeFairness is)))"
proof -
  show "unit64 (indexOf (ComputeFairness is))"
    using ComputeFairness_in_unit [OF assms] by (auto simp: indexOf_def zero_Fin split: option.splits)
  have "finite_number x" if "scoresOf (ComputeFairness is) n = Some x" for n x
    using ratios_range [OF assms(1), of x] scores_names [OF that] by (force intro: inrange_finite)
  then show "list_all finite_number (mapNumbers names (scoresOf (ComputeFairness is)))"
    by (auto simp: list_all_iff mapNumbers_def List.map_filter_def)
qed

section \<open>Properties\<close>

text \<open>The list of other tenants affected by a change, which the impact endpoint reports, is always empty: the score of a
  tenant depends on its own usage and guarantee only.\<close>
theorem impact_affects_none:
  assumes "handleFairnessImpact order order' scoreOrder service tenantName dc h = HttpOK r"
  shows "ir_AffectedTenants r = []"
  using assms affectedTenants_none
  by (auto simp: handleFairnessImpact_def Let_def writeJSON_OK split: option.splits if_splits)

text \<open>On tracked tenants with usage in range and guarantees between 0 and 100 percent, at most \<open>2 ^ 20\<close> of them, the
  fairness endpoints answer: with a current and a projected index between 0 and 1, the same current index from both, a
  difference between -1 and 1, and scores for exactly the tenants with a guarantee.\<close>
theorem fairness_endpoints:
  assumes "ta_manager h = Some m" "tracked m" "\<forall>s \<in> ran (mg_tenants m). usage_ok s"
    "key_order (mg_tenants m) order" "key_order (mg_tenants m) order'" "length order' \<le> 2 ^ 20"
    "tenantName \<noteq> []" "GetState m tenantName = Some s" "deltaCores dc = Some delta" "finite_number delta"
    "inrange 0 (2 ^ 40) (ts_CurrentCores s + delta)"
  shows "\<exists>r r'. fst (handleFairness clock order order' h w) = HttpOK r \<and>
    handleFairnessImpact order order' scoreOrder service tenantName dc h = HttpOK r' \<and>
    unit64 (fr_GlobalIndex r) \<and> ir_CurrentIndex r' = fr_GlobalIndex r \<and> unit64 (ir_ProjectedIndex r') \<and>
    inrange (-1) 1 (ir_IndexDelta r') \<and>
    dom (fr_PerTenant r) = {n. \<exists>s. mg_tenants m n = Some s \<and> 0 < ts_GuaranteedCoresPercent s}"
proof -
  let ?is = "fairnessInputs (mg_tenants m) order'" and ?js = "projectInputs tenantName delta (fairnessInputs (mg_tenants m) order')"
  have all: "GetAllStates order m = mg_tenants m" by (rule GetAllStates_all [OF assms(4)])
  have ok: "usage_ok x" "ts_Name x = n" if "mg_tenants m n = Some x" for n x
    using assms(3) trackedD [OF assms(2), of n] that by (auto simp: ran_def configured_def option_rel_Some2)
  have order': "set order' = dom (mg_tenants m)" "distinct order'" using assms(5) by (simp_all add: key_order_def)
  have ins: "\<forall>i \<in> set ?is. tenant_ok i"
    using ok guarantee_ok by (fastforce simp: fairnessInputs_set tenant_ok_def usage_ok_def)
  have len: "length ?is \<le> 2 ^ 20" using assms(6) le_trans [OF length_filter_le] by (simp add: fairnessInputs_def List.map_filter_def)
  have target: "fi_CurrentCores i = ts_CurrentCores s" if "i \<in> set ?is" "fi_Name i = tenantName" for i
    using that ok(2) assms(8) by (auto simp: fairnessInputs_set GetState_def)
  have js: "\<forall>i \<in> set ?js. tenant_ok i"
    by (rule project_ok [OF ins]) (use target assms(11) in auto)
  have len': "length ?js \<le> 2 ^ 20" using len project_names [of tenantName delta ?is] by (metis length_map)
  note fin = fairness_finite [OF ins len] fairness_finite [OF js len']
  have d: "inrange (-1) 1 (indexOf (ComputeFairness ?js) - indexOf (ComputeFairness ?is))"
    using inrange_diff [OF fin(3) fin(1)] rep_of_int [of 1] rep_of_int [of "-1"] by simp
  have pos: "\<not> of_int64 (ts_GuaranteedCoresPercent x) \<le> 0 \<longleftrightarrow> 0 < ts_GuaranteedCoresPercent x" if "mg_tenants m n = Some x" for n x
    using guarantee_ok(2) [OF ok(1) [OF that]] ok(1) [OF that] by (auto simp: usage_ok_def)
  have "n \<in> dom (scoresOf (ComputeFairness ?is)) \<longleftrightarrow> (\<exists>x. mg_tenants m n = Some x \<and> 0 < ts_GuaranteedCoresPercent x)" for n
  proof
    assume "n \<in> dom (scoresOf (ComputeFairness ?is))"
    then obtain x k where "mg_tenants m k = Some x" "n = ts_Name x" "\<not> of_int64 (ts_GuaranteedCoresPercent x) \<le> 0"
      unfolding dom_scores [OF len] fairnessInputs_set by auto
    then show "\<exists>x. mg_tenants m n = Some x \<and> 0 < ts_GuaranteedCoresPercent x" using pos ok(2) by auto
  next
    assume "\<exists>x. mg_tenants m n = Some x \<and> 0 < ts_GuaranteedCoresPercent x"
    then obtain x where x: "mg_tenants m n = Some x" "\<not> of_int64 (ts_GuaranteedCoresPercent x) \<le> 0" using pos by auto
    let ?i = "\<lparr>fi_Name = ts_Name x, fi_CurrentCores = ts_CurrentCores x, fi_GuaranteedCores = of_int64 (ts_GuaranteedCoresPercent x)\<rparr>"
    have "?i \<in> set ?is" using x(1) order'(1) by (auto simp: fairnessInputs_set)
    then show "n \<in> dom (scoresOf (ComputeFairness ?is))"
      unfolding dom_scores [OF len] using x ok(2) [OF x(1)] by (intro image_eqI [of _ _ ?i]) simp_all
  qed
  then have "dom (scoresOf (ComputeFairness ?is)) = {n. \<exists>x. mg_tenants m n = Some x \<and> 0 < ts_GuaranteedCoresPercent x}"
    by (simp only: set_eq_iff mem_Collect_eq) simp
  then show ?thesis
    using fin d assms(1,7-10) inrange_finite [OF fin(1)] inrange_finite [OF fin(3)] inrange_finite [OF d]
    by (auto simp: handleFairness_def handleFairnessImpact_def all writeJSON_OK Let_def project_names split: prod.split)
qed

text \<open>Reconciling the profiles and asking for a tenant: after a successful reconcile, a tenant is found exactly when the
  list of profiles has one of its name, and the answer then carries tier, weight, namespaces and guarantee of the last profile
  of that name.\<close>
theorem reconcile_then_get:
  assumes "ReconcileTenant c name removeOrder addOrder (Some m) w = ((None, Some m'), w1)" "pf_List c w = (Inr profiles, w1')"
    "key_order (mg_tenants m) removeOrder" "key_order (incomingProfiles profiles) addOrder" "ta_manager h = Some m'"
  shows "case fst (handleGetTenant clock timeText n h w2) of
      HttpError status msg \<Rightarrow> status = (if n \<in> tp_Name ` set profiles then 500 else 404)
    | HttpOK r \<Rightarrow> \<exists>p. incomingProfiles profiles n = Some p \<and> p \<in> set profiles \<and> tr_Name r = n \<and> tr_Tier r = tp_Tier p \<and>
        tr_Weight r = tp_Weight p \<and> td_Namespaces r = tp_Namespaces p \<and>
        (case tp_FairSharePolicy p of None \<Rightarrow> td_GuaranteedCoresPercent r = 0
         | Some f \<Rightarrow> td_GuaranteedCoresPercent r = fsp_GuaranteedCoresPercent f)"
proof -
  have m': "m' = UpdateProfiles removeOrder addOrder profiles m" using assms(1,2) by (simp add: ReconcileTenant_def)
  have t: "rel_option (configured n) (incomingProfiles profiles n) (mg_tenants m' n)"
    using trackedD [OF tracked_UpdateProfiles [OF assms(3,4)], of n] by (simp add: m' UpdateProfiles_profiles)
  show ?thesis
  proof (cases "incomingProfiles profiles n")
    case None
    then show ?thesis
      using t assms(5) dom_incoming [of profiles] by (auto simp: handleGetTenant_def GetState_def StatusNotFound_def)
  next
    case (Some p)
    then obtain s where "mg_tenants m' n = Some s" "configured n p s" using t by (auto simp: option_rel_Some1)
    moreover have "p \<in> set profiles" by (rule incoming_in [OF Some])
    ultimately show ?thesis
      using assms(5) Some dom_incoming [of profiles]
      by (auto simp: handleGetTenant_def GetState_def Let_def writeJSON_def summarise_def stateToSummary_def tenantDetail_def
          configured_def StatusInternalServerError_def tenantSummaryResponse.defs split: prod.split option.splits)
  qed
qed

section \<open>Two tenants\<close>

definition demo_profiles :: "TenantProfile list" where
  "demo_profiles = [\<lparr>tp_Name = ''a'', tp_Tier = ''gold'', tp_Weight = 2, tp_Namespaces = [''a-prod''], tp_Budgets = None,
     tp_FairSharePolicy = Some \<lparr>fsp_GuaranteedCoresPercent = 40, fsp_Burstable = True, fsp_MaxBurstPercent = 50\<rparr>\<rparr>,
   \<lparr>tp_Name = ''b'', tp_Tier = ''silver'', tp_Weight = 1, tp_Namespaces = [], tp_Budgets = None, tp_FairSharePolicy = None\<rparr>]"

definition demo_profile_client :: "unit profile_client" where
  "demo_profile_client = \<lparr>pf_List = Pair (Inr demo_profiles), pf_Get = \<lambda>n. Pair (Inl (True, n))\<rparr>"

definition demo_reconciled :: Manager where
  "demo_reconciled = UpdateProfiles [] [''a'', ''b''] demo_profiles NewManager"

definition demo_handler :: "unit TenantAPIHandler" where
  "demo_handler = NewTenantAPIHandler (Some demo_reconciled) None None"

lemma demo_orders: "key_order (mg_tenants NewManager) []" "key_order (incomingProfiles demo_profiles) [''a'', ''b'']"
  by (auto simp: key_order_def NewManager_def dom_incoming demo_profiles_def)

lemma demo_reconciled_tenants:
  "mg_tenants demo_reconciled n = map_option (\<lambda>p. applyProfile n p zeroTenantState) (incomingProfiles demo_profiles n)"
  using UpdateProfiles_tenants [OF demo_orders, of n] by (simp add: demo_reconciled_def NewManager_def)

lemma demo_reconciled_order: "key_order (mg_tenants demo_reconciled) [''a'', ''b'']"
  using demo_orders(2) by (simp add: key_order_def demo_reconciled_tenants [abs_def] dom_def)

lemma reconcile_then_get_witness:
  "case fst (handleGetTenant (Pair 5) (\<lambda>t. []) ''a'' demo_handler ()) of HttpError status msg \<Rightarrow> status = 500
   | HttpOK r \<Rightarrow> tr_Name r = ''a''"
proof -
  have "ReconcileTenant demo_profile_client ''a'' [] [''a'', ''b''] (Some NewManager) () = ((None, Some demo_reconciled), ())"
    by (simp add: ReconcileTenant_def demo_profile_client_def demo_reconciled_def)
  note reconcile_then_get [OF this _ demo_orders, of "()" demo_handler "''a''" "Pair 5" "\<lambda>t. []" "()"]
  then show ?thesis
    by (auto simp: demo_profile_client_def demo_handler_def NewTenantAPIHandler_def demo_profiles_def split: http_response.splits)
qed

lemma impact_affects_none_witness:
  "\<exists>r. handleFairnessImpact [''a'', ''b''] [''a'', ''b''] [''a'', ''b''] ''web'' ''a'' ''2'' demo_handler = HttpOK r \<and> ir_AffectedTenants r = []"
proof -
  have "case handleFairnessImpact [''a'', ''b''] [''a'', ''b''] [''a'', ''b''] ''web'' ''a'' ''2'' demo_handler of HttpOK r \<Rightarrow> True | _ \<Rightarrow> False"
    by code_simp
  then show ?thesis using impact_affects_none by (auto split: http_response.splits)
qed

lemma fairness_endpoints_witness:
  "\<exists>r r'. fst (handleFairness (Pair 5) [''a'', ''b''] [''a'', ''b''] demo_handler ()) = HttpOK r \<and>
    handleFairnessImpact [''a'', ''b''] [''a'', ''b''] [''a'', ''b''] ''web'' ''a'' ''2'' demo_handler = HttpOK r' \<and> unit64 (fr_GlobalIndex r)"
proof -
  have "tracked demo_reconciled" unfolding demo_reconciled_def by (rule tracked_UpdateProfiles [OF demo_orders])
  moreover have "\<forall>s \<in> ran (mg_tenants demo_reconciled). usage_ok s"
    by (auto simp: ran_def demo_reconciled_tenants usage_ok_def applyProfile_def applyBudgets_def applyFairShare_def zeroTenantState_def zero_Fin
        split: option.splits dest!: incoming_in simp: demo_profiles_def)
  moreover have "deltaCores ''2'' = Some (Fin 2)" by code_simp
  moreover have "case GetState demo_reconciled ''a'' of None \<Rightarrow> False | Some s \<Rightarrow> ts_CurrentCores s = 0" by code_simp
  then obtain s where "GetState demo_reconciled ''a'' = Some s" "ts_CurrentCores s = 0" by (auto split: option.splits)
  moreover have "inrange 0 (2 ^ 40) (0 + Fin 2)" by (simp add: zero_Fin rnd_exact)
  ultimately show ?thesis
    using fairness_endpoints [of demo_handler demo_reconciled "[''a'', ''b'']" "[''a'', ''b'']" "''a''" s "''2''" "Fin 2" "Pair 5" "()" "[''a'', ''b'']" "''web''"]
      demo_reconciled_order
    by (auto simp: demo_handler_def NewTenantAPIHandler_def finite_number_def)
qed

end
