(* ===== verification/Storage.thy ===== *)
theory Storage
  imports Go_FormatFloat
begin

text \<open>
  The storage recommender of \<open>internal/storage/recommender.go\<close>: it classifies the I/O of a volume and recommends the
  storage class of least penalty. \<open>sort.Slice\<close> is an argument; \<open>strings.EqualFold\<close> is modelled for ASCII, which names of
  storage classes are. Indexing an empty slice panics: \<open>None\<close>.
\<close>

section \<open>Metrics\<close>

record PVCMetrics =
  pm_Namespace :: string
  pm_PVCName :: string
  pm_ReadIOPS :: f64
  pm_WriteIOPS :: f64
  pm_ReadThroughputMBs :: f64
  pm_WriteThroughputMBs :: f64
  pm_ReadLatencyMs :: f64
  pm_WriteLatencyMs :: f64
  pm_QueueDepth :: f64
  pm_CurrentStorageClass :: string
  pm_CapacityGiB :: f64

definition TotalIOPS :: "PVCMetrics \<Rightarrow> f64" where
  "TotalIOPS m = pm_ReadIOPS m + pm_WriteIOPS m"

definition TotalThroughput :: "PVCMetrics \<Rightarrow> f64" where
  "TotalThroughput m = pm_ReadThroughputMBs m + pm_WriteThroughputMBs m"

definition addPositive :: "f64 \<Rightarrow> f64 \<times> f64 \<Rightarrow> f64 \<times> f64" where
  "addPositive x s = (case s of (t, n) \<Rightarrow> if 0 < x then (t + x, n + 1) else (t, n))"

definition AvgLatency :: "PVCMetrics \<Rightarrow> f64" where
  "AvgLatency m =
    (if feq (pm_ReadLatencyMs m) 0 \<and> feq (pm_WriteLatencyMs m) 0 then 0
     else (case addPositive (pm_WriteLatencyMs m) (addPositive (pm_ReadLatencyMs m) (0, 0)) of (t, n) \<Rightarrow> t / n))"

section \<open>Workload profiles\<close>

datatype WorkloadProfile =
  ProfileReadHeavy | ProfileWriteHeavy | ProfileMixed | ProfileSequential | ProfileRandom | ProfileBursty | ProfileIdle

fun profileName :: "WorkloadProfile \<Rightarrow> string" where
  "profileName ProfileReadHeavy = ''read-heavy''"
| "profileName ProfileWriteHeavy = ''write-heavy''"
| "profileName ProfileMixed = ''mixed''"
| "profileName ProfileSequential = ''sequential''"
| "profileName ProfileRandom = ''random''"
| "profileName ProfileBursty = ''bursty''"
| "profileName ProfileIdle = ''idle''"

definition avgIOSizeKB :: "PVCMetrics \<Rightarrow> f64" where
  "avgIOSizeKB m = TotalThroughput m * Fin 1024 / TotalIOPS m"

definition ClassifyProfile :: "PVCMetrics \<Rightarrow> WorkloadProfile" where
  "ClassifyProfile m =
    (let totalIOPS = TotalIOPS m;
         readRatio = (if 0 < totalIOPS then pm_ReadIOPS m / totalIOPS else 0) in
     if totalIOPS < 1 \<and> TotalThroughput m < lit (1 / 10) then ProfileIdle
     else if 0 < totalIOPS \<and> lit (1 / 20) < pm_QueueDepth m / totalIOPS then ProfileBursty
     else if 0 < totalIOPS \<and> Fin 128 < avgIOSizeKB m then ProfileSequential
     else if lit (7 / 10) < readRatio then ProfileReadHeavy
     else if readRatio < lit (3 / 10) then ProfileWriteHeavy
     else if Fin 500 < totalIOPS \<and> (if 0 < totalIOPS then avgIOSizeKB m else 0) < Fin 32 then ProfileRandom
     else ProfileMixed)"

section \<open>Catalog\<close>

record StorageClassProfile =
  scp_Name :: string
  scp_MaxIOPS :: f64
  scp_MaxThroughput :: f64
  scp_AvgLatencyMs :: f64
  scp_CostPerGiBMonth :: f64
  scp_BestFor :: "WorkloadProfile list"

definition DefaultCatalog :: "StorageClassProfile list" where
  "DefaultCatalog =
    [\<lparr>scp_Name = ''gp3'', scp_MaxIOPS = Fin 16000, scp_MaxThroughput = Fin 1000, scp_AvgLatencyMs = lit (3 / 2),
      scp_CostPerGiBMonth = lit (8 / 100), scp_BestFor = [ProfileMixed, ProfileReadHeavy, ProfileIdle]\<rparr>,
     \<lparr>scp_Name = ''io2'', scp_MaxIOPS = Fin 64000, scp_MaxThroughput = Fin 1000, scp_AvgLatencyMs = lit (1 / 2),
      scp_CostPerGiBMonth = lit (125 / 1000), scp_BestFor = [ProfileRandom, ProfileBursty]\<rparr>,
     \<lparr>scp_Name = ''st1'', scp_MaxIOPS = Fin 500, scp_MaxThroughput = Fin 500, scp_AvgLatencyMs = Fin 5,
      scp_CostPerGiBMonth = lit (45 / 1000), scp_BestFor = [ProfileSequential, ProfileWriteHeavy]\<rparr>]"

type_synonym Recommender = "StorageClassProfile list"

definition NewRecommender :: "StorageClassProfile list \<Rightarrow> Recommender" where
  "NewRecommender catalog = (if length catalog = 0 then DefaultCatalog else catalog)"

section \<open>Scoring\<close>

definition profileMatch :: "WorkloadProfile list \<Rightarrow> WorkloadProfile \<Rightarrow> bool" where
  "profileMatch supported target = list_ex (\<lambda>p. p = target) supported"

definition classScore :: "PVCMetrics \<Rightarrow> WorkloadProfile \<Rightarrow> StorageClassProfile \<Rightarrow> f64" where
  "classScore m profile c =
    (let s0 = 0;
         s1 = (if \<not> profileMatch (scp_BestFor c) profile then s0 + Fin 100 else s0);
         s2 = (if 0 < scp_MaxIOPS c \<and> scp_MaxIOPS c < TotalIOPS m then s1 + Fin 50 * (TotalIOPS m / scp_MaxIOPS c) else s1);
         s3 = (if 0 < scp_MaxThroughput c \<and> scp_MaxThroughput c < TotalThroughput m
               then s2 + Fin 50 * (TotalThroughput m / scp_MaxThroughput c) else s2);
         s4 = (if 0 < scp_AvgLatencyMs c then s3 + scp_AvgLatencyMs c else s3) in
     s4 + scp_CostPerGiBMonth c * Fin 10)"

type_synonym scoredClass = "StorageClassProfile \<times> f64"

definition scoreClasses :: "Recommender \<Rightarrow> PVCMetrics \<Rightarrow> WorkloadProfile \<Rightarrow> scoredClass list" where
  "scoreClasses catalog m profile = map (\<lambda>c. (c, classScore m profile c)) catalog"

definition EqualFold :: "string \<Rightarrow> string \<Rightarrow> bool" where
  "EqualFold a b = (map lower a = map lower b)"

definition findClass :: "Recommender \<Rightarrow> string \<Rightarrow> StorageClassProfile option" where
  "findClass catalog name = find (\<lambda>c. EqualFold (scp_Name c) name) catalog"

section \<open>Recommendations\<close>

record Recommendation =
  re_PVCNamespace :: string
  re_PVCName :: string
  re_CurrentClass :: string
  re_RecommendedClass :: string
  re_Profile :: WorkloadProfile
  re_Reason :: string
  re_EstMonthlyCostCur :: f64
  re_EstMonthlyCostNew :: f64
  re_EstMonthlySavings :: f64
  re_Annotations :: "string \<rightharpoonup> string"

text \<open>\<open>%g\<close>: the shortest digits, with an exponent when it is below -4 or at least 6.\<close>

definition exponentText :: "int \<Rightarrow> string" where
  "exponentText e = ''e'' @ (if e < 0 then ''-'' else ''+'') @ pad_left 2 (digits (nat \<bar>e\<bar>))"

fun fmt_g :: "f64 \<Rightarrow> string" where
  "fmt_g (Fin q) = (if q = 0 then ''0'' else
     (case shortest 16 (firstDecimal \<bar>q\<bar>) \<bar>q\<bar> of (m, k) \<Rightarrow>
       (let ds = digits (nat m); e = int (length ds) - k - 1 in
        (if q < 0 then ''-'' else []) @
        (if e < -4 \<or> 6 \<le> e then take 1 ds @ (if length ds = 1 then [] else ''.'' @ drop 1 ds) @ exponentText e
         else plain (nat m) k))))"
| "fmt_g x = FormatFloat x"

definition buildReason :: "PVCMetrics \<Rightarrow> WorkloadProfile \<Rightarrow> StorageClassProfile \<Rightarrow> string" where
  "buildReason m profile best =
     ''workload='' @ profileName profile @ '' iops='' @ fmt_f 0 (TotalIOPS m) @ '' throughput='' @ fmt_f 1 (TotalThroughput m) @
     ''MB/s latency='' @ fmt_f 1 (AvgLatency m) @ ''ms '' @ [CHR 0xE2, CHR 0x86, CHR 0x92] @ '' '' @ scp_Name best @
     '' (max-iops='' @ fmt_g (scp_MaxIOPS best) @ '', cost=$'' @ fmt_f 3 (scp_CostPerGiBMonth best) @ ''/GiB/mo)''"

definition buildAnnotations :: "Recommendation \<Rightarrow> string \<rightharpoonup> string" where
  "buildAnnotations rec = [''optipilot.ai/storage-profile'' \<mapsto> profileName (re_Profile rec),
     ''optipilot.ai/storage-recommended'' \<mapsto> re_RecommendedClass rec,
     ''optipilot.ai/storage-cost-current'' \<mapsto> fmt_f 2 (re_EstMonthlyCostCur rec),
     ''optipilot.ai/storage-cost-new'' \<mapsto> fmt_f 2 (re_EstMonthlyCostNew rec),
     ''optipilot.ai/storage-savings'' \<mapsto> fmt_f 2 (re_EstMonthlySavings rec)]"

definition lowerScore :: "scoredClass \<Rightarrow> scoredClass \<Rightarrow> bool" where
  "lowerScore a b = (snd a < snd b)"

definition capacityOf :: "PVCMetrics \<Rightarrow> f64" where
  "capacityOf m = (if pm_CapacityGiB m \<le> 0 then 1 else pm_CapacityGiB m)"

definition recommendation :: "Recommender \<Rightarrow> PVCMetrics \<Rightarrow> WorkloadProfile \<Rightarrow> StorageClassProfile \<Rightarrow> Recommendation" where
  "recommendation catalog m profile best =
    (let cur = (case findClass catalog (pm_CurrentStorageClass m) of None \<Rightarrow> 0 | Some c \<Rightarrow> scp_CostPerGiBMonth c * capacityOf m);
         new = scp_CostPerGiBMonth best * capacityOf m;
         rec = \<lparr>re_PVCNamespace = pm_Namespace m, re_PVCName = pm_PVCName m, re_CurrentClass = pm_CurrentStorageClass m,
           re_RecommendedClass = scp_Name best, re_Profile = profile, re_Reason = buildReason m profile best,
           re_EstMonthlyCostCur = cur, re_EstMonthlyCostNew = new, re_EstMonthlySavings = cur - new, re_Annotations = Map.empty\<rparr> in
     rec\<lparr>re_Annotations := buildAnnotations rec\<rparr>)"

definition Recommend ::
  "((scoredClass \<Rightarrow> scoredClass \<Rightarrow> bool) \<Rightarrow> scoredClass list \<Rightarrow> scoredClass list) \<Rightarrow> Recommender \<Rightarrow> PVCMetrics \<Rightarrow> Recommendation option"
where
  "Recommend srt catalog m = (let profile = ClassifyProfile m in
     case srt lowerScore (scoreClasses catalog m profile) of
       [] \<Rightarrow> None
     | (best, score) # rest \<Rightarrow> Some (recommendation catalog m profile best))"

definition RecommendAll where
  "RecommendAll srt catalog pvcs = those (map (Recommend srt catalog) pvcs)"

definition ChangesOnly :: "Recommendation list \<Rightarrow> Recommendation list" where
  "ChangesOnly recs = filter (\<lambda>r. \<not> EqualFold (re_CurrentClass r) (re_RecommendedClass r)) recs"

definition Round2 :: "f64 \<Rightarrow> f64" where
  "Round2 v = fround (v * Fin 100) / Fin 100"

section \<open>Lemmas\<close>

text \<open>A penalty is a number, at worst infinite.\<close>

lemma classScore_nn:
  assumes "Fin 0 \<le> scp_CostPerGiBMonth c"
  shows "Fin 0 \<le> classScore m p c"
proof -
  have "Fin 0 \<le> (if b then s + Fin 100 else s)" if "Fin 0 \<le> s" for b s using nn_add [OF that] that by simp
  moreover have "Fin 0 \<le> (if 0 < x \<and> x < y then s + Fin 50 * (y / x) else s)" if "Fin 0 \<le> s" for x y s
    using that by (auto simp: zero_Fin intro!: nn_add nn_scale nn_over)
  moreover have "Fin 0 \<le> (if 0 < x then s + x else s)" if "Fin 0 \<le> s" for x s
    using that by (cases x) (auto simp: zero_Fin intro!: nn_add)
  moreover have "Fin 0 \<le> scp_CostPerGiBMonth c * Fin 10" by (rule nn_scale(2) [OF _ assms]) simp
  ultimately show ?thesis unfolding classScore_def Let_def by (intro nn_add) (auto simp: zero_Fin)
qed

lemma lowerScore_weak: "\<forall>x \<in> set xs. Fin 0 \<le> snd x \<Longrightarrow> strict_weak lowerScore xs"
proof -
  assume nn: "\<forall>x \<in> set xs. Fin 0 \<le> snd x"
  have irr: "\<not> x < x" for x :: f64 by (cases x) auto
  have tr: "x < y \<Longrightarrow> y < z \<Longrightarrow> x < z" for x y z :: f64 by (cases x; cases y; cases z) auto
  have neg: "x < z \<Longrightarrow> Fin 0 \<le> y \<Longrightarrow> x < y \<or> y < z" for x y z :: f64 by (cases x; cases y; cases z) auto
  show ?thesis unfolding strict_weak_def lowerScore_def
  proof (intro conjI ballI impI)
    fix x y z assume "x \<in> set xs" "y \<in> set xs" "z \<in> set xs" "snd x < snd z"
    then show "snd x < snd y \<or> snd y < snd z" using neg nn by simp
  qed (rule irr, rule tr)
qed

lemma NewRecommender_catalog:
  "NewRecommender cat \<noteq> []" "\<forall>c \<in> set cat. Fin 0 \<le> scp_CostPerGiBMonth c \<Longrightarrow> \<forall>c \<in> set (NewRecommender cat). Fin 0 \<le> scp_CostPerGiBMonth c"
  by (auto simp: NewRecommender_def DefaultCatalog_def nn_rnd)

section \<open>Properties\<close>


definition demo_volume :: PVCMetrics where
  "demo_volume = \<lparr>pm_Namespace = ''shop'', pm_PVCName = ''data'', pm_ReadIOPS = Fin 600, pm_WriteIOPS = Fin 100,
     pm_ReadThroughputMBs = Fin 150, pm_WriteThroughputMBs = Fin 50, pm_ReadLatencyMs = Fin 2, pm_WriteLatencyMs = Fin 4,
     pm_QueueDepth = Fin 4, pm_CurrentStorageClass = ''GP3'', pm_CapacityGiB = Fin 100\<rparr>"


text \<open>The penalty for a class that cannot serve the demand is smaller than the one for a class of another profile: a sequential
  volume of 700 operations per second gets the class that serves 500.\<close>

lemma Recommend_undersized:
  "map_option re_RecommendedClass (Recommend isort DefaultCatalog demo_volume) = Some ''st1''"
  "Fin 500 < TotalIOPS demo_volume" "scp_MaxIOPS (DefaultCatalog ! 2) = Fin 500" "scp_Name (DefaultCatalog ! 2) = ''st1''"
  by code_simp+

end
