(* ===== verification/Signals.thy ===== *)
theory Signals
  imports Storage Engine_Types
begin

text \<open>
  Custom metrics, \<open>internal/metrics/custom_adapter.go\<close>, and the optional signals that enrich the solver's input and its
  scored candidates, \<open>internal/engine/advanced_signals.go\<close>. Prometheus is a function on a world \<open>'w\<close>. The goroutines of a
  fetch are the list of metric indices in the order in which their queries run.
\<close>

section \<open>Custom metrics\<close>

record CustomMetric =
  cm_MetricName :: string
  cm_Query :: string
  cm_Target :: f64
  cm_Weight :: f64

record CustomMetricResult =
  cmr_Name :: string
  cmr_Value :: f64
  cmr_Target :: f64
  cmr_Weight :: f64
  cmr_Err :: "string option"

type_synonym 'w metric_query = "string \<Rightarrow> 'w \<Rightarrow> (string + f64) \<times> 'w"

definition metricResult :: "CustomMetric \<Rightarrow> string + f64 \<Rightarrow> CustomMetricResult" where
  "metricResult cm answer = \<lparr>cmr_Name = cm_MetricName cm,
     cmr_Value = (case answer of Inl e \<Rightarrow> 0 | Inr v \<Rightarrow> v), cmr_Target = cm_Target cm, cmr_Weight = cm_Weight cm,
     cmr_Err = (case answer of Inl e \<Rightarrow> Some (''custom metric '' @ go_quote (cm_MetricName cm) @ '': '' @ e) | Inr v \<Rightarrow> None)\<rparr>"

definition emptyMetricResult :: CustomMetricResult where
  "emptyMetricResult = \<lparr>cmr_Name = [], cmr_Value = 0, cmr_Target = 0, cmr_Weight = 0, cmr_Err = None\<rparr>"

fun runQueries :: "'w metric_query \<Rightarrow> CustomMetric list \<Rightarrow> nat list \<Rightarrow> CustomMetricResult list \<Rightarrow> 'w \<Rightarrow> CustomMetricResult list \<times> 'w" where
  "runQueries query ms [] results w = (results, w)"
| "runQueries query ms (i # is) results w = (case query (cm_Query (ms ! i)) w of
     (answer, w1) \<Rightarrow> runQueries query ms is (results[i := metricResult (ms ! i) answer]) w1)"

definition addMetric :: "(string \<rightharpoonup> f64) \<Rightarrow> CustomMetricResult \<Rightarrow> string \<rightharpoonup> f64" where
  "addMetric out r = (if cmr_Err r = None then out(cmr_Name r \<mapsto> cmr_Value r) else out)"

definition Fetch ::
  "'w metric_query \<Rightarrow> nat list \<Rightarrow> CustomMetric list \<Rightarrow> 'w \<Rightarrow> ((string \<rightharpoonup> f64) \<times> CustomMetricResult list) \<times> 'w"
where
  "Fetch query schedule ms w = (if ms = [] then ((Map.empty, []), w) else
     (case runQueries query ms schedule (replicate (length ms) emptyMetricResult) w of
        (results, w1) \<Rightarrow> ((foldl addMetric Map.empty results, results), w1)))"

definition metricDistance :: "CustomMetricResult \<Rightarrow> f64" where
  "metricDistance r = (let denom = (if fabs (cmr_Target r) < 1 then 1 else fabs (cmr_Target r)) in
     fabs (cmr_Value r - cmr_Target r) / denom)"

definition Score :: "CustomMetricResult list \<Rightarrow> f64" where
  "Score results = foldl (\<lambda>t r. if cmr_Err r \<noteq> None \<or> cmr_Weight r \<le> 0 then t else t + cmr_Weight r * metricDistance r) 0 results"

definition MergeIntoMetrics :: "(string \<rightharpoonup> f64) \<Rightarrow> (string \<rightharpoonup> f64) \<Rightarrow> string \<rightharpoonup> f64" where
  "MergeIntoMetrics dst fetched = dst ++ fetched"

section \<open>Signals\<close>

record AdvancedSignals =
  as_CustomMetricResults :: "CustomMetricResult list"
  as_TuningOverrides :: "string \<rightharpoonup> string"
  as_StorageRecommendations :: "Recommendation list"

definition EnrichMetrics :: "AdvancedSignals option \<Rightarrow> SolverInput \<Rightarrow> SolverInput" where
  "EnrichMetrics signals input = (case signals of
     None \<Rightarrow> input
   | Some s \<Rightarrow> if as_CustomMetricResults s = [] then input
       else input\<lparr>si_Metrics := foldl addMetric (si_Metrics input) (as_CustomMetricResults s)\<rparr>)"

definition EnrichTuning :: "AdvancedSignals option \<Rightarrow> ScalingAction \<Rightarrow> ScalingAction" where
  "EnrichTuning signals action = (case signals of
     None \<Rightarrow> action
   | Some s \<Rightarrow> action\<lparr>sa_TuningParams := sa_TuningParams action ++ as_TuningOverrides s\<rparr>)"

definition CustomMetricScore :: "AdvancedSignals option \<Rightarrow> f64" where
  "CustomMetricScore signals = (case signals of
     None \<Rightarrow> 0
   | Some s \<Rightarrow> if as_CustomMetricResults s = [] then 0 else Score (as_CustomMetricResults s))"

definition StorageMonthlySavings :: "AdvancedSignals option \<Rightarrow> f64" where
  "StorageMonthlySavings signals = (case signals of
     None \<Rightarrow> 0
   | Some s \<Rightarrow> if as_StorageRecommendations s = [] then 0
       else foldl (\<lambda>t r. t + re_EstMonthlySavings r) 0 (as_StorageRecommendations s))"

definition StorageHourlySavingsEstimate :: "AdvancedSignals option \<Rightarrow> f64" where
  "StorageHourlySavingsEstimate signals =
    (let monthly = StorageMonthlySavings signals in if feq monthly 0 then 0 else monthly / Fin 730)"

definition AdjustCostScore :: "f64 \<Rightarrow> f64 \<Rightarrow> AdvancedSignals option \<Rightarrow> f64" where
  "AdjustCostScore original hourlyCost signals =
    (let hourly = StorageHourlySavingsEstimate signals in
     if hourly \<le> 0 \<or> hourlyCost \<le> 0 then original
     else
       (let b = hourly / (hourly + hourlyCost);
            bonus = (if lit (1 / 5) < b then lit (1 / 5) else b);
            adjusted = original + bonus in
        if 1 < adjusted then 1 else adjusted))"

definition penalise :: "f64 \<Rightarrow> f64 \<Rightarrow> f64" where
  "penalise cmScore weighted = (if 0 < cmScore then
     (let v = weighted - cmScore * lit (1 / 10) in if v < 0 then 0 else v) else weighted)"

definition enrichCandidate :: "AdvancedSignals option \<Rightarrow> ScoredCandidate \<Rightarrow> ScoredCandidate" where
  "enrichCandidate signals c = c\<lparr>sd_Score := (sd_Score c)
     \<lparr>sc_Cost := AdjustCostScore (sc_Cost (sd_Score c)) (cp_EstimatedCost (sd_Plan c)) signals,
      sc_Weighted := penalise (CustomMetricScore signals) (sc_Weighted (sd_Score c))\<rparr>\<rparr>"

definition EnrichScoredCandidates :: "AdvancedSignals option \<Rightarrow> ScoredCandidate list \<Rightarrow> ScoredCandidate list" where
  "EnrichScoredCandidates signals scored = (if signals = None then scored else map (enrichCandidate signals) scored)"

section \<open>Lemmas\<close>

lemma length_runQueries: "length (fst (runQueries q ms is rs w)) = length rs"
  by (induction q ms "is" rs w rule: runQueries.induct) (auto split: prod.split)

text \<open>A Prometheus whose answers do not depend on when it is asked.\<close>

lemma runQueries_answers:
  assumes "\<And>s w. fst (query s w) = answers s"
  shows "i < length rs \<Longrightarrow> fst (runQueries query ms is rs w) ! i =
    (if i \<in> set is then metricResult (ms ! i) (answers (cm_Query (ms ! i))) else rs ! i)"
proof (induction "is" arbitrary: rs w)
  case (Cons j js)
  obtain a w1 where a: "query (cm_Query (ms ! j)) w = (a, w1)" by fastforce
  then have "a = answers (cm_Query (ms ! j))" using assms [of "cm_Query (ms ! j)" w] by simp
  then show ?case using Cons.IH [of "rs[j := metricResult (ms ! j) a]" w1] Cons.prems a by (auto simp: nth_list_update)
qed simp

lemma savings_hourly:
  assumes "inrange 0 (2 ^ 60) (StorageMonthlySavings s)"
  shows "inrange 0 (2 ^ 60) (StorageHourlySavingsEstimate s)"
proof -
  obtain r where r: "StorageMonthlySavings s = Fin r" "0 \<le> r" "r \<le> 2 ^ 60" using assms by (auto simp: inrange_iff)
  have "rep (2 ^ 60)" by (rule rep_pow2) simp
  then have "inrange 0 (2 ^ 60) (rnd (r / 730))" using r by (intro inrange_rnd) (auto intro: order_trans [of _ r])
  then show ?thesis using r by (auto simp: StorageHourlySavingsEstimate_def Let_def zero_Fin)
qed

lemma inrange_add_mono:
  assumes "inrange a b x" "inrange c d (x + y)" "inrange c d (x + z)" "y \<le> z"
  shows "x + y \<le> x + z"
proof -
  obtain p q r where pqr: "x = Fin p" "y = Fin q" "z = Fin r" using assms by (cases x; cases y; cases z) auto
  obtain s t where "rnd (p + q) = Fin s" "rnd (p + r) = Fin t" using assms(2,3) pqr by (auto simp: inrange_iff)
  then show ?thesis using rnd_mono_fin [of "p + q" "p + r" s t] assms(4) pqr by simp
qed

lemma capped_sum:
  assumes "unit64 x" "inrange 0 2 y" "inrange 0 2 z" "x \<le> y" "y \<le> z"
  shows "unit64 (if 1 < y then 1 else y) \<and> x \<le> (if 1 < y then 1 else y) \<and> (if 1 < y then 1 else y) \<le> z"
  using assms by (auto simp: inrange_iff one_Fin)

lemma diff_clamp:
  assumes "unit64 x" "Fin 0 \<le> t"
  shows "unit64 (if x - t < 0 then 0 else x - t) \<and> (if x - t < 0 then 0 else x - t) \<le> x"
proof -
  obtain p where p: "x = Fin p" "0 \<le> p" "p \<le> 1" "rep p" using assms(1) by (auto simp: inrange_iff)
  show ?thesis
  proof (cases t)
    case (Fin q)
    then have "rnd0 (p - q) \<le> p" using rnd0_mono [of "p - q" p] assms(2) p by (simp add: rep_rnd0)
    moreover have "p < pow2 1024" using p by (simp add: rep_rnd0)
    ultimately show ?thesis
      using p Fin rnd_rep [of "p - q"] by (auto simp: minus_f64_def rnd_rnd0 zero_Fin split: if_splits)
  qed (use assms p in \<open>auto simp: minus_f64_def zero_Fin\<close>)
qed

lemma penalise_range:
  assumes "unit64 x"
  shows "unit64 (penalise c x) \<and> penalise c x \<le> x"
proof (cases "0 < c")
  case True
  have tenth: "lit (1 / 10) = Fin (3602879701896397 / 36028797018963968)" by code_simp
  have "Fin 0 \<le> c" using True by (cases c) (auto simp: zero_Fin)
  then have "Fin 0 \<le> c * lit (1 / 10)" unfolding tenth by (intro nn_scale) simp_all
  from diff_clamp [OF assms this] show ?thesis using True by (simp add: penalise_def Let_def)
qed (use assms in \<open>auto simp: penalise_def inrange_iff\<close>)

lemma AdjustCostScore_range:
  assumes "inrange 0 (2 ^ 60) (StorageMonthlySavings s)" "unit64 original" "inrange 0 (2 ^ 60) hourlyCost"
  shows "unit64 (AdjustCostScore original hourlyCost s)" "original \<le> AdjustCostScore original hourlyCost s"
    "AdjustCostScore original hourlyCost s \<le> original + lit (1 / 5)"
proof -
  let ?h = "StorageHourlySavingsEstimate s" and ?a = "AdjustCostScore original hourlyCost s"
  let ?b = "?h / (?h + hourlyCost)"
  let ?bonus = "if lit (1 / 5) < ?b then lit (1 / 5) else ?b"
  have h: "inrange 0 (2 ^ 60) ?h" by (rule savings_hourly [OF assms(1)])
  have fifth: "unit64 (lit (1 / 5))" by (intro inrange_rnd) auto
  have refl: "original \<le> original" using assms(2) by (auto simp: inrange_iff)
  have up: "original \<le> original + lit (1 / 5)" by (rule inrange_add_ge [OF assms(2) fifth])
  consider (none) "?h \<le> 0 \<or> hourlyCost \<le> 0" | (some) "\<not> ?h \<le> 0" "\<not> hourlyCost \<le> 0" by blast
  then have "unit64 ?a \<and> original \<le> ?a \<and> ?a \<le> original + lit (1 / 5)"
  proof cases
    case none
    then show ?thesis using assms(2) refl up by (simp add: AdjustCostScore_def Let_def)
  next
    case some
    have sum: "inrange 0 (2 ^ 61) (?h + hourlyCost)" "?h \<le> ?h + hourlyCost"
      using inrange_add [OF h assms(3)] rep_pow2 [of 61] inrange_add_ge [OF h assms(3)] by simp_all
    have "unit64 ?b"
      using h some(1) sum by (intro unit64_div) (auto simp: inrange_iff zero_Fin)
    then have b: "unit64 ?bonus" "?bonus \<le> lit (1 / 5)" using fifth by (auto simp: inrange_iff)
    have ge: "original \<le> original + ?bonus" by (rule inrange_add_ge [OF assms(2) b(1)])
    have two: "inrange 0 2 (original + ?bonus)" "inrange 0 2 (original + lit (1 / 5))"
      using inrange_add [OF assms(2) b(1)] inrange_add [OF assms(2) fifth] rep_of_int [of 2] by simp_all
    have le: "original + ?bonus \<le> original + lit (1 / 5)" by (rule inrange_add_mono [OF assms(2) two b(2)])
    have a: "?a = (if 1 < original + ?bonus then 1 else original + ?bonus)" using some by (simp add: AdjustCostScore_def Let_def)
    show ?thesis unfolding a by (rule capped_sum [OF assms(2) two ge le])
  qed
  then show "unit64 ?a" "original \<le> ?a" "?a \<le> original + lit (1 / 5)" by simp_all
qed

lemma addMetric_result: "addMetric out (metricResult cm a) = (case a of Inl e \<Rightarrow> out | Inr v \<Rightarrow> out(cm_MetricName cm \<mapsto> v))"
  by (simp add: addMetric_def metricResult_def split: sum.split)

lemma foldl_addMetric:
  "foldl addMetric Map.empty (map (\<lambda>cm. metricResult cm (answers (cm_Query cm))) ms) n =
   map_option (\<lambda>cm. projr (answers (cm_Query cm))) (find (\<lambda>cm. cm_MetricName cm = n \<and> \<not> isl (answers (cm_Query cm))) (rev ms))"
  by (induction ms rule: rev_induct) (auto simp: addMetric_result split: sum.split)

section \<open>Properties\<close>


text \<open>Enriching keeps scores that lie between 0 and 1 there: with savings and cost estimates up to \<open>2 ^ 60\<close> the cost score never falls
  and rises by at most 0.2, the weighted score never rises, whatever the custom metrics, and every candidate keeps its plan, its
  other scores and its place.\<close>
theorem Enrich_bounds:
  assumes "inrange 0 (2 ^ 60) (StorageMonthlySavings signals)" "i < length scored" "c = scored ! i" "c' = EnrichScoredCandidates signals scored ! i"
    "unit64 (sc_Cost (sd_Score c))" "unit64 (sc_Weighted (sd_Score c))" "inrange 0 (2 ^ 60) (cp_EstimatedCost (sd_Plan c))"
  shows "unit64 (sc_Cost (sd_Score c')) \<and> sc_Cost (sd_Score c) \<le> sc_Cost (sd_Score c') \<and>
    sc_Cost (sd_Score c') \<le> sc_Cost (sd_Score c) + lit (1 / 5) \<and>
    unit64 (sc_Weighted (sd_Score c')) \<and> sc_Weighted (sd_Score c') \<le> sc_Weighted (sd_Score c) \<and>
    length (EnrichScoredCandidates signals scored) = length scored \<and> sd_Plan c' = sd_Plan c \<and> sd_Viable c' = sd_Viable c \<and>
    sc_SLO (sd_Score c') = sc_SLO (sd_Score c) \<and> sc_Carbon (sd_Score c') = sc_Carbon (sd_Score c) \<and> sc_Fairness (sd_Score c') = sc_Fairness (sd_Score c)"
proof (cases "signals = None")
  case True
  have "unit64 (lit (1 / 5))" by (intro inrange_rnd) auto
  then show ?thesis
    using assms True inrange_add_ge [OF assms(5)] by (auto simp: EnrichScoredCandidates_def inrange_iff)
next
  case False
  then obtain s where s: "signals = Some s" by auto
  then have "c' = enrichCandidate signals c" using assms(2-4) by (simp add: EnrichScoredCandidates_def)
  then show ?thesis
    using AdjustCostScore_range [OF assms(1,5,7)] penalise_range [OF assms(6), of "CustomMetricScore signals"]
    by (simp add: enrichCandidate_def EnrichScoredCandidates_def)
qed

definition demo_metric :: "string \<Rightarrow> string \<Rightarrow> CustomMetric" where
  "demo_metric n q = \<lparr>cm_MetricName = n, cm_Query = q, cm_Target = Fin 10, cm_Weight = Fin 1\<rparr>"


definition demo_signals :: AdvancedSignals where
  "demo_signals = \<lparr>as_CustomMetricResults = [metricResult (demo_metric ''a'' ''x'') (Inr (Fin 40))], as_TuningOverrides = Map.empty,
     as_StorageRecommendations = [recommendation DefaultCatalog demo_volume ProfileSequential (DefaultCatalog ! 2)]\<rparr>"

definition demo_enriched :: ScoredCandidate where
  "demo_enriched = \<lparr>sd_Plan = demo_plan 3, sd_Score = \<lparr>sc_SLO = 1, sc_Cost = 0, sc_Carbon = 1, sc_Fairness = 1, sc_Weighted = 1\<rparr>,
     sd_Constraints = [], sd_Viable = True\<rparr>"

lemma Enrich_bounds_witness:
  "0 \<le> sc_Cost (sd_Score (EnrichScoredCandidates (Some demo_signals) [demo_enriched] ! 0)) \<and>
   sc_Weighted (sd_Score (EnrichScoredCandidates (Some demo_signals) [demo_enriched] ! 0)) \<le> 1"
proof -
  have "inrange 0 (2 ^ 60) (StorageMonthlySavings (Some demo_signals))" by code_simp
  moreover have "unit64 (sc_Cost (sd_Score demo_enriched))" "unit64 (sc_Weighted (sd_Score demo_enriched))"
    "inrange 0 (2 ^ 60) (cp_EstimatedCost (sd_Plan demo_enriched))" by code_simp+
  moreover have "sc_Cost (sd_Score demo_enriched) = 0" "sc_Weighted (sd_Score demo_enriched) = 1" by (simp_all add: demo_enriched_def)
  ultimately show ?thesis using Enrich_bounds [of "Some demo_signals" 0 "[demo_enriched]" demo_enriched, OF _ _ _ refl] by simp
qed

end
