(* ===== verification/Simulator.thy ===== *)
theory Simulator
  imports Engine_Types
begin

text \<open>
  What-if simulation: \<open>internal/simulator/simulator.go\<close>, \<open>slo_cost_curve.go\<close> and \<open>providers.go\<close>, with the solvers that
  \<open>cmd/manager/main.go\<close> plugs in and the REST handlers of \<open>internal/api/whatif_api.go\<close>. Prometheus, the journal and
  the UUID library are functions on a world \<open>'w\<close>; a solver is a function of the snapshot. Times are nanoseconds since the zero
  time, so \<open>Truncate\<close> rounds down to a multiple of the step. Handlers that ignore the error of
  the JSON encoder, which refuses numbers that are not finite, send an empty body then.
\<close>

section \<open>Data\<close>

type_synonym DataPoint = "gotime \<times> f64"

record HistoricalDecision =
  hd_ID :: string
  hd_Timestamp :: gotime
  hd_Service :: string
  hd_Namespace :: string
  hd_Action :: ActionType
  hd_Replicas :: int
  hd_CPUCores :: f64
  hd_HourlyCost :: f64
  hd_SLOBreached :: bool

record SimulationSnapshot =
  sn_Timestamp :: gotime
  sn_Service :: string
  sn_CPUUsage :: f64
  sn_MemoryUsage :: f64
  sn_RequestRate :: f64
  sn_LatencyP99 :: f64
  sn_ErrorRate :: f64
  sn_Replicas :: int

record SimulatedAction =
  sim_Action :: string
  sim_Replicas :: int
  sim_CPUCores :: f64
  sim_HourlyCost :: f64
  sim_SLOBreached :: bool

record SimulatedStep =
  sp_Snapshot :: SimulationSnapshot
  sp_Original :: "HistoricalDecision option"
  sp_Simulated :: SimulatedAction

record SimulationRequest =
  sq_ID :: string
  sq_Services :: "string list"
  sq_Start :: gotime
  sq_End :: gotime
  sq_Step :: duration
  sq_Description :: string

record CostSummary =
  csu_TotalHourlyCost :: f64
  csu_AvgHourlyCost :: f64
  csu_PeakHourlyCost :: f64

definition emptyCost :: CostSummary where
  "emptyCost = \<lparr>csu_TotalHourlyCost = 0, csu_AvgHourlyCost = 0, csu_PeakHourlyCost = 0\<rparr>"

record SimulationResult =
  sr_ID :: string
  sr_Description :: string
  sr_Start :: gotime
  sr_End :: gotime
  sr_Duration :: string
  sr_Timeline :: "SimulatedStep list"
  sr_OriginalCost :: CostSummary
  sr_SimulatedCost :: CostSummary
  sr_CostDeltaPercent :: f64
  sr_OriginalSLOBreaches :: nat
  sr_SimulatedSLOBreaches :: nat
  sr_TotalSteps :: nat

type_synonym SolverFunc = "SimulationSnapshot \<Rightarrow> SimulatedAction"
type_synonym 'w HistoryProvider = "string \<Rightarrow> gotime \<Rightarrow> gotime \<Rightarrow> duration \<Rightarrow> 'w \<Rightarrow> (string + DataPoint list) \<times> 'w"
type_synonym 'w DecisionProvider = "string list \<Rightarrow> gotime \<Rightarrow> gotime \<Rightarrow> 'w \<Rightarrow> (string + HistoricalDecision list) \<times> 'w"

section \<open>Providers\<close>

datatype history_error = ErrNoData | HistoryError string

definition PrometheusHistory ::
  "(string \<Rightarrow> gotime \<Rightarrow> gotime \<Rightarrow> duration \<Rightarrow> 'w \<Rightarrow> (history_error + DataPoint list) \<times> 'w) \<Rightarrow> 'w HistoryProvider"
where
  "PrometheusHistory queryRange query start finish step w = (case queryRange query start finish step w of
     (Inl ErrNoData, w1) \<Rightarrow> (Inr [], w1)
   | (Inl (HistoryError e), w1) \<Rightarrow> (Inl e, w1)
   | (Inr points, w1) \<Rightarrow> (Inr points, w1))"

definition historicalDecision :: "DecisionRecord \<Rightarrow> HistoricalDecision" where
  "historicalDecision r = \<lparr>hd_ID = dr_ID r, hd_Timestamp = dr_Timestamp r, hd_Service = dr_Service r, hd_Namespace = dr_Namespace r,
     hd_Action = dr_ActionType r, hd_Replicas = sa_TargetReplica (dr_SelectedAction r), hd_CPUCores = sa_CPURequest (dr_SelectedAction r),
     hd_HourlyCost = cs_HourlyCost (dr_CurrentState r), hd_SLOBreached = (\<not> ss_Compliant (dr_SLOStatus r))\<rparr>"

definition addDecision :: "gotime \<Rightarrow> (string \<rightharpoonup> HistoricalDecision) \<Rightarrow> DecisionRecord \<Rightarrow> string \<rightharpoonup> HistoricalDecision" where
  "addDecision finish dedup r = (if finish < dr_Timestamp r then dedup else dedup(dr_ID r \<mapsto> historicalDecision r))"

text \<open>\<open>journal\<close> queries the decisions of a service since a time.\<close>

fun collectDecisions ::
  "(string \<Rightarrow> gotime \<Rightarrow> 'w \<Rightarrow> (string + DecisionRecord list) \<times> 'w) \<Rightarrow> gotime \<Rightarrow> gotime \<Rightarrow> string list \<Rightarrow>
   (string \<rightharpoonup> HistoricalDecision) \<Rightarrow> 'w \<Rightarrow> (string + (string \<rightharpoonup> HistoricalDecision)) \<times> 'w"
where
  "collectDecisions journal start finish [] dedup w = (Inr dedup, w)"
| "collectDecisions journal start finish (svc # svcs) dedup w = (case journal svc start w of
     (Inl e, w1) \<Rightarrow> (Inl e, w1)
   | (Inr records, w1) \<Rightarrow> collectDecisions journal start finish svcs (foldl (addDecision finish) dedup records) w1)"

text \<open>\<open>order\<close> gives the iteration order of the map.\<close>

definition JournalDecisions ::
  "(string \<Rightarrow> gotime \<Rightarrow> 'w \<Rightarrow> (string + DecisionRecord list) \<times> 'w) \<Rightarrow> ((string \<rightharpoonup> HistoricalDecision) \<Rightarrow> string list) \<Rightarrow> 'w DecisionProvider"
where
  "JournalDecisions journal order services start finish w = (if services = [] then (Inr [], w) else
     (case collectDecisions journal start finish services Map.empty w of
        (Inl e, w1) \<Rightarrow> (Inl e, w1)
      | (Inr dedup, w1) \<Rightarrow> (Inr (List.map_filter dedup (order dedup)), w1)))"

section \<open>Simulation\<close>

definition Unix :: "gotime \<Rightarrow> int" where
  "Unix t = t div 1000000000 - 62135596800"

definition Truncate :: "gotime \<Rightarrow> duration \<Rightarrow> gotime" where
  "Truncate t d = (if d \<le> 0 then t else t - t mod d)"

definition indexByTime :: "DataPoint list \<Rightarrow> int \<rightharpoonup> f64" where
  "indexByTime data = foldl (\<lambda>m (t, v). m(Unix t \<mapsto> v)) Map.empty data"

definition slotKey :: "string \<Rightarrow> gotime \<Rightarrow> duration \<Rightarrow> string" where
  "slotKey svc t step = svc @ ''@'' @ fmt_d (Unix (Truncate t step))"

definition decisionIndex :: "duration \<Rightarrow> HistoricalDecision list \<Rightarrow> string \<rightharpoonup> HistoricalDecision" where
  "decisionIndex step ds = foldl (\<lambda>m d. m(slotKey (hd_Service d) (hd_Timestamp d) step \<mapsto> d)) Map.empty ds"

definition orZeroAt :: "(int \<rightharpoonup> f64) \<Rightarrow> gotime \<Rightarrow> f64" where
  "orZeroAt m t = (case m (Unix t) of None \<Rightarrow> 0 | Some v \<Rightarrow> v)"

definition serviceLabel :: "string \<Rightarrow> string" where
  "serviceLabel svc = ''service='' @ [CHR 0x22] @ svc @ [CHR 0x22]"

definition cpuHistoryQuery :: "string \<Rightarrow> string" where
  "cpuHistoryQuery svc = ''avg(rate(container_cpu_usage_seconds_total{'' @ serviceLabel svc @ ''}[5m]))''"

definition latencyHistoryQuery :: "string \<Rightarrow> string" where
  "latencyHistoryQuery svc = ''histogram_quantile(0.99, rate(http_request_duration_seconds_bucket{'' @ serviceLabel svc @ ''}[5m]))''"

definition errorHistoryQuery :: "string \<Rightarrow> string" where
  "errorHistoryQuery svc = ''rate(http_requests_total{'' @ serviceLabel svc @ '',code=~'' @ [CHR 0x22] @ ''5..'' @ [CHR 0x22] @ ''}[5m])''"

definition rpsHistoryQuery :: "string \<Rightarrow> string" where
  "rpsHistoryQuery svc = ''rate(http_requests_total{'' @ serviceLabel svc @ ''}[5m])''"

definition simulateStep ::
  "SolverFunc \<Rightarrow> duration \<Rightarrow> (string \<rightharpoonup> HistoricalDecision) \<Rightarrow> (int \<rightharpoonup> f64) \<Rightarrow> (int \<rightharpoonup> f64) \<Rightarrow> (int \<rightharpoonup> f64) \<Rightarrow> string \<Rightarrow> DataPoint \<Rightarrow> SimulatedStep"
where
  "simulateStep solver step index latencyMap errorMap rpsMap svc dp =
    (let t = fst dp;
         snap = \<lparr>sn_Timestamp = t, sn_Service = svc, sn_CPUUsage = snd dp, sn_MemoryUsage = 0, sn_RequestRate = orZeroAt rpsMap t,
           sn_LatencyP99 = orZeroAt latencyMap t, sn_ErrorRate = orZeroAt errorMap t, sn_Replicas = 0\<rparr> in
     \<lparr>sp_Snapshot = snap, sp_Original = index (slotKey svc t step), sp_Simulated = solver snap\<rparr>)"

definition orEmpty :: "string + DataPoint list \<Rightarrow> DataPoint list" where
  "orEmpty r = (case r of Inl e \<Rightarrow> [] | Inr xs \<Rightarrow> xs)"

definition simulateService ::
  "'w HistoryProvider \<Rightarrow> SolverFunc \<Rightarrow> gotime \<Rightarrow> gotime \<Rightarrow> duration \<Rightarrow> (string \<rightharpoonup> HistoricalDecision) \<Rightarrow> string \<Rightarrow> 'w \<Rightarrow>
   (string + SimulatedStep list) \<times> 'w"
where
  "simulateService history solver start finish step index svc w =
    (case history (cpuHistoryQuery svc) start finish step w of
       (Inl e, w1) \<Rightarrow> (Inl (''fetching CPU history for '' @ svc @ '': '' @ e), w1)
     | (Inr cpuData, w1) \<Rightarrow>
       (case history (latencyHistoryQuery svc) start finish step w1 of (latency, w2) \<Rightarrow>
       (case history (errorHistoryQuery svc) start finish step w2 of (errors, w3) \<Rightarrow>
       (case history (rpsHistoryQuery svc) start finish step w3 of (rps, w4) \<Rightarrow>
         (Inr (map (simulateStep solver step index (indexByTime (orEmpty latency)) (indexByTime (orEmpty errors))
            (indexByTime (orEmpty rps)) svc) cpuData), w4)))))"

fun simulateAll where
  "simulateAll history solver start finish step index [] w = (Inr [], w)"
| "simulateAll history solver start finish step index (svc # svcs) w =
    (case simulateService history solver start finish step index svc w of
       (Inl e, w1) \<Rightarrow> (Inl e, w1)
     | (Inr steps, w1) \<Rightarrow> (case simulateAll history solver start finish step index svcs w1 of
         (Inl e, w2) \<Rightarrow> (Inl e, w2)
       | (Inr rest, w2) \<Rightarrow> (Inr (steps @ rest), w2)))"

text \<open>Total, number, peak and breaches of one side of the comparison.\<close>

record tally =
  ta_Total :: f64
  ta_Count :: nat
  ta_Peak :: f64
  ta_Breaches :: nat

definition addTally :: "tally \<Rightarrow> f64 \<times> bool \<Rightarrow> tally" where
  "addTally a x = (case x of (cost, breached) \<Rightarrow>
     \<lparr>ta_Total = ta_Total a + cost, ta_Count = ta_Count a + 1, ta_Peak = (if ta_Peak a < cost then cost else ta_Peak a),
      ta_Breaches = (if breached then ta_Breaches a + 1 else ta_Breaches a)\<rparr>)"

definition tallyOf :: "(f64 \<times> bool) list \<Rightarrow> tally" where
  "tallyOf xs = foldl addTally \<lparr>ta_Total = 0, ta_Count = 0, ta_Peak = 0, ta_Breaches = 0\<rparr> xs"

definition costSummary :: "tally \<Rightarrow> CostSummary" where
  "costSummary a = (if 0 < ta_Count a then \<lparr>csu_TotalHourlyCost = ta_Total a, csu_AvgHourlyCost = ta_Total a / of_int64 (int (ta_Count a)),
     csu_PeakHourlyCost = ta_Peak a\<rparr> else emptyCost)"

definition simulatedCosts :: "SimulatedStep list \<Rightarrow> (f64 \<times> bool) list" where
  "simulatedCosts steps = map (\<lambda>s. (sim_HourlyCost (sp_Simulated s), sim_SLOBreached (sp_Simulated s))) steps"

definition originalCosts :: "SimulatedStep list \<Rightarrow> (f64 \<times> bool) list" where
  "originalCosts steps = map (\<lambda>d. (hd_HourlyCost d, hd_SLOBreached d)) (List.map_filter sp_Original steps)"

definition buildResult :: "SimulationRequest \<Rightarrow> SimulatedStep list \<Rightarrow> SimulationResult" where
  "buildResult req timeline =
    (let sim = tallyOf (simulatedCosts timeline); orig = tallyOf (originalCosts timeline) in
     \<lparr>sr_ID = sq_ID req, sr_Description = sq_Description req, sr_Start = sq_Start req, sr_End = sq_End req,
      sr_Duration = duration_string (time_sub (sq_End req) (sq_Start req)), sr_Timeline = timeline,
      sr_OriginalCost = costSummary orig, sr_SimulatedCost = costSummary sim,
      sr_CostDeltaPercent = (if 0 < ta_Count orig \<and> 0 < ta_Total orig
        then (ta_Total sim - ta_Total orig) / ta_Total orig * Fin 100 else 0),
      sr_OriginalSLOBreaches = ta_Breaches orig, sr_SimulatedSLOBreaches = ta_Breaches sim, sr_TotalSteps = length timeline\<rparr>)"

definition defaultStep :: "duration \<Rightarrow> duration" where
  "defaultStep step = (if step \<le> 0 then 5 * minute else step)"

definition RunSimulation ::
  "'w HistoryProvider \<Rightarrow> 'w DecisionProvider \<Rightarrow> SolverFunc \<Rightarrow> SimulationRequest \<Rightarrow> 'w \<Rightarrow> (string + SimulationResult) \<times> 'w"
where
  "RunSimulation history decisions solver req w =
    (if sq_Services req = [] then (Inl ''no services specified'', w)
     else if sq_End req < sq_Start req \<or> sq_End req = sq_Start req then (Inl ''end time must be after start time'', w)
     else
      (let step = defaultStep (sq_Step req) in
       case decisions (sq_Services req) (sq_Start req) (sq_End req) w of
         (Inl e, w1) \<Rightarrow> (Inl (''fetching decisions: '' @ e), w1)
       | (Inr actual, w1) \<Rightarrow>
         (case simulateAll history solver (sq_Start req) (sq_End req) step (decisionIndex step actual) (sq_Services req) w1 of
            (Inl e, w2) \<Rightarrow> (Inl e, w2)
          | (Inr timeline, w2) \<Rightarrow> (Inr (buildResult (req\<lparr>sq_Step := step\<rparr>) timeline), w2))))"

section \<open>SLO-cost curves\<close>

record SLOCurveRequest =
  sl_Service :: string
  sl_Start :: gotime
  sl_End :: gotime
  sl_Step :: duration
  sl_SLOMetric :: string
  sl_MinTarget :: f64
  sl_MaxTarget :: f64
  sl_Steps :: int

record CurvePoint =
  cu_SLOTarget :: f64
  cu_ProjectedMonthlyCost :: f64
  cu_ProjectedCompliancePct :: f64
  cu_AvgReplicas :: f64
  cu_SLOBreaches :: nat
  cu_TotalSteps :: nat

type_synonym SLOCurveSolverFactory = "string \<Rightarrow> f64 \<Rightarrow> SolverFunc"

text \<open>\<open>time.Duration.Hours\<close>.\<close>

definition Hours :: "duration \<Rightarrow> f64" where
  "Hours d = of_int64 (d sdiv (60 * minute)) + of_int64 (d smod (60 * minute)) / Fin 3600000000000"

definition averageReplicas :: "SimulatedStep list \<Rightarrow> f64" where
  "averageReplicas timeline = (if timeline = [] then 0 else
     foldl (\<lambda>t s. t + of_int64 (sim_Replicas (sp_Simulated s))) 0 timeline / of_int64 (int (length timeline)))"

definition compliancePct :: "nat \<Rightarrow> nat \<Rightarrow> f64" where
  "compliancePct steps breaches = (if 0 < steps then of_int64 (int steps - int breaches) / of_int64 (int steps) * Fin 100 else Fin 100)"

definition monthlyCost :: "f64 \<Rightarrow> SimulationResult \<Rightarrow> f64" where
  "monthlyCost windowHours r =
    (if 0 < csu_AvgHourlyCost (sr_SimulatedCost r) then csu_AvgHourlyCost (sr_SimulatedCost r) * Fin 730
     else if 0 < windowHours \<and> 0 < csu_TotalHourlyCost (sr_SimulatedCost r)
     then csu_TotalHourlyCost (sr_SimulatedCost r) / of_int64 (int (sr_TotalSteps r)) * Fin 730 else 0)"

definition curvePoint :: "f64 \<Rightarrow> f64 \<Rightarrow> SimulationResult \<Rightarrow> CurvePoint" where
  "curvePoint windowHours target r = \<lparr>cu_SLOTarget = target, cu_ProjectedMonthlyCost = monthlyCost windowHours r,
     cu_ProjectedCompliancePct = compliancePct (sr_TotalSteps r) (sr_SimulatedSLOBreaches r), cu_AvgReplicas = averageReplicas (sr_Timeline r),
     cu_SLOBreaches = sr_SimulatedSLOBreaches r, cu_TotalSteps = sr_TotalSteps r\<rparr>"

definition curveRequest :: "SLOCurveRequest \<Rightarrow> nat \<Rightarrow> SimulationRequest" where
  "curveRequest req i = \<lparr>sq_ID = ''slo-curve-'' @ sl_Service req @ ''-'' @ fmt_d (int i), sq_Services = [sl_Service req],
     sq_Start = sl_Start req, sq_End = sl_End req, sq_Step = sl_Step req, sq_Description = []\<rparr>"

fun sweep where
  "sweep history decisions factory req stepSize windowHours [] w = (Inr [], w)"
| "sweep history decisions factory req stepSize windowHours (i # is) w =
    (let target = sl_MinTarget req + of_int64 (int i) * stepSize in
     case RunSimulation history decisions (factory (sl_SLOMetric req) target) (curveRequest req i) w of
       (Inl e, w1) \<Rightarrow> (Inl (''simulation at target '' @ fmt_f 4 target @ '': '' @ e), w1)
     | (Inr r, w1) \<Rightarrow> (case sweep history decisions factory req stepSize windowHours is w1 of
         (Inl e, w2) \<Rightarrow> (Inl e, w2)
       | (Inr points, w2) \<Rightarrow> (Inr (curvePoint windowHours target r # points), w2)))"

definition GenerateCurve ::
  "'w HistoryProvider \<Rightarrow> 'w DecisionProvider \<Rightarrow> SLOCurveSolverFactory \<Rightarrow> SLOCurveRequest \<Rightarrow> 'w \<Rightarrow> (string + CurvePoint list) \<times> 'w"
where
  "GenerateCurve history decisions factory req0 w =
    (if sl_Service req0 = [] then (Inl ''service is required'', w)
     else if sl_End req0 < sl_Start req0 \<or> sl_End req0 = sl_Start req0 then (Inl ''end time must be after start time'', w)
     else
      (let req = req0\<lparr>sl_Steps := (if sl_Steps req0 \<le> 0 then 10 else sl_Steps req0), sl_Step := defaultStep (sl_Step req0)\<rparr> in
       if sl_Steps req = 1 \<and> sl_MaxTarget req < sl_MinTarget req then (Inl ''min_target must be less than or equal to max_target'', w)
       else if sl_Steps req \<noteq> 1 \<and> sl_MaxTarget req \<le> sl_MinTarget req then (Inl ''min_target must be less than max_target'', w)
       else
        (let stepSize = (if 1 < sl_Steps req then (sl_MaxTarget req - sl_MinTarget req) / of_int64 (sl_Steps req - 1) else 0);
             hours = Hours (time_sub (sl_End req) (sl_Start req));
             windowHours = (if hours \<le> 0 then 1 else hours) in
         sweep history decisions factory req stepSize windowHours [0..<nat (sl_Steps req)] w)))"

section \<open>The solvers of the manager\<close>

definition scaled :: "int \<Rightarrow> f64 \<Rightarrow> f64" where
  "scaled replicas unit = unit * of_int64 replicas"

definition whatIfSolverFunc :: SolverFunc where
  "whatIfSolverFunc snapshot =
    (let replicas = (if Fin 300 < sn_RequestRate snapshot \<or> 1 < sn_CPUUsage snapshot then 3
           else if Fin 120 < sn_RequestRate snapshot \<or> lit (6 / 10) < sn_CPUUsage snapshot then 2 else 1);
         replicas' = (if 0 < sn_Replicas snapshot \<and> replicas = 1 then sn_Replicas snapshot else replicas) in
     \<lparr>sim_Action = ''no_action'', sim_Replicas = replicas', sim_CPUCores = scaled replicas' (lit (1 / 2)),
      sim_HourlyCost = scaled replicas' (lit (12 / 100)),
      sim_SLOBreached = (lit (1 / 100) < sn_ErrorRate snapshot \<or> lit (1 / 2) < sn_LatencyP99 snapshot)\<rparr>)"

definition curveFactory :: SLOCurveSolverFactory where
  "curveFactory metric target snapshot =
    (let base = whatIfSolverFunc snapshot;
         n0 = sim_Replicas base;
         n1 = (if metric = ''availability'' then
           (if lit (999 / 1000) \<le> target then wrap32 (n0 + 1)
            else if target \<le> lit (992 / 1000) \<and> 1 < n0 then wrap32 (n0 - 1) else n0) else n0);
         n2 = (if n1 < 1 then 1 else n1) in
     base\<lparr>sim_Replicas := n2, sim_CPUCores := scaled n2 (lit (1 / 2)), sim_HourlyCost := scaled n2 (lit (12 / 100))\<rparr>)"

section \<open>REST handlers\<close>

datatype 'a http_body = Body 'a | ErrorText string | EmptyBody

definition jsonNumber :: "f64 \<Rightarrow> bool" where
  "jsonNumber x = (case x of Fin _ \<Rightarrow> True | _ \<Rightarrow> False)"

definition encodeBody :: "f64 list \<Rightarrow> 'a \<Rightarrow> 'a http_body" where
  "encodeBody numbers v = (if list_all jsonNumber numbers then Body v else EmptyBody)"

definition costNumbers :: "CostSummary \<Rightarrow> f64 list" where
  "costNumbers c = [csu_TotalHourlyCost c, csu_AvgHourlyCost c, csu_PeakHourlyCost c]"

definition stepNumbers :: "SimulatedStep \<Rightarrow> f64 list" where
  "stepNumbers s = [sn_CPUUsage (sp_Snapshot s), sn_MemoryUsage (sp_Snapshot s), sn_RequestRate (sp_Snapshot s), sn_LatencyP99 (sp_Snapshot s),
     sn_ErrorRate (sp_Snapshot s), sim_CPUCores (sp_Simulated s), sim_HourlyCost (sp_Simulated s)] @
     (case sp_Original s of None \<Rightarrow> [] | Some d \<Rightarrow> [hd_CPUCores d, hd_HourlyCost d])"

definition resultNumbers :: "SimulationResult \<Rightarrow> f64 list" where
  "resultNumbers r = sr_CostDeltaPercent r # costNumbers (sr_OriginalCost r) @ costNumbers (sr_SimulatedCost r) @ concat (map stepNumbers (sr_Timeline r))"

definition pointNumbers :: "CurvePoint \<Rightarrow> f64 list" where
  "pointNumbers p = [cu_SLOTarget p, cu_ProjectedMonthlyCost p, cu_ProjectedCompliancePct p, cu_AvgReplicas p]"

record 'w WhatIfAPIHandler =
  wh_history :: "'w HistoryProvider option"
  wh_decisions :: "'w DecisionProvider option"
  wh_solverFunc :: "SolverFunc option"
  wh_curveFactory :: "SLOCurveSolverFactory option"
  wh_results :: "string \<rightharpoonup> SimulationResult"

definition NewWhatIfAPIHandler where
  "NewWhatIfAPIHandler history decisions solverFunc factory = \<lparr>wh_history = history, wh_decisions = decisions, wh_solverFunc = solverFunc,
     wh_curveFactory = factory, wh_results = Map.empty\<rparr>"

record simulationRequestBody =
  sb_Services :: "string list"
  sb_Start :: gotime
  sb_End :: gotime
  sb_Step :: duration
  sb_Description :: string

text \<open>The decoded body of the request, none when it is not JSON of that shape; \<open>uuid\<close> gives fresh ids.\<close>

definition handleRunSimulation ::
  "('w \<Rightarrow> string \<times> 'w) \<Rightarrow> simulationRequestBody option \<Rightarrow> 'w WhatIfAPIHandler \<Rightarrow> 'w \<Rightarrow>
   (nat \<times> SimulationResult http_body) \<times> 'w WhatIfAPIHandler \<times> 'w"
where
  "handleRunSimulation uuid req h w = (case (wh_history h, wh_decisions h, wh_solverFunc h) of
     (Some history, Some decisions, Some solver) \<Rightarrow>
       (case req of
          None \<Rightarrow> ((400, ErrorText ''invalid JSON body''), h, w)
        | Some b \<Rightarrow>
          if sb_Services b = [] then ((400, ErrorText ''services is required''), h, w)
          else if sb_End b = 0 \<or> sb_Start b = 0 then ((400, ErrorText ''start and end are required''), h, w)
          else if \<not> sb_Start b < sb_End b then ((400, ErrorText ''end must be after start''), h, w)
          else (case uuid w of (ident, w1) \<Rightarrow>
            (case RunSimulation history decisions solver \<lparr>sq_ID = ident, sq_Services = sb_Services b, sq_Start = sb_Start b, sq_End = sb_End b,
                sq_Step = sb_Step b, sq_Description = sb_Description b\<rparr> w1 of
               (Inl e, w2) \<Rightarrow> ((500, ErrorText (''simulation failed: '' @ e)), h, w2)
             | (Inr r, w2) \<Rightarrow> ((201, encodeBody (resultNumbers r) r), h\<lparr>wh_results := (wh_results h)(ident \<mapsto> r)\<rparr>, w2))))
   | _ \<Rightarrow> ((503, ErrorText ''what-if simulator is not configured on this cluster-agent''), h, w))"

definition handleGetSimulation :: "string \<Rightarrow> 'w WhatIfAPIHandler \<Rightarrow> nat \<times> SimulationResult http_body" where
  "handleGetSimulation ident h = (if ident = [] then (400, ErrorText ''missing id'')
     else (case wh_results h ident of
       None \<Rightarrow> (404, ErrorText ''not found'')
     | Some r \<Rightarrow> (200, encodeBody (resultNumbers r) r)))"

definition handleSLOCostCurve ::
  "SLOCurveRequest option \<Rightarrow> 'w WhatIfAPIHandler \<Rightarrow> 'w \<Rightarrow> (nat \<times> (string \<times> string \<times> CurvePoint list) http_body) \<times> 'w"
where
  "handleSLOCostCurve req h w = (case (wh_history h, wh_decisions h, wh_curveFactory h) of
     (Some history, Some decisions, Some factory) \<Rightarrow>
       (case req of
          None \<Rightarrow> ((400, ErrorText ''invalid JSON body''), w)
        | Some b \<Rightarrow> (case GenerateCurve history decisions factory b w of
            (Inl e, w1) \<Rightarrow> ((400, ErrorText (''curve generation failed: '' @ e)), w1)
          | (Inr points, w1) \<Rightarrow> ((200, encodeBody (concat (map pointNumbers points)) (sl_Service b, sl_SLOMetric b, points)), w1)))
   | _ \<Rightarrow> ((503, ErrorText ''slo-cost curve simulator is not configured on this cluster-agent''), w))"

section \<open>Lemmas\<close>

lemma tally_loop:
  "ta_Count (foldl addTally a xs) = ta_Count a + length xs"
  "ta_Breaches (foldl addTally a xs) = ta_Breaches a + length (filter snd xs)"
  by (induction xs arbitrary: a) (auto simp: addTally_def split: prod.split)

lemma tallyOf_counts: "ta_Count (tallyOf xs) = length xs" "ta_Breaches (tallyOf xs) = length (filter snd xs)"
  by (simp_all add: tallyOf_def tally_loop)

text \<open>Whatever the costs, none is above the peak.\<close>

lemma peak_keeps: "\<not> ta_Peak a < x \<Longrightarrow> \<not> ta_Peak (foldl addTally a xs) < x"
proof (induction xs arbitrary: a)
  case (Cons y ys)
  have tr: "p < q \<Longrightarrow> q < x \<Longrightarrow> p < x" for p q :: f64 by (cases p; cases q; cases x) auto
  have "\<not> ta_Peak (addTally a y) < x" using Cons.prems tr by (cases y) (auto simp: addTally_def)
  from Cons.IH [OF this] show ?case by simp
qed simp

lemma peak_all: "x \<in> fst ` set xs \<Longrightarrow> \<not> ta_Peak (foldl addTally a xs) < x"
proof (induction xs arbitrary: a)
  case (Cons y ys)
  have irr: "\<not> x < x" by (cases x) auto
  show ?case
  proof (cases "x = fst y")
    case True
    then have "\<not> ta_Peak (addTally a y) < x" using irr by (auto simp: addTally_def split: prod.split)
    from peak_keeps [OF this] show ?thesis by simp
  qed (use Cons in auto)
qed simp

lemma digits_no_at: "CHR ''@'' \<notin> set (digits n)"
  using digits_range [of "CHR ''@''" n] by fastforce

lemma fmt_d_no_at: "CHR ''@'' \<notin> set (fmt_d n)"
  using digits_no_at by (auto simp: fmt_d_def)

lemma slotKey_eq: "slotKey a t d = slotKey b u d \<longleftrightarrow> a = b \<and> Unix (Truncate t d) = Unix (Truncate u d)"
  using append_sep_inj [of a "CHR ''@''" "fmt_d (Unix (Truncate t d))" b "fmt_d (Unix (Truncate u d))"]
  by (auto simp: slotKey_def fmt_d_inj fmt_d_no_at)

lemma decisionIndex_slot:
  "decisionIndex step ds k = Some d \<Longrightarrow> d \<in> set ds \<and> k = slotKey (hd_Service d) (hd_Timestamp d) step"
proof -
  have "\<forall>k d. decisionIndex step ds k = Some d \<longrightarrow> d \<in> set ds \<and> k = slotKey (hd_Service d) (hd_Timestamp d) step"
    unfolding decisionIndex_def
    by (rule foldl_inv [where P = "\<lambda>m. \<forall>k d. m k = Some d \<longrightarrow> d \<in> set ds \<and> k = slotKey (hd_Service d) (hd_Timestamp d) step"]) simp_all
  then show "decisionIndex step ds k = Some d \<Longrightarrow> d \<in> set ds \<and> k = slotKey (hd_Service d) (hd_Timestamp d) step" by blast
qed

text \<open>Every step of a timeline is a simulated step of one of the services.\<close>

lemma simulateAll_steps:
  assumes "simulateAll history solver start finish step index svcs w = (Inr steps, w')" "s \<in> set steps"
  shows "\<exists>svc \<in> set svcs. \<exists>l e q dp. s = simulateStep solver step index l e q svc dp"
  using assms
proof (induction svcs arbitrary: steps w w')
  case (Cons svc svcs)
  obtain a w1 where a: "simulateService history solver start finish step index svc w = (Inr a, w1)"
    using Cons.prems(1) by (cases "simulateService history solver start finish step index svc w"; cases "fst (simulateService history solver start finish step index svc w)") auto
  obtain b w2 where b: "simulateAll history solver start finish step index svcs w1 = (Inr b, w2)" "steps = a @ b"
    using Cons.prems(1) a by (auto split: prod.splits sum.splits)
  have "\<exists>l e q dp. s = simulateStep solver step index l e q svc dp" if "s \<in> set a"
    using a that by (auto simp: simulateService_def split: prod.splits sum.splits) blast
  then show ?case using Cons.IH [OF b(1)] Cons.prems(2) b(2) by auto
qed simp

lemma RunSimulation_ok:
  assumes "RunSimulation history decisions solver req w = (Inr r, w')"
  obtains actual w1 steps where "sq_Services req \<noteq> []" "sq_Start req < sq_End req"
    "decisions (sq_Services req) (sq_Start req) (sq_End req) w = (Inr actual, w1)"
    "simulateAll history solver (sq_Start req) (sq_End req) (defaultStep (sq_Step req)) (decisionIndex (defaultStep (sq_Step req)) actual)
       (sq_Services req) w1 = (Inr steps, w')"
    "r = buildResult (req\<lparr>sq_Step := defaultStep (sq_Step req)\<rparr>) steps"
  using assms by (auto simp: RunSimulation_def Let_def split: if_splits prod.splits sum.splits)

text \<open>A history whose answers do not depend on when it is asked.\<close>

lemma simulateService_det:
  assumes "\<And>q w. fst (history q a b d w) = answers q"
  shows "fst (simulateService history solver a b d i svc w) = (case answers (cpuHistoryQuery svc) of
    Inl e \<Rightarrow> Inl (''fetching CPU history for '' @ svc @ '': '' @ e)
  | Inr cpu \<Rightarrow> Inr (map (simulateStep solver d i (indexByTime (orEmpty (answers (latencyHistoryQuery svc))))
      (indexByTime (orEmpty (answers (errorHistoryQuery svc)))) (indexByTime (orEmpty (answers (rpsHistoryQuery svc)))) svc) cpu))"
proof -
  have h: "\<exists>w'. history q a b d w = (answers q, w')" for q w using assms [of q w] by (metis prod.collapse)
  obtain w1 where 1: "history (cpuHistoryQuery svc) a b d w = (answers (cpuHistoryQuery svc), w1)" using h by blast
  obtain w2 where 2: "history (latencyHistoryQuery svc) a b d w1 = (answers (latencyHistoryQuery svc), w2)" using h by blast
  obtain w3 where 3: "history (errorHistoryQuery svc) a b d w2 = (answers (errorHistoryQuery svc), w3)" using h by blast
  obtain w4 where 4: "history (rpsHistoryQuery svc) a b d w3 = (answers (rpsHistoryQuery svc), w4)" using h by blast
  show ?thesis by (simp add: simulateService_def 1 2 3 4 split: sum.split)
qed

definition breachFlags :: "SimulatedStep list \<Rightarrow> bool list" where
  "breachFlags steps = map (\<lambda>s. sim_SLOBreached (sp_Simulated s)) steps"

lemma simulateAll_flags:
  assumes "\<And>q w. fst (history q a b d w) = answers q" "\<And>snap. sim_SLOBreached (solver snap) = sim_SLOBreached (solver' snap)"
  shows "map_sum id breachFlags (fst (simulateAll history solver a b d i svcs w)) = map_sum id breachFlags (fst (simulateAll history solver' a b d i svcs w'))"
proof (induction svcs arbitrary: w w')
  case (Cons svc svcs)
  obtain x w1 x' w1' where x: "simulateService history solver a b d i svc w = (x, w1)" "simulateService history solver' a b d i svc w' = (x', w1')" by fastforce
  obtain y w2 y' w2' where y: "simulateAll history solver a b d i svcs w1 = (y, w2)" "simulateAll history solver' a b d i svcs w1' = (y', w2')" by fastforce
  have "map_sum id breachFlags x = map_sum id breachFlags x'"
    using simulateService_det [of history a b d answers solver i svc w, OF assms(1)] simulateService_det [of history a b d answers solver' i svc w', OF assms(1)] x assms(2)
    by (auto simp: breachFlags_def simulateStep_def Let_def split: sum.splits)
  moreover have "map_sum id breachFlags y = map_sum id breachFlags y'" using Cons.IH [of w1 w1'] y by (simp add: id_def)
  ultimately show ?case using x y by (cases x; cases x'; cases y; cases y') (auto simp: breachFlags_def)
qed simp

lemma breaches_flags:
  "sr_SimulatedSLOBreaches (buildResult req steps) = length (filter id (breachFlags steps))" "sr_TotalSteps (buildResult req steps) = length (breachFlags steps)"
  by (simp_all add: buildResult_def Let_def tallyOf_counts simulatedCosts_def breachFlags_def filter_map comp_def)

lemma RunSimulation_flags:
  assumes "\<And>q w. fst (history q (sq_Start req) (sq_End req) (defaultStep (sq_Step req)) w) = answers q"
    "\<And>w. fst (decisions (sq_Services req) (sq_Start req) (sq_End req) w) = actual"
    "\<And>snap. sim_SLOBreached (solver snap) = sim_SLOBreached (solver' snap)"
    "RunSimulation history decisions solver req w = (Inr r, w1)" "RunSimulation history decisions solver' req' w' = (Inr r', w1')"
    "sq_Services req' = sq_Services req" "sq_Start req' = sq_Start req" "sq_End req' = sq_End req" "sq_Step req' = sq_Step req"
  shows "sr_TotalSteps r = sr_TotalSteps r' \<and> sr_SimulatedSLOBreaches r = sr_SimulatedSLOBreaches r'"
proof -
  let ?d = "defaultStep (sq_Step req)"
  obtain as u steps where 1: "decisions (sq_Services req) (sq_Start req) (sq_End req) w = (Inr as, u)"
    "simulateAll history solver (sq_Start req) (sq_End req) ?d (decisionIndex ?d as) (sq_Services req) u = (Inr steps, w1)"
    "r = buildResult (req\<lparr>sq_Step := ?d\<rparr>) steps" by (rule RunSimulation_ok [OF assms(4)])
  obtain as' u' steps' where 2: "decisions (sq_Services req) (sq_Start req) (sq_End req) w' = (Inr as', u')"
    "simulateAll history solver' (sq_Start req) (sq_End req) ?d (decisionIndex ?d as') (sq_Services req) u' = (Inr steps', w1')"
    "r' = buildResult (req'\<lparr>sq_Step := ?d\<rparr>) steps'" by (rule RunSimulation_ok [OF assms(5)]) (simp add: assms(6-9))
  have "as = as'" using assms(2) [of w] assms(2) [of w'] 1(1) 2(1) by (metis fst_conv sum.inject(2))
  then have "breachFlags steps = breachFlags steps'"
    using simulateAll_flags [of history "sq_Start req" "sq_End req" ?d answers solver solver' "decisionIndex ?d as" "sq_Services req" u u', OF assms(1,3)]
      1(2) 2(2) by simp
  then show ?thesis using 1(3) 2(3) by (simp add: breaches_flags)
qed

lemma result_peak:
  assumes "s \<in> set steps"
  shows "\<not> csu_PeakHourlyCost (sr_SimulatedCost (buildResult req steps)) < sim_HourlyCost (sp_Simulated s)"
proof -
  have "sim_HourlyCost (sp_Simulated s) \<in> fst ` set (simulatedCosts steps)" using assms by (auto simp: simulatedCosts_def image_image)
  moreover have "0 < length (simulatedCosts steps)" using assms by (auto simp: simulatedCosts_def)
  then have "csu_PeakHourlyCost (sr_SimulatedCost (buildResult req steps)) = ta_Peak (tallyOf (simulatedCosts steps))"
    by (simp add: buildResult_def Let_def costSummary_def tallyOf_counts)
  ultimately show ?thesis using peak_all unfolding tallyOf_def by simp
qed

lemma sweep_points:
  assumes "sweep history decisions factory req sz hours is w = (Inr ps, w')"
  shows "length ps = length is \<and> (\<forall>k < length is. \<exists>target r u u'. target = sl_MinTarget req + of_int64 (int (is ! k)) * sz \<and>
    RunSimulation history decisions (factory (sl_SLOMetric req) target) (curveRequest req (is ! k)) u = (Inr r, u') \<and> ps ! k = curvePoint hours target r)"
  using assms
proof (induction "is" arbitrary: ps w)
  case (Cons i js)
  let ?t = "sl_MinTarget req + of_int64 (int i) * sz"
  obtain r w1 where r: "RunSimulation history decisions (factory (sl_SLOMetric req) ?t) (curveRequest req i) w = (Inr r, w1)"
    using Cons.prems by (auto simp: Let_def split: prod.splits sum.splits)
  obtain qs where qs: "sweep history decisions factory req sz hours js w1 = (Inr qs, w')" "ps = curvePoint hours ?t r # qs"
    using Cons.prems r by (auto simp: Let_def split: prod.splits sum.splits)
  show ?case using Cons.IH [OF qs(1)] r qs(2) by (auto simp: nth_Cons split: nat.split)
qed simp

lemma sweep_set:
  assumes "sweep history decisions factory req sz hours is w = (Inr ps, w')" "p \<in> set ps"
  obtains target i r u u' where
    "RunSimulation history decisions (factory (sl_SLOMetric req) target) (curveRequest req i) u = (Inr r, u')" "p = curvePoint hours target r"
  using sweep_points [OF assms(1)] assms(2) by (metis in_set_conv_nth)

lemma GenerateCurve_ok:
  assumes "GenerateCurve history decisions factory req0 w = (Inr ps, w')"
  obtains req sz hours where "sweep history decisions factory req sz hours [0..<nat (sl_Steps req)] w = (Inr ps, w')"
    "sl_Steps req = (if sl_Steps req0 \<le> 0 then 10 else sl_Steps req0)" "sl_Step req = defaultStep (sl_Step req0)"
    "sl_Start req = sl_Start req0" "sl_End req = sl_End req0" "sl_Service req = sl_Service req0" "sl_SLOMetric req = sl_SLOMetric req0"
    "sl_Start req0 < sl_End req0"
proof -
  let ?req = "req0\<lparr>sl_Steps := (if sl_Steps req0 \<le> 0 then 10 else sl_Steps req0), sl_Step := defaultStep (sl_Step req0)\<rparr>"
  let ?sz = "if 1 < sl_Steps ?req then (sl_MaxTarget ?req - sl_MinTarget ?req) / of_int64 (sl_Steps ?req - 1) else 0"
  let ?hours = "if Hours (time_sub (sl_End ?req) (sl_Start ?req)) \<le> 0 then 1 else Hours (time_sub (sl_End ?req) (sl_Start ?req))"
  have c: "(sl_Service req0 = []) = False" "(sl_End req0 < sl_Start req0 \<or> sl_End req0 = sl_Start req0) = False"
    "(sl_Steps ?req = 1 \<and> sl_MaxTarget ?req < sl_MinTarget ?req) = False" "(sl_Steps ?req \<noteq> 1 \<and> sl_MaxTarget ?req \<le> sl_MinTarget ?req) = False"
    using assms unfolding GenerateCurve_def Let_def by (metis Inl_Inr_False prod.inject)+
  have "sweep history decisions factory ?req ?sz ?hours [0..<nat (sl_Steps ?req)] w = (Inr ps, w')"
    using assms unfolding GenerateCurve_def Let_def c if_False .
  then show ?thesis by (rule that) (use c(2) in auto)
qed

lemma breaches_le: "RunSimulation history decisions solver req w = (Inr r, w') \<Longrightarrow> sr_SimulatedSLOBreaches r \<le> sr_TotalSteps r"
  by (erule RunSimulation_ok) (simp add: breaches_flags length_filter_le)

lemma compliancePct_range:
  assumes "b \<le> n" "n \<le> 2 ^ 53"
  shows "inrange 0 100 (compliancePct n b)"
proof (cases "n = 0")
  case False
  have e: "of_int64 (int n - int b) = Fin (of_nat n - of_nat b)" "of_int64 (int n) = Fin (of_nat n)"
    using assms by (simp_all add: of_int64_exact)
  have "unit64 (rnd ((of_nat n - of_nat b) / of_nat n))" using assms False by (intro inrange_rnd) auto
  then have "unit64 (of_int64 (int n - int b) / of_int64 (int n))" using False by (simp add: e)
  from inrange_mult [OF this, of 100 "Fin 100"] show ?thesis using False rep_of_int [of 100] by (simp add: compliancePct_def)
qed (use rep_of_int [of 100] in \<open>simp add: compliancePct_def\<close>)

section \<open>Properties\<close>

text \<open>A simulation that succeeds ran on at least one service and a window that is not empty. Each step of its timeline is the solver's answer
  to its own snapshot of a requested service; the recorded decision beside it, if any, is one that was fetched, of the same service and
  the same slot of time; steps and breaches are counted exactly, so breaches never exceed steps, and no cost of the timeline is above the peak.\<close>
theorem RunSimulation_accounts:
  assumes "RunSimulation history decisions solver req w = (Inr r, w')"
    "decisions (sq_Services req) (sq_Start req) (sq_End req) w = (Inr actual, w1)"
  shows "sq_Services req \<noteq> [] \<and> sq_Start req < sq_End req \<and> sr_TotalSteps r = length (sr_Timeline r) \<and>
    sr_SimulatedSLOBreaches r = length (filter (\<lambda>s. sim_SLOBreached (sp_Simulated s)) (sr_Timeline r)) \<and>
    sr_SimulatedSLOBreaches r \<le> sr_TotalSteps r \<and> sr_OriginalSLOBreaches r \<le> sr_TotalSteps r \<and>
    (\<forall>s \<in> set (sr_Timeline r). sn_Service (sp_Snapshot s) \<in> set (sq_Services req) \<and> sp_Simulated s = solver (sp_Snapshot s) \<and>
      \<not> csu_PeakHourlyCost (sr_SimulatedCost r) < sim_HourlyCost (sp_Simulated s) \<and>
      (\<forall>d. sp_Original s = Some d \<longrightarrow> d \<in> set actual \<and> hd_Service d = sn_Service (sp_Snapshot s) \<and>
        Unix (Truncate (hd_Timestamp d) (defaultStep (sq_Step req))) = Unix (Truncate (sn_Timestamp (sp_Snapshot s)) (defaultStep (sq_Step req)))))"
proof -
  obtain steps where r: "sq_Services req \<noteq> []" "sq_Start req < sq_End req"
    "simulateAll history solver (sq_Start req) (sq_End req) (defaultStep (sq_Step req)) (decisionIndex (defaultStep (sq_Step req)) actual)
       (sq_Services req) w1 = (Inr steps, w')"
    "r = buildResult (req\<lparr>sq_Step := defaultStep (sq_Step req)\<rparr>) steps"
    using RunSimulation_ok [OF assms(1)] assms(2) by (metis prod.inject sum.inject(2))
  have t: "sr_Timeline r = steps" "sr_TotalSteps r = length steps" by (simp_all add: r(4) buildResult_def Let_def)
  have b: "sr_SimulatedSLOBreaches r = length (filter (\<lambda>s. sim_SLOBreached (sp_Simulated s)) steps)"
    by (simp add: r(4) buildResult_def Let_def tallyOf_counts simulatedCosts_def filter_map comp_def)
  have "length (filter snd (originalCosts steps)) \<le> length (originalCosts steps)" by (rule length_filter_le)
  also have "\<dots> \<le> length steps" by (simp add: originalCosts_def List.map_filter_def)
  finally have o: "sr_OriginalSLOBreaches r \<le> length steps" by (simp add: r(4) buildResult_def Let_def tallyOf_counts)
  have "sn_Service (sp_Snapshot s) \<in> set (sq_Services req) \<and> sp_Simulated s = solver (sp_Snapshot s) \<and>
      (\<forall>d. sp_Original s = Some d \<longrightarrow> d \<in> set actual \<and> hd_Service d = sn_Service (sp_Snapshot s) \<and>
        Unix (Truncate (hd_Timestamp d) (defaultStep (sq_Step req))) = Unix (Truncate (sn_Timestamp (sp_Snapshot s)) (defaultStep (sq_Step req))))"
    if "s \<in> set steps" for s
    using simulateAll_steps [OF r(3) that] by (auto simp: simulateStep_def Let_def slotKey_eq dest!: decisionIndex_slot)
  moreover have "\<not> csu_PeakHourlyCost (sr_SimulatedCost r) < sim_HourlyCost (sp_Simulated s)" if "s \<in> set steps" for s
    unfolding r(4) by (rule result_peak [OF that])
  ultimately show ?thesis unfolding t b using r(1,2) o by (simp add: length_filter_le)
qed

text \<open>A curve that is generated has one point per requested target, ten by default, and in each point (of up to \<open>2 ^ 53\<close> steps) the
  breaches do not exceed the steps and the compliance lies between 0 and 100 percent.\<close>
theorem GenerateCurve_points:
  assumes "GenerateCurve history decisions factory req w = (Inr ps, w')" "\<forall>p \<in> set ps. cu_TotalSteps p \<le> 2 ^ 53"
  shows "length ps = (if sl_Steps req \<le> 0 then 10 else nat (sl_Steps req)) \<and>
    (\<forall>p \<in> set ps. cu_SLOBreaches p \<le> cu_TotalSteps p \<and> inrange 0 100 (cu_ProjectedCompliancePct p))"
proof -
  obtain req' sz hours where s: "sweep history decisions factory req' sz hours [0..<nat (sl_Steps req')] w = (Inr ps, w')"
    "sl_Steps req' = (if sl_Steps req \<le> 0 then 10 else sl_Steps req)" by (rule GenerateCurve_ok [OF assms(1)])
  have "cu_SLOBreaches p \<le> cu_TotalSteps p \<and> inrange 0 100 (cu_ProjectedCompliancePct p)" if p: "p \<in> set ps" for p
  proof -
    obtain target i r u u' where r: "RunSimulation history decisions (factory (sl_SLOMetric req') target) (curveRequest req' i) u = (Inr r, u')"
      "p = curvePoint hours target r" by (rule sweep_set [OF s(1) p])
    show ?thesis
      using breaches_le [OF r(1)] assms(2) p r(2) compliancePct_range [of "sr_SimulatedSLOBreaches r" "sr_TotalSteps r"] by (auto simp: curvePoint_def)
  qed
  then show ?thesis using sweep_points [OF s(1)] s(2) by simp
qed

text \<open>With the solvers the manager plugs in, the compliance of a curve does not depend on the target: over a history and decisions that
  do not change while the curve is computed, all its points have the same breaches, steps and compliance.\<close>
theorem curve_compliance_flat:
  assumes "GenerateCurve history decisions curveFactory req w = (Inr ps, w')" "p \<in> set ps" "q \<in> set ps"
    "\<And>x w. fst (history x (sl_Start req) (sl_End req) (defaultStep (sl_Step req)) w) = answers x"
    "\<And>w. fst (decisions [sl_Service req] (sl_Start req) (sl_End req) w) = actual"
  shows "cu_SLOBreaches p = cu_SLOBreaches q \<and> cu_TotalSteps p = cu_TotalSteps q \<and> cu_ProjectedCompliancePct p = cu_ProjectedCompliancePct q"
proof -
  obtain req' sz hours where s: "sweep history decisions curveFactory req' sz hours [0..<nat (sl_Steps req')] w = (Inr ps, w')"
    "sl_Step req' = defaultStep (sl_Step req)" "sl_Start req' = sl_Start req" "sl_End req' = sl_End req" "sl_Service req' = sl_Service req"
    by (rule GenerateCurve_ok [OF assms(1)])
  obtain t i r u u' where r: "RunSimulation history decisions (curveFactory (sl_SLOMetric req') t) (curveRequest req' i) u = (Inr r, u')"
    "p = curvePoint hours t r" by (rule sweep_set [OF s(1) assms(2)])
  obtain t2 j r2 v v' where r2: "RunSimulation history decisions (curveFactory (sl_SLOMetric req') t2) (curveRequest req' j) v = (Inr r2, v')"
    "q = curvePoint hours t2 r2" by (rule sweep_set [OF s(1) assms(3)])
  have "defaultStep (defaultStep (sl_Step req)) = defaultStep (sl_Step req)" by (simp add: defaultStep_def)
  then have "sr_TotalSteps r = sr_TotalSteps r2 \<and> sr_SimulatedSLOBreaches r = sr_SimulatedSLOBreaches r2"
    using assms(4,5) s by (intro RunSimulation_flags [OF _ _ _ r(1) r2(1)]) (simp_all add: curveRequest_def curveFactory_def Let_def)
  then show ?thesis using r(2) r2(2) by (simp add: curvePoint_def)
qed

text \<open>A simulation that was answered as created is read back under its id with the same body, and every other id answers as before.\<close>
theorem simulate_then_get:
  assumes "handleRunSimulation uuid req h w = ((201, body), h', w')" "uuid w = (ident, w1)" "ident \<noteq> []"
  shows "handleGetSimulation ident h' = (200, body) \<and> (\<forall>i. i \<noteq> ident \<longrightarrow> handleGetSimulation i h' = handleGetSimulation i h)"
  using assms by (auto simp: handleRunSimulation_def handleGetSimulation_def split: option.splits if_splits prod.splits sum.splits)

section \<open>A small history\<close>

definition demo_history :: "nat HistoryProvider" where
  "demo_history q a b d w = (Inr [(63800000000000000000, lit (1 / 4)), (63800000300000000000, lit (7 / 10))], Suc w)"

definition demo_decisions :: "nat DecisionProvider" where
  "demo_decisions svcs a b w = (Inr [\<lparr>hd_ID = ''d'', hd_Timestamp = 63800000010000000000, hd_Service = ''web'', hd_Namespace = ''shop'', hd_Action = ActionNoAction,
     hd_Replicas = 2, hd_CPUCores = 1, hd_HourlyCost = lit (1 / 2), hd_SLOBreached = False\<rparr>], Suc w)"

definition demo_request :: SimulationRequest where
  "demo_request = \<lparr>sq_ID = ''s'', sq_Services = [''web''], sq_Start = 63800000000000000000, sq_End = 63800000600000000000, sq_Step = 0, sq_Description = []\<rparr>"

definition demo_curve :: SLOCurveRequest where
  "demo_curve = \<lparr>sl_Service = ''web'', sl_Start = 63800000000000000000, sl_End = 63800000600000000000, sl_Step = 0, sl_SLOMetric = ''availability'',
     sl_MinTarget = Fin (1 / 2), sl_MaxTarget = Fin 1, sl_Steps = 2\<rparr>"

lemma demo_runs:
  assumes "sq_Services req = [''web'']" "sq_Start req < sq_End req"
  shows "\<exists>r w'. RunSimulation demo_history demo_decisions solver req w = (Inr r, w') \<and> sr_TotalSteps r = 2"
  using assms by (simp add: RunSimulation_def demo_decisions_def simulateService_def demo_history_def buildResult_def Let_def)

lemma RunSimulation_accounts_witness:
  "\<exists>r w'. RunSimulation demo_history demo_decisions whatIfSolverFunc demo_request 0 = (Inr r, w') \<and> sr_TotalSteps r = length (sr_Timeline r) \<and>
     sr_SimulatedSLOBreaches r \<le> sr_TotalSteps r"
proof -
  obtain r w' where r: "RunSimulation demo_history demo_decisions whatIfSolverFunc demo_request 0 = (Inr r, w')"
    using demo_runs [of demo_request whatIfSolverFunc 0] by (auto simp: demo_request_def)
  obtain ds w1 where "demo_decisions (sq_Services demo_request) (sq_Start demo_request) (sq_End demo_request) 0 = (Inr ds, w1)" by (simp add: demo_decisions_def)
  from RunSimulation_accounts [OF r this] r show ?thesis by blast
qed

lemma demo_curve_points:
  obtains ps w' where "GenerateCurve demo_history demo_decisions curveFactory demo_curve 0 = (Inr ps, w')" "length ps = 2" "\<forall>p \<in> set ps. cu_TotalSteps p = 2"
proof -
  have run: "\<exists>r w'. RunSimulation demo_history demo_decisions solver (curveRequest req i) w = (Inr r, w') \<and> sr_TotalSteps r = 2"
    if "sl_Service req = ''web''" "sl_Start req < sl_End req" for solver i w req by (rule demo_runs) (simp_all add: curveRequest_def that)
  have sw: "\<exists>ps w'. sweep demo_history demo_decisions curveFactory req sz hours is w = (Inr ps, w') \<and> length ps = length is \<and> (\<forall>p \<in> set ps. cu_TotalSteps p = 2)"
    if r: "sl_Service req = ''web''" "sl_Start req < sl_End req" for sz hours "is" w req
  proof (induction "is" arbitrary: w)
    case (Cons i js)
    obtain r w1 where 1: "RunSimulation demo_history demo_decisions (curveFactory (sl_SLOMetric req) (sl_MinTarget req + of_int64 (int i) * sz)) (curveRequest req i) w = (Inr r, w1)"
      "sr_TotalSteps r = 2" using run [OF r] by blast
    obtain ps w2 where "sweep demo_history demo_decisions curveFactory req sz hours js w1 = (Inr ps, w2)" "length ps = length js" "\<forall>p \<in> set ps. cu_TotalSteps p = 2"
      using Cons by blast
    then show ?case using 1 by (auto simp: Let_def curvePoint_def)
  qed simp
  have "\<exists>ps w'. GenerateCurve demo_history demo_decisions curveFactory demo_curve 0 = (Inr ps, w') \<and> length ps = 2 \<and> (\<forall>p \<in> set ps. cu_TotalSteps p = 2)"
  proof -
    let ?req = "demo_curve\<lparr>sl_Steps := (if sl_Steps demo_curve \<le> 0 then 10 else sl_Steps demo_curve), sl_Step := defaultStep (sl_Step demo_curve)\<rparr>"
    have d: "sl_Service demo_curve = ''web''" "sl_Start demo_curve < sl_End demo_curve" "sl_Steps ?req = 2" "\<not> sl_MaxTarget demo_curve \<le> sl_MinTarget demo_curve"
      by (simp_all add: demo_curve_def)
    obtain sz hours where g: "GenerateCurve demo_history demo_decisions curveFactory demo_curve 0 =
        sweep demo_history demo_decisions curveFactory ?req sz hours [0..<nat (sl_Steps ?req)] 0"
      using d unfolding GenerateCurve_def Let_def by (simp del: sweep.simps)
    have l: "length [0..<nat (sl_Steps ?req)] = 2" using d(3) by simp
    have r: "sl_Service ?req = ''web''" "sl_Start ?req < sl_End ?req" using d by simp_all
    show ?thesis using sw [OF r, of sz hours "[0..<nat (sl_Steps ?req)]" 0] unfolding g l .
  qed
  then show ?thesis using that by blast
qed

lemma GenerateCurve_points_witness:
  "\<exists>ps w'. GenerateCurve demo_history demo_decisions curveFactory demo_curve 0 = (Inr ps, w') \<and> length ps = 2 \<and>
     (\<forall>p \<in> set ps. inrange 0 100 (cu_ProjectedCompliancePct p))"
proof -
  obtain ps w' where ps: "GenerateCurve demo_history demo_decisions curveFactory demo_curve 0 = (Inr ps, w')" "\<forall>p \<in> set ps. cu_TotalSteps p = 2"
    by (rule demo_curve_points)
  have "\<forall>p \<in> set ps. cu_TotalSteps p \<le> 2 ^ 53" using ps(2) by simp
  from GenerateCurve_points [OF ps(1) this] ps(1) show ?thesis by (auto simp: demo_curve_def)
qed

lemma curve_compliance_flat_witness:
  "\<exists>ps w'. GenerateCurve demo_history demo_decisions curveFactory demo_curve 0 = (Inr ps, w') \<and> cu_ProjectedCompliancePct (hd ps) = cu_ProjectedCompliancePct (last ps)"
proof -
  obtain ps w' where ps: "GenerateCurve demo_history demo_decisions curveFactory demo_curve 0 = (Inr ps, w')" "length ps = 2" by (rule demo_curve_points)
  have d: "fst (demo_history x a b d w) = Inr [(63800000000000000000, lit (1 / 4)), (63800000300000000000, lit (7 / 10))]" for x a b d w
    by (simp add: demo_history_def)
  have e: "fst (demo_decisions [sl_Service demo_curve] a b w) = fst (demo_decisions [] 0 0 0)" for a b w by (simp add: demo_decisions_def)
  have "hd ps \<in> set ps" "last ps \<in> set ps" using ps(2) by (cases ps; auto)+
  from curve_compliance_flat [OF ps(1) this d e] ps(1) show ?thesis by blast
qed

lemma simulate_then_get_witness:
  "let h = NewWhatIfAPIHandler (Some demo_history) (Some demo_decisions) (Some whatIfSolverFunc) None;
       b = \<lparr>sb_Services = [''web''], sb_Start = 63800000000000000000, sb_End = 63800000600000000000, sb_Step = 0, sb_Description = []\<rparr> in
   case handleRunSimulation (\<lambda>w. (''id'', w)) (Some b) h 0 of ((status, body), h', w') \<Rightarrow> handleGetSimulation ''id'' h' = (200, body)"
proof -
  let ?h = "NewWhatIfAPIHandler (Some demo_history) (Some demo_decisions) (Some whatIfSolverFunc) None"
  let ?b = "\<lparr>sb_Services = [''web''], sb_Start = 63800000000000000000, sb_End = 63800000600000000000, sb_Step = 0, sb_Description = []\<rparr>"
  obtain body h' w' where r: "handleRunSimulation (\<lambda>w. (''id'', w)) (Some ?b) ?h 0 = ((201, body), h', w')"
    using demo_runs [of "\<lparr>sq_ID = ''id'', sq_Services = [''web''], sq_Start = 63800000000000000000, sq_End = 63800000600000000000, sq_Step = 0, sq_Description = []\<rparr>" whatIfSolverFunc 0]
    by (auto simp: handleRunSimulation_def NewWhatIfAPIHandler_def)
  from simulate_then_get [OF this] show ?thesis by (simp add: r)
qed

end
