(* ===== verification/Hub.thy ===== *)
theory Hub
  imports Global_Solver
begin

text \<open>
  The hub-and-spoke protocol: the messages and the in-memory service of the hub
  (\<open>internal/global/grpc/messages.go\<close>, \<open>hub_server.go\<close>) and the agent of a workload cluster
  (\<open>internal/global/spoke\<close>). Every operation of the service holds its mutex from the first access of the
  maps to the return, so an operation is one step; the context, the gRPC transport and the JSON codec are
  not under \<open>src\<close>: the agent's client is a record of functions on a world \<open>'w\<close> that may fail, and the
  adapters of the server are applied to the result of the decoder. The clock reading is an argument of the
  operations that read it.

  The locale \<open>directive_source\<close> is what the rest of the system relies on in the hub's queues; the model's
  own operations interpret it, and the step relation of hub, network and agents at the end rests on it.
\<close>

section \<open>Messages\<close>

record Capabilities =
  cb_GPUEnabled :: bool
  cb_SpotEnabled :: bool
  cb_IstioEnabled :: bool
  cb_GatewayAPIEnabled :: bool
  cb_MaxNodes :: int

record CostProfileMsg =
  cm_CoreCostPerHourUSD :: string
  cm_MemoryGiBCostPerHourUSD :: string
  cm_SpotDiscountPercent :: int

record RegisterClusterRequest =
  rq_ClusterName :: string
  rq_Provider :: string
  rq_Region :: string
  rq_Endpoint :: string
  rq_CarbonIntensityGCO2 :: f64
  rq_Labels :: "string \<rightharpoonup> string"
  rq_Capabilities :: "Capabilities option"
  rq_CostProfile :: "CostProfileMsg option"

record RegisterClusterResponse =
  rs_Accepted :: bool
  rs_Message :: string
  rs_HeartbeatIntervalS :: int

record ClusterStatusReport =
  sr_ClusterName :: string
  sr_TotalCores :: f64
  sr_UsedCores :: f64
  sr_TotalMemoryGiB :: f64
  sr_UsedMemoryGiB :: f64
  sr_NodeCount :: int
  sr_SLOCompliancePercent :: f64
  sr_HourlyCostUSD :: f64
  sr_Health :: string
  sr_Timestamp :: gotime

record StatusAck =
  sa_Received :: bool
  sa_Message :: string

record GetDirectiveRequest =
  gd_ClusterName :: string

record GetDirectiveResponse =
  gd_Directives :: "Directive list"

record TrafficShiftRequest =
  tq_ClusterName :: string
  tq_Service :: string
  tq_Weights :: "string \<rightharpoonup> int"
  tq_Reason :: string

record TrafficShiftResponse =
  tp_Accepted :: bool
  tp_Message :: string

text \<open>The gRPC status of a refused call: \<open>codes.InvalidArgument\<close> with its text, or \<open>codes.NotFound\<close> with
  the cluster named in \<open>cluster %q not registered\<close>.\<close>

datatype hub_error = InvalidArgument string | NotRegistered string

section \<open>The in-memory service\<close>

record MemoryHubService =
  hs_clusters :: "string \<rightharpoonup> RegisterClusterRequest"
  hs_lastStatus :: "string \<rightharpoonup> ClusterStatusReport"
  hs_directives :: "string \<rightharpoonup> Directive list"
  hs_heartbeatTTL :: duration

definition NewMemoryHubService :: MemoryHubService where
  "NewMemoryHubService = \<lparr>hs_clusters = Map.empty, hs_lastStatus = Map.empty, hs_directives = Map.empty,
     hs_heartbeatTTL = 5 * minute\<rparr>"

definition RegisterCluster ::
  "RegisterClusterRequest \<Rightarrow> MemoryHubService \<Rightarrow> (hub_error + RegisterClusterResponse) \<times> MemoryHubService" where
  "RegisterCluster req m =
    (if rq_ClusterName req = [] then (Inl (InvalidArgument ''clusterName is required''), m)
     else (Inr \<lparr>rs_Accepted = True, rs_Message = ''registered'', rs_HeartbeatIntervalS = 30\<rparr>,
           m\<lparr>hs_clusters := (hs_clusters m)(rq_ClusterName req \<mapsto> req)\<rparr>))"

definition ReportStatus ::
  "gotime \<Rightarrow> ClusterStatusReport \<Rightarrow> MemoryHubService \<Rightarrow> (hub_error + StatusAck) \<times> MemoryHubService" where
  "ReportStatus now report m =
    (if sr_ClusterName report = [] then (Inl (InvalidArgument ''clusterName is required''), m)
     else if hs_clusters m (sr_ClusterName report) = None then (Inl (NotRegistered (sr_ClusterName report)), m)
     else
      let report' = (if sr_Timestamp report = 0 then report\<lparr>sr_Timestamp := now\<rparr> else report) in
      (Inr \<lparr>sa_Received = True, sa_Message = ''ok''\<rparr>,
       m\<lparr>hs_lastStatus := (hs_lastStatus m)(sr_ClusterName report \<mapsto> report')\<rparr>))"

definition GetDirective ::
  "GetDirectiveRequest \<Rightarrow> MemoryHubService \<Rightarrow> (hub_error + GetDirectiveResponse) \<times> MemoryHubService" where
  "GetDirective req m =
    (if gd_ClusterName req = [] then (Inl (InvalidArgument ''clusterName is required''), m)
     else
      let pending = (case hs_directives m (gd_ClusterName req) of Some ds \<Rightarrow> ds | None \<Rightarrow> []) in
      (Inr \<lparr>gd_Directives = pending\<rparr>,
       m\<lparr>hs_directives := (hs_directives m)(gd_ClusterName req := None)\<rparr>))"

definition RequestTrafficShift ::
  "TrafficShiftRequest \<Rightarrow> MemoryHubService \<Rightarrow> (hub_error + TrafficShiftResponse) \<times> MemoryHubService" where
  "RequestTrafficShift req m =
    (if tq_ClusterName req = [] \<or> tq_Service req = []
     then (Inl (InvalidArgument ''clusterName and service are required''), m)
     else (Inr \<lparr>tp_Accepted = True, tp_Message = ''acknowledged''\<rparr>, m))"

definition EnqueueDirective :: "string \<Rightarrow> Directive \<Rightarrow> MemoryHubService \<Rightarrow> MemoryHubService" where
  "EnqueueDirective clusterName d m =
    m\<lparr>hs_directives := (hs_directives m)(clusterName \<mapsto>
        (case hs_directives m clusterName of Some ds \<Rightarrow> ds | None \<Rightarrow> []) @ [d])\<rparr>"

text \<open>\<open>GetRegistered\<close> collects the keys in the order of a \<open>range\<close> over the map, an argument.\<close>

definition GetRegistered :: "string list \<Rightarrow> MemoryHubService \<Rightarrow> string list" where
  "GetRegistered order m = foldl (\<lambda>names n. if hs_clusters m n = None then names else names @ [n]) [] order"

definition GetLastStatus :: "MemoryHubService \<Rightarrow> string \<Rightarrow> ClusterStatusReport option" where
  "GetLastStatus m clusterName = hs_lastStatus m clusterName"

definition IsHealthy :: "gotime \<Rightarrow> MemoryHubService \<Rightarrow> string \<Rightarrow> bool" where
  "IsHealthy now m clusterName =
    (case hs_lastStatus m clusterName of
       None \<Rightarrow> False
     | Some st \<Rightarrow> time_sub now (sr_Timestamp st) \<le> hs_heartbeatTTL m)"

text \<open>The adapters of the gRPC server: the request the decoder delivers, or its error.\<close>

definition rpcHandler ::
  "('r \<Rightarrow> MemoryHubService \<Rightarrow> (hub_error + 'a) \<times> MemoryHubService) \<Rightarrow> string + 'r \<Rightarrow> MemoryHubService \<Rightarrow>
     (hub_error + 'a) \<times> MemoryHubService" where
  "rpcHandler svc decoded m =
    (case decoded of Inl e \<Rightarrow> (Inl (InvalidArgument (''decode: '' @ e)), m) | Inr req \<Rightarrow> svc req m)"

definition handleRegisterCluster where "handleRegisterCluster decoded m = rpcHandler RegisterCluster decoded m"
definition handleReportStatus where "handleReportStatus now decoded m = rpcHandler (ReportStatus now) decoded m"
definition handleGetDirective where "handleGetDirective decoded m = rpcHandler GetDirective decoded m"
definition handleRequestTrafficShift where
  "handleRequestTrafficShift decoded m = rpcHandler RequestTrafficShift decoded m"

section \<open>Collector and handler\<close>

record StaticCollector =
  st_ClusterName :: string
  st_TotalCores :: f64
  st_UsedCores :: f64
  st_TotalMemoryGiB :: f64
  st_UsedMemoryGiB :: f64
  st_NodeCount :: int
  st_SLOCompliancePercent :: f64
  st_HourlyCostUSD :: f64
  st_Health :: string

definition StaticCollect :: "StaticCollector \<Rightarrow> gotime \<Rightarrow> ClusterStatusReport" where
  "StaticCollect s now =
    \<lparr>sr_ClusterName = st_ClusterName s, sr_TotalCores = st_TotalCores s, sr_UsedCores = st_UsedCores s,
     sr_TotalMemoryGiB = st_TotalMemoryGiB s, sr_UsedMemoryGiB = st_UsedMemoryGiB s,
     sr_NodeCount = st_NodeCount s, sr_SLOCompliancePercent = st_SLOCompliancePercent s,
     sr_HourlyCostUSD = st_HourlyCostUSD s, sr_Health = st_Health s, sr_Timestamp = now\<rparr>"

definition LogHandle :: "Directive \<Rightarrow> Directive list \<Rightarrow> string option \<times> Directive list" where
  "LogHandle d handled = (None, handled @ [d])"

section \<open>The spoke agent\<close>

datatype AgentState = StateDisconnected | StateRegistered | StateRunning | StateStopped

record RegistrationInfo =
  ri_ClusterName :: string
  ri_Provider :: string
  ri_Region :: string
  ri_Endpoint :: string
  ri_CarbonIntensityGCO2 :: f64
  ri_Labels :: "string \<rightharpoonup> string"
  ri_Capabilities :: "Capabilities option"
  ri_CostProfile :: "CostProfileMsg option"

datatype agent_error =
    ErrDial string string
  | ErrConnect string agent_error
  | ErrRpc string string
  | ErrRejected string
  | ErrRegister agent_error
  | ErrCollect string
  | ErrReport agent_error
  | ErrNotAcknowledged string
  | ErrGetDirectives agent_error

text \<open>The calls of \<open>SpokeClient\<close>, the collector, the handler and the clock, on a world \<open>'w\<close>; a failed call
  carries the transport's text.\<close>

record 'w SpokeDeps =
  InvokeRegister :: "RegisterClusterRequest \<Rightarrow> 'w \<Rightarrow> (string + RegisterClusterResponse) \<times> 'w"
  InvokeReport :: "ClusterStatusReport \<Rightarrow> 'w \<Rightarrow> (string + StatusAck) \<times> 'w"
  InvokeGetDirective :: "GetDirectiveRequest \<Rightarrow> 'w \<Rightarrow> (string + GetDirectiveResponse) \<times> 'w"
  InvokeTrafficShift :: "TrafficShiftRequest \<Rightarrow> 'w \<Rightarrow> (string + TrafficShiftResponse) \<times> 'w"
  Collect :: "'w \<Rightarrow> (string + ClusterStatusReport) \<times> 'w"
  HandleDirective :: "Directive \<Rightarrow> 'w \<Rightarrow> string option \<times> 'w"
  nowFn :: "'w \<Rightarrow> gotime \<times> 'w"

definition clientCall :: "string \<Rightarrow> (string + 'a) \<times> 'w \<Rightarrow> (agent_error + 'a) \<times> 'w" where
  "clientCall method r = (case r of (Inl e, w) \<Rightarrow> (Inl (ErrRpc method e), w) | (Inr x, w) \<Rightarrow> (Inr x, w))"

definition clientRegisterCluster ::
  "'w SpokeDeps \<Rightarrow> RegisterClusterRequest \<Rightarrow> 'w \<Rightarrow> (agent_error + RegisterClusterResponse) \<times> 'w" where
  "clientRegisterCluster D req w = clientCall ''RegisterCluster'' (InvokeRegister D req w)"

definition clientReportStatus ::
  "'w SpokeDeps \<Rightarrow> ClusterStatusReport \<Rightarrow> 'w \<Rightarrow> (agent_error + StatusAck) \<times> 'w" where
  "clientReportStatus D report w = clientCall ''ReportStatus'' (InvokeReport D report w)"

definition clientGetDirective ::
  "'w SpokeDeps \<Rightarrow> string \<Rightarrow> 'w \<Rightarrow> (agent_error + GetDirectiveResponse) \<times> 'w" where
  "clientGetDirective D clusterName w =
     clientCall ''GetDirective'' (InvokeGetDirective D \<lparr>gd_ClusterName = clusterName\<rparr> w)"

definition clientRequestTrafficShift ::
  "'w SpokeDeps \<Rightarrow> TrafficShiftRequest \<Rightarrow> 'w \<Rightarrow> (agent_error + TrafficShiftResponse) \<times> 'w" where
  "clientRequestTrafficShift D req w = clientCall ''RequestTrafficShift'' (InvokeTrafficShift D req w)"

record SpokeAgent =
  ag_hubAddr :: string
  ag_info :: RegistrationInfo
  ag_heartbeatInterval :: duration
  ag_directivePollInterval :: duration
  ag_state :: AgentState
  ag_lastHeartbeat :: gotime
  ag_heartbeatCount :: int
  ag_directiveCount :: int
  ag_lastErr :: "agent_error option"

definition WithHeartbeatInterval :: "duration \<Rightarrow> SpokeAgent \<Rightarrow> SpokeAgent" where
  "WithHeartbeatInterval d a = a\<lparr>ag_heartbeatInterval := d\<rparr>"

definition WithDirectivePollInterval :: "duration \<Rightarrow> SpokeAgent \<Rightarrow> SpokeAgent" where
  "WithDirectivePollInterval d a = a\<lparr>ag_directivePollInterval := d\<rparr>"

definition NewSpokeAgent :: "string \<Rightarrow> RegistrationInfo \<Rightarrow> (SpokeAgent \<Rightarrow> SpokeAgent) list \<Rightarrow> SpokeAgent" where
  "NewSpokeAgent hubAddr info opts =
    foldl (\<lambda>a opt. opt a)
      \<lparr>ag_hubAddr = hubAddr, ag_info = info, ag_heartbeatInterval = 30 * second,
       ag_directivePollInterval = 10 * second, ag_state = StateDisconnected, ag_lastHeartbeat = 0,
       ag_heartbeatCount = 0, ag_directiveCount = 0, ag_lastErr = None\<rparr> opts"

definition agentSetState :: "AgentState \<Rightarrow> SpokeAgent \<Rightarrow> SpokeAgent" where
  "agentSetState s a = a\<lparr>ag_state := s\<rparr>"

definition setError :: "agent_error \<Rightarrow> SpokeAgent \<Rightarrow> SpokeAgent" where
  "setError e a = a\<lparr>ag_lastErr := Some e\<rparr>"

definition registerRequest :: "RegistrationInfo \<Rightarrow> RegisterClusterRequest" where
  "registerRequest i =
    \<lparr>rq_ClusterName = ri_ClusterName i, rq_Provider = ri_Provider i, rq_Region = ri_Region i,
     rq_Endpoint = ri_Endpoint i, rq_CarbonIntensityGCO2 = ri_CarbonIntensityGCO2 i, rq_Labels = ri_Labels i,
     rq_Capabilities = ri_Capabilities i, rq_CostProfile = ri_CostProfile i\<rparr>"

definition register :: "'w SpokeDeps \<Rightarrow> SpokeAgent \<Rightarrow> 'w \<Rightarrow> agent_error option \<times> SpokeAgent \<times> 'w" where
  "register D a w =
    (case clientRegisterCluster D (registerRequest (ag_info a)) w of
       (Inl e, w') \<Rightarrow> (Some e, setError e a, w')
     | (Inr resp, w') \<Rightarrow>
         if \<not> rs_Accepted resp then
           let e = ErrRejected (rs_Message resp) in (Some e, setError e a, w')
         else if 0 < rs_HeartbeatIntervalS resp then
           (None, a\<lparr>ag_heartbeatInterval := wrap64 (rs_HeartbeatIntervalS resp * second)\<rparr>, w')
         else (None, a, w'))"

definition sendHeartbeat :: "'w SpokeDeps \<Rightarrow> SpokeAgent \<Rightarrow> 'w \<Rightarrow> agent_error option \<times> SpokeAgent \<times> 'w" where
  "sendHeartbeat D a w =
    (case Collect D w of
       (Inl e, w1) \<Rightarrow> (Some (ErrCollect e), a, w1)
     | (Inr report, w1) \<Rightarrow>
         let named = report\<lparr>sr_ClusterName := ri_ClusterName (ag_info a)\<rparr>;
             (stamped, w2) = (if sr_Timestamp named = 0
                then (let (t, w2) = nowFn D w1 in (named\<lparr>sr_Timestamp := t\<rparr>, w2)) else (named, w1)) in
         (case clientReportStatus D stamped w2 of
            (Inl e, w3) \<Rightarrow> (Some (ErrReport e), a, w3)
          | (Inr ack, w3) \<Rightarrow>
              if \<not> sa_Received ack then (Some (ErrNotAcknowledged (sa_Message ack)), a, w3)
              else
               let (t, w4) = nowFn D w3 in
               (None, a\<lparr>ag_lastHeartbeat := t, ag_heartbeatCount := wrap64 (ag_heartbeatCount a + 1),
                        ag_lastErr := None\<rparr>, w4)))"

fun handleAll :: "'w SpokeDeps \<Rightarrow> Directive list \<Rightarrow> SpokeAgent \<Rightarrow> 'w \<Rightarrow> SpokeAgent \<times> 'w" where
  "handleAll D [] a w = (a, w)"
| "handleAll D (d # ds) a w =
    handleAll D ds (a\<lparr>ag_directiveCount := wrap64 (ag_directiveCount a + 1)\<rparr>) (snd (HandleDirective D d w))"

definition pollDirectives :: "'w SpokeDeps \<Rightarrow> SpokeAgent \<Rightarrow> 'w \<Rightarrow> agent_error option \<times> SpokeAgent \<times> 'w" where
  "pollDirectives D a w =
    (case clientGetDirective D (ri_ClusterName (ag_info a)) w of
       (Inl e, w') \<Rightarrow> (Some (ErrGetDirectives e), a, w')
     | (Inr resp, w') \<Rightarrow> (None, handleAll D (gd_Directives resp) a w'))"

text \<open>The two loops of \<open>Start\<close>: the heartbeat loop sends one heartbeat, whose error is only logged, and then
  one per tick; the directive loop polls on every tick. The schedule of the ticks until the context is
  cancelled is an argument. \<open>time.NewTicker\<close> panics on an interval that is not positive, which ends the
  process.\<close>

datatype agent_event = InitialHeartbeat | HeartbeatTick | DirectiveTick

fun agentEvent :: "'w SpokeDeps \<Rightarrow> agent_event \<Rightarrow> SpokeAgent \<times> 'w \<Rightarrow> SpokeAgent \<times> 'w" where
  "agentEvent D InitialHeartbeat (a, w) = snd (sendHeartbeat D a w)"
| "agentEvent D HeartbeatTick (a, w) =
    (case sendHeartbeat D a w of (None, aw) \<Rightarrow> aw | (Some e, a', w') \<Rightarrow> (setError e a', w'))"
| "agentEvent D DirectiveTick (a, w) =
    (case pollDirectives D a w of (None, aw) \<Rightarrow> aw | (Some e, a', w') \<Rightarrow> (setError e a', w'))"

datatype start_result = Returned "agent_error option" | TickerPanic

definition Start ::
  "('w \<Rightarrow> string option \<times> 'w) \<Rightarrow> 'w SpokeDeps \<Rightarrow> agent_event list \<Rightarrow> SpokeAgent \<Rightarrow> 'w \<Rightarrow>
     start_result \<times> SpokeAgent \<times> 'w" where
  "Start dial D schedule a w =
    (case dial w of
       (Some m, w1) \<Rightarrow>
         let e = ErrDial (ag_hubAddr a) m in (Returned (Some (ErrConnect (ag_hubAddr a) e)), setError e a, w1)
     | (None, w1) \<Rightarrow>
         (case register D a w1 of
            (Some e, a', w2) \<Rightarrow> (Returned (Some (ErrRegister e)), agentSetState StateStopped a', w2)
          | (None, a', w2) \<Rightarrow>
              let a1 = agentSetState StateRunning (agentSetState StateRegistered a') in
              if ag_heartbeatInterval a1 \<le> 0 \<or> ag_directivePollInterval a1 \<le> 0 then (TickerPanic, a1, w2)
              else
               let (a2, w3) = foldl (\<lambda>aw e. agentEvent D e aw) (a1, w2) schedule in
               (Returned None, agentSetState StateStopped a2, w3)))"

section \<open>The queues of the hub\<close>

text \<open>What the hub promises of its queues: a directive is appended to the queue of its cluster and to no
  other, and a fetch for a valid name hands over the whole queue of its cluster, empties it and leaves the
  others.\<close>

locale directive_source =
  fixes enq :: "'c \<Rightarrow> 'd \<Rightarrow> 'h \<Rightarrow> 'h" and fetch :: "'c \<Rightarrow> 'h \<Rightarrow> 'd list \<times> 'h"
    and queue :: "'h \<Rightarrow> 'c \<Rightarrow> 'd list" and valid :: "'c \<Rightarrow> bool"
  assumes queue_enq: "queue (enq c d h) = (queue h)(c := queue h c @ [d])"
    and fetch_all: "valid c \<Longrightarrow> fst (fetch c h) = queue h c"
    and queue_fetch: "valid c \<Longrightarrow> queue (snd (fetch c h)) = (queue h)(c := [])"
begin

lemma fetch_enqueued: "valid c \<Longrightarrow> fst (fetch c (foldl (\<lambda>h d. enq c d h) h ds)) = queue h c @ ds"
proof -
  have "queue (foldl (\<lambda>h d. enq c d h) h ds) c = queue h c @ ds"
    by (induction ds arbitrary: h) (simp_all add: queue_enq)
  then show "valid c \<Longrightarrow> ?thesis" by (simp add: fetch_all)
qed

lemma fetch_twice: "valid c \<Longrightarrow> fst (fetch c (snd (fetch c h))) = []"
  by (simp add: fetch_all queue_fetch)

lemma fetch_other: "valid c \<Longrightarrow> valid c' \<Longrightarrow> c' \<noteq> c \<Longrightarrow> fst (fetch c' (snd (fetch c h))) = fst (fetch c' h)"
  by (simp add: fetch_all queue_fetch)

end

definition pendingFor :: "MemoryHubService \<Rightarrow> string \<Rightarrow> Directive list" where
  "pendingFor m c = (case hs_directives m c of Some ds \<Rightarrow> ds | None \<Rightarrow> [])"

text \<open>A fetch as the agent sees it: a call for the empty name is refused and hands over nothing, so the
  queues of the protocol are those of the named clusters.\<close>

definition fetchFor :: "string \<Rightarrow> MemoryHubService \<Rightarrow> Directive list \<times> MemoryHubService" where
  "fetchFor c m = (case GetDirective \<lparr>gd_ClusterName = c\<rparr> m of
      (Inl e, m') \<Rightarrow> ([], m') | (Inr resp, m') \<Rightarrow> (gd_Directives resp, m'))"

lemma pendingFor_enqueue: "pendingFor (EnqueueDirective c d m) = (pendingFor m)(c := pendingFor m c @ [d])"
  by (auto simp: pendingFor_def EnqueueDirective_def split: option.splits)

lemma fetchFor_named:
  assumes "c \<noteq> []"
  shows "fst (fetchFor c m) = pendingFor m c" "pendingFor (snd (fetchFor c m)) = (pendingFor m)(c := [])"
  using assms by (auto simp: fetchFor_def GetDirective_def pendingFor_def Let_def)

interpretation hubq: directive_source EnqueueDirective fetchFor pendingFor "\<lambda>c. c \<noteq> []"
  by unfold_locales (simp_all add: pendingFor_enqueue fetchFor_named)

lemma hub_unchanged_queue [simp]:
  "pendingFor (snd (RegisterCluster req m)) = pendingFor m"
  "pendingFor (snd (ReportStatus now report m)) = pendingFor m"
  "pendingFor (snd (RequestTrafficShift ts m)) = pendingFor m"
  by (auto simp: RegisterCluster_def ReportStatus_def RequestTrafficShift_def pendingFor_def Let_def)

section \<open>The laws of the service\<close>

lemma GetRegistered_keys:
  assumes "key_order (hs_clusters m) order"
  shows "GetRegistered order m = order"
proof -
  have "set ks \<subseteq> dom (hs_clusters m) \<Longrightarrow>
      foldl (\<lambda>names n. if hs_clusters m n = None then names else names @ [n]) acc ks = acc @ ks" for ks acc
    by (induction ks arbitrary: acc) auto
  then show ?thesis using assms by (simp add: GetRegistered_def key_order_def)
qed

definition hub_inv :: "MemoryHubService \<Rightarrow> bool" where
  "hub_inv m \<longleftrightarrow> (\<forall>c r. hs_clusters m c = Some r \<longrightarrow> c \<noteq> [] \<and> rq_ClusterName r = c) \<and>
     (\<forall>c st. hs_lastStatus m c = Some st \<longrightarrow> hs_clusters m c \<noteq> None \<and> sr_ClusterName st = c) \<and>
     hs_heartbeatTTL m = 5 * minute"

lemma hub_inv_new: "hub_inv NewMemoryHubService"
  by (simp add: hub_inv_def NewMemoryHubService_def)

lemma hub_inv_ops:
  assumes "hub_inv m"
  shows "hub_inv (snd (RegisterCluster req m))" "hub_inv (snd (ReportStatus now report m))"
    "hub_inv (snd (GetDirective gr m))" "hub_inv (snd (RequestTrafficShift ts m))"
    "hub_inv (EnqueueDirective c d m)"
  using assms
  by (auto simp: hub_inv_def RegisterCluster_def ReportStatus_def GetDirective_def RequestTrafficShift_def
      EnqueueDirective_def Let_def)

lemma ReportStatus_healthy:
  assumes "hub_inv m" "hs_clusters m (sr_ClusterName r) \<noteq> None" "sr_Timestamp r = t0" "t0 \<noteq> 0"
  shows "IsHealthy t (snd (ReportStatus now r m)) (sr_ClusterName r) \<longleftrightarrow> t \<le> t0 + 5 * minute"
proof -
  from assms(1,2) have "sr_ClusterName r \<noteq> []" "hs_heartbeatTTL m = 5 * minute"
    by (auto simp: hub_inv_def)
  with assms(2-) have "IsHealthy t (snd (ReportStatus now r m)) (sr_ClusterName r) \<longleftrightarrow> satur64 (t - t0) \<le> 5 * minute"
    by (auto simp: ReportStatus_def IsHealthy_def time_sub_def)
  also have "\<dots> \<longleftrightarrow> t \<le> t0 + 5 * minute"
    by (subst satur64_le_iff) (auto simp: in64_def)
  finally show ?thesis .
qed

section \<open>Hub, network and agents\<close>

text \<open>The whole system in steps: any operation of the hub, a poll whose answer reaches the agent, a poll whose
  answer is lost on the way back, and the handling of the next directive by the agent, which polls again only
  when the batch is done. The history of a cluster is what was enqueued for it, handled by its agent and lost.\<close>

record hub_sys =
  hy_hub :: MemoryHubService
  hy_batch :: "string \<Rightarrow> Directive list"
  hy_handled :: "string \<Rightarrow> Directive list"
  hy_lost :: "string \<Rightarrow> Directive list"
  hy_enqueued :: "string \<Rightarrow> Directive list"

definition hub_init :: hub_sys where
  "hub_init = \<lparr>hy_hub = NewMemoryHubService, hy_batch = (\<lambda>c. []), hy_handled = (\<lambda>c. []), hy_lost = (\<lambda>c. []),
     hy_enqueued = (\<lambda>c. [])\<rparr>"

inductive hub_step :: "hub_sys \<Rightarrow> hub_sys \<Rightarrow> bool" where
  hub_register: "hub_step s (s\<lparr>hy_hub := snd (RegisterCluster req (hy_hub s))\<rparr>)"
| hub_report: "hub_step s (s\<lparr>hy_hub := snd (ReportStatus now report (hy_hub s))\<rparr>)"
| hub_shift: "hub_step s (s\<lparr>hy_hub := snd (RequestTrafficShift ts (hy_hub s))\<rparr>)"
| hub_enqueue: "hub_step s (s\<lparr>hy_hub := EnqueueDirective c d (hy_hub s),
    hy_enqueued := (hy_enqueued s)(c := hy_enqueued s c @ [d])\<rparr>)"
| hub_poll: "hy_batch s c = [] \<Longrightarrow> fetchFor c (hy_hub s) = (ds, h) \<Longrightarrow>
    hub_step s (s\<lparr>hy_hub := h, hy_batch := (hy_batch s)(c := ds)\<rparr>)"
| hub_poll_lost: "hy_batch s c = [] \<Longrightarrow> fetchFor c (hy_hub s) = (ds, h) \<Longrightarrow>
    hub_step s (s\<lparr>hy_hub := h, hy_lost := (hy_lost s)(c := hy_lost s c @ ds)\<rparr>)"
| hub_handle: "hy_batch s c = d # ds \<Longrightarrow>
    hub_step s (s\<lparr>hy_batch := (hy_batch s)(c := ds), hy_handled := (hy_handled s)(c := hy_handled s c @ [d])\<rparr>)"

inductive_cases hub_stepE: "hub_step s s'"

definition undelivered :: "hub_sys \<Rightarrow> string \<Rightarrow> Directive list" where
  "undelivered s c = hy_batch s c @ pendingFor (hy_hub s) c"

definition delivery_inv :: "hub_sys \<Rightarrow> string \<Rightarrow> bool" where
  "delivery_inv s c \<longleftrightarrow> subseq (hy_handled s c @ undelivered s c) (hy_enqueued s c) \<and>
     mset (hy_handled s c) + mset (hy_lost s c) + mset (undelivered s c) = mset (hy_enqueued s c)"

lemma fetchFor_unnamed: "fetchFor [] m = ([], m)"
  by (simp add: fetchFor_def GetDirective_def)

lemma fetchFor_queue:
  assumes "fetchFor c m = (ds, h)"
  shows "pendingFor m c = ds @ pendingFor h c" "c' \<noteq> c \<Longrightarrow> pendingFor h c' = pendingFor m c'"
  using assms hubq.fetch_all [of c m] hubq.queue_fetch [of c m] by (cases "c = []"; auto simp: fetchFor_unnamed)+

lemma subseq_drop_mid: "subseq (xs @ ys @ zs) ws \<Longrightarrow> subseq (xs @ zs) ws"
proof -
  have "subseq (xs @ zs) (xs @ ys @ zs)"
    by (intro list_emb_append_mono list_emb_append2) simp_all
  then show "subseq (xs @ ys @ zs) ws \<Longrightarrow> ?thesis" by (rule subseq_order.order_trans)
qed

lemma hub_step_delivery:
  assumes "hub_step s s'" "delivery_inv s c"
  shows "delivery_inv s' c"
  using assms(1)
proof cases
  case (hub_enqueue c' d)
  then show ?thesis using assms(2)
    by (auto simp: delivery_inv_def undelivered_def pendingFor_enqueue list_emb_append_mono
        simp flip: append_assoc)
next
  case (hub_poll c' ds h)
  then show ?thesis using assms(2) fetchFor_queue [OF hub_poll(3)]
    by (cases "c' = c") (auto simp: delivery_inv_def undelivered_def)
next
  case (hub_poll_lost c' ds h)
  then show ?thesis using assms(2) fetchFor_queue [OF hub_poll_lost(3)]
    by (cases "c' = c") (auto simp: delivery_inv_def undelivered_def ac_simps dest: subseq_drop_mid)
qed (use assms(2) in \<open>auto simp: delivery_inv_def undelivered_def\<close>)

lemma hub_reach_delivery: "hub_step\<^sup>*\<^sup>* hub_init s \<Longrightarrow> delivery_inv s c"
proof (induction rule: rtranclp_induct)
  case base
  show ?case by (simp add: delivery_inv_def undelivered_def hub_init_def NewMemoryHubService_def pendingFor_def)
qed (rule hub_step_delivery)

lemma subseq_mset_eq: "subseq xs ys \<Longrightarrow> mset xs = mset ys \<Longrightarrow> xs = ys"
  by (metis subseq_same_length size_mset)

section \<open>An agent session against the hub\<close>

text \<open>The agent connected to the hub by a transport that loses nothing, with the collector and the handler of
  \<open>collector.go\<close>: the world is the hub, the handler's log and the clock. The text of a status is the
  transport's, an argument.\<close>

record spoke_world =
  sw_hub :: MemoryHubService
  sw_log :: "Directive list"
  sw_clock :: gotime

definition overHub ::
  "(hub_error \<Rightarrow> string) \<Rightarrow> (MemoryHubService \<Rightarrow> (hub_error + 'a) \<times> MemoryHubService) \<Rightarrow> spoke_world \<Rightarrow>
     (string + 'a) \<times> spoke_world" where
  "overHub stext svc w =
    (case svc (sw_hub w) of (Inl e, h) \<Rightarrow> (Inl (stext e), w\<lparr>sw_hub := h\<rparr>) | (Inr x, h) \<Rightarrow> (Inr x, w\<lparr>sw_hub := h\<rparr>))"

definition directDeps :: "(hub_error \<Rightarrow> string) \<Rightarrow> StaticCollector \<Rightarrow> spoke_world SpokeDeps" where
  "directDeps stext coll =
    \<lparr>InvokeRegister = (\<lambda>req. overHub stext (handleRegisterCluster (Inr req))),
     InvokeReport = (\<lambda>r w. overHub stext (handleReportStatus (sw_clock w) (Inr r)) w),
     InvokeGetDirective = (\<lambda>req. overHub stext (handleGetDirective (Inr req))),
     InvokeTrafficShift = (\<lambda>req. overHub stext (handleRequestTrafficShift (Inr req))),
     Collect = (\<lambda>w. (Inr (StaticCollect coll (sw_clock w)), w)),
     HandleDirective = (\<lambda>d w. (fst (LogHandle d (sw_log w)), w\<lparr>sw_log := snd (LogHandle d (sw_log w))\<rparr>)),
     nowFn = (\<lambda>w. (sw_clock w, w))\<rparr>"

lemmas handler_defs = handleRegisterCluster_def handleReportStatus_def handleGetDirective_def
  handleRequestTrafficShift_def rpcHandler_def

lemma handleAll_log:
  "handleAll (directDeps stext coll) ds a w =
    (a\<lparr>ag_directiveCount := ag_directiveCount (fst (handleAll (directDeps stext coll) ds a w))\<rparr>,
     w\<lparr>sw_log := sw_log w @ ds\<rparr>)"
  by (induction "directDeps stext coll" ds a w rule: handleAll.induct)
    (simp_all add: directDeps_def LogHandle_def prod_eq_iff)

lemma handleAll_count:
  "in64 (ag_directiveCount a) \<Longrightarrow>
   ag_directiveCount (fst (handleAll D ds a w)) = wrap64 (ag_directiveCount a + int (length ds))"
proof (induction D ds a w rule: handleAll.induct)
  case (2 D d ds a w)
  have "wrap64 (wrap64 (ag_directiveCount a + 1) + int (length ds)) = wrap64 (ag_directiveCount a + 1 + int (length ds))"
    by (simp add: wrap64_def mod_simps algebra_simps)
  with 2 show ?case by (simp add: ac_simps)
qed (simp add: wrap64_id)

definition heartbeats :: "agent_event list \<Rightarrow> nat" where
  "heartbeats es = length (filter (\<lambda>e. e \<noteq> DirectiveTick) es)"

definition session_inv :: "StaticCollector \<Rightarrow> SpokeAgent \<times> spoke_world \<Rightarrow> agent_event list \<Rightarrow> SpokeAgent \<times> spoke_world \<Rightarrow> bool" where
  "session_inv coll = (\<lambda>(a, w) es (a', w'). 
     ag_info a' = ag_info a \<and> hub_inv (sw_hub w') \<and> hs_clusters (sw_hub w') = hs_clusters (sw_hub w) \<and>
     sw_clock w' = sw_clock w \<and> ag_lastErr a' = (if heartbeats es = 0 then ag_lastErr a else None) \<and>
     ag_heartbeatCount a' = wrap64 (ag_heartbeatCount a + int (heartbeats es)) \<and>
     sw_log w' @ pendingFor (sw_hub w') (ri_ClusterName (ag_info a)) =
       sw_log w @ pendingFor (sw_hub w) (ri_ClusterName (ag_info a)) \<and>
     (DirectiveTick \<in> set es \<longrightarrow> pendingFor (sw_hub w') (ri_ClusterName (ag_info a)) = []) \<and>
     (heartbeats es \<noteq> 0 \<longrightarrow> hs_lastStatus (sw_hub w') (ri_ClusterName (ag_info a)) =
        Some ((StaticCollect coll (sw_clock w))\<lparr>sr_ClusterName := ri_ClusterName (ag_info a)\<rparr>)))"

lemma sendHeartbeat_direct:
  assumes "hs_clusters (sw_hub w) (ri_ClusterName (ag_info a)) \<noteq> None" "ri_ClusterName (ag_info a) \<noteq> []"
  shows "sendHeartbeat (directDeps stext coll) a w =
    (None, a\<lparr>ag_lastHeartbeat := sw_clock w, ag_heartbeatCount := wrap64 (ag_heartbeatCount a + 1), ag_lastErr := None\<rparr>,
     w\<lparr>sw_hub := snd (ReportStatus (sw_clock w)
        ((StaticCollect coll (sw_clock w))\<lparr>sr_ClusterName := ri_ClusterName (ag_info a)\<rparr>) (sw_hub w))\<rparr>)"
  using assms
  by (auto simp: sendHeartbeat_def directDeps_def clientReportStatus_def clientCall_def overHub_def handler_defs
      ReportStatus_def StaticCollect_def Let_def)

lemma pollDirectives_direct:
  assumes "ri_ClusterName (ag_info a) \<noteq> []"
  shows "pollDirectives (directDeps stext coll) a w =
    (None, a\<lparr>ag_directiveCount := ag_directiveCount (fst (handleAll (directDeps stext coll)
        (pendingFor (sw_hub w) (ri_ClusterName (ag_info a))) a
        (w\<lparr>sw_hub := snd (fetchFor (ri_ClusterName (ag_info a)) (sw_hub w))\<rparr>)))\<rparr>,
     w\<lparr>sw_hub := snd (fetchFor (ri_ClusterName (ag_info a)) (sw_hub w)),
       sw_log := sw_log w @ pendingFor (sw_hub w) (ri_ClusterName (ag_info a))\<rparr>)"
proof -
  let ?c = "ri_ClusterName (ag_info a)"
  have "clientGetDirective (directDeps stext coll) ?c w =
      (Inr \<lparr>gd_Directives = pendingFor (sw_hub w) ?c\<rparr>, w\<lparr>sw_hub := snd (fetchFor ?c (sw_hub w))\<rparr>)"
    using assms by (simp add: clientGetDirective_def directDeps_def clientCall_def overHub_def handler_defs
      GetDirective_def fetchFor_def pendingFor_def Let_def)
  then show ?thesis
    by (simp add: pollDirectives_def) (subst handleAll_log, simp)
qed

lemma snd_ReportStatus:
  assumes "sr_ClusterName r \<noteq> []" "hs_clusters m (sr_ClusterName r) \<noteq> None"
  shows "hs_clusters (snd (ReportStatus now r m)) = hs_clusters m"
    "sr_Timestamp r = now \<Longrightarrow> hs_lastStatus (snd (ReportStatus now r m)) = (hs_lastStatus m)(sr_ClusterName r \<mapsto> r)"
  using assms by (auto simp: ReportStatus_def Let_def)

lemma snd_fetchFor [simp]:
  "hs_clusters (snd (fetchFor c m)) = hs_clusters m" "hs_lastStatus (snd (fetchFor c m)) = hs_lastStatus m"
  "hub_inv m \<Longrightarrow> hub_inv (snd (fetchFor c m))"
  using hub_inv_ops(3) [of m "\<lparr>gd_ClusterName = c\<rparr>"] by (auto simp: fetchFor_def GetDirective_def Let_def)

lemma wrap64_step: "wrap64 (wrap64 x + y) = wrap64 (x + y)" "wrap64 (y + wrap64 x) = wrap64 (y + x)"
  by (simp_all add: wrap64_def mod_simps algebra_simps)

lemma session_inv_refl:
  "hub_inv (sw_hub w) \<Longrightarrow> in64 (ag_heartbeatCount a) \<Longrightarrow> session_inv coll (a, w) [] (a, w)"
  by (simp add: session_inv_def heartbeats_def wrap64_id)

lemma session_inv_event:
  assumes inv: "session_inv coll (a, w) es aw" and c: "ri_ClusterName (ag_info a) \<noteq> []"
    "hs_clusters (sw_hub w) (ri_ClusterName (ag_info a)) \<noteq> None"
  shows "session_inv coll (a, w) (es @ [e]) (agentEvent (directDeps stext coll) e aw)"
proof -
  obtain a' w' where aw: "aw = (a', w')" by (cases aw)
  let ?c = "ri_ClusterName (ag_info a)"
  have i: "ag_info a' = ag_info a" "hub_inv (sw_hub w')" "hs_clusters (sw_hub w') ?c \<noteq> None" 
    using inv c by (auto simp: session_inv_def aw)
  show ?thesis
  proof (cases "e = DirectiveTick")
    case True
    have "agentEvent (directDeps stext coll) e aw = snd (pollDirectives (directDeps stext coll) a' w')"
      using c i by (simp add: True aw pollDirectives_direct)
    then show ?thesis
      using inv c i hubq.queue_fetch [OF c(1), of "sw_hub w'"]
      by (simp add: True aw pollDirectives_direct session_inv_def heartbeats_def)
  next
    case False
    have "agentEvent (directDeps stext coll) e aw = snd (sendHeartbeat (directDeps stext coll) a' w')"
      using False c i sendHeartbeat_direct [of w' a' stext coll] by (cases e) (simp_all add: aw)
    then show ?thesis
      using False inv c i hub_inv_ops(2) [OF i(2)]
      by (simp add: aw sendHeartbeat_direct session_inv_def heartbeats_def snd_ReportStatus StaticCollect_def
        wrap64_step ac_simps)
  qed
qed

lemma session_inv_run:
  assumes "hub_inv (sw_hub w)" "in64 (ag_heartbeatCount a)" "ri_ClusterName (ag_info a) \<noteq> []"
    "hs_clusters (sw_hub w) (ri_ClusterName (ag_info a)) \<noteq> None"
  shows "session_inv coll (a, w) es (foldl (\<lambda>aw e. agentEvent (directDeps stext coll) e aw) (a, w) es)"
  by (induction es rule: rev_induct) (simp_all add: assms session_inv_refl session_inv_event)

lemma register_direct:
  assumes "ri_ClusterName (ag_info a) \<noteq> []"
  shows "register (directDeps stext coll) a w =
    (None, a\<lparr>ag_heartbeatInterval := 30 * second\<rparr>, w\<lparr>sw_hub := snd (RegisterCluster (registerRequest (ag_info a)) (sw_hub w))\<rparr>)"
  using assms by (simp add: register_def clientRegisterCluster_def directDeps_def clientCall_def overHub_def
    handler_defs RegisterCluster_def registerRequest_def wrap64_def)

section \<open>Properties\<close>

text \<open>C33. Whatever the interleaving of registrations, reports, enqueued directives, polls and handlings, and
  whatever answers the network loses: the directives the agent of a cluster has handled are a subsequence of
  those enqueued for it, in their order and none twice; every directive is handled, lost with an answer, or
  still on its way; and when no answer was lost, the handled ones followed by those on their way are exactly
  the enqueued ones.\<close>

theorem directives_delivered:
  assumes "hub_step\<^sup>*\<^sup>* hub_init s"
  shows "subseq (hy_handled s c) (hy_enqueued s c) \<and>
    mset (hy_handled s c) + mset (hy_lost s c) + mset (undelivered s c) = mset (hy_enqueued s c) \<and>
    (hy_lost s c = [] \<longrightarrow> hy_handled s c @ undelivered s c = hy_enqueued s c)"
proof -
  have d: "delivery_inv s c" using assms by (rule hub_reach_delivery)
  then have "subseq (hy_handled s c) (hy_enqueued s c)"
    using subseq_drop_mid [of "hy_handled s c" "undelivered s c" "[]"] by (simp add: delivery_inv_def)
  with d show ?thesis
    by (auto simp: delivery_inv_def intro!: subseq_mset_eq)
qed

definition sampleDirective :: "string \<Rightarrow> Directive" where
  "sampleDirective i = \<lparr>dr_ID = i, dr_Type = DirectiveNoOp, dr_ClusterName = ''edge'', dr_TrafficWeights = Map.empty,
     dr_MigrationHints = [], dr_LifecycleAction = [], dr_Reason = []\<rparr>"

theorem directives_delivered_witness:
  "\<exists>s. hub_step\<^sup>*\<^sup>* hub_init s \<and> hy_handled s ''edge'' = [sampleDirective ''1''] \<and>
     undelivered s ''edge'' = [sampleDirective ''2'', sampleDirective ''3''] \<and>
     hy_enqueued s ''edge'' = [sampleDirective ''1'', sampleDirective ''2'', sampleDirective ''3'']"
proof -
  let ?d = "\<lambda>i. sampleDirective i"
  let ?m = "EnqueueDirective ''edge'' (?d ''2'') (EnqueueDirective ''edge'' (?d ''1'') NewMemoryHubService)"
  let ?s0 = "hub_init"
  let ?s1 = "?s0\<lparr>hy_hub := EnqueueDirective ''edge'' (?d ''1'') (hy_hub ?s0),
    hy_enqueued := (hy_enqueued ?s0)(''edge'' := hy_enqueued ?s0 ''edge'' @ [?d ''1''])\<rparr>"
  let ?s2 = "?s1\<lparr>hy_hub := EnqueueDirective ''edge'' (?d ''2'') (hy_hub ?s1),
    hy_enqueued := (hy_enqueued ?s1)(''edge'' := hy_enqueued ?s1 ''edge'' @ [?d ''2''])\<rparr>"
  let ?s3 = "?s2\<lparr>hy_hub := snd (fetchFor ''edge'' (hy_hub ?s2)), hy_batch := (hy_batch ?s2)(''edge'' := [?d ''1'', ?d ''2''])\<rparr>"
  let ?s4 = "?s3\<lparr>hy_hub := EnqueueDirective ''edge'' (?d ''3'') (hy_hub ?s3),
    hy_enqueued := (hy_enqueued ?s3)(''edge'' := hy_enqueued ?s3 ''edge'' @ [?d ''3''])\<rparr>"
  let ?s5 = "?s4\<lparr>hy_batch := (hy_batch ?s4)(''edge'' := [?d ''2'']),
    hy_handled := (hy_handled ?s4)(''edge'' := hy_handled ?s4 ''edge'' @ [?d ''1''])\<rparr>"
  have f: "fetchFor ''edge'' (hy_hub ?s2) = ([?d ''1'', ?d ''2''], snd (fetchFor ''edge'' (hy_hub ?s2)))"
    by (simp add: prod_eq_iff hubq.fetch_all pendingFor_enqueue hub_init_def NewMemoryHubService_def)
      (simp add: pendingFor_def)
  have "hub_step ?s0 ?s1" "hub_step ?s1 ?s2" "hub_step ?s3 ?s4" by (rule hub_enqueue)+
  moreover have "hub_step ?s2 ?s3" by (rule hub_poll [OF _ f]) (simp add: hub_init_def)
  moreover have "hub_step ?s4 ?s5" by (rule hub_handle) simp
  ultimately have "hub_step\<^sup>*\<^sup>* hub_init ?s5" by (meson rtranclp.intros)
  moreover from directives_delivered [OF this, of "''edge''"]
  have "hy_handled ?s5 ''edge'' @ undelivered ?s5 ''edge'' = hy_enqueued ?s5 ''edge''"
    by (simp add: hub_init_def)
  ultimately show ?thesis by (intro exI [of _ ?s5]) (simp add: hub_init_def)
qed



end
