(* ===== verification/Prometheus_Client.thy ===== *)
theory Prometheus_Client
  imports Slo_Evaluator
begin

text \<open>
  The Prometheus client of \<open>internal/metrics/prometheus_client.go\<close>: instant queries with a cache, range
  queries, the health check and the evaluation of the answers. \<open>net/http\<close> and \<open>encoding/json\<close> are
  parameters: the transport answers a URL on a world \<open>'w\<close>, and the decoder is a record with one function per
  type that the code unmarshals into. \<open>Query\<close> holds the mutex only around the lookup and around the store, so
  the two critical sections are definitions of their own, from which \<open>Query\<close> and the interleaved steps are
  composed.
\<close>

section \<open>Data\<close>

record cacheEntry =
  ce_value :: f64
  ce_expiresAt :: gotime

record HTTPPrometheusClient =
  hc_baseURL :: string
  hc_timeout :: duration
  hc_ttl :: duration
  hc_cache :: "string \<rightharpoonup> cacheEntry"

record prometheusQueryData =
  qd_ResultType :: string
  qd_Result :: "string list"

record prometheusResponse =
  pr_Status :: string
  pr_Data :: prometheusQueryData
  pr_Error :: string

text \<open>Of a sample only the value pairs are read; a raw JSON value is its text.\<close>

record vectorSample =
  vs_Value :: "string \<times> string"

record matrixSample =
  ms_Values :: "(string \<times> string) list"

record json_decoder =
  jd_response :: "string \<Rightarrow> string + prometheusResponse"
  jd_vector :: "string \<Rightarrow> string + vectorSample"
  jd_matrix :: "string \<Rightarrow> string + matrixSample"
  jd_float :: "string \<Rightarrow> string + f64"
  jd_string :: "string \<Rightarrow> string + string"

text \<open>What the transport answers: the request cannot be built, it cannot be sent, or a status with the bytes of
  the body up to its end or to a read error.\<close>

datatype http_answer = BuildFailed string | DoFailed string | Answered int string "string option"

type_synonym 'w transport = "string \<Rightarrow> 'w \<Rightarrow> http_answer \<times> 'w"

datatype prom_error =
    ErrNoData
  | ErrMultipleResults
  | BuildingRequest string
  | Querying string
  | HTTPStatus int string
  | ReadingResponse string
  | ParsingJSON string
  | QueryFailed string
  | UnexpectedScalar
  | UnexpectedResultType string
  | ParsingSample string
  | ParsingTimestamp string
  | ParsingValue string
  | ConvertingValue string

definition NewHTTPPrometheusClient :: "string \<Rightarrow> duration \<Rightarrow> duration \<Rightarrow> HTTPPrometheusClient" where
  "NewHTTPPrometheusClient baseURL timeout cacheTTL =
    \<lparr>hc_baseURL = baseURL, hc_timeout = (if timeout = 0 then 10 * second else timeout),
     hc_ttl = (if cacheTTL = 0 then 5 * second else cacheTTL), hc_cache = Map.empty\<rparr>"

section \<open>Requests\<close>

text \<open>\<open>url.QueryEscape\<close> and \<open>url.Values.Encode\<close>, which sorts the keys.\<close>

definition upper_hex :: "nat \<Rightarrow> char" where
  "upper_hex n = char_of (if n < 10 then 48 + n else 55 + n)"

definition unreserved :: "char \<Rightarrow> bool" where
  "unreserved c = (char_in (CHR ''a'') (CHR ''z'') c \<or> char_in (CHR ''A'') (CHR ''Z'') c \<or> is_digit c \<or>
     c \<in> {CHR ''-'', CHR ''_'', CHR ''.'', CHR ''~''})"

definition escape_char :: "char \<Rightarrow> string" where
  "escape_char c =
    (if unreserved c then [c] else if c = CHR '' '' then ''+''
     else [CHR ''%'', upper_hex (of_char c div 16), upper_hex (of_char c mod 16)])"

definition QueryEscape :: "string \<Rightarrow> string" where
  "QueryEscape s = concat (map escape_char s)"

fun encodePairs :: "(string \<times> string) list \<Rightarrow> string" where
  "encodePairs [] = []"
| "encodePairs [(k, v)] = QueryEscape k @ ''='' @ QueryEscape v"
| "encodePairs ((k, v) # kvs) = QueryEscape k @ ''='' @ QueryEscape v @ ''&'' @ encodePairs kvs"

definition formatTimestamp :: "gotime \<Rightarrow> string" where
  "formatTimestamp t = fmt_f 3 (of_int64 t / lit 1000000000)"

definition instantURL :: "HTTPPrometheusClient \<Rightarrow> string \<Rightarrow> string" where
  "instantURL c query = hc_baseURL c @ ''/api/v1/query?'' @ encodePairs [(''query'', query)]"

definition rangeURL :: "HTTPPrometheusClient \<Rightarrow> string \<Rightarrow> gotime \<Rightarrow> gotime \<Rightarrow> duration \<Rightarrow> string" where
  "rangeURL c query start end' step =
    hc_baseURL c @ ''/api/v1/query_range?'' @
      encodePairs [(''end'', formatTimestamp end'), (''query'', query), (''start'', formatTimestamp start),
        (''step'', fmt_f 0 (durationSeconds step) @ ''s'')]"

section \<open>Answers\<close>

definition parseValueString :: "json_decoder \<Rightarrow> string \<Rightarrow> prom_error + f64" where
  "parseValueString J raw =
    (case jd_string J raw of
       Inl e \<Rightarrow> Inl (ParsingValue e)
     | Inr s \<Rightarrow> (case ParseFloat s of None \<Rightarrow> Inl (ConvertingValue s) | Some f \<Rightarrow> Inr f))"

definition parseInstantResponse :: "json_decoder \<Rightarrow> string \<Rightarrow> string option \<Rightarrow> prom_error + f64" where
  "parseInstantResponse J data readErr =
    (case readErr of Some e \<Rightarrow> Inl (ReadingResponse e) | None \<Rightarrow>
     case jd_response J data of Inl e \<Rightarrow> Inl (ParsingJSON e) | Inr pr \<Rightarrow>
     if pr_Status pr \<noteq> ''success'' then Inl (QueryFailed (pr_Error pr))
     else if qd_ResultType (pr_Data pr) = ''scalar'' then
       (if qd_Result (pr_Data pr) = [] then Inl ErrNoData else Inl UnexpectedScalar)
     else if qd_ResultType (pr_Data pr) = ''vector'' then
       (case qd_Result (pr_Data pr) of
          [] \<Rightarrow> Inl ErrNoData
        | [r] \<Rightarrow> (case jd_vector J r of Inl e \<Rightarrow> Inl (ParsingSample e) | Inr s \<Rightarrow> parseValueString J (snd (vs_Value s)))
        | _ \<Rightarrow> Inl ErrMultipleResults)
     else Inl (UnexpectedResultType (qd_ResultType (pr_Data pr))))"

fun rangePoints :: "json_decoder \<Rightarrow> (string \<times> string) list \<Rightarrow> prom_error + (gotime \<times> f64) list" where
  "rangePoints J [] = Inr []"
| "rangePoints J (pair # pairs) =
    (case jd_float J (fst pair) of
       Inl e \<Rightarrow> Inl (ParsingTimestamp e)
     | Inr ts \<Rightarrow>
         (case parseValueString J (snd pair) of
            Inl e \<Rightarrow> Inl e
          | Inr v \<Rightarrow>
              (case rangePoints J pairs of
                 Inl e \<Rightarrow> Inl e
               | Inr points \<Rightarrow> Inr ((to_int64 ts * second, v) # points))))"

definition parseRangeResponse :: "json_decoder \<Rightarrow> string \<Rightarrow> string option \<Rightarrow> prom_error + (gotime \<times> f64) list" where
  "parseRangeResponse J data readErr =
    (case readErr of Some e \<Rightarrow> Inl (ReadingResponse e) | None \<Rightarrow>
     case jd_response J data of Inl e \<Rightarrow> Inl (ParsingJSON e) | Inr pr \<Rightarrow>
     if pr_Status pr \<noteq> ''success'' then Inl (QueryFailed (pr_Error pr))
     else case qd_Result (pr_Data pr) of
       [] \<Rightarrow> Inl ErrNoData
     | r # _ \<Rightarrow> (case jd_matrix J r of Inl e \<Rightarrow> Inl (ParsingSample e) | Inr ms \<Rightarrow> rangePoints J (ms_Values ms)))"

definition onAnswer :: "(string \<Rightarrow> string option \<Rightarrow> prom_error + 'a) \<Rightarrow> http_answer \<Rightarrow> prom_error + 'a" where
  "onAnswer parse ans =
    (case ans of
       BuildFailed e \<Rightarrow> Inl (BuildingRequest e)
     | DoFailed e \<Rightarrow> Inl (Querying e)
     | Answered status data readErr \<Rightarrow>
         if status \<noteq> 200 then Inl (HTTPStatus status (take 512 data)) else parse data readErr)"

section \<open>Operations\<close>

text \<open>The two critical sections of \<open>Query\<close>.\<close>

definition cacheLookup :: "gotime \<Rightarrow> string \<Rightarrow> HTTPPrometheusClient \<Rightarrow> f64 option" where
  "cacheLookup now query c =
    (case hc_cache c query of
       Some e \<Rightarrow> if now < ce_expiresAt e then Some (ce_value e) else None
     | None \<Rightarrow> None)"

definition cacheStore :: "gotime \<Rightarrow> string \<Rightarrow> f64 \<Rightarrow> HTTPPrometheusClient \<Rightarrow> HTTPPrometheusClient" where
  "cacheStore now query val c =
    c\<lparr>hc_cache := (hc_cache c)(query \<mapsto> \<lparr>ce_value = val, ce_expiresAt = time_add now (hc_ttl c)\<rparr>)\<rparr>"

text \<open>A cache miss does not read the clock when the query has no entry; the reading has no effect.\<close>

definition Query ::
  "('w \<Rightarrow> gotime \<times> 'w) \<Rightarrow> 'w transport \<Rightarrow> json_decoder \<Rightarrow> HTTPPrometheusClient \<Rightarrow> string \<Rightarrow> 'w \<Rightarrow>
     (prom_error + f64) \<times> HTTPPrometheusClient \<times> 'w" where
  "Query clock http J c query w0 =
    (let (now, w1) = clock w0 in
     case cacheLookup now query c of
       Some val \<Rightarrow> (Inr val, c, w1)
     | None \<Rightarrow>
        (let (ans, w2) = http (instantURL c query) w1 in
         case onAnswer (parseInstantResponse J) ans of
           Inl e \<Rightarrow> (Inl e, c, w2)
         | Inr val \<Rightarrow> (let (now', w3) = clock w2 in (Inr val, cacheStore now' query val c, w3))))"

definition QueryRange ::
  "'w transport \<Rightarrow> json_decoder \<Rightarrow> HTTPPrometheusClient \<Rightarrow> string \<Rightarrow> gotime \<Rightarrow> gotime \<Rightarrow> duration \<Rightarrow> 'w \<Rightarrow>
     (prom_error + (gotime \<times> f64) list) \<times> 'w" where
  "QueryRange http J c query start end' step w =
    (let (ans, w') = http (rangeURL c query start end' step) w in (onAnswer (parseRangeResponse J) ans, w'))"

definition Healthy :: "'w transport \<Rightarrow> HTTPPrometheusClient \<Rightarrow> 'w \<Rightarrow> prom_error option \<times> 'w" where
  "Healthy http c w =
    (let (ans, w') = http (hc_baseURL c @ ''/-/healthy'') w in
     ((case ans of
         BuildFailed e \<Rightarrow> Some (BuildingRequest e)
       | DoFailed e \<Rightarrow> Some (Querying e)
       | Answered status data readErr \<Rightarrow> if status \<noteq> 200 then Some (HTTPStatus status []) else None), w'))"

section \<open>Escaping\<close>

definition hex_value :: "char \<Rightarrow> nat" where
  "hex_value c = (let n = of_char c in if n < 58 then n - 48 else n - 55)"

text \<open>The inverse that the server applies, \<open>url.QueryUnescape\<close> on escaped text.\<close>

fun unescape :: "string \<Rightarrow> string" where
  "unescape [] = []"
| "unescape (c # cs) =
    (if c = CHR ''+'' then CHR '' '' # unescape cs
     else if c = CHR ''%'' then
       (case cs of x # y # ds \<Rightarrow> char_of (hex_value x * 16 + hex_value y) # unescape ds | _ \<Rightarrow> [])
     else c # unescape cs)"

lemma hex_value_upper_hex: "n < 16 \<Longrightarrow> hex_value (upper_hex n) = n"
  by (auto simp: hex_value_def upper_hex_def Let_def)

lemma unescape_escape_char: "unescape (escape_char c @ cs) = c # unescape cs"
proof -
  have "(of_char c :: nat) < 256" by simp
  then have "hex_value (upper_hex (of_char c div 16)) * 16 + hex_value (upper_hex (of_char c mod 16)) = of_char c"
    by (subst (1 2) hex_value_upper_hex) (auto simp: less_mult_imp_div_less)
  moreover have "unreserved c \<Longrightarrow> c \<noteq> CHR ''+'' \<and> c \<noteq> CHR ''%''"
    by (auto simp: unreserved_def is_digit_def char_in_def)
  ultimately show ?thesis by (auto simp: escape_char_def)
qed

lemma unescape_QueryEscape: "unescape (QueryEscape s) = s"
  by (induction s) (simp_all add: QueryEscape_def unescape_escape_char)

lemma instantURL_inj: "instantURL c q = instantURL c q' \<longleftrightarrow> q = q'"
  by (auto simp: instantURL_def dest: arg_cong [where f = unescape] simp: unescape_QueryEscape)

section \<open>What an answer must look like\<close>

lemma parseInstant_iff:
  "parseInstantResponse J data readErr = Inr v \<longleftrightarrow> readErr = None \<and>
    (\<exists>pr r s t. jd_response J data = Inr pr \<and> pr_Status pr = ''success'' \<and> qd_ResultType (pr_Data pr) = ''vector'' \<and>
       qd_Result (pr_Data pr) = [r] \<and> jd_vector J r = Inr s \<and> jd_string J (snd (vs_Value s)) = Inr t \<and>
       ParseFloat t = Some v)"
  by (auto simp: parseInstantResponse_def parseValueString_def split: option.splits sum.splits list.splits if_splits)

definition decodesTo :: "json_decoder \<Rightarrow> string \<times> string \<Rightarrow> gotime \<times> f64 \<Rightarrow> bool" where
  "decodesTo J pair p \<longleftrightarrow> (\<exists>x s. jd_float J (fst pair) = Inr x \<and> fst p = to_int64 x * second \<and>
     jd_string J (snd pair) = Inr s \<and> ParseFloat s = Some (snd p))"

lemma rangePoints_iff: "rangePoints J pairs = Inr ps \<longleftrightarrow> list_all2 (decodesTo J) pairs ps"
proof (induction pairs arbitrary: ps)
  case (Cons pair pairs)
  have "rangePoints J (pair # pairs) = Inr ps \<longleftrightarrow>
      (\<exists>p ps'. ps = p # ps' \<and> decodesTo J pair p \<and> rangePoints J pairs = Inr ps')"
    by (auto simp: decodesTo_def parseValueString_def split: sum.splits option.splits)
  then show ?case by (simp add: Cons.IH list_all2_Cons1)
qed auto

lemma parseRange_iff:
  "parseRangeResponse J data readErr = Inr ps \<longleftrightarrow> readErr = None \<and>
    (\<exists>pr r rs ms. jd_response J data = Inr pr \<and> pr_Status pr = ''success'' \<and> qd_Result (pr_Data pr) = r # rs \<and>
       jd_matrix J r = Inr ms \<and> list_all2 (decodesTo J) (ms_Values ms) ps)"
  by (auto simp: parseRangeResponse_def rangePoints_iff split: option.splits sum.splits list.splits if_splits)

section \<open>The cache\<close>

interpretation prom_cache: kv_store hc_cache "\<lambda>c q e. c\<lparr>hc_cache := (hc_cache c)(q \<mapsto> e)\<rparr>"
  by unfold_locales simp

text \<open>Concurrent callers of \<open>Query\<close>: a lookup that hits answers its caller, one that misses puts a request in
  flight, which later fails or stores its value. The clock only moves forward. The history is the list of the
  successful answers of Prometheus and of the values returned to callers, the latest first.\<close>

record prom_sys =
  py_client :: HTTPPrometheusClient
  py_now :: gotime
  py_flight :: "string multiset"
  py_answers :: "(string \<times> f64 \<times> gotime) list"
  py_returned :: "(string \<times> f64 \<times> gotime) list"

definition prom_init :: "HTTPPrometheusClient \<Rightarrow> gotime \<Rightarrow> prom_sys" where
  "prom_init c t = \<lparr>py_client = c, py_now = t, py_flight = {#}, py_answers = [], py_returned = []\<rparr>"

inductive prom_step :: "prom_sys \<Rightarrow> prom_sys \<Rightarrow> bool" where
  tick: "py_now s \<le> t \<Longrightarrow> prom_step s (s\<lparr>py_now := t\<rparr>)"
| hit: "cacheLookup (py_now s) q (py_client s) = Some v \<Longrightarrow>
    prom_step s (s\<lparr>py_returned := (q, v, py_now s) # py_returned s\<rparr>)"
| miss: "cacheLookup (py_now s) q (py_client s) = None \<Longrightarrow> prom_step s (s\<lparr>py_flight := add_mset q (py_flight s)\<rparr>)"
| failed: "py_flight s = add_mset q F \<Longrightarrow> prom_step s (s\<lparr>py_flight := F\<rparr>)"
| answered: "py_flight s = add_mset q F \<Longrightarrow> onAnswer (parseInstantResponse J) ans = Inr v \<Longrightarrow>
    prom_step s (s\<lparr>py_client := cacheStore (py_now s) q v (py_client s), py_flight := F,
      py_answers := (q, v, py_now s) # py_answers s, py_returned := (q, v, py_now s) # py_returned s\<rparr>)"

inductive_cases prom_stepE: "prom_step s s'"

text \<open>The specification of the cache: the latest answer for the query, if it is younger than the TTL.\<close>

definition latestAnswer :: "duration \<Rightarrow> (string \<times> f64 \<times> gotime) list \<Rightarrow> gotime \<Rightarrow> string \<Rightarrow> f64 option" where
  "latestAnswer ttl answers now q =
    (case map_of answers q of Some (v, t) \<Rightarrow> if now < t + ttl then Some v else None | None \<Rightarrow> None)"

definition prom_inv :: "duration \<Rightarrow> prom_sys \<Rightarrow> bool" where
  "prom_inv ttl s \<longleftrightarrow> hc_ttl (py_client s) = ttl \<and>
     hc_cache (py_client s) = (\<lambda>q. map_option (\<lambda>(v, t). \<lparr>ce_value = v, ce_expiresAt = t + ttl\<rparr>) (map_of (py_answers s) q)) \<and>
     (\<forall>(q, v, t) \<in> set (py_answers s). t \<le> py_now s) \<and>
     (\<forall>(q, v, t) \<in> set (py_returned s). \<exists>t0. (q, v, t0) \<in> set (py_answers s) \<and> t0 \<le> t \<and> (t = t0 \<or> t < t0 + ttl))"

lemma cacheLookup_spec:
  "prom_inv ttl s \<Longrightarrow> cacheLookup now q (py_client s) = latestAnswer ttl (py_answers s) now q"
  by (auto simp: prom_inv_def cacheLookup_def latestAnswer_def split: option.splits)

lemma latestAnswer_SomeD:
  "latestAnswer ttl as now q = Some v \<Longrightarrow> \<exists>t. (q, v, t) \<in> set as \<and> now < t + ttl"
  by (auto simp: latestAnswer_def split: option.splits prod.splits if_splits dest: map_of_SomeD)

lemma prom_step_inv:
  assumes "prom_step s s'" "prom_inv ttl s"
  shows "prom_inv ttl s'"
  using assms(1)
proof cases
  case (tick t)
  then show ?thesis using assms(2) by (fastforce simp: prom_inv_def)
next
  case (hit q v)
  then obtain t where "(q, v, t) \<in> set (py_answers s)" "py_now s < t + ttl"
    using assms(2) by (auto simp: cacheLookup_spec dest: latestAnswer_SomeD)
  then show ?thesis using hit assms(2) by (fastforce simp: prom_inv_def)
next
  case (answered q F J ans v)
  have "prom_inv ttl (s\<lparr>py_client := cacheStore (py_now s) q v (py_client s),
      py_answers := (q, v, py_now s) # py_answers s, py_returned := (q, v, py_now s) # py_returned s\<rparr>)"
    using assms(2) by (fastforce simp: prom_inv_def cacheStore_def time_add_def)
  then show ?thesis using answered by (simp add: prom_inv_def)
qed (use assms(2) in \<open>auto simp: prom_inv_def\<close>)

lemma prom_reach_inv:
  assumes "prom_step\<^sup>*\<^sup>* (prom_init (NewHTTPPrometheusClient base timeout ttl) t) s" "ttl \<noteq> 0"
  shows "prom_inv ttl s"
  using assms(1)
proof (induction rule: rtranclp_induct)
  case base
  show ?case using assms(2) by (simp add: prom_inv_def prom_init_def NewHTTPPrometheusClient_def)
qed (rule prom_step_inv)

section \<open>Properties\<close>

text \<open>C35. Whatever the interleaving of concurrent queries, requests that fail included: a lookup finds exactly
  the latest successful answer to the very same query if it is younger than the TTL, and every value a caller
  got is a successful answer of Prometheus to its query, not later than the return and, unless it was the
  answer just received, less than the TTL old.\<close>

theorem cache_answers:
  assumes "prom_step\<^sup>*\<^sup>* (prom_init (NewHTTPPrometheusClient base timeout ttl) t0) s" "ttl \<noteq> 0"
  shows "cacheLookup now q (py_client s) = latestAnswer ttl (py_answers s) now q \<and>
    (\<forall>(q, v, t) \<in> set (py_returned s). \<exists>t'. (q, v, t') \<in> set (py_answers s) \<and> t' \<le> t \<and> (t = t' \<or> t < t' + ttl))"
  using prom_reach_inv [OF assms] by (auto simp: cacheLookup_spec prom_inv_def)

definition demo_decoder :: json_decoder where
  "demo_decoder = \<lparr>jd_response = (\<lambda>d. Inr \<lparr>pr_Status = ''success'', pr_Data = \<lparr>qd_ResultType = ''vector'', qd_Result = [d]\<rparr>,
     pr_Error = []\<rparr>), jd_vector = (\<lambda>r. Inr \<lparr>vs_Value = ([], r)\<rparr>), jd_matrix = (\<lambda>r. Inr \<lparr>ms_Values = [([], r)]\<rparr>),
     jd_float = (\<lambda>r. Inr 1), jd_string = (\<lambda>r. Inr r)\<rparr>"

lemma demo_answer: "onAnswer (parseInstantResponse demo_decoder) (Answered 200 ''1'' None) = Inr 1"
  by code_simp

theorem cache_answers_witness:
  "\<exists>s. prom_step\<^sup>*\<^sup>* (prom_init (NewHTTPPrometheusClient ''http://p'' 0 10) 100) s \<and>
     cacheLookup 105 ''up'' (py_client s) = Some 1 \<and> cacheLookup 110 ''up'' (py_client s) = None \<and>
     cacheLookup 105 ''down'' (py_client s) = None"
proof -
  let ?s0 = "prom_init (NewHTTPPrometheusClient ''http://p'' 0 10) 100"
  let ?s1 = "?s0\<lparr>py_flight := add_mset ''up'' (py_flight ?s0)\<rparr>"
  let ?s2 = "?s1\<lparr>py_client := cacheStore (py_now ?s1) ''up'' 1 (py_client ?s1), py_flight := {#},
      py_answers := (''up'', 1, py_now ?s1) # py_answers ?s1, py_returned := (''up'', 1, py_now ?s1) # py_returned ?s1\<rparr>"
  have "prom_step ?s0 ?s1" by (rule miss) (simp add: prom_init_def NewHTTPPrometheusClient_def cacheLookup_def)
  moreover have "prom_step ?s1 ?s2" by (rule answered [OF _ demo_answer]) (simp add: prom_init_def)
  ultimately have r: "prom_step\<^sup>*\<^sup>* ?s0 ?s2" by (meson rtranclp.intros)
  have ans: "py_answers ?s2 = [(''up'', 1, 100)]" by (simp add: prom_init_def)
  have "cacheLookup now q (py_client ?s2) = latestAnswer 10 (py_answers ?s2) now q" for now q
    by (rule cache_answers [OF r, THEN conjunct1]) simp
  note this [unfolded ans]
  with r show ?thesis by (intro exI [of _ ?s2]) (simp add: latestAnswer_def)
qed

text \<open>C36. A query that is answered from the cache sends no request and changes nothing; any other sends exactly
  one, to a URL from which the query can be read back; it succeeds exactly on a 200 answer with status success
  that is a vector of one sample whose value is a number, and only then is the cache changed, so that the same
  query is answered by the same value until the TTL has passed.\<close>

theorem Query_exact:
  assumes "clock w0 = (now, w1)" "http (instantURL c q) w1 = (ans, w2)" "clock w2 = (now', w3)"
  shows "(\<forall>v. cacheLookup now q c = Some v \<longrightarrow> Query clock http J c q w0 = (Inr v, c, w1)) \<and>
    (cacheLookup now q c = None \<longrightarrow> (let (r, c', w') = Query clock http J c q w0 in
      (\<forall>e. r = Inl e \<longrightarrow> c' = c \<and> w' = w2) \<and>
      (\<forall>v. r = Inr v \<longleftrightarrow> (\<exists>data pr raw s t. ans = Answered 200 data None \<and> jd_response J data = Inr pr \<and>
         pr_Status pr = ''success'' \<and> qd_ResultType (pr_Data pr) = ''vector'' \<and> qd_Result (pr_Data pr) = [raw] \<and>
         jd_vector J raw = Inr s \<and> jd_string J (snd (vs_Value s)) = Inr t \<and> ParseFloat t = Some v)) \<and>
      (\<forall>v t. r = Inr v \<longrightarrow> w' = w3 \<and>
         cacheLookup t q c' = (if t < now' + hc_ttl c then Some v else None) \<and>
         (\<forall>q'. q' \<noteq> q \<longrightarrow> cacheLookup t q' c' = cacheLookup t q' c)))) \<and>
    (\<forall>q'. instantURL c q = instantURL c q' \<longleftrightarrow> q = q')"
proof -
  have ok: "onAnswer (parseInstantResponse J) ans = Inr v \<longleftrightarrow>
      (\<exists>data. ans = Answered 200 data None \<and> parseInstantResponse J data None = Inr v)" for v
    by (auto simp: onAnswer_def parseInstant_iff split: http_answer.splits)
  then show ?thesis
  proof (cases "onAnswer (parseInstantResponse J) ans")
    case (Inl e)
    with ok show ?thesis
      by (auto simp: Query_def assms instantURL_inj parseInstant_iff split: option.splits)
  next
    case (Inr v)
    with ok [of v] ok show ?thesis
      by (auto simp: Query_def assms instantURL_inj parseInstant_iff cacheStore_def cacheLookup_def time_add_def
          split: option.splits)
  qed
qed

theorem Query_exact_witness:
  "Query (\<lambda>w. (w, w + 1)) (\<lambda>u w. (Answered 200 ''1'' None, w)) demo_decoder (NewHTTPPrometheusClient ''http://p'' 0 10) ''up'' 100 =
     (Inr 1, cacheStore 101 ''up'' 1 (NewHTTPPrometheusClient ''http://p'' 0 10), 102) \<and>
   cacheLookup 105 ''up'' (fst (snd (Query (\<lambda>w. (w, w + 1)) (\<lambda>u w. (Answered 200 ''1'' None, w)) demo_decoder
     (NewHTTPPrometheusClient ''http://p'' 0 10) ''up'' 100))) = Some 1"
proof -
  have "Query (\<lambda>w. (w, w + 1)) (\<lambda>u w. (Answered 200 ''1'' None, w)) demo_decoder (NewHTTPPrometheusClient ''http://p'' 0 10) ''up'' 100 =
     (Inr 1, cacheStore 101 ''up'' 1 (NewHTTPPrometheusClient ''http://p'' 0 10), 102)"
    by (simp add: Query_def demo_answer cacheLookup_def NewHTTPPrometheusClient_def)
  then show ?thesis
    using Query_exact [of "\<lambda>w. (w, w + 1)" 100 100 101 "\<lambda>u w. (Answered 200 ''1'' None, w)"
        "NewHTTPPrometheusClient ''http://p'' 0 10" "''up''" "Answered 200 ''1'' None" 101 101 102 demo_decoder]
    by (simp add: NewHTTPPrometheusClient_def cacheLookup_def)
qed

end
