(* ===== verification/Narrator.thy ===== *)
theory Narrator
  imports Engine_Types Go_ParseFloat
begin

text \<open>
  The narrator of \<open>internal/explainability/narrator.go\<close>: the text that explains a decision. Every sentence is
  a definition; a narrative is the list of its sentences, the empty ones dropped, joined by a space. The
  default branch of the source, for a text that is none of the four action types, cannot be reached from a
  value of \<^typ>\<open>ActionType\<close>. The order in which Go visits the tuning parameters is an argument.
\<close>

section \<open>Sentences\<close>

text \<open>\<open>strings.ToLower\<close> for a search of ASCII letters: besides the ASCII capitals only the Kelvin sign (three
  bytes) has a lower case that is one of the letters looked for.\<close>

fun ToLower :: "string \<Rightarrow> string" where
  "ToLower (a # b # c # s) =
    (if of_char a = (226 :: nat) \<and> of_char b = (132 :: nat) \<and> of_char c = (170 :: nat) then CHR ''k'' # ToLower s
     else (if char_in (CHR ''A'') (CHR ''Z'') a then char_of (of_char a + 32 :: nat) else a) # ToLower (b # c # s))"
| "ToLower s = map (\<lambda>a. if char_in (CHR ''A'') (CHR ''Z'') a then char_of (of_char a + 32 :: nat) else a) s"

definition isRollback :: "DecisionRecord \<Rightarrow> bool" where
  "isRollback r = Contains (ToLower (dr_Trigger r)) ''rollback''"

definition timeStr :: "DecisionRecord \<Rightarrow> string" where
  "timeStr r =
    (let m = nat (dr_Timestamp r div minute mod 1440) in
     pad_left 2 (digits (m div 60)) @ '':'' @ pad_left 2 (digits (m mod 60)) @ '' UTC'')"

definition sloSentence :: "DecisionRecord \<Rightarrow> string" where
  "sloSentence r =
    (let slo = dr_SLOStatus r in
     if 0 < ss_BurnRate slo then
       ''SLO burn rate was '' @ fmt_f 1 (ss_BurnRate slo) @ ''x with '' @ fmt_f 0 (ss_BudgetRemaining slo * lit 100) @
       ''% error budget remaining.''
     else if ss_Compliant slo then ''All SLOs were compliant.'' else ''SLO compliance was at risk.'')"

definition forecastSentence :: "DecisionRecord \<Rightarrow> string" where
  "forecastSentence r =
    (case dr_ForecastState r of
       None \<Rightarrow> []
     | Some f \<Rightarrow>
        let pct = fr_ChangePercent f in
        if feq pct 0 then []
        else if pct < 0 then ''Forecast predicted a '' @ fmt_f 0 (- pct) @ ''% traffic decrease.''
        else ''Forecast predicted a '' @ fmt_f 0 pct @ ''% traffic increase.'')"

definition candidateSentence :: "DecisionRecord \<Rightarrow> string" where
  "candidateSentence r =
    (let total = length (dr_Candidates r);
         filtered = total - length (filter sd_Viable (dr_Candidates r)) in
     if total = 0 then []
     else if 0 < filtered then
       fmt_d (int total) @ '' candidate plans were evaluated; '' @ fmt_d (int filtered) @
       '' were filtered by policy constraints.''
     else fmt_d (int total) @ '' candidate plans were evaluated.'')"

text \<open>The candidate the narrator takes for the selected one: the first viable with the target's replicas.\<close>

definition shownCandidate :: "DecisionRecord \<Rightarrow> ScoredCandidate option" where
  "shownCandidate r =
    find (\<lambda>c. cp_Replicas (sd_Plan c) = sa_TargetReplica (dr_SelectedAction r) \<and> sd_Viable c) (dr_Candidates r)"

definition scoreSentence :: "DecisionRecord \<Rightarrow> string" where
  "scoreSentence r =
    (case shownCandidate r of
       None \<Rightarrow> []
     | Some c \<Rightarrow> ''Trade-offs: '' @ Join [''SLO '' @ fmt_f 2 (sc_SLO (sd_Score c)), ''Cost '' @ fmt_f 2 (sc_Cost (sd_Score c)),
         ''Carbon '' @ fmt_f 2 (sc_Carbon (sd_Score c))] '', '' @ ''.'')"

definition confidenceSentence :: "DecisionRecord \<Rightarrow> string" where
  "confidenceSentence r = ''Confidence: '' @ fmt_f 0 (dr_Confidence r * lit 100) @ ''%.''"

definition selectedPlanSentence :: "DecisionRecord \<Rightarrow> string" where
  "selectedPlanSentence r =
    (let a = dr_SelectedAction r;
         cpu = (if 0 < sa_CPURequest a then [fmt_f 2 (sa_CPURequest a) @ '' CPU cores''] else []);
         plan = (case shownCandidate r of
             None \<Rightarrow> []
           | Some c \<Rightarrow>
              (if 0 < cp_EstimatedCost (sd_Plan c) then [''$'' @ fmt_f 2 (cp_EstimatedCost (sd_Plan c)) @ ''/hr''] else []) @
              (if 0 < cp_SpotCount (sd_Plan c) \<or> 0 < cp_OnDemandCount (sd_Plan c)
               then [fmt_d (cp_SpotCount (sd_Plan c)) @ '' spot, '' @ fmt_d (cp_OnDemandCount (sd_Plan c)) @ '' on-demand'']
               else [])) in
     ''Selected plan: '' @ Join ([fmt_d (sa_TargetReplica a) @ '' replicas''] @ cpu @ plan) '', '' @ ''.'')"

definition reasonSentence :: "DecisionRecord \<Rightarrow> string" where
  "reasonSentence r =
    (if sa_Reason (dr_SelectedAction r) \<noteq> [] then ''Reason: '' @ sa_Reason (dr_SelectedAction r) @ ''.'' else [])"

definition joinSentences :: "string list \<Rightarrow> string" where
  "joinSentences parts = Join (filter (\<lambda>p. p \<noteq> []) parts) '' ''"

section \<open>Narratives\<close>

definition replicaChange :: "DecisionRecord \<Rightarrow> string" where
  "replicaChange r = ''from '' @ fmt_d (cs_Replicas (dr_CurrentState r)) @ '' to '' @
     fmt_d (sa_TargetReplica (dr_SelectedAction r)) @ '' replicas''"

definition narrateScaleUp :: "DecisionRecord \<Rightarrow> string list" where
  "narrateScaleUp r =
    [''At '' @ timeStr r @ '', '' @ dr_Service r @ '' was scaled up '' @ replicaChange r @ ''.'',
     reasonSentence r, sloSentence r, forecastSentence r, candidateSentence r, selectedPlanSentence r,
     scoreSentence r, confidenceSentence r]"

definition narrateScaleDown :: "DecisionRecord \<Rightarrow> string list" where
  "narrateScaleDown r =
    [''At '' @ timeStr r @ '', '' @ dr_Service r @ '' was scaled down '' @ replicaChange r @ ''.'',
     reasonSentence r, sloSentence r, forecastSentence r, candidateSentence r, selectedPlanSentence r,
     confidenceSentence r]"

definition narrateNoAction :: "DecisionRecord \<Rightarrow> string list" where
  "narrateNoAction r =
    [''At '' @ timeStr r @ '', no scaling action was taken for '' @ dr_Service r @ ''.'',
     reasonSentence r, sloSentence r, forecastSentence r, confidenceSentence r]"

definition narrateTune :: "string list \<Rightarrow> DecisionRecord \<Rightarrow> string list" where
  "narrateTune order r =
    [''At '' @ timeStr r @ '', '' @ dr_Service r @ '' was tuned without replica changes.'',
     reasonSentence r,
     (if order = [] then [] else fmt_d (int (length order)) @ '' tuning parameter(s) adjusted: '' @ Join order '', '' @ ''.''),
     sloSentence r, confidenceSentence r]"

definition narrateDryRun :: "DecisionRecord \<Rightarrow> string list" where
  "narrateDryRun r =
    [''[DRY RUN] At '' @ timeStr r @ '', '' @ dr_Service r @ '' '' @
       (case dr_ActionType r of
          ActionScaleUp \<Rightarrow> ''would have scaled up '' @ replicaChange r
        | ActionScaleDown \<Rightarrow> ''would have scaled down '' @ replicaChange r
        | ActionTune \<Rightarrow> ''would have applied tuning changes''
        | ActionNoAction \<Rightarrow> ''would have taken no action'') @ ''.'',
     reasonSentence r, sloSentence r, candidateSentence r,
     ''No changes were applied because dry-run mode was active.'', confidenceSentence r]"

definition narrateRollback :: "DecisionRecord \<Rightarrow> string list" where
  "narrateRollback r =
    [''At '' @ timeStr r @ '', a rollback was triggered for '' @ dr_Service r @ ''.'',
     reasonSentence r,
     ''The service was returned to '' @ fmt_d (sa_TargetReplica (dr_SelectedAction r)) @ '' replicas with '' @
       fmt_f 2 (sa_CPURequest (dr_SelectedAction r)) @ '' CPU cores.'',
     sloSentence r, confidenceSentence r]"

definition sentences :: "string list \<Rightarrow> DecisionRecord \<Rightarrow> string list" where
  "sentences order r =
    (if isRollback r then narrateRollback r
     else if dr_DryRun r then narrateDryRun r
     else case dr_ActionType r of
       ActionNoAction \<Rightarrow> narrateNoAction r
     | ActionScaleUp \<Rightarrow> narrateScaleUp r
     | ActionScaleDown \<Rightarrow> narrateScaleDown r
     | ActionTune \<Rightarrow> narrateTune order r)"

definition NarrateDecision :: "string list \<Rightarrow> DecisionRecord \<Rightarrow> string" where
  "NarrateDecision order r = joinSentences (sentences order r)"

section \<open>Lemmas\<close>

lemma Join_Cons: "ys \<noteq> [] \<Longrightarrow> Join (x # ys) sep = x @ sep @ Join ys sep"
  by (cases ys) simp_all

lemma Join_prefix: "\<exists>rest. Join (x # ys) sep = x @ rest"
  by (cases ys) simp_all

lemma joinSentences_first: "x \<noteq> [] \<Longrightarrow> \<exists>rest. joinSentences (x # ys) = x @ rest"
  using Join_prefix [of x "filter (\<lambda>p. p \<noteq> []) ys" "'' ''"] by (simp add: joinSentences_def)

lemma narrative_first: "\<exists>rest. NarrateDecision order r = hd (sentences order r) @ rest"
proof -
  have ne: "sentences order r \<noteq> [] \<and> hd (sentences order r) \<noteq> []"
    by (auto simp: sentences_def narrateRollback_def narrateDryRun_def narrateNoAction_def narrateScaleUp_def
        narrateScaleDown_def narrateTune_def split: ActionType.split)
  then obtain ys where "sentences order r = hd (sentences order r) # ys" by (cases "sentences order r") auto
  with ne show ?thesis using joinSentences_first [of "hd (sentences order r)" ys] by (simp add: NarrateDecision_def)
qed

lemma hd_sentences_dry:
  "take 9 (hd (sentences order r)) = ''[DRY RUN]'' \<longleftrightarrow> dr_DryRun r \<and> \<not> isRollback r"
  by (auto simp: sentences_def narrateRollback_def narrateDryRun_def narrateNoAction_def narrateScaleUp_def
      narrateScaleDown_def narrateTune_def split: ActionType.split)

lemma sloSentence_nonempty [simp]: "sloSentence r \<noteq> []"
  by (simp add: sloSentence_def Let_def)

lemma confidenceSentence_nonempty [simp]: "confidenceSentence r \<noteq> []"
  by (simp add: confidenceSentence_def)

lemma Join_snoc: "xs \<noteq> [] \<Longrightarrow> Join (xs @ [y]) sep = Join xs sep @ sep @ y"
  by (induction xs sep rule: Join.induct) simp_all

lemma Join_last: "ys \<noteq> [] \<Longrightarrow> \<exists>front. Join ys sep = front @ last ys"
  by (cases ys rule: rev_cases; cases "butlast ys = []") (auto simp: Join_snoc)

lemmas narrative_defs = sentences_def narrateRollback_def narrateDryRun_def narrateNoAction_def narrateScaleUp_def
  narrateScaleDown_def narrateTune_def

lemma last_sentence: "last (filter (\<lambda>p. p \<noteq> []) (sentences order r)) = confidenceSentence r \<and>
    filter (\<lambda>p. p \<noteq> []) (sentences order r) \<noteq> []"
  by (auto simp: narrative_defs split: ActionType.split)

lemma sentence_count:
  "3 \<le> length (filter (\<lambda>p. p \<noteq> []) (sentences order r)) \<and> length (filter (\<lambda>p. p \<noteq> []) (sentences order r)) \<le> 8"
  by (auto simp: narrative_defs split: ActionType.split)

text \<open>A narrative says what the record says: it is marked as a dry run exactly for the dry-run records that
  are no rollbacks; otherwise a scaling decision begins with its direction and the replicas before and after;
  it ends with the confidence; and it has between three and eight sentences.\<close>

theorem narrative_truthful:
  "(take 9 (NarrateDecision order r) = ''[DRY RUN]'' \<longleftrightarrow> dr_DryRun r \<and> \<not> isRollback r) \<and>
   (\<not> isRollback r \<and> \<not> dr_DryRun r \<and> dr_ActionType r \<in> {ActionScaleUp, ActionScaleDown} \<longrightarrow>
     (\<exists>rest. NarrateDecision order r = ''At '' @ timeStr r @ '', '' @ dr_Service r @
        (if dr_ActionType r = ActionScaleUp then '' was scaled up from '' else '' was scaled down from '') @
        fmt_d (cs_Replicas (dr_CurrentState r)) @ '' to '' @ fmt_d (sa_TargetReplica (dr_SelectedAction r)) @
        '' replicas.'' @ rest)) \<and>
   (\<exists>front. NarrateDecision order r = front @ confidenceSentence r) \<and>
   NarrateDecision order r = Join (filter (\<lambda>p. p \<noteq> []) (sentences order r)) '' '' \<and>
   length (filter (\<lambda>p. p \<noteq> []) (sentences order r)) \<in> {3..8}"
proof (intro conjI impI)
  obtain rest where rest: "NarrateDecision order r = hd (sentences order r) @ rest" using narrative_first by blast
  have long: "9 \<le> length (hd (sentences order r))"
    by (auto simp: narrative_defs timeStr_def Let_def split: ActionType.split)
  show "take 9 (NarrateDecision order r) = ''[DRY RUN]'' \<longleftrightarrow> dr_DryRun r \<and> \<not> isRollback r"
    using long hd_sentences_dry [of order r] by (simp add: rest)
  assume "\<not> isRollback r \<and> \<not> dr_DryRun r \<and> dr_ActionType r \<in> {ActionScaleUp, ActionScaleDown}"
  then show "\<exists>rest. NarrateDecision order r = ''At '' @ timeStr r @ '', '' @ dr_Service r @
        (if dr_ActionType r = ActionScaleUp then '' was scaled up from '' else '' was scaled down from '') @
        fmt_d (cs_Replicas (dr_CurrentState r)) @ '' to '' @ fmt_d (sa_TargetReplica (dr_SelectedAction r)) @
        '' replicas.'' @ rest"
    using rest by (auto simp: sentences_def narrateScaleUp_def narrateScaleDown_def replicaChange_def)
next
  show "\<exists>front. NarrateDecision order r = front @ confidenceSentence r"
    using Join_last [of "filter (\<lambda>p. p \<noteq> []) (sentences order r)" "'' ''"] last_sentence [of order r]
    by (simp add: NarrateDecision_def joinSentences_def)
qed (use sentence_count [of order r] in \<open>simp_all add: NarrateDecision_def joinSentences_def\<close>)

definition demo_record :: DecisionRecord where
  "demo_record = \<lparr>dr_ID = ''d1'', dr_Timestamp = 3723 * second + 500000000, dr_Namespace = ''shop'', dr_Service = ''cart'',
     dr_Trigger = ''periodic'',
     dr_CurrentState = \<lparr>cs_Replicas = 2, cs_CPURequest = 1, cs_MemoryRequest = 1, cs_CPUUsage = 1, cs_MemoryUsage = 1,
       cs_SpotRatio = 0, cs_HourlyCost = 0\<rparr>,
     dr_SLOStatus = \<lparr>ss_Compliant = False, ss_BurnRate = lit 2, ss_BudgetRemaining = 1, ss_LatencyP99 = 0, ss_ErrorRate = 0,
       ss_Availability = 0, ss_Throughput = 0\<rparr>,
     dr_TenantStatus = None,
     dr_ForecastState = Some \<lparr>fr_PredictedRPS = 0, fr_PredictedLatency = 0, fr_ChangePercent = lit 20, fr_Confidence = 0,
       fr_SpotRiskScore = 0\<rparr>,
     dr_ClusterState = \<lparr>cl_TotalCores = 0, cl_UsedCores = 0, cl_TotalMemoryGiB = 0, cl_UsedMemoryGiB = 0, cl_NodeCount = 0,
       cl_SpotNodeCount = 0, cl_Region = [], cl_Provider = []\<rparr>,
     dr_Metrics = Map.empty,
     dr_Candidates = [\<lparr>sd_Plan = \<lparr>cp_Replicas = 3, cp_CPURequest = 1, cp_MemoryRequest = 1, cp_SpotRatio = 0,
         cp_SpotCount = 0, cp_OnDemandCount = 3, cp_InstanceTypes = [], cp_EstimatedCost = 1, cp_EstimatedCarbon = 1\<rparr>,
       sd_Score = \<lparr>sc_SLO = 1, sc_Cost = 1, sc_Carbon = 1, sc_Fairness = 1, sc_Weighted = 1\<rparr>, sd_Constraints = [],
       sd_Viable = True\<rparr>],
     dr_ParetoFront = [],
     dr_SelectedAction = \<lparr>sa_Type = ActionScaleUp, sa_TargetReplica = 3, sa_CPURequest = 1, sa_MemoryRequest = 1,
       sa_SpotRatio = 0, sa_DryRun = False, sa_Reason = ''burn rate'', sa_Confidence = 1, sa_TuningParams = Map.empty\<rparr>,
     dr_PolicyNames = [], dr_ObjectiveWeights = Map.empty, dr_ActionType = ActionScaleUp, dr_DryRun = False,
     dr_Confidence = 1\<rparr>"

lemma demo_record_sel:
  "\<not> isRollback demo_record" "\<not> dr_DryRun demo_record" "dr_ActionType demo_record = ActionScaleUp"
  "dr_Service demo_record = ''cart''" "timeStr demo_record = ''01:02 UTC''"
  "fmt_d (cs_Replicas (dr_CurrentState demo_record)) = ''2''"
  "fmt_d (sa_TargetReplica (dr_SelectedAction demo_record)) = ''3''"
  "length (filter (\<lambda>p. p \<noteq> []) (sentences [] demo_record)) = 8"
  by code_simp+

theorem narrative_truthful_witness:
  "(\<exists>rest. NarrateDecision [] demo_record = ''At 01:02 UTC, cart was scaled up from 2 to 3 replicas.'' @ rest) \<and>
   length (filter (\<lambda>p. p \<noteq> []) (sentences [] demo_record)) = 8"
  using narrative_truthful [of "[]" demo_record, THEN conjunct2, THEN conjunct1] by (simp add: demo_record_sel)

end
