(* ===== verification/Decision_Journal.thy ===== *)
theory Decision_Journal
  imports Narrator Simulator Tenant_Api Objective_Controller
begin

text \<open>
  The decision journal, \<open>internal/explainability/journal.go\<close>, and the two sets of REST handlers that serve it,
  \<open>internal/explainability/api_handler.go\<close> and \<open>internal/api/decisions_api.go\<close>. The SQL statements of the
  source are translated into operations on the rows of the table \<open>decisions\<close> and of its full-text index; a row
  keeps its columns as they are bound, the timestamp as text. What is not under \<open>src\<close> is a parameter, the
  record \<open>db_env\<close>: which statements fail, the order \<open>ORDER BY\<close> gives to rows, the matching of the full-text
  index, \<open>AVG\<close>, \<open>encoding/json\<close> for a record, and the date part of a time's text. The records a handler
  encodes come out of the decoder, so all their numbers are finite and the encoding does not fail.
\<close>

section \<open>Data\<close>

record journal_row =
  jr_id :: string
  jr_timestamp :: string
  jr_namespace :: string
  jr_service :: string
  jr_trigger :: string
  jr_record :: string
  jr_action_type :: string
  jr_dry_run :: bool
  jr_confidence :: f64
  jr_reason :: string

record fts_row =
  fr_decision_id :: string
  fr_namespace :: string
  fr_service :: string
  fr_trigger :: string
  fr_action_type :: string
  fr_reason :: string

record Journal =
  jn_decisions :: "journal_row list"
  jn_fts :: "fts_row list"
  jn_hasFTS :: bool

datatype sql_stmt =
    OpenDB | SetWAL | CreateTable | CreateFTS | InsertDecision | InsertFTS | SelectRecords | SelectByID
  | SearchRecords | CountDecisions | GroupTriggers | GroupServices | DeleteFTS | DeleteDecisions

record db_env =
  de_fault :: "sql_stmt \<Rightarrow> string option"
  de_sortRows :: "(journal_row \<Rightarrow> journal_row \<Rightarrow> bool) \<Rightarrow> journal_row list \<Rightarrow> journal_row list"
  de_sortGroups :: "(string \<times> int \<Rightarrow> string \<times> int \<Rightarrow> bool) \<Rightarrow> (string \<times> int) list \<Rightarrow> (string \<times> int) list"
  de_match :: "string \<Rightarrow> fts_row \<Rightarrow> bool"
  de_avg :: "f64 list \<Rightarrow> f64"
  de_marshal :: "DecisionRecord \<Rightarrow> string + string"
  de_unmarshal :: "string \<Rightarrow> string + DecisionRecord"
  de_date :: "int \<Rightarrow> string"

datatype journal_error =
    OpeningSqlite string | SettingWAL string | CreatingSchema string
  | Marshaling string | Inserting string | QueryingDecisions string | Unmarshaling string
  | QueryingDecision string string | Searching string
  | AggregateCount string | AggregateTriggers string | AggregateServices string | Purging string

record QueryFilter =
  qf_Namespace :: string
  qf_Service :: string
  qf_Trigger :: string
  qf_Since :: "gotime option"
  qf_Limit :: int

record JournalStats =
  js_TotalDecisions :: int
  js_DecisionsPerHour :: f64
  js_AverageConfidence :: f64
  js_TopTriggers :: "(string \<times> int) list"
  js_TopServices :: "(string \<times> int) list"

fun actionTypeText :: "ActionType \<Rightarrow> string" where
  "actionTypeText ActionScaleUp = ''scale_up''"
| "actionTypeText ActionScaleDown = ''scale_down''"
| "actionTypeText ActionTune = ''tune''"
| "actionTypeText ActionNoAction = ''no_action''"

section \<open>Texts in SQL\<close>

text \<open>\<open>Time.UTC().Format(time.RFC3339Nano)\<close>: the date up to the seconds, the fraction without trailing zeros.\<close>

definition rfc3339Nano :: "db_env \<Rightarrow> gotime \<Rightarrow> string" where
  "rfc3339Nano E t = de_date E (t div second) @ frac_string 9 (nat (t mod second)) @ ''Z''"

text \<open>The comparison of texts, byte by byte.\<close>

fun text_less :: "string \<Rightarrow> string \<Rightarrow> bool" where
  "text_less xs [] = False"
| "text_less [] (y # ys) = True"
| "text_less (x # xs) (y # ys) = ((of_char x :: nat) < of_char y \<or> x = y \<and> text_less xs ys)"

text \<open>\<open>LIKE\<close>: \<open>%\<close> stands for any text, \<open>_\<close> for any character, and ASCII letters match in either case.\<close>

definition fold_case :: "char \<Rightarrow> char" where
  "fold_case c = (if char_in (CHR ''A'') (CHR ''Z'') c then char_of (of_char c + 32 :: nat) else c)"

fun sql_like :: "string \<Rightarrow> string \<Rightarrow> bool" where
  "sql_like [] s = (s = [])"
| "sql_like (p # ps) [] = (p = CHR ''%'' \<and> sql_like ps [])"
| "sql_like (p # ps) (c # cs) =
    (if p = CHR ''%'' then sql_like ps (c # cs) \<or> sql_like (p # ps) cs
     else (p = CHR ''_'' \<or> fold_case p = fold_case c) \<and> sql_like ps cs)"

text \<open>\<open>ORDER BY timestamp DESC\<close>, and \<open>LIMIT\<close> when it is given.\<close>

definition later :: "journal_row \<Rightarrow> journal_row \<Rightarrow> bool" where
  "later a b = text_less (jr_timestamp b) (jr_timestamp a)"

definition latestFirst :: "db_env \<Rightarrow> journal_row list \<Rightarrow> journal_row list" where
  "latestFirst E rows = de_sortRows E later rows"

definition limited :: "int \<Rightarrow> 'a list \<Rightarrow> 'a list" where
  "limited n xs = (if 0 < n then take (nat n) xs else xs)"

section \<open>Operations\<close>

text \<open>\<open>NewJournal\<close> on the content the database file has; a new file is empty.\<close>

definition NewJournal :: "db_env \<Rightarrow> journal_row list \<Rightarrow> fts_row list \<Rightarrow> journal_error + Journal" where
  "NewJournal E rows index =
    (case de_fault E OpenDB of Some e \<Rightarrow> Inl (OpeningSqlite e) | None \<Rightarrow>
     case de_fault E SetWAL of Some e \<Rightarrow> Inl (SettingWAL e) | None \<Rightarrow>
     case de_fault E CreateTable of Some e \<Rightarrow> Inl (CreatingSchema e) | None \<Rightarrow>
     Inr \<lparr>jn_decisions = rows, jn_fts = index, jn_hasFTS = (de_fault E CreateFTS = None)\<rparr>)"

definition decisionRow :: "db_env \<Rightarrow> DecisionRecord \<Rightarrow> string \<Rightarrow> journal_row" where
  "decisionRow E r recordJSON =
    \<lparr>jr_id = dr_ID r, jr_timestamp = rfc3339Nano E (dr_Timestamp r), jr_namespace = dr_Namespace r,
     jr_service = dr_Service r, jr_trigger = dr_Trigger r, jr_record = recordJSON,
     jr_action_type = actionTypeText (dr_ActionType r), jr_dry_run = dr_DryRun r, jr_confidence = dr_Confidence r,
     jr_reason = sa_Reason (dr_SelectedAction r)\<rparr>"

definition ftsRow :: "DecisionRecord \<Rightarrow> fts_row" where
  "ftsRow r = \<lparr>fr_decision_id = dr_ID r, fr_namespace = dr_Namespace r, fr_service = dr_Service r,
     fr_trigger = dr_Trigger r, fr_action_type = actionTypeText (dr_ActionType r),
     fr_reason = sa_Reason (dr_SelectedAction r)\<rparr>"

definition Write :: "db_env \<Rightarrow> DecisionRecord \<Rightarrow> Journal \<Rightarrow> journal_error option \<times> Journal" where
  "Write E r j =
    (case de_marshal E r of Inl e \<Rightarrow> (Some (Marshaling e), j) | Inr recordJSON \<Rightarrow>
     case de_fault E InsertDecision of Some e \<Rightarrow> (Some (Inserting e), j) | None \<Rightarrow>
     if dr_ID r \<in> jr_id ` set (jn_decisions j) then (Some (Inserting ''UNIQUE constraint failed: decisions.id''), j)
     else
      let j' = j\<lparr>jn_decisions := jn_decisions j @ [decisionRow E r recordJSON]\<rparr> in
      (None, if jn_hasFTS j \<and> de_fault E InsertFTS = None then j'\<lparr>jn_fts := jn_fts j @ [ftsRow r]\<rparr> else j'))"

fun decodeRows :: "db_env \<Rightarrow> journal_row list \<Rightarrow> journal_error + DecisionRecord list" where
  "decodeRows E [] = Inr []"
| "decodeRows E (row # rows) =
    (case de_unmarshal E (jr_record row) of
       Inl e \<Rightarrow> Inl (Unmarshaling e)
     | Inr r \<Rightarrow> (case decodeRows E rows of Inl e \<Rightarrow> Inl e | Inr rs \<Rightarrow> Inr (r # rs)))"

definition matchesFilter :: "db_env \<Rightarrow> QueryFilter \<Rightarrow> journal_row \<Rightarrow> bool" where
  "matchesFilter E f row =
    ((qf_Namespace f \<noteq> [] \<longrightarrow> jr_namespace row = qf_Namespace f) \<and>
     (qf_Service f \<noteq> [] \<longrightarrow> jr_service row = qf_Service f) \<and>
     (qf_Trigger f \<noteq> [] \<longrightarrow> jr_trigger row = qf_Trigger f) \<and>
     (case qf_Since f of None \<Rightarrow> True | Some t \<Rightarrow> \<not> text_less (jr_timestamp row) (rfc3339Nano E t)))"

definition journalQuery :: "db_env \<Rightarrow> QueryFilter \<Rightarrow> Journal \<Rightarrow> journal_error + DecisionRecord list" where
  "journalQuery E f j =
    (case de_fault E SelectRecords of Some e \<Rightarrow> Inl (QueryingDecisions e) | None \<Rightarrow>
     decodeRows E (limited (qf_Limit f) (latestFirst E (filter (matchesFilter E f) (jn_decisions j)))))"

definition GetByID :: "db_env \<Rightarrow> string \<Rightarrow> Journal \<Rightarrow> journal_error + DecisionRecord option" where
  "GetByID E ident j =
    (case de_fault E SelectByID of Some e \<Rightarrow> Inl (QueryingDecision ident e) | None \<Rightarrow>
     case find (\<lambda>row. jr_id row = ident) (jn_decisions j) of
       None \<Rightarrow> Inr None
     | Some row \<Rightarrow> (case de_unmarshal E (jr_record row) of Inl e \<Rightarrow> Inl (Unmarshaling e) | Inr r \<Rightarrow> Inr (Some r)))"

definition ftsQuery :: "string \<Rightarrow> string" where
  "ftsQuery text = [char_of (34 :: nat)] @ concat (map (\<lambda>c. if of_char c = (34 :: nat) then [c, c] else [c]) text) @
     [char_of (34 :: nat)]"

definition searchLike :: "string \<Rightarrow> journal_row \<Rightarrow> bool" where
  "searchLike text row =
    (let pattern = ''%'' @ text @ ''%'' in
     sql_like pattern (jr_namespace row) \<or> sql_like pattern (jr_service row) \<or> sql_like pattern (jr_trigger row) \<or>
     sql_like pattern (jr_action_type row) \<or> sql_like pattern (jr_reason row))"

definition searchFTS :: "db_env \<Rightarrow> string \<Rightarrow> Journal \<Rightarrow> journal_row list" where
  "searchFTS E text j =
    concat (map (\<lambda>row. map (\<lambda>_. row) (filter (\<lambda>f. fr_decision_id f = jr_id row \<and> de_match E (ftsQuery text) f) (jn_fts j)))
      (jn_decisions j))"

definition Search :: "db_env \<Rightarrow> string \<Rightarrow> int \<Rightarrow> Journal \<Rightarrow> journal_error + DecisionRecord list" where
  "Search E text limit j =
    (if text = [] then Inr []
     else
      let limit' = (if limit \<le> 0 then 50 else limit);
          rows = (if jn_hasFTS j then searchFTS E text j else filter (searchLike text) (jn_decisions j)) in
      case de_fault E SearchRecords of Some e \<Rightarrow> Inl (Searching e) | None \<Rightarrow>
      decodeRows E (limited limit' (latestFirst E rows)))"

text \<open>\<open>SELECT x, COUNT(*) ... GROUP BY x ORDER BY cnt DESC LIMIT 5\<close>.\<close>

definition topGroups :: "db_env \<Rightarrow> (journal_row \<Rightarrow> string) \<Rightarrow> journal_row list \<Rightarrow> (string \<times> int) list" where
  "topGroups E col rows =
    take 5 (de_sortGroups E (\<lambda>a b. snd b < snd a)
      (map (\<lambda>k. (k, int (length (filter (\<lambda>row. col row = k) rows)))) (remdups (map col rows))))"

definition AggregateStats :: "db_env \<Rightarrow> gotime \<Rightarrow> duration \<Rightarrow> Journal \<Rightarrow> journal_error + JournalStats" where
  "AggregateStats E now window j =
    (let since = rfc3339Nano E (time_add now (- window));
         rows = filter (\<lambda>row. \<not> text_less (jr_timestamp row) since) (jn_decisions j);
         total = int (length rows);
         avg = (if rows = [] then 0 else de_avg E (map jr_confidence rows)) in
     case de_fault E CountDecisions of Some e \<Rightarrow> Inl (AggregateCount e) | None \<Rightarrow>
     case de_fault E GroupTriggers of Some e \<Rightarrow> Inl (AggregateTriggers e) | None \<Rightarrow>
     case de_fault E GroupServices of Some e \<Rightarrow> Inl (AggregateServices e) | None \<Rightarrow>
     Inr \<lparr>js_TotalDecisions = total,
       js_DecisionsPerHour = (if 0 < Hours window \<and> 0 < total then of_int64 total / Hours window else 0),
       js_AverageConfidence = avg, js_TopTriggers = topGroups E jr_trigger rows,
       js_TopServices = topGroups E jr_service rows\<rparr>)"

definition Purge :: "db_env \<Rightarrow> gotime \<Rightarrow> Journal \<Rightarrow> (journal_error + int) \<times> Journal" where
  "Purge E olderThan j =
    (let ts = rfc3339Nano E olderThan;
         old = (\<lambda>row. text_less (jr_timestamp row) ts);
         ids = jr_id ` set (filter old (jn_decisions j));
         j1 = (if jn_hasFTS j \<and> de_fault E DeleteFTS = None
               then j\<lparr>jn_fts := filter (\<lambda>f. fr_decision_id f \<notin> ids) (jn_fts j)\<rparr> else j) in
     case de_fault E DeleteDecisions of Some e \<Rightarrow> (Inl (Purging e), j1) | None \<Rightarrow>
     (Inr (int (length (filter old (jn_decisions j)))), j1\<lparr>jn_decisions := filter (\<lambda>row. \<not> old row) (jn_decisions j)\<rparr>))"

section \<open>REST handlers\<close>

text \<open>The parameters of the query string that select decisions; an absent one is the empty text. Parsing a time
  is a parameter.\<close>

definition sinceParam :: "(string \<Rightarrow> gotime option) \<Rightarrow> string \<Rightarrow> gotime option option" where
  "sinceParam parseTime s = (if s = [] then Some None else map_option Some (parseTime s))"

definition limitParam :: "int \<Rightarrow> string \<Rightarrow> int option" where
  "limitParam dflt s =
    (if s = [] then Some dflt else case Atoi s of None \<Rightarrow> None | Some n \<Rightarrow> if n < 1 then None else Some n)"

definition listDecisions ::
  "string \<Rightarrow> string \<Rightarrow> db_env \<Rightarrow> (string \<Rightarrow> gotime option) \<Rightarrow> string \<Rightarrow> string \<Rightarrow> string \<Rightarrow> string \<Rightarrow> string \<Rightarrow> Journal \<Rightarrow>
     DecisionRecord list http_response" where
  "listDecisions sinceText limitText E parseTime ns svc trig since limit j =
    (case sinceParam parseTime since of None \<Rightarrow> HttpError 400 sinceText | Some t \<Rightarrow>
     case limitParam 0 limit of None \<Rightarrow> HttpError 400 limitText | Some n \<Rightarrow>
     case journalQuery E \<lparr>qf_Namespace = ns, qf_Service = svc, qf_Trigger = trig, qf_Since = t, qf_Limit = n\<rparr> j of
       Inl e \<Rightarrow> HttpError 500 ''internal error''
     | Inr found \<Rightarrow> HttpOK found)"

definition handleListDecisions where
  "handleListDecisions E parseTime ns svc trig since limit j =
    listDecisions ''invalid 'since' (use RFC3339)'' (''invalid 'limit'' @ [CHR 0x27]) E parseTime ns svc trig since limit j"

definition baseHandleListDecisions where
  "baseHandleListDecisions E parseTime ns svc since limit j =
    listDecisions ''invalid 'since' format, use RFC3339'' ''invalid 'limit' value'' E parseTime ns svc [] since limit j"

definition handleGetDecision :: "db_env \<Rightarrow> string \<Rightarrow> Journal \<Rightarrow> DecisionRecord http_response" where
  "handleGetDecision E ident j =
    (if ident = [] then HttpError 400 ''missing id''
     else case GetByID E ident j of
       Inl e \<Rightarrow> HttpError 500 ''internal error''
     | Inr None \<Rightarrow> HttpError 404 ''not found''
     | Inr (Some r) \<Rightarrow> HttpOK r)"

definition handleExplain ::
  "(DecisionRecord \<Rightarrow> string) \<Rightarrow> db_env \<Rightarrow> string \<Rightarrow> Journal \<Rightarrow> (string \<times> string) http_response" where
  "handleExplain narrator E ident j =
    (if ident = [] then HttpError 400 ''missing id''
     else case GetByID E ident j of
       Inl e \<Rightarrow> HttpError 500 ''internal error''
     | Inr None \<Rightarrow> HttpError 404 ''not found''
     | Inr (Some r) \<Rightarrow> HttpOK (ident, narrator r))"

text \<open>The statistics are computed, so they are encoded only if their numbers are finite.\<close>

definition badWindow :: string where
  "badWindow = ''invalid 'window' (e.g. 1h, 24h, 7d not supported '' @ [CHR 0xE2, CHR 0x80, CHR 0x94] @ '' use hours)''"

definition handleSummary ::
  "(string \<Rightarrow> duration option) \<Rightarrow> db_env \<Rightarrow> gotime \<Rightarrow> string \<Rightarrow> Journal \<Rightarrow> JournalStats http_body http_response" where
  "handleSummary parseDuration E now windowStr j =
    (case parseDuration (if windowStr = [] then ''24h'' else windowStr) of
       None \<Rightarrow> HttpError 400 badWindow
     | Some window \<Rightarrow>
        if window \<le> 0 then HttpError 400 badWindow
        else case AggregateStats E now window j of
          Inl e \<Rightarrow> HttpError 500 ''internal error''
        | Inr stats \<Rightarrow> HttpOK (encodeBody [js_DecisionsPerHour stats, js_AverageConfidence stats] stats))"

definition handleSearch :: "db_env \<Rightarrow> string \<Rightarrow> string \<Rightarrow> Journal \<Rightarrow> DecisionRecord list http_response" where
  "handleSearch E q limitStr j =
    (if q = [] then HttpError 400 ''missing 'q' query parameter''
     else case limitParam 20 limitStr of None \<Rightarrow> HttpError 400 (''invalid 'limit'' @ [CHR 0x27]) | Some limit \<Rightarrow>
       case Search E q limit j of Inl e \<Rightarrow> HttpError 500 ''internal error'' | Inr found \<Rightarrow> HttpOK found)"

section \<open>Order of texts\<close>

lemma text_less_irrefl: "\<not> text_less s s"
  by (induction s) simp_all

lemma text_less_trans: "text_less a b \<Longrightarrow> text_less b c \<Longrightarrow> text_less a c"
proof (induction a b arbitrary: c rule: text_less.induct)
  case (3 x xs y ys)
  then show ?case by (cases c) auto
qed (auto elim: text_less.elims)

lemma text_less_linear: "text_less a b \<or> a = b \<or> text_less b a"
proof (induction a b rule: text_less.induct)
  case (3 x xs y ys)
  have "(of_char x :: nat) = of_char y \<longleftrightarrow> x = y" by simp
  with 3 show ?case by (metis linorder_neqE_nat text_less.simps(3))
next
  case (1 xs)
  then show ?case by (cases xs) simp_all
qed simp

lemma later_strict_weak: "strict_weak later rows"
  unfolding strict_weak_def
proof (intro conjI ballI impI)
  fix a b c :: journal_row
  show "\<not> later a a" by (simp add: later_def text_less_irrefl)
  show "later a b \<Longrightarrow> later b c \<Longrightarrow> later a c" unfolding later_def by (rule text_less_trans)
  show "later a c \<Longrightarrow> later a b \<or> later b c"
    using text_less_linear [of "jr_timestamp a" "jr_timestamp b"] text_less_trans unfolding later_def by metis
qed

text \<open>A fraction of a second is written after a point, which comes before the \<open>Z\<close> of a whole second.\<close>

lemma whole_second_last:
  assumes "t mod second = 0" "0 < d" "d < second"
  shows "text_less (rfc3339Nano E (t + d)) (rfc3339Nano E t)"
proof -
  have q: "(t + d) div second = t div second" "(t + d) mod second = d"
    using assms by (auto simp: div_add1_eq mod_add_left_eq [of t second d, symmetric] div_pos_pos_trivial mod_pos_pos_trivial)
  have app: "text_less (p @ a) (p @ b) = text_less a b" for p a b
    by (induction p) simp_all
  have "nat d mod 10 ^ 9 \<noteq> 0" using assms(2,3) by (simp add: nat_less_iff)
  then obtain f where "frac_string 9 (nat d) = CHR ''.'' # f"
    by (simp add: frac_string_def Let_def)
  moreover have "frac_string 9 0 = []" by (simp add: frac_string_def)
  ultimately show ?thesis using assms(1) by (simp add: rfc3339Nano_def q app)
qed

section \<open>The journal as a store\<close>

definition journal_inv :: "Journal \<Rightarrow> bool" where
  "journal_inv j \<longleftrightarrow> distinct (map jr_id (jn_decisions j)) \<and>
     (jn_hasFTS j \<longrightarrow> map fr_decision_id (jn_fts j) = map jr_id (jn_decisions j))"

definition db_works :: "db_env \<Rightarrow> bool" where
  "db_works E \<longleftrightarrow> (\<forall>s. de_fault E s = None)"

text \<open>What \<open>encoding/json\<close> gives back of an encoded record.\<close>

definition json_roundtrip :: "db_env \<Rightarrow> DecisionRecord set \<Rightarrow> bool" where
  "json_roundtrip E R \<longleftrightarrow> (\<forall>r \<in> R. \<exists>s. de_marshal E r = Inr s \<and> de_unmarshal E s = Inr r)"

lemma Write_ok_iff:
  "fst (Write E r j) = None \<longleftrightarrow>
    (\<exists>s. de_marshal E r = Inr s) \<and> de_fault E InsertDecision = None \<and> dr_ID r \<notin> jr_id ` set (jn_decisions j)"
  by (auto simp: Write_def Let_def split: sum.splits option.splits)

lemma Write_inv: "journal_inv j \<Longrightarrow> de_fault E InsertFTS = None \<Longrightarrow> journal_inv (snd (Write E r j))"
  by (auto simp: journal_inv_def Write_def decisionRow_def ftsRow_def Let_def split: sum.splits option.splits)

lemma filter_fts_sync:
  assumes "map fr_decision_id fs = map jr_id rows" "distinct (map jr_id rows)"
  shows "map fr_decision_id (filter (\<lambda>f. fr_decision_id f \<notin> jr_id ` {x \<in> set rows. P x}) fs) =
    map jr_id (filter (\<lambda>row. \<not> P row) rows)"
proof -
  have "map fr_decision_id (filter (\<lambda>f. fr_decision_id f \<notin> A) fs) = filter (\<lambda>i. i \<notin> A) (map fr_decision_id fs)" for A
    by (simp add: filter_map comp_def)
  moreover have "filter (\<lambda>i. i \<notin> jr_id ` {x \<in> set rows. P x}) (map jr_id rows) = map jr_id (filter (\<lambda>row. \<not> P row) rows)"
    using assms(2) by (auto simp: filter_map comp_def inj_on_eq_iff distinct_map intro!: arg_cong [where f = "map jr_id"] filter_cong)
  ultimately show ?thesis using assms(1) by simp
qed

lemma Purge_inv: "journal_inv j \<Longrightarrow> db_works E \<Longrightarrow> journal_inv (snd (Purge E t j))"
  by (auto simp: journal_inv_def Purge_def db_works_def Let_def filter_fts_sync distinct_map_filter)

text \<open>The specification of the journal: the list of the records it holds, in the order of their writes.\<close>

definition rowOf :: "db_env \<Rightarrow> DecisionRecord \<Rightarrow> journal_row" where
  "rowOf E r = decisionRow E r (case de_marshal E r of Inr s \<Rightarrow> s | Inl _ \<Rightarrow> [])"

definition holds :: "db_env \<Rightarrow> Journal \<Rightarrow> DecisionRecord list \<Rightarrow> bool" where
  "holds E j rs \<longleftrightarrow> jn_decisions j = map (rowOf E) rs \<and> json_roundtrip E (set rs) \<and> journal_inv j"

definition timeText :: "db_env \<Rightarrow> DecisionRecord \<Rightarrow> string" where
  "timeText E r = rfc3339Nano E (dr_Timestamp r)"

definition selects :: "db_env \<Rightarrow> QueryFilter \<Rightarrow> DecisionRecord \<Rightarrow> bool" where
  "selects E f r = (qf_Namespace f \<in> {[], dr_Namespace r} \<and> qf_Service f \<in> {[], dr_Service r} \<and>
     qf_Trigger f \<in> {[], dr_Trigger r} \<and>
     (case qf_Since f of None \<Rightarrow> True | Some t \<Rightarrow> \<not> text_less (timeText E r) (rfc3339Nano E t)))"

lemma rowOf_sel [simp]:
  "jr_id (rowOf E r) = dr_ID r" "jr_timestamp (rowOf E r) = timeText E r" "jr_namespace (rowOf E r) = dr_Namespace r"
  "jr_service (rowOf E r) = dr_Service r" "jr_trigger (rowOf E r) = dr_Trigger r"
  by (simp_all add: rowOf_def decisionRow_def timeText_def)

lemma matchesFilter_rowOf: "matchesFilter E f (rowOf E r) = selects E f r"
  by (auto simp: matchesFilter_def selects_def split: option.splits)

lemma unmarshal_rowOf: "json_roundtrip E R \<Longrightarrow> r \<in> R \<Longrightarrow> de_unmarshal E (jr_record (rowOf E r)) = Inr r"
  by (fastforce simp: json_roundtrip_def rowOf_def decisionRow_def)

lemma decodeRows_map: "json_roundtrip E R \<Longrightarrow> set rs \<subseteq> R \<Longrightarrow> decodeRows E (map (rowOf E) rs) = Inr rs"
  by (induction rs) (simp_all add: unmarshal_rowOf)

lemma json_roundtrip_insert:
  "json_roundtrip E (insert r R) \<longleftrightarrow> json_roundtrip E {r} \<and> json_roundtrip E R"
  by (auto simp: json_roundtrip_def)

lemma json_roundtrip_subset: "json_roundtrip E R \<Longrightarrow> S \<subseteq> R \<Longrightarrow> json_roundtrip E S"
  by (auto simp: json_roundtrip_def)

lemma holds_ids: "holds E j rs \<Longrightarrow> distinct (map dr_ID rs) \<and> jr_id ` set (jn_decisions j) = dr_ID ` set rs"
  by (auto simp: holds_def journal_inv_def comp_def image_image)

lemma holds_Write:
  assumes "holds E j rs" "db_works E" "json_roundtrip E {r}"
  shows "dr_ID r \<notin> dr_ID ` set rs \<Longrightarrow> fst (Write E r j) = None \<and> holds E (snd (Write E r j)) (rs @ [r])"
    "dr_ID r \<in> dr_ID ` set rs \<Longrightarrow> fst (Write E r j) \<noteq> None \<and> snd (Write E r j) = j"
proof -
  obtain s where s: "de_marshal E r = Inr s" using assms(3) by (auto simp: json_roundtrip_def)
  have inv: "journal_inv (snd (Write E r j))"
    using assms Write_inv [of j E r] by (simp add: holds_def db_works_def)
  show "fst (Write E r j) = None \<and> holds E (snd (Write E r j)) (rs @ [r])" if new: "dr_ID r \<notin> dr_ID ` set rs"
  proof -
    have "fst (Write E r j) = None \<and> jn_decisions (snd (Write E r j)) = jn_decisions j @ [rowOf E r]"
      using assms(2) holds_ids [OF assms(1)] new s by (simp add: Write_def Let_def db_works_def rowOf_def)
    then show ?thesis using assms(1,3) inv json_roundtrip_insert [of E r "set rs"] by (simp add: holds_def)
  qed
  show "dr_ID r \<in> dr_ID ` set rs \<Longrightarrow> fst (Write E r j) \<noteq> None \<and> snd (Write E r j) = j"
    using assms holds_ids [OF assms(1)] s by (simp add: Write_def db_works_def)
qed

lemma holds_GetByID:
  assumes "holds E j rs" "db_works E"
  shows "GetByID E i j = Inr (find (\<lambda>r. dr_ID r = i) rs)"
proof -
  have "find (\<lambda>row. jr_id row = i) (map (rowOf E) rs) = map_option (rowOf E) (find (\<lambda>r. dr_ID r = i) rs)"
    by (induction rs) simp_all
  moreover have "find (\<lambda>r. dr_ID r = i) rs = Some r \<Longrightarrow> r \<in> set rs" for r
    by (metis find_Some_iff nth_mem)
  ultimately show ?thesis
    using assms unmarshal_rowOf [of E "set rs"]
    by (auto simp: GetByID_def db_works_def holds_def split: option.splits)
qed

lemma holds_Query:
  assumes h: "holds E j rs" and "db_works E" and srt: "go_sort (de_sortRows E)"
  shows "\<exists>qs. journalQuery E f j = Inr (limited (qf_Limit f) qs) \<and> mset qs = mset (filter (selects E f) rs) \<and>
    sorted_wrt (\<lambda>a b. \<not> text_less (timeText E a) (timeText E b)) qs"
proof -
  let ?rows = "map (rowOf E) (filter (selects E f) rs)"
  have rows: "filter (matchesFilter E f) (jn_decisions j) = ?rows"
    using h by (simp add: holds_def filter_map comp_def matchesFilter_rowOf)
  have m: "mset (latestFirst E ?rows) = image_mset (rowOf E) (mset (filter (selects E f) rs))"
    by (simp add: latestFirst_def go_sort.srt_perm [OF srt])
  define g where "g row = (case de_unmarshal E (jr_record row) of Inr r \<Rightarrow> r | Inl _ \<Rightarrow> undefined)" for row :: journal_row
  define qs where "qs = map g (latestFirst E ?rows)"
  have rt: "json_roundtrip E (set rs)" using h by (simp add: holds_def)
  have g: "g (rowOf E r) = r" if "r \<in> set rs" for r
    using unmarshal_rowOf [OF rt that] by (simp add: g_def)
  have set: "set (latestFirst E ?rows) = rowOf E ` {r \<in> set rs. selects E f r}"
    using m by (metis list.set_map mset_map set_filter set_mset_mset)
  have unmapped: "map (rowOf E) qs = latestFirst E ?rows"
    using set g by (auto simp: qs_def intro!: map_idI)
  have "mset qs = image_mset (g \<circ> rowOf E) (mset (filter (selects E f) rs))"
    by (simp add: qs_def m image_mset.compositionality del: mset_filter)
  also have "\<dots> = mset (filter (selects E f) rs)"
    using g by (intro trans [OF image_mset_cong image_mset.identity [THEN fun_cong, unfolded id_apply]]) auto
  finally have ms: "mset qs = mset (filter (selects E f) rs)" .
  have "sorted_by later (map (rowOf E) qs)"
    unfolding unmapped latestFirst_def by (rule go_sort.srt_sorted [OF srt later_strict_weak])
  then have "sorted_wrt (\<lambda>a b. \<not> text_less (timeText E a) (timeText E b)) qs"
    by (simp add: sorted_by_def sorted_wrt_map later_def)
  moreover have "set (limited (qf_Limit f) qs) \<subseteq> set rs"
    using ms by (metis filter_is_subset in_set_takeD limited_def set_mset_mset subset_eq)
  then have "journalQuery E f j = Inr (limited (qf_Limit f) qs)"
    using assms(2) decodeRows_map [OF rt]
    by (simp add: journalQuery_def db_works_def rows flip: unmapped) (simp add: limited_def take_map split: if_splits)
  ultimately show ?thesis using ms by blast
qed

lemma holds_Purge:
  assumes "holds E j rs" "db_works E"
  shows "fst (Purge E t j) = Inr (int (length (filter (\<lambda>r. text_less (timeText E r) (rfc3339Nano E t)) rs)))"
    "holds E (snd (Purge E t j)) (filter (\<lambda>r. \<not> text_less (timeText E r) (rfc3339Nano E t)) rs)"
proof -
  show "fst (Purge E t j) = Inr (int (length (filter (\<lambda>r. text_less (timeText E r) (rfc3339Nano E t)) rs)))"
    using assms by (simp add: Purge_def db_works_def holds_def Let_def filter_map comp_def)
  have "jn_decisions (snd (Purge E t j)) = map (rowOf E) (filter (\<lambda>r. \<not> text_less (timeText E r) (rfc3339Nano E t)) rs)"
    using assms by (simp add: Purge_def db_works_def holds_def Let_def filter_map comp_def)
  then show "holds E (snd (Purge E t j)) (filter (\<lambda>r. \<not> text_less (timeText E r) (rfc3339Nano E t)) rs)"
    using assms Purge_inv [of j E t] json_roundtrip_subset [of E "set rs"] by (auto simp: holds_def)
qed

section \<open>Properties\<close>

text \<open>C37. While the database works and records survive their encoding, the journal implements its specification,
  the list of the records written: a record with a new identifier is appended and one with a known identifier is
  refused without effect; a lookup finds exactly the record of an identifier; a query gives the selected records,
  each once, latest first by the text of their time, cut to the limit; and a purge removes exactly the records
  whose text is less than that of the given time, says how many, and leaves the full-text index in step.\<close>

theorem journal_refines:
  assumes "holds E j rs" "db_works E" "go_sort (de_sortRows E)" "json_roundtrip E {r}"
  shows "(if dr_ID r \<in> dr_ID ` set rs then fst (Write E r j) \<noteq> None \<and> snd (Write E r j) = j
      else fst (Write E r j) = None \<and> holds E (snd (Write E r j)) (rs @ [r]) \<and>
        GetByID E (dr_ID r) (snd (Write E r j)) = Inr (Some r)) \<and>
    GetByID E i j = Inr (find (\<lambda>r. dr_ID r = i) rs) \<and>
    (\<exists>qs. journalQuery E f j = Inr (limited (qf_Limit f) qs) \<and> mset qs = mset (filter (selects E f) rs) \<and>
       sorted_wrt (\<lambda>a b. \<not> text_less (timeText E a) (timeText E b)) qs) \<and>
    fst (Purge E t j) = Inr (int (length (filter (\<lambda>r. text_less (timeText E r) (rfc3339Nano E t)) rs))) \<and>
    holds E (snd (Purge E t j)) (filter (\<lambda>r. \<not> text_less (timeText E r) (rfc3339Nano E t)) rs)"
proof -
  have "GetByID E (dr_ID r) (snd (Write E r j)) = Inr (Some r)" if new: "dr_ID r \<notin> dr_ID ` set rs"
  proof -
    have "find (\<lambda>x. dr_ID x = dr_ID r) (rs @ [r]) = Some r"
      using new by (induction rs) auto
    then show ?thesis using holds_GetByID [OF holds_Write(1) [THEN conjunct2]] assms new by simp
  qed
  then show ?thesis
    using holds_Write [OF assms(1,2,4)] holds_GetByID [OF assms(1,2)] holds_Query [OF assms(1-3)]
      holds_Purge [OF assms(1,2)] by simp
qed

definition demo_db :: db_env where
  "demo_db = \<lparr>de_fault = (\<lambda>_. None), de_sortRows = isort, de_sortGroups = isort, de_match = (\<lambda>_ _. False), de_avg = (\<lambda>_. 0),
     de_marshal = (\<lambda>r. Inr (dr_ID r)), de_unmarshal = (\<lambda>s. Inr (demo_record\<lparr>dr_ID := s\<rparr>)), de_date = (\<lambda>s. fmt_d s)\<rparr>"

definition demo_journal :: Journal where
  "demo_journal = \<lparr>jn_decisions = [], jn_fts = [], jn_hasFTS = True\<rparr>"

lemma demo_db_works: "db_works demo_db" "go_sort (de_sortRows demo_db)" "json_roundtrip demo_db {demo_record}"
  "holds demo_db demo_journal []"
proof -
  show "go_sort (de_sortRows demo_db)" by (simp add: demo_db_def isort.go_sort_axioms)
qed (simp_all add: demo_db_def db_works_def json_roundtrip_def holds_def demo_journal_def journal_inv_def demo_record_def)

theorem journal_refines_witness:
  "holds demo_db (snd (Write demo_db demo_record demo_journal)) [demo_record] \<and>
   GetByID demo_db ''d1'' (snd (Write demo_db demo_record demo_journal)) = Inr (Some demo_record)"
  using journal_refines [OF demo_db_works(4,1,2,3), of "[]" undefined 0]
  by (simp add: demo_record_def)

text \<open>Times are compared as texts without trailing zeros: a record of some fraction of a second after a whole
  second comes before that second, so a purge of the records older than the second removes it, and a query since
  the record's time does not miss the second itself.\<close>

theorem purge_removes_newer:
  assumes "holds E j rs" "db_works E" "r \<in> set rs" "t mod second = 0" "t < dr_Timestamp r" "dr_Timestamp r < t + second"
  shows "GetByID E (dr_ID r) j = Inr (Some r) \<and> GetByID E (dr_ID r) (snd (Purge E t j)) = Inr None"
proof -
  let ?old = "\<lambda>r. text_less (timeText E r) (rfc3339Nano E t)"
  have old: "?old r"
    using whole_second_last [of t "dr_Timestamp r - t" E] assms(4-) by (simp add: timeText_def)
  have d: "distinct (map dr_ID rs)" using holds_ids [OF assms(1)] by blast
  then have "find (\<lambda>x. dr_ID x = dr_ID r) rs = Some r"
    using assms(3) by (auto simp: find_Some_iff distinct_map inj_on_def in_set_conv_nth nth_eq_iff_index_eq)
      (metis d distinct_map inj_onD less_trans nth_eq_iff_index_eq nth_mem order_less_irrefl distinct_map)
  moreover have "find (\<lambda>x. dr_ID x = dr_ID r) (filter (\<lambda>r. \<not> ?old r) rs) = None"
    using d old assms(3) by (auto simp: find_None_iff distinct_map dest: inj_onD)
  ultimately show ?thesis
    using holds_GetByID [OF assms(1,2)] holds_GetByID [OF holds_Purge(2) [OF assms(1,2)] assms(2)] by simp
qed

theorem purge_removes_newer_witness:
  "GetByID demo_db ''d1'' (snd (Write demo_db demo_record demo_journal)) = Inr (Some demo_record) \<and>
   GetByID demo_db ''d1'' (snd (Purge demo_db (3723 * second) (snd (Write demo_db demo_record demo_journal)))) = Inr None"
proof -
  have "dr_ID demo_record = ''d1''" "dr_Timestamp demo_record = 3723 * second + 500000000"
    by (simp_all add: demo_record_def)
  moreover have "holds demo_db (snd (Write demo_db demo_record demo_journal)) [demo_record]"
    using holds_Write(1) [OF demo_db_works(4,1,3)] by simp
  ultimately show ?thesis
    using purge_removes_newer [of demo_db _ "[demo_record]" demo_record "3723 * second"] demo_db_works(1) by simp
qed

section \<open>Search without the index\<close>

lemma sql_like_any: "sql_like ''%'' s"
  by (induction s) simp_all

lemma sql_like_percent: "sql_like (CHR ''%'' # ps) s \<longleftrightarrow> (\<exists>a b. s = a @ b \<and> sql_like ps b)"
proof (induction s)
  case (Cons c cs)
  have "(\<exists>a b. c # cs = a @ b \<and> sql_like ps b) \<longleftrightarrow> sql_like ps (c # cs) \<or> (\<exists>a b. cs = a @ b \<and> sql_like ps b)"
    by (metis append_Cons append_Nil append_eq_Cons_conv)
  then show ?case using Cons by simp
qed simp

lemma sql_like_prefix:
  "CHR ''%'' \<notin> set p \<Longrightarrow> CHR ''_'' \<notin> set p \<Longrightarrow>
   sql_like (p @ ''%'') s \<longleftrightarrow> (\<exists>m b. s = m @ b \<and> map fold_case m = map fold_case p)"
proof (induction p arbitrary: s)
  case Nil
  then show ?case using sql_like_any by simp
next
  case (Cons x p)
  then show ?case
    by (cases s) (auto simp: Cons_eq_append_conv map_eq_Cons_conv, metis+)
qed

text \<open>A needle without wildcards is found exactly where it occurs, in either case.\<close>

lemma sql_like_contains:
  assumes "CHR ''%'' \<notin> set p" "CHR ''_'' \<notin> set p"
  shows "sql_like (''%'' @ p @ ''%'') s \<longleftrightarrow> (\<exists>a m b. s = a @ m @ b \<and> map fold_case m = map fold_case p)"
  using assms by (simp add: sql_like_percent sql_like_prefix) metis

end
