(* ===== verification/Dashboard.thy ===== *)
theory Dashboard
  imports Objective_Controller Tenant_Api
begin

text \<open>
  What the dashboard is served besides decisions and tenants: the ServiceObjectives with their status
  (\<open>internal/api/serviceobjectives_api.go\<close>), the name of the cluster (\<open>meta_api.go\<close>), and the server that
  routes requests to the handlers and everything else to the files of the user interface (\<open>server.go\<close>). The
  Kubernetes client, the text of a time and the file system of the user interface are parameters; the routing
  of registered patterns is the mux of \<open>net/http\<close>, a parameter too. Printed decimals parse back, which links
  the texts the reconciler writes to the numbers the dashboard shows.
\<close>

section \<open>Decimals parse back\<close>

lemma scan_fraction:
  "set ds \<subseteq> digit ` {..<10} \<Longrightarrow>
   scan_mantissa False True seen m k ds = (seen \<or> ds \<noteq> [], foldl (\<lambda>n c. 10 * n + undigit c) m ds, k + int (length ds), [])"
proof (induction ds arbitrary: seen m k)
  case (Cons c ds)
  then obtain d where "c = digit d" "d < 10" by auto
  then show ?case using Cons by (simp add: digit_not_point digit_value_digit)
qed simp

lemma scan_decimal:
  assumes "set ds \<subseteq> digit ` {..<10}" "set fs \<subseteq> digit ` {..<10}" "ds \<noteq> []"
  shows "scan_mantissa False False seen m 0 (ds @ CHR ''.'' # fs) =
    (True, foldl (\<lambda>n c. 10 * n + undigit c) m (ds @ fs), int (length fs), [])"
  using assms
proof (induction ds arbitrary: seen m)
  case (Cons c ds)
  then obtain d where d: "c = digit d" "d < 10" by auto
  show ?case
  proof (cases "ds = []")
    case True
    then show ?thesis using d Cons.prems by (simp add: digit_not_point digit_value_digit scan_fraction)
  next
    case False
    then show ?thesis using d Cons by (simp add: digit_not_point digit_value_digit)
  qed
qed simp

lemma digit_char: "c \<in> digit ` {..<10} \<Longrightarrow> 48 \<le> (of_char c :: nat) \<and> (of_char c :: nat) \<le> 57"
  using of_char_digit by fastforce

lemma ParseFloat_decimal:
  assumes ds: "set ds \<subseteq> digit ` {..<10}" and fs: "set fs \<subseteq> digit ` {..<10}" and ne: "ds \<noteq> []"
    and r: "rnd (of_nat (undigits (ds @ fs)) / 10 ^ length fs) = Fin x"
  shows "ParseFloat (ds @ CHR ''.'' # fs) = Some (Fin x)"
proof -
  let ?s = "ds @ CHR ''.'' # fs"
  have range: "c \<in> set ?s \<Longrightarrow> c = CHR ''.'' \<or> 48 \<le> (of_char c :: nat) \<and> (of_char c :: nat) \<le> 57" for c
    using ds fs digit_char by fastforce
  have low: "c \<in> set ?s \<Longrightarrow> lower c = c" for c using range [of c] by (auto simp: lower_def)
  have sep: "CHR ''-'' \<notin> set ?s" "CHR ''_'' \<notin> set ?s" "CHR ''+'' \<notin> set ?s" "CHR ''x'' \<notin> set ?s"
    "CHR ''n'' \<notin> set ?s" "CHR ''i'' \<notin> set ?s"
    using range [of "CHR ''-''"] range [of "CHR ''_''"] range [of "CHR ''+''"] range [of "CHR ''x''"]
      range [of "CHR ''n''"] range [of "CHR ''i''"] by (fastforce simp del: set_append)+
  obtain c cs where c: "?s = c # cs" by (cases ?s) auto
  then have ci: "c \<in> set ?s" by simp
  have special: "special_float ?s = None"
    using c sep low [OF ci] ci by (auto simp: special_float_def)
  have drop: "drop_sign ?s = ?s" using sep c by (auto simp: drop_sign_def split: list.splits)
  have hex: "(3 \<le> length ?s \<and> ?s ! 0 = CHR ''0'' \<and> lower (?s ! 1) = CHR ''x'') = False"
  proof -
    have "3 \<le> length ?s \<Longrightarrow> lower (?s ! 1) \<noteq> CHR ''x''"
      using low [of "?s ! 1"] sep(4) nth_mem [of 1 ?s] by force
    then show ?thesis by blast
  qed
  have neg: "(?s \<noteq> [] \<and> hd ?s = CHR ''-'') = False" using sep(1) c by auto
  have scan: "scan_mantissa False False False 0 0 ?s = (True, undigits (ds @ fs), int (length fs), [])"
    using scan_decimal [OF ds fs ne] by (simp add: undigits_def)
  show ?thesis
    unfolding ParseFloat_def special Let_def drop hex neg if_False option.case scan prod.case
    using sep(2) r by (cases "fs = []") (simp_all add: scan_exponent_def)
qed

text \<open>A non-negative number printed with \<open>k\<close> decimals is read as the float64 next to the printed decimal.\<close>

lemma set_pad_left: "set (pad_left k s) \<subseteq> insert (CHR ''0'') (set s)"
  by (auto simp: pad_left_def)

lemma zero_digit: "CHR ''0'' = digit 0"
  by code_simp

lemma undigits_append: "undigits (a @ b) = undigits a * 10 ^ length b + undigits b"
proof -
  have "foldl (\<lambda>n c. 10 * n + undigit c) m b = m * 10 ^ length b + undigits b" for m
  proof (induction b rule: rev_induct)
    case (snoc c b)
    have "undigits (b @ [c]) = 10 * undigits b + undigit c" by (simp add: undigits_def)
    with snoc show ?case by (simp add: algebra_simps)
  qed (simp add: undigits_def)
  then show ?thesis by (simp add: undigits_def [of "a @ b"] undigits_def [of a])
qed

lemma undigits_pad_left: "undigits (pad_left k s) = undigits s"
proof -
  have "undigits (replicate n (CHR ''0'')) = 0" for n
    by (induction n) (simp_all add: undigits_def zero_digit)
  then show ?thesis by (simp add: pad_left_def undigits_append)
qed

lemma length_digits: "n < 10 ^ k \<Longrightarrow> 0 < k \<Longrightarrow> length (digits n) \<le> k"
proof (induction n arbitrary: k rule: digits.induct)
  case (1 n)
  show ?case
  proof (cases "n < 10")
    case True
    then show ?thesis using 1(3) by (simp add: digits.simps [of n])
  next
    case False
    then have "k \<noteq> 1" using 1(2) by auto
    then obtain k' where k': "k = Suc k'" "0 < k'" using 1(3) by (cases k) auto
    then have "n div 10 < 10 ^ k'" using 1(2) by (simp add: less_mult_imp_div_less mult.commute)
    then show ?thesis using 1(1) [OF False, of k'] False k' by (simp add: digits.simps [of n])
  qed
qed

lemma ParseFloat_fmt_f:
  assumes "0 \<le> q" "0 < k" "rnd (of_int (rne (q * 10 ^ k)) / 10 ^ k) = Fin x"
  shows "ParseFloat (fmt_f k (Fin q)) = Some (Fin x)"
proof -
  define m where "m = nat (rne (q * 10 ^ k))"
  let ?fs = "pad_left k (digits (m mod 10 ^ k))"
  have len: "length ?fs = k"
    using length_digits [of "m mod 10 ^ k" k] assms(2) by (simp add: pad_left_def)
  have m: "(of_nat m :: rat) = of_int (rne (q * 10 ^ k))" using assms(1) by (simp add: m_def rne_nonneg)
  have "undigits (digits (m div 10 ^ k) @ ?fs) = m"
    using div_mult_mod_eq [of m "10 ^ k"] by (simp add: undigits_append undigits_pad_left len)
  then have "rnd (of_nat (undigits (digits (m div 10 ^ k) @ ?fs)) / 10 ^ length ?fs) = Fin x"
    using assms(3) m by (simp add: len)
  moreover have "set ?fs \<subseteq> digit ` {..<10}"
    using set_pad_left [of k "digits (m mod 10 ^ k)"] set_digits [of "m mod 10 ^ k"] zero_digit by fastforce
  ultimately have "ParseFloat (digits (m div 10 ^ k) @ CHR ''.'' # ?fs) = Some (Fin x)"
    by (intro ParseFloat_decimal) (use set_digits [of "m div 10 ^ k"] in auto)
  moreover have "fmt_f k (Fin q) = digits (m div 10 ^ k) @ CHR ''.'' # ?fs"
    using assms(1,2) by (simp add: m_def Let_def)
  ultimately show ?thesis by simp
qed

section \<open>ServiceObjectives\<close>

definition sloCompliantCondition :: string where "sloCompliantCondition = ''SLOCompliant''"

record ObjectiveStatusDTO =
  od_Metric :: string
  od_Target :: string
  od_Window :: string
  od_BurnRate :: "f64 option"

record ServiceObjectiveDTO =
  dto_Namespace :: string
  dto_Name :: string
  dto_TargetName :: string
  dto_TargetKind :: string
  dto_Compliant :: "bool option"
  dto_BudgetRemainingPercent :: "f64 option"
  dto_LastEvaluation :: "string option"
  dto_Objectives :: "ObjectiveStatusDTO list"

definition parseBudgetPercent :: "string \<Rightarrow> f64 option" where
  "parseBudgetPercent s0 =
    (let s = TrimSpace (TrimSuffix s0 ''%'') in if s = [] then None else ParseFloat s)"

fun compliantFromConditions :: "Condition list \<Rightarrow> bool option" where
  "compliantFromConditions [] = None"
| "compliantFromConditions (c # cs) =
    (if cd_Type c \<noteq> sloCompliantCondition then compliantFromConditions cs
     else case cd_Status c of ConditionTrue \<Rightarrow> Some True | ConditionFalse \<Rightarrow> Some False | ConditionUnknown \<Rightarrow> None)"

definition objectiveDTO :: "ServiceObjectiveStatus \<Rightarrow> Objective \<Rightarrow> ObjectiveStatusDTO" where
  "objectiveDTO st o' =
    \<lparr>od_Metric = metricName (obj_Metric o'), od_Target = obj_Target o', od_Window = obj_Window o',
     od_BurnRate = (case sos_CurrentBurn st (metricName (obj_Metric o')) of
        None \<Rightarrow> None | Some br \<Rightarrow> ParseFloat (TrimSpace br))\<rparr>"

definition serviceObjectiveDTO :: "(gotime \<Rightarrow> string) \<Rightarrow> ServiceObjective \<Rightarrow> ServiceObjectiveDTO" where
  "serviceObjectiveDTO rfc3339 so =
    \<lparr>dto_Namespace = so_Namespace so, dto_Name = so_Name so, dto_TargetName = cvr_Name (so_TargetRef so),
     dto_TargetKind = cvr_Kind (so_TargetRef so),
     dto_Compliant = compliantFromConditions (sos_Conditions (so_Status so)),
     dto_BudgetRemainingPercent = parseBudgetPercent (sos_BudgetRemaining (so_Status so)),
     dto_LastEvaluation = map_option rfc3339 (sos_LastEvaluation (so_Status so)),
     dto_Objectives = map (objectiveDTO (so_Status so)) (so_Objectives so)\<rparr>"

definition dtoNumbers :: "ServiceObjectiveDTO \<Rightarrow> f64 list" where
  "dtoNumbers d = (case dto_BudgetRemainingPercent d of None \<Rightarrow> [] | Some x \<Rightarrow> [x]) @
     concat (map (\<lambda>o'. case od_BurnRate o' of None \<Rightarrow> [] | Some x \<Rightarrow> [x]) (dto_Objectives d))"

definition handleList ::
  "('w \<Rightarrow> (string + ServiceObjective list) \<times> 'w) \<Rightarrow> (gotime \<Rightarrow> string) \<Rightarrow> 'w \<Rightarrow> ServiceObjectiveDTO list http_response \<times> 'w" where
  "handleList list rfc3339 w =
    (case list w of
       (Inl e, w') \<Rightarrow> (HttpError StatusInternalServerError e, w')
     | (Inr items, w') \<Rightarrow>
         let out = map (serviceObjectiveDTO rfc3339) items in (writeJSON (concat (map dtoNumbers out)) out, w'))"

section \<open>Cluster name and server\<close>

definition handleMeta :: "string \<Rightarrow> string http_response" where
  "handleMeta clusterName = writeJSON [] (if clusterName = [] then ''local'' else clusterName)"

text \<open>A request is its method and path; the mux finds the handler of a registered pattern, if any.\<close>

datatype served =
    NoContent
  | Handled nat
  | NotFoundPage
  | ServeIndex
  | FileServer string

definition HasPrefix :: "string \<Rightarrow> string \<Rightarrow> bool" where
  "HasPrefix s p = (take (length p) s = p)"

definition TrimPrefix :: "string \<Rightarrow> string \<Rightarrow> string" where
  "TrimPrefix s p = (if HasPrefix s p then drop (length p) s else s)"

definition spaHandler :: "(string \<Rightarrow> bool) \<Rightarrow> string \<Rightarrow> served" where
  "spaHandler exists path =
    (if HasPrefix path ''/api/'' then NotFoundPage
     else
      let p = TrimPrefix path ''/''; p' = (if p = [] then ''index.html'' else p) in
      if \<not> exists p' then ServeIndex else FileServer path)"

definition ServeHTTP :: "(string \<Rightarrow> nat option) \<Rightarrow> (string \<Rightarrow> bool) option \<Rightarrow> string \<Rightarrow> string \<Rightarrow> (string \<times> string) list \<times> served" where
  "ServeHTTP mux uiFS method path =
    ([(''Access-Control-Allow-Origin'', ''*''),
      (''Access-Control-Allow-Methods'', ''GET, POST, PUT, DELETE, OPTIONS''),
      (''Access-Control-Allow-Headers'', ''Content-Type, Authorization'')],
     if method = ''OPTIONS'' then NoContent
     else case mux path of
       Some h \<Rightarrow> Handled h
     | None \<Rightarrow> (case uiFS of None \<Rightarrow> NotFoundPage | Some exists \<Rightarrow> spaHandler exists path))"

section \<open>Lemmas\<close>

lemma TrimSuffix_append: "TrimSuffix (s @ suf) suf = s"
  by (simp add: TrimSuffix_def HasSuffix_def)

lemma TrimSpace_id: "\<forall>c \<in> set s. \<not> is_space c \<Longrightarrow> TrimSpace s = s"
proof -
  have "\<forall>c \<in> set xs. \<not> is_space c \<Longrightarrow> dropWhile is_space xs = xs" for xs by (cases xs) auto
  from this [of s] this [of "rev s"] show "\<forall>c \<in> set s. \<not> is_space c \<Longrightarrow> ?thesis" by (simp add: TrimSpace_def)
qed

lemma digit_not_space: "c \<in> digit ` {..<10} \<Longrightarrow> \<not> is_space c"
  using digit_char [of c] by (auto simp: is_space_def Let_def)

lemma fmt_f_no_space:
  assumes "0 \<le> q"
  shows "\<forall>c \<in> set (fmt_f k (Fin q)). \<not> is_space c"
proof -
  have "c \<in> set (digits n) \<Longrightarrow> \<not> is_space c" for c n
    using set_digits [of n] digit_not_space by blast
  moreover have "\<not> is_space (CHR ''.'')" "\<not> is_space (CHR ''0'')" by code_simp+
  ultimately show ?thesis
    using assms set_pad_left by (fastforce simp: Let_def split: if_splits)
qed

lemma fmt_f_nonempty: "fmt_f k (Fin q) \<noteq> []"
  by (simp add: Let_def)

lemma parseBudgetPercent_percent:
  assumes "unit64 b"
  shows "\<exists>p x. b * lit 100 = Fin p \<and> parseBudgetPercent (percent b) = Some (Fin x) \<and>
    rnd (of_int (rne (p * 100)) / 100) = Fin x \<and> \<bar>of_int (rne (p * 100)) / 100 - p\<bar> \<le> 1 / 200 \<and> 0 \<le> x \<and> x \<le> 100"
proof -
  obtain q where q: "b = Fin q" "0 \<le> q" "q \<le> 1" using assms by (auto simp: inrange_iff)
  have rep: "rep 0" "rep 100" using rep_of_int [of 0] rep_of_int [of 100] by simp_all
  have lit: "lit 100 = Fin 100" using rep(2) by (simp add: rnd_exact)
  have "inrange 0 100 (rnd (q * 100))" using q rep by (intro inrange_rnd) simp_all
  then obtain p where p: "rnd (q * 100) = Fin p" "0 \<le> p" "p \<le> 100" by (auto simp: inrange_iff)
  have r: "0 \<le> rne (p * 100)" "rne (p * 100) \<le> 10000"
    using p rne_nonneg [of "p * 100"] rne_mono [of "p * 100" "of_int 10000"] by (simp_all del: of_int_numeral)
  then have "of_int (rne (p * 100)) \<le> (10000 :: rat)" by (metis of_int_le_iff of_int_numeral)
  then have "inrange 0 100 (rnd (of_int (rne (p * 100)) / 100))"
    using r(1) rep by (intro inrange_rnd) simp_all
  then obtain x where x: "rnd (of_int (rne (p * 100)) / 100) = Fin x" "0 \<le> x" "x \<le> 100" by (auto simp: inrange_iff)
  have parse: "ParseFloat (fmt_f 2 (Fin p)) = Some (Fin x)"
    using ParseFloat_fmt_f [of p 2 x] p x by (simp add: power2_eq_square)
  have bp: "b * lit 100 = Fin p" using q p by (simp add: lit)
  have "parseBudgetPercent (percent b) = Some (Fin x)"
    using parse TrimSpace_id [OF fmt_f_no_space [OF p(2), of 2]] fmt_f_nonempty [of 2 p]
    by (simp add: parseBudgetPercent_def percent_def bp TrimSuffix_append del: fmt_f.simps)
  moreover have "\<bar>of_int (rne (p * 100)) / 100 - p\<bar> \<le> 1 / 200"
    using rne_bounds [of "p * 100"] by (simp add: abs_if field_simps split: if_splits)
  ultimately show ?thesis using bp x by blast
qed

lemma conditionStatus_absent: "ty \<notin> cd_Type ` set cs \<Longrightarrow> foldl (\<lambda>s c. if cd_Type c = ty then Some (cd_Status c) else s) a cs = a"
  by (induction cs arbitrary: a) auto

lemma compliant_conditionStatus:
  "conditions_wf cs \<Longrightarrow> compliantFromConditions cs =
    (case conditionStatus sloCompliantCondition cs of
       Some ConditionTrue \<Rightarrow> Some True | Some ConditionFalse \<Rightarrow> Some False | _ \<Rightarrow> None)"
proof (induction cs)
  case (Cons c cs)
  then show ?case
    by (auto simp: conditions_wf_def conditionStatus_def conditionStatus_absent split: ConditionStatus.splits)
qed (simp add: conditionStatus_def)

lemma written_status:
  assumes "setCompliant d r so w = (so1, w1)" "setExhausted d r so1 w1 = (so2, w2)"
  shows "sos_BudgetRemaining (so_Status so2) = sos_BudgetRemaining (so_Status so)"
    "sos_LastEvaluation (so_Status so2) = sos_LastEvaluation (so_Status so)"
    "sos_CurrentBurn (so_Status so2) = sos_CurrentBurn (so_Status so)"
  using assms by (auto simp: setCompliant_def setExhausted_def setCondition_def Let_def split: if_splits)

section \<open>Properties\<close>

text \<open>C39. The dashboard shows what the evaluation found: for the status the reconciler writes after an evaluation,
  it reports compliance exactly when all objectives comply, the time of the evaluation, and the remaining budget
  as a number between 0 and 100, the float64 next to the percentage rounded to two decimals; and whenever the
  optimizer takes an objective for ready, the dashboard shows whether it complies.\<close>

theorem dashboard_agrees:
  assumes "set_condition_ok (sd_SetCondition d)" "conditions_wf (conds so)" "unit64 (er_BudgetRemaining r)"
    "setCompliant d r (evaluatedStatus t r so) w1 = (so1, w2)" "setExhausted d r so1 w2 = (so2, w3)"
  shows "dto_Compliant (serviceObjectiveDTO f so2) = Some (er_AllCompliant r) \<and>
    dto_LastEvaluation (serviceObjectiveDTO f so2) = Some (f t) \<and>
    (\<exists>p x. er_BudgetRemaining r * lit 100 = Fin p \<and> dto_BudgetRemainingPercent (serviceObjectiveDTO f so2) = Some (Fin x) \<and>
      rnd (of_int (rne (p * 100)) / 100) = Fin x \<and> \<bar>of_int (rne (p * 100)) / 100 - p\<bar> \<le> 1 / 200 \<and> 0 \<le> x \<and> x \<le> 100) \<and>
    (conditions_wf (conds so') \<and> serviceObjectiveReadyForOptimization so' \<longrightarrow> dto_Compliant (serviceObjectiveDTO f so') \<noteq> None)"
proof -
  have c: "conditions_wf (conds so1)" "conditionStatus conditionSLOCompliant (conds so1) =
      Some (if er_AllCompliant r then ConditionTrue else ConditionFalse)"
    using setCompliant_ok [OF assms(1) _ assms(4)] assms(2) by auto
  then have "conditions_wf (conds so2)" "conditionStatus conditionSLOCompliant (conds so2) =
      Some (if er_AllCompliant r then ConditionTrue else ConditionFalse)"
    using setExhausted_ok [OF assms(1) c(1) assms(5)] by (auto simp: condition_names)
  moreover have "sloCompliantCondition = conditionSLOCompliant"
    by (simp add: sloCompliantCondition_def conditionSLOCompliant_def)
  ultimately have "dto_Compliant (serviceObjectiveDTO f so2) = Some (er_AllCompliant r)"
    and "conditions_wf (conds so') \<and> serviceObjectiveReadyForOptimization so' \<Longrightarrow>
      dto_Compliant (serviceObjectiveDTO f so') \<noteq> None"
    by (auto simp: serviceObjectiveDTO_def compliant_conditionStatus ready_iff)
  then show ?thesis
    using written_status [OF assms(4,5)] parseBudgetPercent_percent [OF assms(3)]
    by (auto simp: serviceObjectiveDTO_def evaluatedStatus_def)
qed

theorem dashboard_agrees_witness:
  "\<exists>so2 w3 x. setExhausted demo_so_deps \<lparr>er_Objectives = [], er_BudgetRemaining = 1, er_AllCompliant = True, er_EvaluatedAt = 7\<rparr>
      (fst (setCompliant demo_so_deps \<lparr>er_Objectives = [], er_BudgetRemaining = 1, er_AllCompliant = True, er_EvaluatedAt = 7\<rparr>
        (evaluatedStatus 7 \<lparr>er_Objectives = [], er_BudgetRemaining = 1, er_AllCompliant = True, er_EvaluatedAt = 7\<rparr> demo_so) [])) [] =
      (so2, w3) \<and>
     dto_Compliant (serviceObjectiveDTO fmt_d so2) = Some True \<and> dto_LastEvaluation (serviceObjectiveDTO fmt_d so2) = Some ''7'' \<and>
     dto_BudgetRemainingPercent (serviceObjectiveDTO fmt_d so2) = Some (Fin x)"
proof -
  let ?r = "\<lparr>er_Objectives = [], er_BudgetRemaining = 1, er_AllCompliant = True, er_EvaluatedAt = 7\<rparr>"
  have ok: "set_condition_ok (sd_SetCondition demo_so_deps)" "conditions_wf (conds demo_so)"
    by (simp_all add: demo_so_deps_def setStatusCondition_ok demo_so_def conditions_wf_def)
  have u: "unit64 (er_BudgetRemaining ?r)" using rep_of_int [of 1] by (simp add: one_f64_def)
  obtain so1 w2 where c: "setCompliant demo_so_deps ?r (evaluatedStatus 7 ?r demo_so) [] = (so1, w2)" by fastforce
  then have w2: "w2 = []" by (simp add: setCompliant_def)
  obtain so2 w3 where e: "setExhausted demo_so_deps ?r so1 [] = (so2, w3)" by fastforce
  have "fmt_d 7 = ''7''" by code_simp
  then show ?thesis
    using dashboard_agrees [OF ok u c e [folded w2], of fmt_d demo_so] c e by (simp add: w2) blast
qed

end
