(* ===== verification/Cel_Environment.thy ===== *)
theory Cel_Environment
  imports Cel_Types
begin

text \<open>
  The CEL environment of \<open>internal/cel/environment.go\<close>: the variables an expression may use, and the custom
  functions with their declared argument types and the Go closures that implement them. A closure receives
  values of the CEL library, of which it only asks whether the underlying Go value is a string or a bool. The
  property is type soundness: at the declared types a function yields a number, in its documented range, and it
  yields an error exactly at other arguments.
\<close>

section \<open>Types and values\<close>

datatype cel_type =
    StringType | BoolType | DoubleType | ObjectType string | MapType cel_type cel_type

datatype cel_value = ValString string | ValBool bool | ValDouble f64 | ValError string | ValOther

fun has_type :: "cel_type \<Rightarrow> cel_value \<Rightarrow> bool" where
  "has_type StringType (ValString s) = True"
| "has_type BoolType (ValBool b) = True"
| "has_type DoubleType (ValDouble x) = True"
| "has_type t v = False"

record cel_function =
  cf_name :: string
  cf_overload :: string
  cf_args :: "cel_type list"
  cf_result :: cel_type
  cf_impl :: "cel_value list \<Rightarrow> cel_value"

section \<open>Bindings\<close>

definition spotRiskBinding :: "cel_value \<Rightarrow> cel_value \<Rightarrow> cel_value" where
  "spotRiskBinding lhs rhs =
    (case (lhs, rhs) of
       (ValString instanceType, ValString az) \<Rightarrow> ValDouble (SpotRiskFunc instanceType az)
     | _ \<Rightarrow> ValError ''spotRisk: arguments must be strings'')"

definition carbonIntensityBinding :: "cel_value \<Rightarrow> cel_value" where
  "carbonIntensityBinding v =
    (case v of
       ValString region \<Rightarrow> ValDouble (CarbonIntensityFunc region)
     | _ \<Rightarrow> ValError ''carbonIntensity: argument must be a string'')"

definition costRateBinding :: "cel_value list \<Rightarrow> cel_value" where
  "costRateBinding args =
    (if length args \<noteq> 3 then ValError ''costRate: expected 3 arguments''
     else case args of
       [ValString instanceType, ValString region, ValBool spot] \<Rightarrow> ValDouble (CostRateFunc instanceType region spot)
     | _ \<Rightarrow> ValError ''costRate: invalid argument types'')"

text \<open>A unary or binary binding is called by the library with as many values; other calls do not reach it.\<close>

definition optiPilotVariables :: "(string \<times> cel_type) list" where
  "optiPilotVariables =
    [(''candidate'', ObjectType ''cel.CandidatePlan''), (''current'', ObjectType ''cel.CurrentState''),
     (''slo'', ObjectType ''cel.SLOStatus''), (''tenant'', ObjectType ''cel.TenantStatus''),
     (''forecast'', ObjectType ''cel.ForecastResult''), (''metrics'', MapType StringType DoubleType),
     (''cluster'', ObjectType ''cel.ClusterState'')]"

definition optiPilotFunctions :: "cel_function list" where
  "optiPilotFunctions =
    [\<lparr>cf_name = ''spotRisk'', cf_overload = ''spotRisk_string_string'', cf_args = [StringType, StringType],
      cf_result = DoubleType,
      cf_impl = (\<lambda>vs. case vs of [l, r] \<Rightarrow> spotRiskBinding l r | _ \<Rightarrow> ValError ''no such overload'')\<rparr>,
     \<lparr>cf_name = ''carbonIntensity'', cf_overload = ''carbonIntensity_string'', cf_args = [StringType],
      cf_result = DoubleType,
      cf_impl = (\<lambda>vs. case vs of [v] \<Rightarrow> carbonIntensityBinding v | _ \<Rightarrow> ValError ''no such overload'')\<rparr>,
     \<lparr>cf_name = ''costRate'', cf_overload = ''costRate_string_string_bool'', cf_args = [StringType, StringType, BoolType],
      cf_result = DoubleType, cf_impl = costRateBinding\<rparr>]"

section \<open>Ranges of the tables\<close>

text \<open>Every entry of a table, and its default, is checked by evaluation.\<close>

lemma map_of_case_all:
  assumes "list_all (\<lambda>kv. P (snd kv)) kvs" "P d"
  shows "P (case map_of kvs k of Some v \<Rightarrow> v | None \<Rightarrow> d)"
  using assms map_of_SomeD by (fastforce simp: list_all_iff split: option.splits)

lemma SpotRiskFunc_range: "lit (8 / 100) \<le> SpotRiskFunc i az \<and> SpotRiskFunc i az \<le> lit (20 / 100)"
  unfolding SpotRiskFunc_def
  by (rule map_of_case_all [where P = "\<lambda>x. lit (8 / 100) \<le> x \<and> x \<le> lit (20 / 100)"]) code_simp+

lemma CarbonIntensityFunc_range: "lit 50 \<le> CarbonIntensityFunc region \<and> CarbonIntensityFunc region \<le> lit 500"
  unfolding CarbonIntensityFunc_def
  by (rule map_of_case_all [where P = "\<lambda>x. lit 50 \<le> x \<and> x \<le> lit 500"]) code_simp+

lemma CostRateFunc_range: "lit (2 / 100) \<le> CostRateFunc i region spot \<and> CostRateFunc i region spot \<le> lit (384 / 1000)"
proof -
  define P where "P p \<longleftrightarrow> (let price = (if feq p 0 then lit (10 / 100) else p); c = (if spot then price * lit (3 / 10) else price)
    in lit (2 / 100) \<le> c \<and> c \<le> lit (384 / 1000))" for p
  have "P (case map_of [(''m5.large'', lit (96 / 1000)), (''m5.xlarge'', lit (192 / 1000)),
            (''m5.2xlarge'', lit (384 / 1000)), (''c5.large'', lit (85 / 1000)),
            (''c5.xlarge'', lit (170 / 1000)), (''r5.large'', lit (126 / 1000))] i of Some p \<Rightarrow> p | None \<Rightarrow> 0)"
    by (rule map_of_case_all; cases spot; simp only: P_def if_True if_False) code_simp+
  then show ?thesis by (simp add: P_def CostRateFunc_def Let_def)
qed

lemma typed_string: "has_type StringType v \<longleftrightarrow> (\<exists>s. v = ValString s)"
  by (cases v) auto

lemma typed_bool: "has_type BoolType v \<longleftrightarrow> (\<exists>b. v = ValBool b)"
  by (cases v) auto

lemma typed_double: "has_type DoubleType v \<longleftrightarrow> (\<exists>x. v = ValDouble x)"
  by (cases v) auto

lemmas typed_iff = typed_string typed_bool typed_double

text \<open>\<open>yields_in ts g lo hi\<close>: at arguments of the types \<open>ts\<close> the closure yields a number in the range, at all
  others an error.\<close>

definition yields_in :: "cel_type list \<Rightarrow> (cel_value list \<Rightarrow> cel_value) \<Rightarrow> f64 \<times> f64 \<Rightarrow> bool" where
  "yields_in ts g rng \<longleftrightarrow> (\<forall>vs. if list_all2 has_type ts vs then \<exists>x. g vs = ValDouble x \<and> fst rng \<le> x \<and> x \<le> snd rng
     else \<exists>e. g vs = ValError e)"

lemma yields_inI:
  assumes "\<And>vs. list_all2 has_type ts vs \<Longrightarrow> \<exists>x. g vs = ValDouble x \<and> fst rng \<le> x \<and> x \<le> snd rng"
    and "\<And>vs. \<not> list_all2 has_type ts vs \<Longrightarrow> \<exists>e. g vs = ValError e"
  shows "yields_in ts g rng"
  using assms by (simp add: yields_in_def)

lemma spotRisk_typed:
  "yields_in [StringType, StringType] (\<lambda>vs. case vs of [l, r] \<Rightarrow> spotRiskBinding l r | _ \<Rightarrow> ValError e) (lit (8 / 100), lit (20 / 100))"
  by (rule yields_inI)
    (use SpotRiskFunc_range in \<open>auto simp: list_all2_Cons1 typed_iff spotRiskBinding_def split: list.splits cel_value.splits\<close>)

lemma carbonIntensity_typed:
  "yields_in [StringType] (\<lambda>vs. case vs of [v] \<Rightarrow> carbonIntensityBinding v | _ \<Rightarrow> ValError e) (lit 50, lit 500)"
  by (rule yields_inI)
    (use CarbonIntensityFunc_range in \<open>auto simp: list_all2_Cons1 typed_iff carbonIntensityBinding_def split: list.splits cel_value.splits\<close>)

lemma costRate_typed:
  "yields_in [StringType, StringType, BoolType] costRateBinding (lit (2 / 100), lit (384 / 1000))"
  by (rule yields_inI)
    (use CostRateFunc_range in \<open>auto simp: list_all2_Cons1 typed_iff costRateBinding_def split: list.splits cel_value.splits\<close>)

definition functionRange :: "string \<Rightarrow> f64 \<times> f64" where
  "functionRange name =
    (if name = ''spotRisk'' then (lit (8 / 100), lit (20 / 100))
     else if name = ''carbonIntensity'' then (lit 50, lit 500) else (lit (2 / 100), lit (384 / 1000)))"


end
