(* ===== verification/Manager_Setup.thy ===== *)
theory Manager_Setup
  imports Optimizer_Safety Hub Prometheus_Client Dashboard
begin

text \<open>
  How \<open>cmd/manager/main.go\<close> puts the parts together: the flags with their defaults and what it builds of them.
  Parsing the command line, the controller manager, logging and signals are libraries. The two start-up probes it
  calls (\<open>verifyPrometheus\<close>, \<open>verifyMLServiceOptional\<close>) and the embedded dashboard are not in the repository. The
  lemmas show that what is built meets the assumptions of the properties of the parts: there is a safety guard,
  the registry holds exactly the pod actuator, and an agent is only started with a name and positive intervals.
\<close>

record Flags =
  fl_metricsAddr :: string
  fl_probeAddr :: string
  fl_leaderElect :: bool
  fl_prometheusURL :: string
  fl_optimizerInterval :: duration
  fl_forecastLookback :: duration
  fl_forecastStep :: duration
  fl_forecastMinPoints :: int
  fl_journalPath :: string
  fl_apiAddr :: string
  fl_hubEndpoint :: string
  fl_clusterName :: string
  fl_clusterProvider :: string
  fl_clusterRegion :: string
  fl_mlServiceURL :: string
  fl_requirePrometheus :: bool
  fl_requireMLForecast :: bool

definition defaultFlags :: Flags where
  "defaultFlags =
    \<lparr>fl_metricsAddr = '':8080'', fl_probeAddr = '':8081'', fl_leaderElect = False,
     fl_prometheusURL = ''http://prometheus-operated.monitoring.svc.cluster.local:9090'',
     fl_optimizerInterval = 20 * second, fl_forecastLookback = 90 * minute, fl_forecastStep = minute,
     fl_forecastMinPoints = 6, fl_journalPath = ''/var/lib/optipilot/decisions.db'', fl_apiAddr = '':8090'',
     fl_hubEndpoint = [], fl_clusterName = [], fl_clusterProvider = ''other'', fl_clusterRegion = [],
     fl_mlServiceURL = [], fl_requirePrometheus = False, fl_requireMLForecast = False\<rparr>"

definition managerPromClient :: "Flags \<Rightarrow> HTTPPrometheusClient" where
  "managerPromClient f = NewHTTPPrometheusClient (fl_prometheusURL f) (10 * second) (5 * second)"

definition managerRegistry :: "'w pod_client \<Rightarrow> PodActuator \<Rightarrow> ('w, pod_error) Registry" where
  "managerRegistry c pod = Register NewRegistry (podActuator c pod)"

definition managerOptimizer :: "Flags \<Rightarrow> 'ast PolicyEngine \<Rightarrow> 'ast OptimizerController" where
  "managerOptimizer f policyEngine =
    \<lparr>oc_Solver = NewSolver (Some policyEngine) DefaultMaxCandidates, oc_SafetyGuard = Some NewSafetyGuard,
     oc_CanaryCtrl = None, oc_Forecaster = (if fl_mlServiceURL f \<noteq> [] then Some newCircuitBreaker else None),
     oc_ForecastLookback = fl_forecastLookback f, oc_ForecastStep = fl_forecastStep f,
     oc_ForecastMinPoints = fl_forecastMinPoints f\<rparr>"

definition displayCluster :: "Flags \<Rightarrow> string" where
  "displayCluster f = (if fl_clusterName f = [] then ''local'' else fl_clusterName f)"

datatype agent_setup = NoAgent | ExitFailure string | StartAgent SpokeAgent StaticCollector

definition managerAgent :: "Flags \<Rightarrow> agent_setup" where
  "managerAgent f =
    (if fl_hubEndpoint f = [] then NoAgent
     else if fl_clusterName f = [] then ExitFailure ''--cluster-name is required when --hub-endpoint is set''
     else StartAgent
       (NewSpokeAgent (fl_hubEndpoint f)
         \<lparr>ri_ClusterName = fl_clusterName f, ri_Provider = fl_clusterProvider f, ri_Region = fl_clusterRegion f,
          ri_Endpoint = [], ri_CarbonIntensityGCO2 = 0, ri_Labels = Map.empty, ri_Capabilities = None,
          ri_CostProfile = None\<rparr> [])
       \<lparr>st_ClusterName = fl_clusterName f, st_TotalCores = 0, st_UsedCores = 0, st_TotalMemoryGiB = 0,
        st_UsedMemoryGiB = 0, st_NodeCount = 0, st_SLOCompliancePercent = 0, st_HourlyCostUSD = 0,
        st_Health = ''Healthy''\<rparr>)"

lemma managerRegistry_pods: "managerRegistry c pod = [podActuator c pod]"
  by (simp add: managerRegistry_def Register_def NewRegistry_def)

lemma managerOptimizer_guarded:
  "oc_SafetyGuard (managerOptimizer f e) = Some NewSafetyGuard" "oc_CanaryCtrl (managerOptimizer f e) = None"
  "sv_PolicyEngine (oc_Solver (managerOptimizer f e)) = Some e" "sv_MaxCandidates (oc_Solver (managerOptimizer f e)) = 100"
  by (simp_all add: managerOptimizer_def NewSolver_def DefaultMaxCandidates_def)

lemma managerAgent_ok:
  assumes "managerAgent f = StartAgent a coll"
  shows "ri_ClusterName (ag_info a) = fl_clusterName f \<and> fl_clusterName f \<noteq> [] \<and> 0 < ag_directivePollInterval a \<and>
    in64 (ag_heartbeatCount a) \<and> ag_state a = StateDisconnected"
  using assms by (auto simp: managerAgent_def NewSpokeAgent_def in64_def split: if_splits)

text \<open>Whatever the agent of the manager meets, the reports it sends carry no figures of the cluster: the hub sees
  zero cores, zero nodes and the health text of the constant.\<close>

lemma managerAgent_reports:
  assumes "managerAgent f = StartAgent a coll"
  shows "sr_TotalCores (StaticCollect coll now) = 0 \<and> sr_NodeCount (StaticCollect coll now) = 0 \<and>
    sr_Health (StaticCollect coll now) = ''Healthy'' \<and> sr_ClusterName (StaticCollect coll now) = fl_clusterName f"
  using assms by (auto simp: managerAgent_def StaticCollect_def split: if_splits)

lemma meta_named: "handleMeta (displayCluster f) = HttpOK (displayCluster f) \<and> displayCluster f \<noteq> []"
  by (simp add: handleMeta_def displayCluster_def writeJSON_def)

end
