(* ===== verification/Spec2Isabelle.thy ===== *)
theory Spec2Isabelle
  imports Optimizer_Safety Fair_Share Lifecycle Traffic Tuning App_Tuner Node_Actuator Policy_Webhook Tenant_Api Signals
    Simulator Hub Prometheus_Client Decision_Journal Dashboard Cel_Environment Manager_Setup
begin

text \<open>
  OptiPilot is a Kubernetes operator that keeps services within their service-level objectives at low cost. This
  development models its Go code under \<open>internal/\<close>, the types of \<open>api/\<close> it reads and the wiring of
  \<open>cmd/manager\<close>, and proves what makes the parts correct. The theory of a part names its source file in its first
  block, keeps the names of the source, and has its data, operations and lemmas in this order.

  \<^bold>\<open>The program and where it is modelled.\<close>

  \<^item> Every few seconds the optimization loop (\<open>controller/optimizer_controller.go\<close>, \<open>optimizer_forecast.go\<close>: theory
    \<open>Optimizer\<close>) takes each ServiceObjective that its reconciler (\<open>serviceobjective_controller.go\<close>:
    \<open>Objective_Controller\<close>) found ready, reads the state of the workload and of the objectives (\<open>slo/\<close>:
    \<open>Slo_Evaluator\<close>) and the policies that match (\<open>optimizationpolicy_controller.go\<close>: \<open>Policy_Controller\<close>), attaches a
    forecast (\<open>forecaster/\<close>: \<open>Forecaster\<close>), asks the solver, writes the decision to the journal and actuates it.
  \<^item> The solver (\<open>engine/\<close>) generates candidate plans (\<open>Candidates\<close>), scores them in four dimensions (\<open>Scorer\<close>), drops
    those that violate a hard constraint of a policy, takes the Pareto front and chooses on it (\<open>Pareto\<close>, \<open>Dominance\<close>);
    \<open>Solver\<close> is the whole cycle, \<open>Engine_Types\<close> its data, \<open>Signals\<close> the optional signals of \<open>advanced_signals.go\<close> and
    \<open>metrics/custom_adapter.go\<close>.
  \<^item> Policies are CEL expressions. \<open>Cel_Types\<close> has the data they see, \<open>Cel_Environment\<close> the variables and functions,
    \<open>Cel_Engine\<close> compilation, cache and evaluation, \<open>Policy_Webhook\<close> the admission of policies.
  \<^item> Actuation (\<open>actuator/\<close>) passes the guard with cooldown, circuit breaker and emergency stop (\<open>Safety_Guard\<close>) and is
    done by the actuators of a registry: \<open>Pod_Actuator\<close>, \<open>Node_Actuator\<close>, \<open>App_Tuner\<close>; \<open>Canary\<close> does it in two steps
    with automatic rollback. \<open>Tuning\<close> is the parameter optimizer of \<open>tuning/optimizer.go\<close>.
  \<^item> Tenants (\<open>tenant/\<close>): \<open>Tenant_Manager\<close> tracks profiles, usage and quotas, \<open>Fairness\<close> the index, \<open>Fair_Share\<close> the
    allocation, \<open>Noisy_Neighbor\<close> the detector, \<open>Tenant_Api\<close> the reconciler and the REST handlers.
  \<^item> Several clusters (\<open>global/\<close>): \<open>Global_Solver\<close> decides on traffic and hibernation, \<open>Lifecycle\<close> carries hibernation
    out, \<open>Traffic\<close> and \<open>Routing\<close> shift traffic, \<open>Hub\<close> is the protocol between the hub and the agents of clusters.
  \<^item> Explanation and dashboard: \<open>Narrator\<close> and \<open>Decision_Journal\<close> (\<open>explainability/\<close>, \<open>api/decisions_api.go\<close>),
    \<open>Dashboard\<close> (objectives, cluster name, server), \<open>Simulator\<close> (what-if simulation, curves and their API), \<open>Storage\<close>
    (storage recommendations), \<open>Prometheus_Client\<close> (queries and their cache), \<open>Manager_Setup\<close> (what \<open>main\<close> builds).
  \<^item> The language and its library: \<open>Go_Base\<close> (integers, time, sorting, maps), \<open>Go_Float\<close> (float64), \<open>Go_Strings\<close>,
    \<open>Go_ParseFloat\<close>, \<open>Go_FormatFloat\<close> (text).

  \<^bold>\<open>How the code is modelled.\<close> A struct is a record, an enumeration a datatype, an operation a function from the
  state to the new state and the answer; an error is a value of a datatype of the part. Integers are \<^typ>\<open>int\<close> with
  the wrap-around to 32 or 64 bits written out, shown to be that of words; times and durations are nanoseconds;
  float64 is computed with the rounding of IEEE 754 on exact rationals, with NaN and infinities, one zero. Code of
  other packages is an argument of the definitions that call it: the Kubernetes client and the accessors of its
  unstructured objects, the CEL library (compiler and program evaluation), net/http, encoding/json, gRPC, SQLite,
  the clock, random permutations, \<open>sort.Slice\<close>. What is relied on of it is a hypothesis of the property or an
  assumption of a locale, and a witness shows it to hold of a concrete function. The order of a range over a map is an
  argument too; goroutines that share state are steps of a relation, so that all interleavings are covered.

  \<^bold>\<open>What is shown.\<close>

  \<^item> Decisions: the front is exactly the set of non-dominated candidates, the choice on it is best and least
    disruptive, scores lie in the unit interval, candidates are bounded and distinct, evaluation is exact, a decision
    meets every hard constraint, and a round of the loop returns, keeps every cooldown and leaves a dry run without
    effect (\<open>Optimizer_Safety\<close>). This theory adds the two properties that span the most parts: a policy that was
    admitted is enforced on every decision, and a decision written to the journal is explained as it was taken.
  \<^item> Actuation: the guard allows exactly what it should, rollbacks restore what they save, a canary change stops at an
    unhealthy step, at most one watcher is live, node pools keep on-demand capacity, tuning changes one parameter at a
    time within its limits.
  \<^item> State over time: invariants by induction over all runs for the tenant manager, the detector, the accuracy tracker,
    the lifecycle of clusters, the watchers and the cache of queries; delivery of directives under a lossy network.
  \<^item> Specifications that the code implements: the journal is a list of records, the cache is the latest answer, the hub
    is a queue per cluster, the recommender a minimum, the concurrent fetch a sequential one.

  \<^bold>\<open>Interfaces.\<close> \<open>go_sort\<close> (what \<open>sort.Slice\<close> promises), \<open>kv_store\<close> (a keyed store: programs of the policy engine,
  answers of the query cache), \<open>dominance\<close> (the marking loop of pruning and Pareto front), \<open>circuit_breaker\<close> (the guard
  and the client of the ML service), \<open>directive_source\<close> (the queue of the hub as an agent sees it). Each is interpreted
  on the definitions of the model in the theory that provides them.

  \<^bold>\<open>Bounds.\<close> There is no fuel in the operations of the program: their loops run over lists or to a bound the code has
  (ten rounds of the allocation, twenty points of a tuning grid, two attempts of a request). Two searches of the
  text of a float64 have a bound: 330 leading zeros, where 324 are enough for every float64, and 17 digits, which
  identify every float64.

  \<^bold>\<open>Not modelled.\<close> The transport security of the hub (\<open>grpc/mtls.go\<close>: it only fills structures of crypto/tls), the
  declarations of Prometheus metrics (output only), generated deep copies and group versions, listening, signals and
  command-line parsing in \<open>main\<close>, the start-up checks \<open>main\<close> calls (not in the repository), the registration functions
  \<open>SetupWithManager\<close> and \<open>RegisterRoutes\<close>, fields of the API types that no Go code reads, and what is not Go: the ML
  service, the dashboard, charts and scripts. A negative zero is identified with zero.
\<close>

section \<open>From admission to decision\<close>

lemma scored_viable:
  assumes "sc \<in> set (scoredCandidates rngPerm s input)"
  shows "sd_Viable sc \<longleftrightarrow> hard_ok s (si_Policies input) (sd_Plan sc)"
  using foldl_applyConstraints_elem [OF assms] by (metis ScoreAll_elem)

lemma Solve_selected:
  assumes "perm_ok rngPerm" "Solve rngPerm now ident s input = Some (action, rec)"
  shows "sa_Type action = ActionNoAction \<and> sa_TargetReplica action = wrap32 (cs_Replicas (si_Current input)) \<and>
      dr_ParetoFront rec = [] \<or>
    (\<exists>best \<in> set (dr_ParetoFront rec). hard_ok s (si_Policies input) (sd_Plan best) \<and>
      sa_TargetReplica action = wrap32 (cp_Replicas (sd_Plan best)) \<and> sa_CPURequest action = cp_CPURequest (sd_Plan best) \<and>
      sa_MemoryRequest action = cp_MemoryRequest (sd_Plan best) \<and> sa_SpotRatio action = cp_SpotRatio (sd_Plan best))"
  using assms
proof (cases rule: Solve_cases)
  case 1
  then show ?thesis by (simp add: currentAction_def)
next
  case (2 best)
  then have "best \<in> set (dr_ParetoFront rec)" using SelectBest_mem by metis
  moreover from this have "best \<in> set (filterViable (scoredCandidates rngPerm s input))"
    using 2(4) FindParetoFront_subset by auto
  ultimately show ?thesis using 2(2) scored_viable [where sc = best and rngPerm = rngPerm and s = s and input = input]
    by (intro disjI2 bexI [of _ best]) (simp_all add: filterViable_def)
qed

lemma compile_constraints_program:
  assumes "compile_constraints env cs = Inr ccs" "c \<in> set cs"
  shows "\<exists>ast prg cc. env_Compile env (pc_Expr c) = Inr ast \<and> env_OutputType env ast = ''bool'' \<and> env_Program env ast = Inr prg \<and>
    cc \<in> set ccs \<and> cc_Program cc = prg \<and> cc_Hard cc = pc_Hard c"
  using assms by (induction cs arbitrary: ccs) (fastforce split: sum.splits if_splits)+

text \<open>C3. The whole way of a policy: when the webhook has admitted it, the controller's compilation succeeds, and
  whatever the solver with that engine decides for a service the policy applies to, the action is that of a candidate
  for which every hard constraint of the policy, compiled as written in its specification, evaluates to true, or
  there was no viable candidate and the action keeps the current replicas.\<close>

theorem admitted_policy_enforced:
  assumes "HandleAdmission decode hook req = (hook', Allowed msg warnings)" "decode (adm_Object req) = Inr p"
    and "adm_Operation req = AdmissionCreate \<or> adm_Operation req = AdmissionUpdate" and "pe_env e = pe_env hook"
    and "compileStep d p (Some e) st w = (Some e', st', w')"
    and "sv_PolicyEngine s = Some e'" and "mp \<in> set (si_Policies input)" and "mp_Key mp = PolicyKey p"
    and "perm_ok rngPerm" and "Solve rngPerm now ident s input = Some (action, rec)"
  shows "(\<exists>best \<in> set (dr_ParetoFront rec).
      sa_TargetReplica action = wrap32 (cp_Replicas (sd_Plan best)) \<and> sa_CPURequest action = cp_CPURequest (sd_Plan best) \<and>
      sa_MemoryRequest action = cp_MemoryRequest (sd_Plan best) \<and> sa_SpotRatio action = cp_SpotRatio (sd_Plan best) \<and>
      (\<forall>c \<in> set (ops_Constraints (op_Spec p)). pc_Hard c \<longrightarrow> (\<exists>ast prg. env_Compile (pe_env e) (pc_Expr c) = Inr ast \<and>
         env_Program (pe_env e) ast = Inr prg \<and> prg (candidateContext (sd_Plan best)) = Inr (CelBool True)))) \<or>
    sa_Type action = ActionNoAction \<and> sa_TargetReplica action = wrap32 (cs_Replicas (si_Current input)) \<and> dr_ParetoFront rec = []"
proof -
  have "snd (Compile e p) = None" using HandleAdmission_allowed [OF assms(1-3)] Compile_same_env [OF assms(4)] by simp
  then have e': "Compile e p = (e', None)" using assms(5) by (cases "Compile e p") (auto simp: compileStep_def)
  then obtain cs where cs: "compile_constraints (pe_env e) (ops_Constraints (op_Spec p)) = Inr cs"
    "GetCompiled e' (PolicyKey p) = Some \<lparr>cpo_Constraints = cs, cpo_Objectives = ops_Objectives (op_Spec p),
       cpo_DryRun = ops_DryRun (op_Spec p), cpo_Priority = ops_Priority (op_Spec p)\<rparr>"
    using Compile_key by blast
  have "\<exists>ast prg. env_Compile (pe_env e) (pc_Expr c) = Inr ast \<and> env_Program (pe_env e) ast = Inr prg \<and>
      prg (candidateContext plan) = Inr (CelBool True)"
    if "hard_ok s (si_Policies input) plan" "c \<in> set (ops_Constraints (op_Spec p))" "pc_Hard c" for plan c
  proof -
    have sat: "cc_Hard cc \<Longrightarrow> satisfied (candidateContext plan) cc" if "cc \<in> set cs" for cc
      using \<open>hard_ok s (si_Policies input) plan\<close> assms(6-8) cs(2) that by (fastforce simp: hard_ok_def)
    show ?thesis using compile_constraints_program [OF cs(1) that(2)] sat that(3) by (auto simp: satisfied_def)
  qed
  then show ?thesis using Solve_selected [OF assms(9,10)] by blast
qed

theorem admitted_policy_enforced_witness:
  "\<exists>e' st' w' action rec. compileStep demo_policy_deps demo_admitted (Some \<lparr>pe_env = demo_env, pe_programs = Map.empty\<rparr>)
      \<lparr>ost_MatchedServices = 0, ost_CELCompilationStatus = [], ost_Conditions = [], ost_ObservedGeneration = 0\<rparr> () = (Some e', st', w') \<and>
    Solve (\<lambda>seed n. [0..<n]) 1 ''id'' (NewSolver (Some e') 0)
      (demo_input 4\<lparr>si_Policies := [demo_policy\<lparr>mp_Key := PolicyKey demo_admitted\<rparr>]\<rparr>) = Some (action, rec) \<and>
    (sa_Type action \<noteq> ActionNoAction \<longrightarrow> (\<exists>best \<in> set (dr_ParetoFront rec). sa_TargetReplica action = wrap32 (cp_Replicas (sd_Plan best))))"
proof -
  let ?hook = "\<lparr>pe_env = demo_env, pe_programs = Map.empty\<rparr>" and ?decode = "\<lambda>s. if s = [] then Inl ''no content'' else Inr demo_admitted"
  let ?req = "\<lparr>adm_Operation = AdmissionCreate, adm_Object = ''{}'', adm_OldObject = []\<rparr>"
  let ?st = "\<lparr>ost_MatchedServices = 0, ost_CELCompilationStatus = [], ost_Conditions = [], ost_ObservedGeneration = 0\<rparr>"
  let ?input = "demo_input 4\<lparr>si_Policies := [demo_policy\<lparr>mp_Key := PolicyKey demo_admitted\<rparr>]\<rparr>"
  obtain h msg ws where h: "HandleAdmission ?decode ?hook ?req = (h, Allowed msg ws)"
    by (simp add: HandleAdmission_def respond_def ValidateCreate_def Compile_def demo_admitted_def demo_env_def)
  obtain e' st' w' where c: "compileStep demo_policy_deps demo_admitted (Some ?hook) ?st () = (Some e', st', w')"
    by (simp add: compileStep_def Compile_def demo_admitted_def demo_env_def)
  have "input_finite ?input" "objectives_ok ?input"
    by (auto simp: input_finite_def demo_input_def zero_Fin one_Fin objectives_ok_def demo_policy_def)
  then obtain action rec where r: "Solve (\<lambda>seed n. [0..<n]) 1 ''id'' (NewSolver (Some e') 0) ?input = Some (action, rec)"
    using Solve_returns [OF demo_input_finite(1), of ?input 1 "''id''" "NewSolver (Some e') 0"] by blast
  have "sv_PolicyEngine (NewSolver (Some e') 0) = Some e'" by (simp add: NewSolver_def)
  from admitted_policy_enforced [OF h _ _ _ c this _ _ demo_input_finite(1) r, of "demo_policy\<lparr>mp_Key := PolicyKey demo_admitted\<rparr>"]
  show ?thesis using c r by (simp, blast)
qed

section \<open>From decision to explanation\<close>

lemma Solve_record:
  assumes "perm_ok rngPerm" "Solve rngPerm now ident s input = Some (action, rec)"
  shows "DecisionRecord.dr_ID rec = ident \<and> dr_Service rec = si_Service input \<and> dr_CurrentState rec = si_Current input \<and>
    dr_SelectedAction rec = action \<and> dr_ActionType rec = sa_Type action \<and>
    (dr_DryRun rec \<longleftrightarrow> (\<exists>mp \<in> set (si_Policies input). ops_DryRun (op_Spec (mp_Policy mp))))"
proof -
  have "injectForecast input (GenerateCandidates rngPerm input (sv_MaxCandidates s)) \<noteq> []"
    using set_injectForecast(2) GenerateCandidates_cases(1) [OF assms(1)] by blast
  then show ?thesis
    using assms(2) unfolding Solve_def Let_def
    by (auto simp: buildRecord_def currentAction_def list_ex_iff split: if_splits option.splits)
qed

text \<open>C38. A decision can be explained: when the solver's record is written to a working journal under a new identifier,
  the explain endpoint answers for that identifier with the narrative of this very decision, which is marked as a dry
  run exactly when a matched policy asks for one (and it is no rollback), and which for a scaling that is carried out
  begins with the service, the direction and the replicas before and after the action.\<close>

theorem decision_explained:
  assumes "perm_ok rngPerm" "Solve rngPerm now ident s input = Some (action, rec)"
    and "holds E j rs" "db_works E" "json_roundtrip E {rec}" "ident \<notin> DecisionRecord.dr_ID ` set rs" "ident \<noteq> []"
  shows "fst (Write E rec j) = None \<and>
    handleExplain (NarrateDecision order) E ident (snd (Write E rec j)) = HttpOK (ident, NarrateDecision order rec) \<and>
    (take 9 (NarrateDecision order rec) = ''[DRY RUN]'' \<longleftrightarrow>
       (\<exists>mp \<in> set (si_Policies input). ops_DryRun (op_Spec (mp_Policy mp))) \<and> \<not> isRollback rec) \<and>
    (\<not> isRollback rec \<and> \<not> dr_DryRun rec \<and> sa_Type action \<in> {ActionScaleUp, ActionScaleDown} \<longrightarrow>
      (\<exists>rest. NarrateDecision order rec = ''At '' @ timeStr rec @ '', '' @ si_Service input @
        (if sa_Type action = ActionScaleUp then '' was scaled up from '' else '' was scaled down from '') @
        fmt_d (cs_Replicas (si_Current input)) @ '' to '' @ fmt_d (sa_TargetReplica action) @ '' replicas.'' @ rest))"
proof -
  note r = Solve_record [OF assms(1,2)]
  have w: "fst (Write E rec j) = None" "holds E (snd (Write E rec j)) (rs @ [rec])"
    using holds_Write(1) [OF assms(3-5)] assms(6) r by simp_all
  have "find (\<lambda>x. DecisionRecord.dr_ID x = ident) (rs @ [rec]) = Some rec"
    using assms(6) r by (induction rs) auto
  then have "GetByID E ident (snd (Write E rec j)) = Inr (Some rec)"
    using holds_GetByID [OF w(2) assms(4)] by simp
  then have "handleExplain (NarrateDecision order) E ident (snd (Write E rec j)) = HttpOK (ident, NarrateDecision order rec)"
    using assms(7) by (simp add: handleExplain_def)
  moreover have f: "dr_Service rec = si_Service input" "dr_CurrentState rec = si_Current input" "dr_SelectedAction rec = action"
    "dr_ActionType rec = sa_Type action"
    "dr_DryRun rec \<longleftrightarrow> (\<exists>mp \<in> set (si_Policies input). ops_DryRun (op_Spec (mp_Policy mp)))"
    using r by auto
  note n = narrative_truthful [of order rec]
  note n [THEN conjunct1, unfolded f(5)] n [THEN conjunct2, THEN conjunct1, unfolded f(1-4)]
  ultimately show ?thesis using w(1) by (intro conjI)
qed

theorem decision_explained_witness:
  "\<exists>action rec E. Solve (\<lambda>seed n. [0..<n]) 1 ''id'' demo_solver (demo_input 4\<lparr>si_Policies := [demo_policy]\<rparr>) = Some (action, rec) \<and>
     fst (Write E rec demo_journal) = None \<and>
     handleExplain (NarrateDecision []) E ''id'' (snd (Write E rec demo_journal)) = HttpOK (''id'', NarrateDecision [] rec) \<and>
     (take 9 (NarrateDecision [] rec) = ''[DRY RUN]'' \<longleftrightarrow> \<not> isRollback rec)"
proof -
  obtain action rec where r: "Solve (\<lambda>seed n. [0..<n]) 1 ''id'' demo_solver (demo_input 4\<lparr>si_Policies := [demo_policy]\<rparr>) = Some (action, rec)"
    using Solve_returns [OF demo_input_finite, of 1 "''id''" demo_solver] by blast
  let ?E = "demo_db\<lparr>de_unmarshal := \<lambda>s. Inr rec\<rparr>"
  have "holds ?E demo_journal []" "db_works ?E" "json_roundtrip ?E {rec}"
    by (simp_all add: demo_db_def db_works_def json_roundtrip_def holds_def demo_journal_def journal_inv_def)
  from decision_explained [OF demo_input_finite(1) r this] r show ?thesis
    by (intro exI [of _ action] exI [of _ rec] exI [of _ ?E]) (simp add: demo_policy_def)
qed

end
